(* ===== verification/Prelude.thy ===== *)
theory Prelude
  imports Main "HOL-Library.Sublist"
begin

text \<open>
  Shared vocabulary of the development: the pieces of the JavaScript language and standard
  library that the backend uses, and the generic lemmas the components share.

  Strings are Isabelle strings, read as the bytes of the JavaScript string with one to three bytes
  per UTF-16 code unit; slicing, case mapping and trimming are modelled for ASCII text, which is
  what the code applies them to. A thrown \<open>Error\<close> is an \<open>Inl\<close> with its message. A number that may
  be \<open>NaN\<close> is an \<^typ>\<open>int option\<close> with \<open>None\<close> for \<open>NaN\<close>.
\<close>

named_theorems store_simps "equations of the key-value stores"
named_theorems handler_defs "definitions of request handlers"

type_synonym 'a result = "string + 'a"
type_synonym js_num = "int option"

section \<open>Results\<close>

definition throw :: "string \<Rightarrow> 'a result" where
  "throw m = Inl m"

definition bind_result :: "'a result \<Rightarrow> ('a \<Rightarrow> 'b result) \<Rightarrow> 'b result" where
  "bind_result r f = (case r of Inl e \<Rightarrow> Inl e | Inr x \<Rightarrow> f x)"

lemma bind_result_simps [simp]:
  "bind_result (Inl e) f = Inl e"
  "bind_result (Inr x) f = f x"
  by (simp_all add: bind_result_def)

lemma bind_result_Inr_iff:
  "bind_result r f = Inr y \<longleftrightarrow> (\<exists>x. r = Inr x \<and> f x = Inr y)"
  by (cases r) auto

section \<open>Characters\<close>

definition code :: "char \<Rightarrow> nat" where
  "code c = of_char c"

lemma code_inj: "code a = code b \<longleftrightarrow> a = b"
  by (simp add: code_def)

lemma char_of_code [simp]: "char_of (code c) = c"
  by (simp add: code_def)

lemma code_less: "code c < 256"
  by (simp add: code_def)

definition is_digit :: "char \<Rightarrow> bool" where
  "is_digit c \<longleftrightarrow> 48 \<le> code c \<and> code c \<le> 57"

definition digit_val :: "char \<Rightarrow> nat" where
  "digit_val c = code c - 48"

definition digit_char :: "nat \<Rightarrow> char" where
  "digit_char d = ''0123456789'' ! d"

text \<open>\<open>\s\<close> of a regular expression and the characters \<open>trim\<close> removes, on ASCII.\<close>

definition is_space :: "char \<Rightarrow> bool" where
  "is_space c \<longleftrightarrow> code c = 32 \<or> (9 \<le> code c \<and> code c \<le> 13)"

definition is_lower :: "char \<Rightarrow> bool" where
  "is_lower c \<longleftrightarrow> 97 \<le> code c \<and> code c \<le> 122"

definition is_upper :: "char \<Rightarrow> bool" where
  "is_upper c \<longleftrightarrow> 65 \<le> code c \<and> code c \<le> 90"

definition upper_char :: "char \<Rightarrow> char" where
  "upper_char c = (if is_lower c then char_of (code c - 32) else c)"

definition lower_char :: "char \<Rightarrow> char" where
  "lower_char c = (if is_upper c then char_of (code c + 32) else c)"

definition to_upper :: "string \<Rightarrow> string" where
  "to_upper s = map upper_char s"

definition to_lower :: "string \<Rightarrow> string" where
  "to_lower s = map lower_char s"

text \<open>\<open>[0-9a-fA-F]\<close>\<close>

definition is_hex :: "char \<Rightarrow> bool" where
  "is_hex c \<longleftrightarrow> is_digit c \<or> (65 \<le> code c \<and> code c \<le> 70) \<or> (97 \<le> code c \<and> code c \<le> 102)"

text \<open>\<open>\w\<close>: letters, digits and the underscore.\<close>

definition is_word_char :: "char \<Rightarrow> bool" where
  "is_word_char c \<longleftrightarrow> is_digit c \<or> is_lower c \<or> is_upper c \<or> code c = 95"

lemma code_char_of: "n < 256 \<Longrightarrow> code (char_of n) = n"
  by (simp add: code_def)

lemma code_char_of_diff [simp]: "code (char_of (code c - n)) = code c - n"
  using code_less [of c] by (simp add: code_char_of)

lemma code_digit_char:
  assumes "d < 10"
  shows "code (digit_char d) = 48 + d"
proof -
  have "d = 0 \<or> d = 1 \<or> d = 2 \<or> d = 3 \<or> d = 4 \<or> d = 5 \<or> d = 6 \<or> d = 7 \<or> d = 8 \<or> d = 9"
    using assms by presburger
  then show ?thesis by (elim disjE) (simp_all add: digit_char_def code_def)
qed

lemma is_digit_digit_char: "d < 10 \<Longrightarrow> is_digit (digit_char d)"
  by (simp add: is_digit_def code_digit_char)

lemma digit_val_digit_char: "d < 10 \<Longrightarrow> digit_val (digit_char d) = d"
  by (simp add: digit_val_def code_digit_char)

lemma is_upper_upper_char: "is_lower c \<Longrightarrow> is_upper (upper_char c)"
  by (auto simp: is_lower_def is_upper_def upper_char_def)

lemma not_lower_upper_char: "\<not> is_lower (upper_char c)"
  by (auto simp: is_lower_def upper_char_def code_char_of)

lemma upper_char_idem [simp]: "upper_char (upper_char c) = upper_char c"
  using not_lower_upper_char [of c] by (simp add: upper_char_def [of "upper_char c"])

lemma to_upper_idem [simp]: "to_upper (to_upper s) = to_upper s"
  by (simp add: to_upper_def)

lemma length_to_upper [simp]: "length (to_upper s) = length s"
  by (simp add: to_upper_def)

lemma to_upper_no_lower: "list_all (\<lambda>c. \<not> is_lower c) (to_upper s)"
  by (simp add: to_upper_def list_all_iff not_lower_upper_char)

lemma lower_char_idem [simp]: "lower_char (lower_char c) = lower_char c"
  by (auto simp: lower_char_def is_upper_def code_char_of)

lemma to_lower_idem [simp]: "to_lower (to_lower s) = to_lower s"
  by (simp add: to_lower_def)

lemma length_to_lower [simp]: "length (to_lower s) = length s"
  by (simp add: to_lower_def)

section \<open>String methods\<close>

definition starts_with :: "string \<Rightarrow> string \<Rightarrow> bool" where
  "starts_with s p \<longleftrightarrow> take (length p) s = p"

fun str_includes :: "string \<Rightarrow> string \<Rightarrow> bool" where
  "str_includes [] t = (t = [])"
| "str_includes (c # s) t = (starts_with (c # s) t \<or> str_includes s t)"

text \<open>\<open>split\<close> on a one-character separator: the empty string splits into one empty piece.\<close>

fun split_on :: "char \<Rightarrow> string \<Rightarrow> string list" where
  "split_on d [] = [[]]"
| "split_on d (c # s) =
     (if c = d then [] # split_on d s
      else (case split_on d s of [] \<Rightarrow> [[c]] | w # ws \<Rightarrow> (c # w) # ws))"

fun join :: "string \<Rightarrow> string list \<Rightarrow> string" where
  "join d [] = []"
| "join d [w] = w"
| "join d (w # v # ws) = w @ d @ join d (v # ws)"

text \<open>\<open>split(/\s+/)\<close>: maximal runs of white space separate.\<close>

fun split_spaces :: "string \<Rightarrow> string list" where
  "split_spaces [] = [[]]"
| "split_spaces (c # s) =
     (if is_space c
      then (if s \<noteq> [] \<and> is_space (hd s) then split_spaces s else [] # split_spaces s)
      else (case split_spaces s of [] \<Rightarrow> [[c]] | w # ws \<Rightarrow> (c # w) # ws))"

definition trim :: "string \<Rightarrow> string" where
  "trim s = rev (dropWhile is_space (rev (dropWhile is_space s)))"

definition slice :: "nat \<Rightarrow> nat \<Rightarrow> string \<Rightarrow> string" where
  "slice a b s = take (b - a) (drop a s)"

definition pad_start :: "nat \<Rightarrow> char \<Rightarrow> string \<Rightarrow> string" where
  "pad_start n c s = replicate (n - length s) c @ s"

definition pad_end :: "nat \<Rightarrow> char \<Rightarrow> string \<Rightarrow> string" where
  "pad_end n c s = s @ replicate (n - length s) c"

lemma split_on_not_Nil [simp]: "split_on d s \<noteq> []"
  by (induction s) (auto split: list.splits)

lemma split_on_no_sep: "d \<notin> set s \<Longrightarrow> split_on d s = [s]"
  by (induction s) auto

lemma split_on_append:
  "d \<notin> set a \<Longrightarrow> split_on d (a @ d # b) = a # split_on d b"
  by (induction a) auto

lemma split_on_pieces: "w \<in> set (split_on d s) \<Longrightarrow> d \<notin> set w"
  by (induction s arbitrary: w) (fastforce split: list.splits if_splits)+

lemma join_split_on: "join [d] (split_on d s) = s"
proof (induction s)
  case Nil
  then show ?case by simp
next
  case (Cons c s)
  obtain w ws where "split_on d s = w # ws" by (cases "split_on d s") auto
  with Cons show ?case by (cases ws) auto
qed

lemma length_pad_start: "length (pad_start n c s) = max n (length s)"
  by (simp add: pad_start_def)

lemma length_pad_end: "length (pad_end n c s) = max n (length s)"
  by (simp add: pad_end_def)

lemma starts_with_prefix: "starts_with s p \<longleftrightarrow> prefix p s"
  by (auto simp: starts_with_def prefix_def) (metis append_take_drop_id)

lemma includes_sublist: "str_includes s t \<longleftrightarrow> sublist t s"
  by (induction s) (auto simp: starts_with_prefix sublist_Cons_right)

section \<open>Decimal numerals\<close>

fun nat_str :: "nat \<Rightarrow> string" where
  "nat_str n = (if n < 10 then [digit_char n] else nat_str (n div 10) @ [digit_char (n mod 10)])"

declare nat_str.simps [simp del]

definition int_str :: "int \<Rightarrow> string" where
  "int_str i = (if i < 0 then CHR ''-'' # nat_str (nat (- i)) else nat_str (nat i))"

definition digits_val :: "string \<Rightarrow> nat" where
  "digits_val s = foldl (\<lambda>a c. 10 * a + digit_val c) 0 s"

lemma nat_str_not_Nil [simp]: "nat_str n \<noteq> []"
  by (subst nat_str.simps) simp

lemma nat_str_digits: "list_all is_digit (nat_str n)"
proof (induction n rule: nat_str.induct)
  case (1 n)
  then show ?case
    by (cases "n < 10") (simp_all add: nat_str.simps [of n] is_digit_digit_char)
qed

lemma digits_val_snoc: "digits_val (s @ [c]) = 10 * digits_val s + digit_val c"
  by (simp add: digits_val_def)

lemma digits_val_nat_str [simp]: "digits_val (nat_str n) = n"
proof (induction n rule: nat_str.induct)
  case (1 n)
  show ?case
  proof (cases "n < 10")
    case True
    then show ?thesis
      by (simp add: nat_str.simps [of n] digits_val_def digit_val_digit_char)
  next
    case False
    with 1 show ?thesis
      by (simp add: nat_str.simps [of n] digits_val_snoc digit_val_digit_char)
  qed
qed

lemma nat_str_inj: "nat_str a = nat_str b \<longleftrightarrow> a = b"
  by (metis digits_val_nat_str)

lemma hd_nat_str: "hd (nat_str n) = CHR ''0'' \<longleftrightarrow> n = 0"
proof (induction n rule: nat_str.induct)
  case (1 n)
  have zero: "digit_char d = CHR ''0'' \<longleftrightarrow> d = 0" if "d < 10" for d
    using code_digit_char [OF that] code_inj [of "digit_char d" "CHR ''0''"]
    by (simp add: code_def)
  show ?case
  proof (cases "n < 10")
    case True
    then show ?thesis by (simp add: nat_str.simps [of n] zero)
  next
    case False
    with 1 show ?thesis by (simp add: nat_str.simps [of n])
  qed
qed

lemma nat_str_zero: "nat_str 0 = ''0''"
  by (simp add: nat_str.simps digit_char_def)

text \<open>
  \<open>parseInt(s, 10)\<close>: white space, an optional sign, then the longest run of digits;
  \<open>NaN\<close> when there is none. Integers past 2^53 are kept exact, which no caller can observe:
  they only index short arrays or are clamped.
\<close>

definition parse_digits :: "string \<Rightarrow> js_num" where
  "parse_digits s =
     (let ds = takeWhile is_digit s in if ds = [] then None else Some (int (digits_val ds)))"

definition parse_int :: "string \<Rightarrow> js_num" where
  "parse_int s =
     (case dropWhile is_space s of
        [] \<Rightarrow> None
      | c # t \<Rightarrow>
          if c = CHR ''-'' then map_option uminus (parse_digits t)
          else if c = CHR ''+'' then parse_digits t
          else parse_digits (c # t))"

section \<open>Objects used as dictionaries\<close>

text \<open>
  \<open>o[k]\<close> on an object literal: an own property, or a property inherited from
  \<open>Object.prototype\<close> (a function or the prototype object, shown here by what \<open>String(v)\<close> gives),
  or \<open>undefined\<close>.
\<close>

datatype 'a slot = Undefined | Own 'a | Inherited string

definition native_fn :: "string \<Rightarrow> string" where
  "native_fn n = ''function '' @ n @ ''() { [native code] }''"

definition object_prototype :: "(string \<times> string) list" where
  "object_prototype =
     (''constructor'', native_fn ''Object'') #
     (''__proto__'', ''[object Object]'') #
     map (\<lambda>n. (n, native_fn n))
       [''__defineGetter__'', ''__defineSetter__'', ''hasOwnProperty'', ''__lookupGetter__'',
        ''__lookupSetter__'', ''isPrototypeOf'', ''propertyIsEnumerable'', ''toString'',
        ''valueOf'', ''toLocaleString'']"

definition obj_get :: "(string \<times> 'a) list \<Rightarrow> string \<Rightarrow> 'a slot" where
  "obj_get ob k =
     (case map_of ob k of
        Some v \<Rightarrow> Own v
      | None \<Rightarrow>
          (case map_of object_prototype k of Some f \<Rightarrow> Inherited f | None \<Rightarrow> Undefined))"

lemma obj_get_Own: "obj_get ob k = Own v \<longleftrightarrow> map_of ob k = Some v"
  by (auto simp: obj_get_def split: option.splits)

text \<open>Every inherited property name starts with a lower case letter or an underscore.\<close>

lemma object_prototype_not_upper:
  "map_of object_prototype (to_upper s) = None"
proof -
  have "\<forall>k \<in> fst ` set object_prototype. \<exists>c \<in> set k. is_lower c"
    by (simp add: object_prototype_def is_lower_def code_def)
  moreover have "\<not> (\<exists>c \<in> set (to_upper s). is_lower c)"
    using to_upper_no_lower [of s] by (auto simp: list_all_iff)
  ultimately show ?thesis by (auto simp: map_of_eq_None_iff)
qed

section \<open>Generic list lemmas\<close>

lemma length_filter_add: "length (filter P xs) + length (filter (\<lambda>x. \<not> P x) xs) = length xs"
  by (induction xs) auto

lemma distinct_filter_fst:
  "distinct (map f xs) \<Longrightarrow> distinct (map f (filter P xs))"
  by (induction xs) auto

end
