(* ===== verification/Redis_Store.thy ===== *)
theory Redis_Store
  imports Prelude
begin

text \<open>
  The interface to Redis (\<open>redis/RedisClient.ts\<close> hands out one shared ioredis client). Redis is a
  service outside the repository, so every definition that talks to it takes its operations as an
  argument, a \<open>redis\<close> record over an unknown state type; the locale \<open>redis_store\<close> states what the
  Redis documentation promises of them, for keys that are used with one type only, as the
  backend's key prefixes guarantee. The expiry of a key is an event of the environment, seen by the
  code as a deletion. \<open>redis_mem\<close> is the in-memory store of the repository's own stub
  (\<open>test/__stubs__/redis.ts\<close>), completed by \<open>SREM\<close> and the \<open>NX\<close> option; it satisfies the laws and
  serves the witnesses.

  The locale \<open>vote_channel\<close> is the contract every way of casting a vote has with its set of spent
  nullifiers; the USSD and SMS channels and the ledger contract are its instances.
\<close>

section \<open>The operations and their laws\<close>

record 'r redis =
  r_get :: "string \<Rightarrow> 'r \<Rightarrow> string option"
  r_set :: "string \<Rightarrow> string \<Rightarrow> 'r \<Rightarrow> 'r"
  r_setex :: "string \<Rightarrow> nat \<Rightarrow> string \<Rightarrow> 'r \<Rightarrow> 'r"
  r_setnx :: "string \<Rightarrow> string \<Rightarrow> 'r \<Rightarrow> bool \<times> 'r"
  r_del :: "string \<Rightarrow> 'r \<Rightarrow> 'r"
  r_sadd :: "string \<Rightarrow> string \<Rightarrow> 'r \<Rightarrow> 'r"
  r_srem :: "string \<Rightarrow> string \<Rightarrow> 'r \<Rightarrow> 'r"
  r_smembers :: "string \<Rightarrow> 'r \<Rightarrow> string list"
  r_sismember :: "string \<Rightarrow> string \<Rightarrow> 'r \<Rightarrow> bool"

locale redis_store =
  fixes R :: "'r redis"
  assumes get_set: "r_get R k (r_set R k' v s) = (if k = k' then Some v else r_get R k s)"
    and get_setex: "r_get R k (r_setex R k' t v s) = (if k = k' then Some v else r_get R k s)"
    and setnx: "r_setnx R k v s =
      (if r_get R k s = None then (True, r_set R k v s) else (False, s))"
    and get_del: "r_get R k (r_del R k' s) = (if k = k' then None else r_get R k s)"
    and get_sadd: "k \<noteq> k' \<Longrightarrow> r_get R k (r_sadd R k' m s) = r_get R k s"
    and get_srem: "k \<noteq> k' \<Longrightarrow> r_get R k (r_srem R k' m s) = r_get R k s"
    and sis_set: "k \<noteq> k' \<Longrightarrow> r_sismember R k m (r_set R k' v s) = r_sismember R k m s"
    and sis_setex: "k \<noteq> k' \<Longrightarrow> r_sismember R k m (r_setex R k' t v s) = r_sismember R k m s"
    and sis_del: "r_sismember R k m (r_del R k' s) = (k \<noteq> k' \<and> r_sismember R k m s)"
    and sis_sadd: "r_sismember R k m (r_sadd R k' m' s) =
      (k = k' \<and> m = m' \<or> r_sismember R k m s)"
    and sis_srem: "r_sismember R k m (r_srem R k' m' s) =
      (\<not> (k = k' \<and> m = m') \<and> r_sismember R k m s)"
    and smembers: "m \<in> set (r_smembers R k s) \<longleftrightarrow> r_sismember R k m s"
    and smembers_distinct: "distinct (r_smembers R k s)"

lemmas redis_laws =
  redis_store.get_set redis_store.get_setex redis_store.setnx redis_store.get_del
  redis_store.get_sadd redis_store.get_srem redis_store.sis_set redis_store.sis_setex
  redis_store.sis_del redis_store.sis_sadd redis_store.sis_srem redis_store.smembers
  redis_store.smembers_distinct

section \<open>The in-memory store\<close>

record mem =
  strs :: "string \<Rightarrow> string option"
  sets :: "string \<Rightarrow> string list"

definition mem_empty :: mem where
  "mem_empty = \<lparr>strs = (\<lambda>_. None), sets = (\<lambda>_. [])\<rparr>"

definition mem_set :: "string \<Rightarrow> string \<Rightarrow> mem \<Rightarrow> mem" where
  "mem_set k v s = s\<lparr>strs := (strs s)(k := Some v)\<rparr>"

definition mem_setnx :: "string \<Rightarrow> string \<Rightarrow> mem \<Rightarrow> bool \<times> mem" where
  "mem_setnx k v s = (if strs s k = None then (True, mem_set k v s) else (False, s))"

definition mem_del :: "string \<Rightarrow> mem \<Rightarrow> mem" where
  "mem_del k s = s\<lparr>strs := (strs s)(k := None), sets := (sets s)(k := [])\<rparr>"

definition mem_sadd :: "string \<Rightarrow> string \<Rightarrow> mem \<Rightarrow> mem" where
  "mem_sadd k m s = s\<lparr>sets := (sets s)(k := (if m \<in> set (sets s k) then sets s k else sets s k @ [m]))\<rparr>"

definition mem_srem :: "string \<Rightarrow> string \<Rightarrow> mem \<Rightarrow> mem" where
  "mem_srem k m s = s\<lparr>sets := (sets s)(k := filter (\<lambda>x. x \<noteq> m) (sets s k))\<rparr>"

definition redis_mem :: "mem redis" where
  "redis_mem = \<lparr>
     r_get = (\<lambda>k s. strs s k),
     r_set = mem_set,
     r_setex = (\<lambda>k t v. mem_set k v),
     r_setnx = mem_setnx,
     r_del = mem_del,
     r_sadd = mem_sadd,
     r_srem = mem_srem,
     r_smembers = (\<lambda>k s. remdups (sets s k)),
     r_sismember = (\<lambda>k m s. m \<in> set (sets s k))\<rparr>"

lemmas mem_defs =
  redis_mem_def mem_empty_def mem_set_def mem_setnx_def mem_del_def mem_sadd_def mem_srem_def

interpretation mem: redis_store redis_mem
  by unfold_locales (auto simp: mem_defs)

section \<open>The contract of a vote channel\<close>

text \<open>
  \<open>handle q s\<close> serves one request: it returns the vote it submitted, if any, and the new state;
  \<open>spent\<close> reads the recorded nullifiers and \<open>nul\<close> the nullifier of a vote.
\<close>

fun run_channel :: "('q \<Rightarrow> 's \<Rightarrow> 'v option \<times> 's) \<Rightarrow> 'q list \<Rightarrow> 's \<Rightarrow> 'v list \<times> 's" where
  "run_channel h [] s = ([], s)"
| "run_channel h (q # qs) s =
     (case h q s of
        (None, s') \<Rightarrow> run_channel h qs s'
      | (Some v, s') \<Rightarrow> (case run_channel h qs s' of (vs, t) \<Rightarrow> (v # vs, t)))"

locale vote_channel =
  fixes handle :: "'q \<Rightarrow> 's \<Rightarrow> 'v option \<times> 's"
    and spent :: "'s \<Rightarrow> string set"
    and nul :: "'v \<Rightarrow> string"
  assumes idle: "handle q s = (None, s') \<Longrightarrow> spent s' = spent s"
    and cast: "handle q s = (Some v, s') \<Longrightarrow> nul v \<notin> spent s \<and> spent s' = insert (nul v) (spent s)"
begin

lemma run_once:
  "run_channel handle qs s = (vs, t) \<Longrightarrow>
     distinct (map nul vs) \<and> nul ` set vs \<inter> spent s = {} \<and> spent t = spent s \<union> nul ` set vs"
proof (induction qs arbitrary: s vs)
  case Nil
  then show ?case by simp
next
  case (Cons q qs)
  obtain r s' where h: "handle q s = (r, s')" by (cases "handle q s")
  show ?case
  proof (cases r)
    case None
    have run: "run_channel handle qs s' = (vs, t)" using Cons.prems h None by simp
    show ?thesis using Cons.IH [OF run] idle [of q s s'] h None by simp
  next
    case (Some v)
    obtain ws u where ws: "run_channel handle qs s' = (ws, u)" by (cases "run_channel handle qs s'")
    with Cons.prems h Some have vs: "vs = v # ws" and run: "run_channel handle qs s' = (ws, t)" by auto
    have "nul v \<notin> spent s \<and> spent s' = insert (nul v) (spent s)" using h Some cast by blast
    with Cons.IH [OF run] show ?thesis unfolding vs by auto
  qed
qed

lemma run_mono: "run_channel handle qs s = (vs, t) \<Longrightarrow> spent s \<subseteq> spent t"
  using run_once by blast

end

end
