(* ===== verification/Json.thy ===== *)
theory Json
  imports Prelude
begin

text \<open>
  \<open>JSON.stringify\<close> and \<open>JSON.parse\<close> of the standard library, as far as the backend uses them:
  the records it keeps in Redis, the documents it signs and pins (printed with an indentation of
  two), and the bodies clients send. An object keeps its members in order; a number literal is a
  \<open>JNum\<close> when it is a safe integer (at most 2^53 - 1 in size) and otherwise a \<open>JReal\<close> holding its
  text. The parser takes fuel: \<open>json_parse\<close> supplies twice the input's length and a bit, which
  \<open>parse_enough\<close> shows to be enough. \<open>json_roundtrip\<close> is the theorem the stores rest on.
\<close>

datatype json =
    JNull
  | JBool bool
  | JNum int
  | JReal string
  | JStr string
  | JArr "json list"
  | JObj "(string \<times> json) list"

definition max_safe :: nat where
  "max_safe = 9007199254740991"

abbreviation quote_char :: char where "quote_char \<equiv> CHR 0x22"
abbreviation backslash :: char where "backslash \<equiv> CHR 0x5C"

section \<open>Printing\<close>

definition hex_digit :: "nat \<Rightarrow> char" where
  "hex_digit d = ''0123456789abcdef'' ! d"

definition escape_char :: "char \<Rightarrow> string" where
  "escape_char c =
     (if c = quote_char then [backslash, quote_char]
      else if c = backslash then [backslash, backslash]
      else if code c = 8 then [backslash, CHR ''b'']
      else if code c = 12 then [backslash, CHR ''f'']
      else if code c = 10 then [backslash, CHR ''n'']
      else if code c = 13 then [backslash, CHR ''r'']
      else if code c = 9 then [backslash, CHR ''t'']
      else if code c < 32 then
        [backslash, CHR ''u'', CHR ''0'', CHR ''0'', hex_digit (code c div 16), hex_digit (code c mod 16)]
      else [c])"

definition json_quote :: "string \<Rightarrow> string" where
  "json_quote s = quote_char # concat (map escape_char s) @ [quote_char]"

definition gap :: "bool \<Rightarrow> nat \<Rightarrow> string" where
  "gap p d = (if p then CHR 0x0A # replicate (2 * d) (CHR 0x20) else [])"

definition colon :: "bool \<Rightarrow> string" where
  "colon p = (if p then '': '' else '':'')"

fun json_print :: "bool \<Rightarrow> nat \<Rightarrow> json \<Rightarrow> string"
  and print_elems :: "bool \<Rightarrow> nat \<Rightarrow> json list \<Rightarrow> string"
  and print_members :: "bool \<Rightarrow> nat \<Rightarrow> (string \<times> json) list \<Rightarrow> string" where
  "json_print p d JNull = ''null''"
| "json_print p d (JBool b) = (if b then ''true'' else ''false'')"
| "json_print p d (JNum i) = int_str i"
| "json_print p d (JReal r) = r"
| "json_print p d (JStr s) = json_quote s"
| "json_print p d (JArr []) = ''[]''"
| "json_print p d (JArr (v # vs)) =
     ''['' @ gap p (Suc d) @ json_print p (Suc d) v @ print_elems p d vs"
| "json_print p d (JObj []) = ''{}''"
| "json_print p d (JObj ((k, v) # kvs)) =
     ''{'' @ gap p (Suc d) @ json_quote k @ colon p @ json_print p (Suc d) v @ print_members p d kvs"
| "print_elems p d [] = gap p d @ '']''"
| "print_elems p d (v # vs) = '','' @ gap p (Suc d) @ json_print p (Suc d) v @ print_elems p d vs"
| "print_members p d [] = gap p d @ ''}''"
| "print_members p d ((k, v) # kvs) =
     '','' @ gap p (Suc d) @ json_quote k @ colon p @ json_print p (Suc d) v @ print_members p d kvs"

definition stringify :: "json \<Rightarrow> string" where
  "stringify j = json_print False 0 j"

definition stringify2 :: "json \<Rightarrow> string" where
  "stringify2 j = json_print True 0 j"

section \<open>Parsing\<close>

definition json_ws :: "char \<Rightarrow> bool" where
  "json_ws c \<longleftrightarrow> code c = 32 \<or> code c = 9 \<or> code c = 10 \<or> code c = 13"

definition skip_ws :: "string \<Rightarrow> string" where
  "skip_ws s = dropWhile json_ws s"

definition hex_val :: "char \<Rightarrow> nat" where
  "hex_val c = (if is_digit c then code c - 48 else if code c \<le> 70 then code c - 55 else code c - 87)"

text \<open>The bytes of one UTF-16 code unit.\<close>

definition unit_bytes :: "nat \<Rightarrow> string" where
  "unit_bytes u =
     (if u < 128 then [char_of u]
      else if u < 2048 then [char_of (192 + u div 64), char_of (128 + u mod 64)]
      else [char_of (224 + u div 4096), char_of (128 + u div 64 mod 64), char_of (128 + u mod 64)])"

definition unescape :: "char \<Rightarrow> char option" where
  "unescape e =
     (if e = quote_char then Some quote_char
      else if e = backslash then Some backslash
      else if e = CHR ''/'' then Some e
      else if e = CHR ''b'' then Some (char_of (8::nat))
      else if e = CHR ''f'' then Some (char_of (12::nat))
      else if e = CHR ''n'' then Some (char_of (10::nat))
      else if e = CHR ''r'' then Some (char_of (13::nat))
      else if e = CHR ''t'' then Some (char_of (9::nat))
      else None)"

definition prepend :: "string \<Rightarrow> (string \<times> string) option \<Rightarrow> (string \<times> string) option" where
  "prepend u r = map_option (\<lambda>(x, t). (u @ x, t)) r"

fun parse_str :: "string \<Rightarrow> (string \<times> string) option" where
  "parse_str [] = None"
| "parse_str (c # s) =
     (if c = quote_char then Some ([], s)
      else if c = backslash then
        (case s of
           [] \<Rightarrow> None
         | e # t \<Rightarrow>
             if e = CHR ''u'' then
               (case t of
                  h1 # h2 # h3 # h4 # t' \<Rightarrow>
                    if is_hex h1 \<and> is_hex h2 \<and> is_hex h3 \<and> is_hex h4
                    then prepend
                      (unit_bytes (4096 * hex_val h1 + 256 * hex_val h2 + 16 * hex_val h3 + hex_val h4))
                      (parse_str t')
                    else None
                | _ \<Rightarrow> None)
             else (case unescape e of None \<Rightarrow> None | Some u \<Rightarrow> prepend [u] (parse_str t)))
      else if code c < 32 then None
      else prepend [c] (parse_str s))"

definition parse_frac :: "string \<Rightarrow> (string \<times> string) option" where
  "parse_frac t =
     (case t of
        [] \<Rightarrow> Some ([], [])
      | c # r \<Rightarrow>
          if c = CHR ''.'' then
            (let fs = takeWhile is_digit r
             in if fs = [] then None else Some (c # fs, dropWhile is_digit r))
          else Some ([], t))"

definition parse_exp :: "string \<Rightarrow> (string \<times> string) option" where
  "parse_exp t =
     (case t of
        [] \<Rightarrow> Some ([], [])
      | c # r \<Rightarrow>
          if c = CHR ''e'' \<or> c = CHR ''E'' then
            (let sg = (if r \<noteq> [] \<and> (hd r = CHR ''+'' \<or> hd r = CHR ''-'') then [hd r] else []);
                 r' = drop (length sg) r;
                 fs = takeWhile is_digit r'
             in if fs = [] then None else Some (c # sg @ fs, dropWhile is_digit r'))
          else Some ([], t))"

definition num_value :: "bool \<Rightarrow> string \<Rightarrow> string \<Rightarrow> json" where
  "num_value neg ds rest =
     (let n = digits_val ds
      in if rest = [] \<and> n \<le> max_safe \<and> \<not> (neg \<and> n = 0)
         then JNum (if neg then - int n else int n)
         else JReal ((if neg then ''-'' else []) @ ds @ rest))"

definition int_digits :: "string \<Rightarrow> string" where
  "int_digits t = (if t \<noteq> [] \<and> hd t = CHR ''0'' then ''0'' else takeWhile is_digit t)"

definition parse_unsigned :: "bool \<Rightarrow> string \<Rightarrow> (json \<times> string) option" where
  "parse_unsigned neg t =
     (if int_digits t = [] then None
      else (case parse_frac (drop (length (int_digits t)) t) of
              None \<Rightarrow> None
            | Some (f, t2) \<Rightarrow>
                (case parse_exp t2 of
                   None \<Rightarrow> None
                 | Some (e, t3) \<Rightarrow> Some (num_value neg (int_digits t) (f @ e), t3))))"

definition parse_number :: "string \<Rightarrow> (json \<times> string) option" where
  "parse_number s =
     (if s \<noteq> [] \<and> hd s = CHR ''-'' then parse_unsigned True (tl s) else parse_unsigned False s)"

definition literal :: "string \<Rightarrow> json \<Rightarrow> string \<Rightarrow> (json \<times> string) option" where
  "literal w j s = (if starts_with s w then Some (j, drop (length w) s) else None)"

text \<open>A member's name and the colon after it.\<close>

definition parse_key :: "string \<Rightarrow> (string \<times> string) option" where
  "parse_key s =
     (case skip_ws s of
        [] \<Rightarrow> None
      | q # t \<Rightarrow>
          if q \<noteq> quote_char then None
          else
            (case parse_str t of
               None \<Rightarrow> None
             | Some (k, t') \<Rightarrow>
                 (case skip_ws t' of
                    [] \<Rightarrow> None
                  | c # r \<Rightarrow> if c = CHR '':'' then Some (k, r) else None)))"

fun parse_val :: "nat \<Rightarrow> string \<Rightarrow> (json \<times> string) option"
  and parse_elems :: "nat \<Rightarrow> string \<Rightarrow> (json list \<times> string) option"
  and parse_members :: "nat \<Rightarrow> string \<Rightarrow> ((string \<times> json) list \<times> string) option" where
  "parse_val 0 s = None"
| "parse_val (Suc n) s =
     (case skip_ws s of
        [] \<Rightarrow> None
      | c # t \<Rightarrow>
          if c = quote_char then map_option (\<lambda>(x, r). (JStr x, r)) (parse_str t)
          else if c = CHR ''['' then
            (case skip_ws t of
               [] \<Rightarrow> None
             | e # r \<Rightarrow>
                 if e = CHR '']'' then Some (JArr [], r)
                 else map_option (\<lambda>(vs, r). (JArr vs, r)) (parse_elems n t))
          else if c = CHR ''{'' then
            (case skip_ws t of
               [] \<Rightarrow> None
             | e # r \<Rightarrow>
                 if e = CHR ''}'' then Some (JObj [], r)
                 else map_option (\<lambda>(kvs, r). (JObj kvs, r)) (parse_members n t))
          else if c = CHR ''n'' then literal ''null'' JNull (c # t)
          else if c = CHR ''t'' then literal ''true'' (JBool True) (c # t)
          else if c = CHR ''f'' then literal ''false'' (JBool False) (c # t)
          else parse_number (c # t))"
| "parse_elems 0 s = None"
| "parse_elems (Suc n) s =
     (case parse_val n s of
        None \<Rightarrow> None
      | Some (v, t) \<Rightarrow>
          (case skip_ws t of
             [] \<Rightarrow> None
           | c # r \<Rightarrow>
               if c = CHR '','' then map_option (\<lambda>(vs, r). (v # vs, r)) (parse_elems n r)
               else if c = CHR '']'' then Some ([v], r)
               else None))"
| "parse_members 0 s = None"
| "parse_members (Suc n) s =
     (case parse_key s of
        None \<Rightarrow> None
      | Some (k, s') \<Rightarrow>
          (case parse_val n s' of
             None \<Rightarrow> None
           | Some (v, t) \<Rightarrow>
               (case skip_ws t of
                  [] \<Rightarrow> None
                | c # r \<Rightarrow>
                    if c = CHR '','' then map_option (\<lambda>(kvs, r). ((k, v) # kvs, r)) (parse_members n r)
                    else if c = CHR ''}'' then Some ([(k, v)], r)
                    else None)))"

definition parse_fuel :: "string \<Rightarrow> nat" where
  "parse_fuel s = 2 * length s + 2"

text \<open>\<open>None\<close> is the \<open>SyntaxError\<close> of \<open>JSON.parse\<close>.\<close>

definition json_parse :: "string \<Rightarrow> json option" where
  "json_parse s =
     (case parse_val (parse_fuel s) s of
        None \<Rightarrow> None
      | Some (j, r) \<Rightarrow> if skip_ws r = [] then Some j else None)"

text \<open>Property access on a parsed object: of two members with one name the last one counts.\<close>

fun json_get :: "string \<Rightarrow> json \<Rightarrow> json option" where
  "json_get k (JObj kvs) = map_of (rev kvs) k"
| "json_get k _ = None"

text \<open>What counts as true, as text, and as missing.\<close>

definition js_truthy :: "json option \<Rightarrow> bool" where
  "js_truthy v =
     (case v of
        None \<Rightarrow> False
      | Some JNull \<Rightarrow> False
      | Some (JBool b) \<Rightarrow> b
      | Some (JNum i) \<Rightarrow> i \<noteq> 0
      | Some (JReal r) \<Rightarrow>
          list_ex (\<lambda>c. is_digit c \<and> c \<noteq> CHR ''0'') (takeWhile (\<lambda>c. c \<noteq> CHR ''e'' \<and> c \<noteq> CHR ''E'') r)
      | Some (JStr s) \<Rightarrow> s \<noteq> []
      | Some _ \<Rightarrow> True)"

text \<open>\<open>String(v)\<close>; a number that is no safe integer is shown as it was written.\<close>

fun js_string :: "json \<Rightarrow> string" where
  "js_string JNull = ''null''"
| "js_string (JBool b) = (if b then ''true'' else ''false'')"
| "js_string (JNum i) = int_str i"
| "js_string (JReal r) = r"
| "js_string (JStr s) = s"
| "js_string (JArr vs) = join '','' (map (\<lambda>v. case v of JNull \<Rightarrow> [] | _ \<Rightarrow> js_string v) vs)"
| "js_string (JObj kvs) = ''[object Object]''"

text \<open>\<open>a ?? b\<close> on a member that may be absent or null, and a member that must be a string.\<close>

definition nullish :: "json option \<Rightarrow> bool" where
  "nullish v \<longleftrightarrow> v = None \<or> v = Some JNull"

section \<open>The round trip\<close>

fun json_plain :: "json \<Rightarrow> bool" where
  "json_plain (JNum i) = (nat \<bar>i\<bar> \<le> max_safe)"
| "json_plain (JReal r) = False"
| "json_plain (JArr vs) = list_all json_plain vs"
| "json_plain (JObj kvs) = list_all (\<lambda>kv. json_plain (snd kv)) kvs"
| "json_plain _ = True"

definition num_end :: "string \<Rightarrow> bool" where
  "num_end r \<longleftrightarrow> r = [] \<or> \<not> is_digit (hd r) \<and> hd r \<noteq> CHR ''.'' \<and> hd r \<noteq> CHR ''e'' \<and> hd r \<noteq> CHR ''E''"

lemma prepend_Some [simp]: "prepend u (Some (x, t)) = Some (u @ x, t)"
  by (simp add: prepend_def)

lemma code_hex_digit: "d < 16 \<Longrightarrow> code (hex_digit d) = (if d < 10 then 48 + d else 87 + d)"
proof -
  assume "d < 16"
  then have "d = 0 \<or> d = 1 \<or> d = 2 \<or> d = 3 \<or> d = 4 \<or> d = 5 \<or> d = 6 \<or> d = 7 \<or> d = 8 \<or> d = 9
      \<or> d = 10 \<or> d = 11 \<or> d = 12 \<or> d = 13 \<or> d = 14 \<or> d = 15"
    by presburger
  then show ?thesis by (elim disjE) (simp_all add: hex_digit_def code_def)
qed

lemma hex_digit_ok:
  assumes "d < 16"
  shows "is_hex (hex_digit d)" "hex_val (hex_digit d) = d"
  using assms by (auto simp: is_hex_def hex_val_def is_digit_def code_hex_digit)

lemma code_eqI: "code c = n \<Longrightarrow> c = char_of n"
  by auto

lemma parse_escape: "parse_str (escape_char c @ s) = prepend [c] (parse_str s)"
proof -
  have hex: "code c < 32 \<Longrightarrow> unit_bytes (16 * (code c div 16) + code c mod 16) = [c]"
    by (simp add: unit_bytes_def)
  have codes: "code (CHR ''0'') = 48" "code backslash = 92" "code quote_char = 34"
    by (simp_all add: code_def)
  have z: "is_hex (CHR ''0'')" "hex_val (CHR ''0'') = 0"
    by (simp_all add: is_hex_def hex_val_def is_digit_def codes)
  show ?thesis
    using hex z hex_digit_ok [of "code c div 16"] hex_digit_ok [of "code c mod 16"]
    by (auto simp: escape_char_def unescape_def dest!: code_eqI)
qed

lemma parse_quoted: "parse_str (concat (map escape_char s) @ quote_char # r) = Some (s, r)"
  by (induction s) (simp_all add: parse_escape)

lemma takeWhile_nat_str:
  assumes "num_end r"
  shows "takeWhile is_digit (nat_str n @ r) = nat_str n" "dropWhile is_digit (nat_str n @ r) = r"
proof -
  have all: "\<And>x. x \<in> set (nat_str n) \<Longrightarrow> is_digit x"
    using nat_str_digits [of n] by (simp add: list_all_iff)
  have "takeWhile is_digit r = []" "dropWhile is_digit r = r"
    using assms by (cases r; auto simp: num_end_def)+
  then show "takeWhile is_digit (nat_str n @ r) = nat_str n" "dropWhile is_digit (nat_str n @ r) = r"
    using all by (simp_all add: takeWhile_append dropWhile_append)
qed

lemma parse_tail:
  assumes "num_end r"
  shows "parse_frac r = Some ([], r)" "parse_exp r = Some ([], r)"
  using assms by (auto simp: parse_frac_def parse_exp_def num_end_def split: list.splits)

lemma int_digits_nat_str:
  assumes "num_end r"
  shows "int_digits (nat_str n @ r) = nat_str n"
  using assms by (simp add: int_digits_def takeWhile_nat_str hd_nat_str nat_str_zero)

lemma hd_nat_str_digit: "is_digit (hd (nat_str n))"
  using nat_str_digits [of n] by (cases "nat_str n") auto

lemma parse_number_int:
  assumes "num_end r" "nat \<bar>i\<bar> \<le> max_safe"
  shows "parse_number (int_str i @ r) = Some (JNum i, r)"
proof -
  have "hd (nat_str (nat i)) \<noteq> CHR ''-''"
    using hd_nat_str_digit [of "nat i"] by (auto simp: is_digit_def code_def)
  then show ?thesis
    using assms
    by (auto simp: parse_number_def parse_unsigned_def int_str_def parse_tail int_digits_nat_str
        num_value_def Let_def)
qed

lemma skip_ws_gap [simp]: "skip_ws (gap p d @ s) = skip_ws s"
proof -
  have "dropWhile json_ws (replicate n (CHR 0x20) @ s) = dropWhile json_ws s" for n
    by (induction n) (simp_all add: json_ws_def code_def)
  then show ?thesis by (simp add: skip_ws_def gap_def json_ws_def code_def)
qed

lemma skip_ws_Cons: "\<not> json_ws c \<Longrightarrow> skip_ws (c # s) = c # s"
  by (simp add: skip_ws_def)

lemma json_ws_code:
  "\<not> json_ws quote_char" "\<not> json_ws (CHR ''['')" "\<not> json_ws (CHR '']'')" "\<not> json_ws (CHR ''{'')"
  "\<not> json_ws (CHR ''}'')" "\<not> json_ws (CHR '','')" "\<not> json_ws (CHR '':'')" "\<not> json_ws (CHR ''n'')"
  "\<not> json_ws (CHR ''t'')" "\<not> json_ws (CHR ''f'')" "\<not> json_ws (CHR ''-'')" "json_ws (CHR 0x20)"
  by (simp_all add: json_ws_def code_def)

lemma is_digit_not_ws: "is_digit c \<Longrightarrow> \<not> json_ws c"
  by (auto simp: is_digit_def json_ws_def)

lemma skip_ws_colon [simp]: "skip_ws (colon p @ s) = CHR '':'' # drop 1 (colon p) @ s"
  by (simp add: colon_def skip_ws_Cons json_ws_code)

text \<open>The first character of a printed value.\<close>

definition value_start :: "char \<Rightarrow> bool" where
  "value_start c \<longleftrightarrow> \<not> json_ws c \<and> c \<noteq> CHR '']'' \<and> c \<noteq> CHR ''}''"

lemma int_str_start: "\<exists>c s. int_str i = c # s \<and> (c = CHR ''-'' \<or> is_digit c)"
proof (cases "i < 0")
  case True
  then show ?thesis by (simp add: int_str_def)
next
  case False
  then show ?thesis
    using hd_nat_str_digit [of "nat i"] by (cases "nat_str (nat i)") (simp_all add: int_str_def)
qed

lemma json_print_start:
  assumes "json_plain j"
  shows "\<exists>c s. json_print p d j = c # s \<and> value_start c"
proof (cases j)
  case (JNum i)
  obtain c s where "int_str i = c # s" "c = CHR ''-'' \<or> is_digit c"
    using int_str_start by blast
  moreover from this(2) have "value_start c"
    by (auto simp: value_start_def json_ws_code is_digit_not_ws) (auto simp: is_digit_def code_def)
  ultimately show ?thesis using JNum by simp
next
  case (JArr vs)
  then show ?thesis by (cases vs) (simp_all add: value_start_def json_ws_code)
next
  case (JObj kvs)
  then show ?thesis by (cases kvs) (auto simp: value_start_def json_ws_code)
qed (use assms in \<open>auto simp: value_start_def json_ws_code json_quote_def\<close>)

lemma skip_ws_print:
  assumes "json_plain j"
  shows "skip_ws (json_print p d j @ r) = json_print p d j @ r"
  using json_print_start [OF assms, of p d] by (auto simp: value_start_def skip_ws_Cons)

lemma skip_ws_drop_colon [simp]: "skip_ws (drop (Suc 0) (colon p) @ s) = skip_ws s"
  by (simp add: colon_def) (simp add: skip_ws_def json_ws_code)

lemma parse_val_skip: "skip_ws s = skip_ws t \<Longrightarrow> parse_val n s = parse_val n t"
  by (cases n) simp_all

lemma skip_ws_idem: "skip_ws (skip_ws s) = skip_ws s"
  by (simp add: skip_ws_def)

lemma num_end_simps [simp]:
  "num_end []" "num_end (CHR '','' # s)" "num_end (CHR '']'' # s)" "num_end (CHR ''}'' # s)"
  by (simp_all add: num_end_def is_digit_def code_def)

lemma num_end_gap: "num_end (gap p d @ c # s) \<longleftrightarrow> p \<or> num_end (c # s)"
  by (simp add: gap_def num_end_def is_digit_def code_def)

lemma num_end_elems: "num_end (print_elems p d vs @ r)"
  by (cases vs) (simp_all add: num_end_gap)

lemma num_end_members: "num_end (print_members p d kvs @ r)"
  by (cases kvs) (auto simp: num_end_gap)

lemma length_print_pos: "json_plain j \<Longrightarrow> 0 < length (json_print p d j)"
  using json_print_start [of j p d] by auto

lemma print_elems_not_Nil [simp]: "print_elems p d vs \<noteq> []" "print_members p d kvs \<noteq> []"
  by (cases vs; simp) (cases kvs; auto)

lemma parse_val_gap [simp]:
  "parse_val n (gap p d @ s) = parse_val n s"
  "parse_val n (drop (Suc 0) (colon p) @ s) = parse_val n s"
  by (rule parse_val_skip; simp)+

lemma parse_elems_last:
  "parse_val m s = Some (v, gap p d @ CHR '']'' # r) \<Longrightarrow> parse_elems (Suc m) (gap p d' @ s) = Some ([v], r)"
  by (simp add: skip_ws_Cons json_ws_code)

lemma parse_elems_more:
  "parse_val m s = Some (v, CHR '','' # t) \<Longrightarrow> parse_elems m t = Some (vs, r) \<Longrightarrow>
     parse_elems (Suc m) (gap p d' @ s) = Some (v # vs, r)"
  by (simp add: skip_ws_Cons json_ws_code)

lemma parse_key_print:
  "parse_key (gap p d @ json_quote k @ colon p @ s) = Some (k, drop (Suc 0) (colon p) @ s)"
  by (simp add: parse_key_def skip_ws_Cons json_ws_code json_quote_def parse_quoted)

lemma parse_members_last:
  "parse_val m s = Some (v, gap p d @ CHR ''}'' # r) \<Longrightarrow>
     parse_members (Suc m) (gap p d' @ json_quote k @ colon p @ s) = Some ([(k, v)], r)"
  by (simp add: parse_key_print skip_ws_Cons json_ws_code)

lemma parse_members_more:
  "parse_val m s = Some (v, CHR '','' # t) \<Longrightarrow> parse_members m t = Some (kvs, r) \<Longrightarrow>
     parse_members (Suc m) (gap p d' @ json_quote k @ colon p @ s) = Some ((k, v) # kvs, r)"
  by (simp add: parse_key_print skip_ws_Cons json_ws_code)

lemma parse_array:
  assumes "json_plain v" "parse_elems n (gap p d @ json_print p d v @ s) = Some (vs, r)"
  shows "parse_val (Suc n) (CHR ''['' # gap p d @ json_print p d v @ s) = Some (JArr vs, r)"
  using assms json_print_start [OF assms(1), of p d]
  by (auto simp: skip_ws_Cons json_ws_code value_start_def)

lemma parse_object:
  assumes "parse_members n (gap p d @ json_quote k @ s) = Some (kvs, r)"
  shows "parse_val (Suc n) (CHR ''{'' # gap p d @ json_quote k @ s) = Some (JObj kvs, r)"
  using assms by (simp add: skip_ws_Cons json_ws_code json_quote_def)

lemma parse_print_int:
  assumes "nat \<bar>i\<bar> \<le> max_safe" "num_end r"
  shows "parse_val (Suc n) (int_str i @ r) = Some (JNum i, r)"
proof -
  obtain c s where c: "int_str i = c # s" "c = CHR ''-'' \<or> is_digit c"
    using int_str_start by blast
  then have "c \<noteq> quote_char" "c \<noteq> CHR ''[''" "c \<noteq> CHR ''{''" "c \<noteq> CHR ''n''" "c \<noteq> CHR ''t''" "c \<noteq> CHR ''f''"
    "\<not> json_ws c"
    by (auto simp: json_ws_code is_digit_not_ws) (auto simp: is_digit_def code_def)
  with c assms parse_number_int [OF assms(2,1)] show ?thesis by (simp add: skip_ws_Cons)
qed

lemmas print_leaf_simps = skip_ws_Cons json_ws_code literal_def starts_with_def json_quote_def parse_quoted

lemma fuel_split:
  fixes a b n :: nat
  assumes "a + b < n" "0 < a" "0 < b"
  obtains m where "n = Suc (Suc m)" "a \<le> m" "b \<le> Suc m"
  using assms by (intro that [of "n - 2"]) linarith+

lemma parse_print:
  "json_plain j \<Longrightarrow> num_end r \<Longrightarrow> length (json_print p d j) \<le> n \<Longrightarrow>
     parse_val n (json_print p d j @ r) = Some (j, r)"
  "list_all json_plain vs \<Longrightarrow> length (print_elems p d vs) \<le> Suc m \<Longrightarrow>
     parse_val m s = Some (v, print_elems p d vs @ r) \<Longrightarrow>
     parse_elems (Suc m) (gap p d' @ s) = Some (v # vs, r)"
  "list_all (\<lambda>kv. json_plain (snd kv)) kvs \<Longrightarrow> length (print_members p d kvs) \<le> Suc m \<Longrightarrow>
     parse_val m s = Some (w, print_members p d kvs @ r) \<Longrightarrow>
     parse_members (Suc m) (gap p d' @ json_quote k @ colon p @ s) = Some ((k, w) # kvs, r)"
proof (induction p d j and p d vs and p d kvs arbitrary: n r and m s r v d' and m s r k w d'
    rule: json_print_print_elems_print_members.induct)
  case (7 p d v vs)
  obtain m where n: "n = Suc (Suc m)" "length (json_print p (Suc d) v) \<le> m"
    "length (print_elems p d vs) \<le> Suc m"
    by (rule fuel_split [of "length (json_print p (Suc d) v)" "length (print_elems p d vs)" "n"])
      (use 7(3-) length_print_pos [of v p "Suc d"] in simp_all)
  have "parse_val m (json_print p (Suc d) v @ print_elems p d vs @ r) = Some (v, print_elems p d vs @ r)"
    using 7(3) n by (intro 7(1)) (simp_all add: num_end_elems)
  then show ?case using 7(3) n by (simp del: parse_val.simps parse_elems.simps add: parse_array 7(2))
next
  case (9 p d k v kvs)
  obtain m where n: "n = Suc (Suc m)" "length (json_print p (Suc d) v) \<le> m"
    "length (print_members p d kvs) \<le> Suc m"
    by (rule fuel_split [of "length (json_print p (Suc d) v)" "length (print_members p d kvs)" "n"])
      (use 9(3-) length_print_pos [of v p "Suc d"] in simp_all)
  have "parse_val m (json_print p (Suc d) v @ print_members p d kvs @ r) = Some (v, print_members p d kvs @ r)"
    using 9(3) n by (intro 9(1)) (simp_all add: num_end_members)
  then show ?case using 9(3) n by (simp del: parse_val.simps parse_members.simps add: parse_object 9(2))
next
  case (11 p d u us)
  obtain m' where m: "Suc m = Suc (Suc m')" "length (json_print p (Suc d) u) \<le> m'"
    "length (print_elems p d us) \<le> Suc m'"
    by (rule fuel_split [of "length (json_print p (Suc d) u)" "length (print_elems p d us)" "Suc m"])
      (use 11(3,4) length_print_pos [of u p "Suc d"] in simp_all)
  have "parse_val m' (json_print p (Suc d) u @ print_elems p d us @ r) = Some (u, print_elems p d us @ r)"
    using 11(3) m by (intro 11(1)) (simp_all add: num_end_elems)
  then show ?case using 11(3,5) m by (simp del: parse_elems.simps add: parse_elems_more 11(2))
next
  case (13 p d k' u us)
  obtain m' where m: "Suc m = Suc (Suc m')" "length (json_print p (Suc d) u) \<le> m'"
    "length (print_members p d us) \<le> Suc m'"
    by (rule fuel_split [of "length (json_print p (Suc d) u)" "length (print_members p d us)" "Suc m"])
      (use 13(3,4) length_print_pos [of u p "Suc d"] in simp_all)
  have "parse_val m' (json_print p (Suc d) u @ print_members p d us @ r) = Some (u, print_members p d us @ r)"
    using 13(3) m by (intro 13(1)) (simp_all add: num_end_members)
  then show ?case using 13(3,5) m by (simp del: parse_members.simps add: parse_members_more 13(2))
next
  case (2 p d b n) then show ?case by (cases n; cases b) (simp_all add: print_leaf_simps)
next
  case (3 p d i n) then show ?case by (cases n) (use int_str_start [of i] in \<open>auto simp del: parse_val.simps(2) simp: parse_print_int\<close>)
next
  case (10 p d) then show ?case by (simp del: parse_elems.simps add: parse_elems_last)
next
  case (12 p d) then show ?case by (simp del: parse_members.simps add: parse_members_last)
next
  case (1 p d n) then show ?case by (cases n) (simp_all add: print_leaf_simps)
next
  case (5 p d s n) then show ?case by (cases n) (simp_all add: print_leaf_simps)
next
  case (6 p d n) then show ?case by (cases n) (simp_all add: print_leaf_simps)
next
  case (8 p d n) then show ?case by (cases n) (simp_all add: print_leaf_simps)
qed simp_all

theorem json_roundtrip:
  assumes "json_plain j"
  shows "json_parse (stringify j) = Some j" "json_parse (stringify2 j) = Some j"
proof -
  have "json_parse (json_print p 0 j) = Some j" for p
    using parse_print(1) [OF assms, of "[]" p 0 "parse_fuel (json_print p 0 j)"]
    by (simp add: json_parse_def parse_fuel_def skip_ws_def)
  then show "json_parse (stringify j) = Some j" "json_parse (stringify2 j) = Some j"
    by (simp_all add: stringify_def stringify2_def)
qed

section \<open>Enough fuel\<close>

lemma length_skip_ws: "length (skip_ws s) \<le> length s"
  by (simp add: skip_ws_def length_dropWhile_le)

lemma skip_ws_ConsD: "skip_ws s = c # t \<Longrightarrow> length t < length s"
  using length_skip_ws [of s] by simp

lemma prepend_SomeD: "prepend u r = Some (x, t) \<Longrightarrow> \<exists>y. r = Some (y, t)"
  by (auto simp: prepend_def)

lemma parse_str_shorter: "parse_str s = Some (x, t) \<Longrightarrow> length t < length s"
proof (induction s arbitrary: x t rule: parse_str.induct)
  case (2 c s)
  then show ?case
    by (fastforce split: if_splits list.splits option.splits dest!: prepend_SomeD)
qed simp

lemma parse_number_shorter:
  assumes "parse_number s = Some (j, t)"
  shows "length t < length s"
proof -
  have frac: "parse_frac a = Some (f, b) \<Longrightarrow> length b \<le> length a" for a f b
    by (auto simp: parse_frac_def Let_def length_dropWhile_le le_SucI split: list.splits if_splits)
  have expo: "parse_exp a = Some (f, b) \<Longrightarrow> length b \<le> length a" for a f b
    by (auto simp: parse_exp_def Let_def le_SucI split: list.splits if_splits
        intro: order_trans [OF length_dropWhile_le])
  have uns: "length t < length u" if "parse_unsigned neg u = Some (j, t)" for neg u
  proof -
    have "int_digits u \<noteq> []" "u \<noteq> []"
      using that by (auto simp: parse_unsigned_def int_digits_def split: if_splits)
    then have "length (drop (length (int_digits u)) u) < length u" by simp
    then show ?thesis
      using that by (auto simp: parse_unsigned_def split: if_splits option.splits dest!: frac expo)
  qed
  show ?thesis
    using assms by (cases s) (auto simp: parse_number_def split: if_splits dest: uns)
qed

lemma literal_shorter: "literal w j s = Some (k, t) \<Longrightarrow> w \<noteq> [] \<Longrightarrow> length t < length s"
  by (cases s) (auto simp: literal_def starts_with_def split: if_splits)

lemma parse_key_shorter: "parse_key s = Some (k, t) \<Longrightarrow> length t < length s"
  by (fastforce simp: parse_key_def split: list.splits if_splits option.splits
      dest: skip_ws_ConsD parse_str_shorter)

lemma parse_shorter:
  "parse_val n s = Some (j, t) \<Longrightarrow> length t < length s"
  "parse_elems n s = Some (vs, t) \<Longrightarrow> length t < length s"
  "parse_members n s = Some (kvs, t) \<Longrightarrow> length t < length s"
proof (induction n s and n s and n s arbitrary: j t and vs t and kvs t
    rule: parse_val_parse_elems_parse_members.induct)
  case (2 n s)
  then show ?case
    by (fastforce split: list.splits if_splits
        dest: skip_ws_ConsD parse_str_shorter parse_number_shorter literal_shorter)
next
  case (4 n s)
  then show ?case
    by (fastforce split: list.splits if_splits option.splits dest: skip_ws_ConsD)
next
  case (6 n s)
  then show ?case
    by (fastforce split: list.splits if_splits option.splits dest: skip_ws_ConsD parse_key_shorter)
qed simp_all

lemma parse_enough_step:
  "2 * length s + 1 \<le> n \<Longrightarrow> parse_val (Suc n) s = parse_val n s"
  "2 * length s + 2 \<le> n \<Longrightarrow> parse_elems (Suc n) s = parse_elems n s"
  "2 * length s + 2 \<le> n \<Longrightarrow> parse_members (Suc n) s = parse_members n s"
proof (induction n arbitrary: s)
  case (Suc n)
  {
    case 1
    show ?case
    proof (cases "skip_ws s")
      case (Cons c t)
      then have "parse_elems (Suc n) t = parse_elems n t" "parse_members (Suc n) t = parse_members n t"
        using 1 skip_ws_ConsD [of s c t]
        by - (rule Suc.IH(2), linarith, rule Suc.IH(3), linarith)
      with Cons show ?thesis
        by (simp del: parse_val.simps parse_elems.simps parse_members.simps
            add: parse_val.simps(2) split: list.split)
    qed simp
  next
    case 2
    have "parse_val (Suc n) s = parse_val n s"
      and "\<And>r. length r < length s \<Longrightarrow> parse_elems (Suc n) r = parse_elems n r"
      using 2 by (auto simp del: parse_val.simps parse_elems.simps intro: Suc.IH)
    then show ?case
      unfolding parse_elems.simps(2) [of "Suc n" s] parse_elems.simps(2) [of n s]
      by (auto simp del: parse_val.simps parse_elems.simps
          split: list.split option.split dest!: skip_ws_ConsD parse_shorter(1))
  next
    case 3
    have val: "length t < length s \<Longrightarrow> parse_val (Suc n) t = parse_val n t"
      and mem: "length t < length s \<Longrightarrow> parse_members (Suc n) t = parse_members n t" for t
      using 3 by (auto simp del: parse_val.simps parse_members.simps intro: Suc.IH)
    show ?case
    proof (cases "parse_key s")
      case (Some kt)
      moreover obtain k u where kt: "kt = (k, u)" by (cases kt)
      ultimately have "length u < length s" "parse_val (Suc n) u = parse_val n u"
        using val parse_key_shorter by blast+
      with Some kt show ?thesis
        unfolding parse_members.simps(2) [of "Suc n" s] parse_members.simps(2) [of n s]
        by (auto simp del: parse_val.simps parse_members.simps simp: mem
            split: list.split option.split dest!: skip_ws_ConsD parse_shorter(1))
    qed simp
  }
qed simp_all

text \<open>More fuel than \<open>parse_fuel\<close> never changes what \<open>json_parse\<close> returns.\<close>

theorem parse_enough: "parse_fuel s \<le> n \<Longrightarrow> parse_val n s = parse_val (parse_fuel s) s"
proof (induction n rule: dec_induct)
  case (step n)
  then show ?case using parse_enough_step(1) [of s n] by (simp add: parse_fuel_def)
qed simp
end
