(* ===== verification/Http.thy ===== *)
theory Http
  imports Json
begin

text \<open>
  Responses of the Express routes, the validation middleware (\<open>middleware/validateRequest.ts\<close>) and
  the error handler (\<open>middleware/errorHandler.ts\<close>). A schema of the zod package is a parameter: the
  function \<open>safe_parse\<close> from the raw request data to the issues or the parsed value. A handler that
  calls \<open>next(err)\<close> returns \<open>Inl\<close> with the error's message, which \<open>error_handler\<close> turns into the
  response.
\<close>

datatype body = Text string | Json json | Empty_body

record response =
  status :: nat
  body :: body

definition json_res :: "nat \<Rightarrow> json \<Rightarrow> response" where
  "json_res n j = \<lparr>status = n, body = Json j\<rparr>"

definition text_res :: "nat \<Rightarrow> string \<Rightarrow> response" where
  "text_res n t = \<lparr>status = n, body = Text t\<rparr>"

definition error_json :: "string \<Rightarrow> json" where
  "error_json m = JObj [(''error'', JStr m)]"

lemma status_simps [simp]:
  "status (json_res n j) = n" "status (text_res n t) = n"
  "body (json_res n j) = Json j" "body (text_res n t) = Text t"
  by (simp_all add: json_res_def text_res_def)

section \<open>Validation\<close>

record issue =
  path :: "string list"
  message :: string

definition issues_json :: "issue list \<Rightarrow> json" where
  "issues_json is =
     JObj [(''error'', JStr ''Validation failed''),
           (''issues'', JArr (map (\<lambda>i. JObj [(''path'', JStr (join ''.'' (path i))),
                                             (''message'', JStr (message i))]) is))]"

text \<open>\<open>next\<close> runs with \<open>req[source]\<close> replaced by the parsed data.\<close>

definition validate_request ::
  "('raw \<Rightarrow> issue list + 'a) \<Rightarrow> ('a \<Rightarrow> 's \<Rightarrow> response result \<times> 's) \<Rightarrow> 'raw \<Rightarrow> 's \<Rightarrow> response result \<times> 's" where
  "validate_request safe_parse nxt raw s =
     (case safe_parse raw of
        Inl is \<Rightarrow> (Inr (json_res 400 (issues_json is)), s)
      | Inr x \<Rightarrow> nxt x s)"

lemma validate_request_reject:
  "safe_parse raw = Inl is \<Longrightarrow>
     validate_request safe_parse nxt raw s = (Inr (json_res 400 (issues_json is)), s)"
  by (simp add: validate_request_def)

section \<open>Errors\<close>

record safe_error =
  safe_status :: nat
  client :: string
  internal :: string

definition sanitize_error :: "string \<Rightarrow> safe_error" where
  "sanitize_error msg =
     (if str_includes msg ''NullifierSpent''
      then \<lparr>safe_status = 409, client = ''This vote has already been cast.'', internal = msg\<rparr>
      else if str_includes msg ''PollClosed''
      then \<lparr>safe_status = 410, client = ''This poll is closed.'', internal = msg\<rparr>
      else if str_includes msg ''InvalidZKProof'' \<or> str_includes msg ''verification failed''
      then \<lparr>safe_status = 400, client = ''Invalid vote proof.'', internal = msg\<rparr>
      else if str_includes msg ''Invalid vote signature''
      then \<lparr>safe_status = 400, client = ''Invalid vote signature.'', internal = msg\<rparr>
      else if str_includes msg ''stale''
      then \<lparr>safe_status = 400, client = ''Vote payload has expired.'', internal = msg\<rparr>
      else if str_includes msg ''validation''
      then \<lparr>safe_status = 422, client = msg, internal = msg\<rparr>
      else \<lparr>safe_status = 500, client = ''An unexpected error occurred.'', internal = msg\<rparr>)"

definition error_handler :: "string \<Rightarrow> response" where
  "error_handler msg =
     json_res (safe_status (sanitize_error msg)) (error_json (client (sanitize_error msg)))"

text \<open>A route together with the error handler behind it.\<close>

definition finish :: "response result \<Rightarrow> response" where
  "finish r = (case r of Inl msg \<Rightarrow> error_handler msg | Inr res \<Rightarrow> res)"

lemma finish_simps [simp]: "finish (Inl m) = error_handler m" "finish (Inr r) = r"
  by (simp_all add: finish_def)

definition public_messages :: "string list" where
  "public_messages =
     [''This vote has already been cast.'', ''This poll is closed.'', ''Invalid vote proof.'',
      ''Invalid vote signature.'', ''Vote payload has expired.'', ''An unexpected error occurred.'']"

lemma sanitize_error_status:
  "safe_status (sanitize_error m) \<in> {409, 410, 400, 422, 500}"
  by (simp add: sanitize_error_def)

lemma sanitize_error_client:
  "client (sanitize_error m) \<in> set public_messages \<or> str_includes m ''validation''"
  by (simp add: sanitize_error_def public_messages_def)

end
