(* ===== verification/Ussd.thy ===== *)
theory Ussd
  imports Redis_Store Http
begin

text \<open>
  The USSD channel: \<open>ussd/USSDVoteService.ts\<close> and its webhook \<open>routes/ussd.ts\<close>. A session is a
  JSON string in Redis under \<open>ussd:session:<id>\<close>; the spent nullifiers are the set \<open>ussd:nullifiers\<close>.
  \<open>ussd_handle\<close> is one call of \<open>handle\<close>, from the state of Redis to the reply, the vote it submitted
  (what the code logs as ``USSD vote submitted'') and the new state. \<open>sha\<close> is the hexadecimal SHA-256
  of a string and \<open>salt\<close> the configured salt. Times to live are passed to Redis; an expiry is the
  request \<open>Expire\<close> of \<open>ussd_channel\<close>.
\<close>

section \<open>Model\<close>

record policy =
  pol_id :: string
  pol_title :: string

record session =
  step :: int
  policyIndex :: int
  policyId :: "string option"

record ussd_reply =
  reply_text :: string
  cont :: bool

record submission =
  sub_policy :: string
  sub_option :: "string option"
  sub_nullifier :: string

type_synonym hash = "string \<Rightarrow> string"

definition POLICIES :: "policy list" where
  "POLICIES =
     [\<lparr>pol_id = ''pol-001'', pol_title = ''NHS Funding Increase''\<rparr>,
      \<lparr>pol_id = ''pol-002'', pol_title = ''Green Energy Transition''\<rparr>,
      \<lparr>pol_id = ''pol-003'', pol_title = ''Housing Reform Bill''\<rparr>,
      \<lparr>pol_id = ''pol-004'', pol_title = ''Education Voucher Scheme''\<rparr>,
      \<lparr>pol_id = ''pol-005'', pol_title = ''Transport Infrastructure''\<rparr>]"

definition SESSION_TTL :: nat where "SESSION_TTL = 90"
definition SK :: "string \<Rightarrow> string" where "SK sid = ''ussd:session:'' @ sid"
definition NULLIFIERS_KEY :: string where "NULLIFIERS_KEY = ''ussd:nullifiers''"

definition nl :: string where "nl = [CHR 0x0A]"

definition con :: "string \<Rightarrow> ussd_reply" where "con t = \<lparr>reply_text = t, cont = True\<rparr>"
definition fin :: "string \<Rightarrow> ussd_reply" where "fin t = \<lparr>reply_text = t, cont = False\<rparr>"

definition session_json :: "session \<Rightarrow> json" where
  "session_json x =
     JObj ([(''step'', JNum (step x)), (''policyIndex'', JNum (policyIndex x))] @
           (case policyId x of None \<Rightarrow> [] | Some p \<Rightarrow> [(''policyId'', JStr p)]))"

definition session_of_json :: "json \<Rightarrow> session result" where
  "session_of_json j =
     (case (json_get ''step'' j, json_get ''policyIndex'' j) of
        (Some (JNum a), Some (JNum b)) \<Rightarrow>
          (case json_get ''policyId'' j of
             None \<Rightarrow> Inr \<lparr>step = a, policyIndex = b, policyId = None\<rparr>
           | Some (JStr p) \<Rightarrow> Inr \<lparr>step = a, policyIndex = b, policyId = Some p\<rparr>
           | _ \<Rightarrow> Inl ''not a session'')
      | _ \<Rightarrow> Inl ''not a session'')"

definition get_session :: "'r redis \<Rightarrow> string \<Rightarrow> 'r \<Rightarrow> session option result" where
  "get_session R sid s =
     (case r_get R (SK sid) s of
        None \<Rightarrow> Inr None
      | Some raw \<Rightarrow>
          if raw = [] then Inr None
          else (case json_parse raw of
                  None \<Rightarrow> Inl ''SyntaxError''
                | Some j \<Rightarrow> bind_result (session_of_json j) (\<lambda>x. Inr (Some x))))"

definition save_session :: "'r redis \<Rightarrow> string \<Rightarrow> session \<Rightarrow> 'r \<Rightarrow> 'r" where
  "save_session R sid x s = r_setex R (SK sid) SESSION_TTL (stringify (session_json x)) s"

definition policy_menu :: "int \<Rightarrow> string" where
  "policy_menu off =
     (let ps = take 3 (drop (nat off) POLICIES)
      in join nl (map (\<lambda>(i, p). nat_str (i + 1) @ ''. '' @ slice 0 30 (pol_title p))
                      (zip [0..<length ps] ps)))"

definition derive_nullifier :: "hash \<Rightarrow> string \<Rightarrow> string \<Rightarrow> string \<Rightarrow> string" where
  "derive_nullifier sha salt phone pid = ''0x'' @ sha (phone @ pid @ salt)"

text \<open>\<open>POLICIES[idx]\<close>, where \<open>idx\<close> may be \<open>NaN\<close>, negative or too large.\<close>

definition policy_at :: "js_num \<Rightarrow> policy option" where
  "policy_at n =
     (case n of
        None \<Rightarrow> None
      | Some i \<Rightarrow> if 0 \<le> i \<and> i < int (length POLICIES) then Some (POLICIES ! nat i) else None)"

definition option_map :: "(string \<times> string) list" where
  "option_map = [(''1'', ''option-support''), (''2'', ''option-oppose''), (''3'', ''option-abstain'')]"

definition label_map :: "(string \<times> string) list" where
  "label_map =
     [(''option-support'', ''Support''), (''option-oppose'', ''Oppose''), (''option-abstain'', ''Abstain'')]"

definition slot_text :: "string slot \<Rightarrow> string" where
  "slot_text v = (case v of Undefined \<Rightarrow> ''undefined'' | Own t \<Rightarrow> t | Inherited t \<Rightarrow> t)"

type_synonym 'r outcome = "ussd_reply \<times> submission option \<times> 'r"

definition select_policy :: "'r redis \<Rightarrow> string \<Rightarrow> session \<Rightarrow> string \<Rightarrow> 'r \<Rightarrow> 'r outcome" where
  "select_policy R sid x inp s =
     (if inp = ''0'' then
        (let x' = x\<lparr>policyIndex := (policyIndex x + 3) mod int (length POLICIES)\<rparr>
         in (con (''Active policies:'' @ nl @ policy_menu (policyIndex x') @ nl @
                  ''0. Next page'' @ nl @ ''#. Exit''),
             None, save_session R sid x' s))
      else
        (case policy_at (map_option (\<lambda>i. i - 1 + policyIndex x) (parse_int inp)) of
           None \<Rightarrow>
             (con (''Invalid choice. Please try again.'' @ nl @ policy_menu (policyIndex x)), None, s)
         | Some p \<Rightarrow>
             (let x' = x\<lparr>policyId := Some (pol_id p), step := 1\<rparr>
              in (con (pol_title p @ nl @ nl @ ''1. Support'' @ nl @ ''2. Oppose'' @ nl @ ''3. Abstain'' @
                       nl @ ''#. Cancel''),
                  None, save_session R sid x' s))))"

definition select_option :: "'r redis \<Rightarrow> string \<Rightarrow> session \<Rightarrow> string \<Rightarrow> string \<Rightarrow> 'r \<Rightarrow> 'r outcome" where
  "select_option R sid x pid inp s =
     (case obj_get option_map inp of
        Undefined \<Rightarrow>
          (con (''Invalid option.'' @ nl @ ''1. Support'' @ nl @ ''2. Oppose'' @ nl @ ''3. Abstain'' @
                nl @ ''#. Cancel''), None, s)
      | v \<Rightarrow>
          (let oid = slot_text v; base = hd (split_on (CHR '':'') pid);
               x' = x\<lparr>step := 2, policyId := Some (base @ '':'' @ oid)\<rparr>
           in (con (''Confirm vote:'' @ nl @ slot_text (obj_get label_map oid) @ '' on '' @ base @ nl @ nl @
                    ''1. Confirm'' @ nl @ ''2. Cancel''),
               None, save_session R sid x' s)))"

definition receipt_code :: "string \<Rightarrow> string" where
  "receipt_code n = to_upper (slice 2 10 n)"

definition confirm_vote ::
  "'r redis \<Rightarrow> hash \<Rightarrow> string \<Rightarrow> string \<Rightarrow> string \<Rightarrow> string \<Rightarrow> string \<Rightarrow> 'r \<Rightarrow> 'r outcome" where
  "confirm_vote R sha salt sid phone pid inp s =
     (if inp \<noteq> ''1'' then (fin ''Vote cancelled. Thank you.'', None, r_del R (SK sid) s)
      else
        (let ps = split_on (CHR '':'') pid;
             p = hd ps; oid = (if length ps < 2 then None else Some (ps ! 1));
             n = derive_nullifier sha salt phone p
         in if r_sismember R NULLIFIERS_KEY n s
            then (fin ''You have already voted on this policy.'', None, r_del R (SK sid) s)
            else (fin (''Vote recorded!'' @ nl @ ''Receipt: '' @ receipt_code n @ nl @ nl @
                       ''Thank you for participating.''),
                  Some \<lparr>sub_policy = p, sub_option = oid, sub_nullifier = n\<rparr>,
                  r_del R (SK sid) (r_sadd R NULLIFIERS_KEY n s))))"

definition dispatch ::
  "'r redis \<Rightarrow> hash \<Rightarrow> string \<Rightarrow> string \<Rightarrow> string \<Rightarrow> session \<Rightarrow> string list \<Rightarrow> 'r \<Rightarrow> 'r outcome" where
  "dispatch R sha salt sid phone x parts s =
     (if parts = [] then
        (con (''Welcome to TheVoteApp'' @ nl @ nl @ ''Active policies:'' @ nl @ policy_menu 0 @ nl @
              ''0. Next page'' @ nl @ ''#. Exit''), None, s)
      else if last parts = ''#'' then (fin ''Session ended. Thank you.'', None, r_del R (SK sid) s)
      else
        (case policyId x of
           None \<Rightarrow> select_policy R sid x (last parts) s
         | Some pid \<Rightarrow>
             if pid = [] then select_policy R sid x (last parts) s
             else if step x = 1 then select_option R sid x pid (last parts) s
             else if step x = 2 then confirm_vote R sha salt sid phone pid (last parts) s
             else (fin ''Session expired. Please dial again.'', None, s)))"

definition new_session :: session where
  "new_session = \<lparr>step = 0, policyIndex = 0, policyId = None\<rparr>"

definition ussd_handle ::
  "'r redis \<Rightarrow> hash \<Rightarrow> string \<Rightarrow> string \<Rightarrow> string \<Rightarrow> string \<Rightarrow> 'r
     \<Rightarrow> ussd_reply result \<times> submission option \<times> 'r" where
  "ussd_handle R sha salt sid phone txt s =
     (case get_session R sid s of
        Inl e \<Rightarrow> (Inl e, None, s)
      | Inr so \<Rightarrow>
          (let x = (case so of None \<Rightarrow> new_session | Some y \<Rightarrow> y);
               s1 = save_session R sid x s
           in case dispatch R sha salt sid phone x (filter (\<lambda>w. w \<noteq> []) (split_on (CHR ''*'') txt)) s1 of
                (r, v, s2) \<Rightarrow> (Inr r, v, s2)))"

section \<open>The webhook\<close>

definition mask_phone :: "string \<Rightarrow> string" where
  "mask_phone p =
     (if 4 < length p then replicate (length p - 4) (CHR ''*'') @ drop (length p - 4) p else ''****'')"

text \<open>Missing form fields default to the empty string.\<close>

definition ussd_route ::
  "'r redis \<Rightarrow> hash \<Rightarrow> string \<Rightarrow> string option \<Rightarrow> string option \<Rightarrow> string option \<Rightarrow> 'r
     \<Rightarrow> response \<times> submission option \<times> 'r" where
  "ussd_route R sha salt sid phone txt s =
     (let sid' = case_option [] (\<lambda>v. v) sid;
          phone' = case_option [] (\<lambda>v. v) phone;
          txt' = case_option [] (\<lambda>v. v) txt
      in if sid' = [] \<or> phone' = [] then (text_res 400 ''END Invalid request.'', None, s)
         else (case ussd_handle R sha salt sid' phone' txt' s of
                 (Inl e, v, s') \<Rightarrow> (text_res 200 ''END An error occurred. Please try again.'', v, s')
               | (Inr r, v, s') \<Rightarrow>
                   (text_res 200 ((if cont r then ''CON '' else ''END '') @ reply_text r), v, s')))"

section \<open>Keys and stored sessions\<close>

lemma SK_inj [simp]: "SK a = SK b \<longleftrightarrow> a = b"
  by (simp add: SK_def)

lemma SK_not_NULLIFIERS [simp]: "SK a \<noteq> NULLIFIERS_KEY" "NULLIFIERS_KEY \<noteq> SK a"
  by (simp_all add: SK_def NULLIFIERS_KEY_def)

definition POLICY_IDS :: "string list" where
  "POLICY_IDS = map pol_id POLICIES"

text \<open>What an option can be: the three options and, by inheritance, the texts of the
  properties of \<open>Object.prototype\<close>.\<close>

definition accepted_options :: "string list" where
  "accepted_options = map snd option_map @ map snd object_prototype"

definition wf_session :: "session \<Rightarrow> bool" where
  "wf_session x \<longleftrightarrow>
     0 \<le> policyIndex x \<and> policyIndex x < int (length POLICIES) \<and>
     (case policyId x of
        None \<Rightarrow> step x = 0
      | Some p \<Rightarrow>
          step x = 1 \<and> p \<in> set POLICY_IDS \<or>
          step x = 2 \<and> (\<exists>b \<in> set POLICY_IDS. \<exists>opt \<in> set accepted_options. p = b @ '':'' @ opt))"

definition wf_store :: "'r redis \<Rightarrow> 'r \<Rightarrow> bool" where
  "wf_store R s \<longleftrightarrow>
     (\<forall>sid raw. r_get R (SK sid) s = Some raw \<longrightarrow>
        (\<exists>x. wf_session x \<and> raw = stringify (session_json x)))"

lemma length_POLICIES [simp]: "length POLICIES = 5"
  by (simp add: POLICIES_def)

lemma session_json_simps:
  "json_get ''step'' (session_json x) = Some (JNum (step x))"
  "json_get ''policyIndex'' (session_json x) = Some (JNum (policyIndex x))"
  "json_get ''policyId'' (session_json x) = map_option JStr (policyId x)"
  by (auto simp: session_json_def split: option.split)

lemma session_of_session_json [simp]: "session_of_json (session_json x) = Inr x"
  by (auto simp: session_of_json_def session_json_simps split: option.split)

lemma session_plain: "wf_session x \<Longrightarrow> json_plain (session_json x)"
  by (auto simp: wf_session_def session_json_def max_safe_def split: option.splits)

lemma stringify_session_not_Nil: "stringify (session_json x) \<noteq> []"
  by (simp add: stringify_def session_json_def)

lemma POLICY_IDS_eq:
  "POLICY_IDS = [''pol-001'', ''pol-002'', ''pol-003'', ''pol-004'', ''pol-005'']"
  by (simp add: POLICY_IDS_def POLICIES_def)

lemma POLICY_IDS_no_colon: "p \<in> set POLICY_IDS \<Longrightarrow> CHR '':'' \<notin> set p \<and> p \<noteq> []"
  by (auto simp: POLICY_IDS_eq)

lemma accepted_no_colon: "opt \<in> set accepted_options \<Longrightarrow> CHR '':'' \<notin> set opt"
  by (auto simp: accepted_options_def option_map_def object_prototype_def native_fn_def)

lemma split_choice:
  assumes "b \<in> set POLICY_IDS" "opt \<in> set accepted_options"
  shows "split_on (CHR '':'') (b @ '':'' @ opt) = [b, opt]"
  using assms POLICY_IDS_no_colon [of b] accepted_no_colon [of opt]
  by (simp add: split_on_append split_on_no_sep)

lemma slot_text_accepted:
  assumes "obj_get option_map inp \<noteq> Undefined"
  shows "slot_text (obj_get option_map inp) \<in> set accepted_options"
  using assms by (force simp: obj_get_def slot_text_def accepted_options_def
      split: option.splits dest!: map_of_SomeD)

lemma wf_new_session: "wf_session new_session"
  by (simp add: wf_session_def new_session_def)

context redis_store
begin

lemma get_saved:
  assumes "wf_session x"
  shows "get_session R sid (save_session R sid x s) = Inr (Some x)"
  using assms session_plain [THEN json_roundtrip(1)]
  by (simp add: get_session_def save_session_def get_setex stringify_session_not_Nil)

lemma wf_store_save: "wf_store R s \<Longrightarrow> wf_session x \<Longrightarrow> wf_store R (save_session R sid x s)"
  by (auto simp: wf_store_def save_session_def get_setex)

lemma wf_store_del: "wf_store R s \<Longrightarrow> wf_store R (r_del R k s)"
  by (auto simp: wf_store_def get_del)

lemma wf_store_sadd: "wf_store R s \<Longrightarrow> wf_store R (r_sadd R NULLIFIERS_KEY n s)"
  by (auto simp: wf_store_def get_sadd)

lemma get_session_wf:
  assumes "wf_store R s"
  obtains so where "get_session R sid s = Inr so" "case_option True wf_session so"
proof (cases "r_get R (SK sid) s")
  case None
  then show ?thesis using that by (simp add: get_session_def)
next
  case (Some raw)
  then obtain x where "wf_session x" "raw = stringify (session_json x)"
    using assms by (auto simp: wf_store_def)
  with Some that show ?thesis
    using session_plain [THEN json_roundtrip(1)]
    by (simp add: get_session_def stringify_session_not_Nil)
qed

lemmas wf_store_intros = wf_store_save wf_store_del wf_store_sadd

lemma select_policy_wf:
  assumes "wf_store R s" "wf_session x" "policyId x = None"
  shows "select_policy R sid x inp s = (r, v, s') \<Longrightarrow> wf_store R s' \<and> v = None"
  using assms
  by (auto simp: select_policy_def Let_def policy_at_def POLICY_IDS_def wf_session_def
      split: if_splits option.splits intro!: wf_store_save)

lemma select_option_wf:
  assumes "wf_store R s" "wf_session x" "policyId x = Some pid" "step x = 1"
  shows "select_option R sid x pid inp s = (r, v, s') \<Longrightarrow> wf_store R s' \<and> v = None"
proof -
  have pid: "pid \<in> set POLICY_IDS" using assms by (auto simp: wf_session_def)
  then have hd: "hd (split_on (CHR '':'') pid) = pid"
    using POLICY_IDS_no_colon [of pid] by (simp add: split_on_no_sep)
  show "wf_store R s' \<and> v = None" if h: "select_option R sid x pid inp s = (r, v, s')"
  proof (cases "obj_get option_map inp = Undefined")
    case True
    with h assms(1) show ?thesis by (simp add: select_option_def)
  next
    case False
    let ?x = "x\<lparr>step := 2, policyId := Some (pid @ '':'' @ slot_text (obj_get option_map inp))\<rparr>"
    have "wf_session ?x"
      using assms(2) pid slot_text_accepted [OF False] by (auto simp: wf_session_def)
    moreover have "s' = save_session R sid ?x s" "v = None"
      using h False by (auto simp: select_option_def Let_def hd split: slot.splits)
    ultimately show ?thesis using assms(1) by (simp add: wf_store_save)
  qed
qed

end
section \<open>One request\<close>

text \<open>What a vote that is submitted must look like, and what it does to the spent nullifiers.\<close>

definition spent_in :: "'r redis \<Rightarrow> 'r \<Rightarrow> string set" where
  "spent_in R s = {n. r_sismember R NULLIFIERS_KEY n s}"

definition valid_submission :: "hash \<Rightarrow> string \<Rightarrow> string \<Rightarrow> submission \<Rightarrow> bool" where
  "valid_submission sha salt phone v \<longleftrightarrow>
     sub_policy v \<in> set POLICY_IDS \<and>
     (\<exists>opt \<in> set accepted_options. sub_option v = Some opt) \<and>
     sub_nullifier v = derive_nullifier sha salt phone (sub_policy v)"

datatype ussd_request = Request string string string | Expire string

definition ussd_channel ::
  "'r redis \<Rightarrow> hash \<Rightarrow> string \<Rightarrow> ussd_request \<Rightarrow> 'r \<Rightarrow> submission option \<times> 'r" where
  "ussd_channel R sha salt q s =
     (case q of
        Request sid phone txt \<Rightarrow> snd (ussd_handle R sha salt sid phone txt s)
      | Expire sid \<Rightarrow> (None, r_del R (SK sid) s))"

definition vote_effect :: "'r redis \<Rightarrow> submission option \<Rightarrow> 'r \<Rightarrow> 'r \<Rightarrow> bool" where
  "vote_effect R v s s' \<longleftrightarrow>
     (case v of
        None \<Rightarrow> spent_in R s' = spent_in R s
      | Some w \<Rightarrow> sub_nullifier w \<notin> spent_in R s \<and>
                  spent_in R s' = insert (sub_nullifier w) (spent_in R s))"

context redis_store
begin

lemma spent_save [simp]: "spent_in R (save_session R sid x s) = spent_in R s"
  by (simp add: spent_in_def save_session_def sis_setex)

lemma spent_del [simp]: "spent_in R (r_del R (SK sid) s) = spent_in R s"
  by (simp add: spent_in_def sis_del)

lemma spent_sadd [simp]: "spent_in R (r_sadd R NULLIFIERS_KEY n s) = insert n (spent_in R s)"
  by (auto simp: spent_in_def sis_sadd)

lemma confirm_vote_effect:
  "confirm_vote R sha salt sid phone pid inp s = (r, v, s') \<Longrightarrow> vote_effect R v s s'"
  by (auto simp: confirm_vote_def Let_def vote_effect_def split: if_splits)
    (simp_all add: spent_in_def)

lemma dispatch_effect:
  "dispatch R sha salt sid phone x parts s = (r, v, s') \<Longrightarrow> vote_effect R v s s'"
  by (auto simp: dispatch_def select_policy_def select_option_def Let_def
      split: if_splits option.splits slot.splits intro: confirm_vote_effect)
    (auto simp: vote_effect_def)

lemma ussd_handle_effect:
  "ussd_handle R sha salt sid phone txt s = (r, v, s') \<Longrightarrow> vote_effect R v s s'"
  using dispatch_effect
  by (fastforce simp: ussd_handle_def Let_def vote_effect_def split: sum.splits prod.splits option.splits)

lemma ussd_channel_effect: "ussd_channel R sha salt q s = (v, s') \<Longrightarrow> vote_effect R v s s'"
  by (cases q; simp add: ussd_channel_def)
    (metis prod.collapse ussd_handle_effect, auto simp: vote_effect_def)

end

sublocale redis_store \<subseteq> ussd: vote_channel "ussd_channel R sha salt" "spent_in R" sub_nullifier
  for sha salt
  by unfold_locales (auto dest: ussd_channel_effect simp: vote_effect_def)

context redis_store
begin

lemma confirm_vote_wf:
  assumes "wf_store R s" "wf_session x" "policyId x = Some pid" "step x = 2"
  shows "confirm_vote R sha salt sid phone pid inp s = (r, v, s') \<Longrightarrow>
    wf_store R s' \<and> case_option True (valid_submission sha salt phone) v"
proof -
  obtain b opt where "b \<in> set POLICY_IDS" "opt \<in> set accepted_options" "pid = b @ '':'' @ opt"
    using assms by (auto simp: wf_session_def)
  then show "confirm_vote R sha salt sid phone pid inp s = (r, v, s') \<Longrightarrow>
    wf_store R s' \<and> case_option True (valid_submission sha salt phone) v"
    using assms(1) split_choice [of b opt]
    by (auto simp: confirm_vote_def Let_def valid_submission_def split: if_splits
        intro!: wf_store_intros)
qed

lemma dispatch_wf:
  assumes "wf_store R s" "wf_session x"
    and d: "dispatch R sha salt sid phone x parts s = (r, v, s')"
  shows "wf_store R s' \<and> case_option True (valid_submission sha salt phone) v"
proof (cases "policyId x")
  case None
  then show ?thesis
    using d assms by (auto simp: dispatch_def split: if_splits intro: wf_store_del dest: select_policy_wf)
next
  case (Some pid)
  then have "pid \<noteq> []" "step x = 1 \<or> step x = 2"
    using assms(2) POLICY_IDS_no_colon by (auto simp: wf_session_def)
  with Some d show ?thesis
    using assms(1)
    by (auto simp: dispatch_def split: if_splits intro: wf_store_del
        dest!: select_option_wf [OF assms(1,2) Some] confirm_vote_wf [OF assms(1,2) Some])
qed

lemma ussd_handle_wf:
  assumes "wf_store R s" "ussd_handle R sha salt sid phone txt s = (r, v, s')"
  shows "(\<exists>reply. r = Inr reply) \<and> wf_store R s' \<and> case_option True (valid_submission sha salt phone) v"
proof -
  obtain so where so: "get_session R sid s = Inr so" "case_option True wf_session so"
    using get_session_wf [OF assms(1)] .
  define x where "x = (case so of None \<Rightarrow> new_session | Some y \<Rightarrow> y)"
  have x: "wf_session x" using so(2) wf_new_session by (simp add: x_def split: option.splits)
  then have "wf_store R (save_session R sid x s)" using assms(1) wf_store_save by blast
  from dispatch_wf [OF this x] show ?thesis
    using assms(2) so(1) by (auto simp: ussd_handle_def Let_def x_def [symmetric] split: prod.splits)
qed

end
section \<open>Sessions and replies\<close>

context redis_store
begin

lemma r_get_save [simp]:
  "r_get R (SK sid) (save_session R sid x s) = Some (stringify (session_json x))"
  by (simp add: save_session_def get_setex)

lemma get_session_None: "r_get R (SK sid) s = None \<Longrightarrow> get_session R sid s = Inr None"
  by (simp add: get_session_def)

lemma dispatch_lifecycle:
  assumes "wf_session x" "r_get R (SK sid) s \<noteq> None"
    and "dispatch R sha salt sid phone x parts s = (r, v, s')"
  shows "cont r \<longleftrightarrow> r_get R (SK sid) s' \<noteq> None"
  using assms POLICY_IDS_no_colon [of "[]"]
  by (auto simp: dispatch_def select_policy_def select_option_def confirm_vote_def Let_def
      con_def fin_def get_del wf_session_def split: if_splits option.splits slot.splits)

lemma handle_of_session:
  assumes "get_session R sid s = Inr so"
  shows "ussd_handle R sha salt sid phone txt s =
    (let x = case_option new_session (\<lambda>y. y) so
     in apfst Inr (dispatch R sha salt sid phone x (filter (\<lambda>w. w \<noteq> []) (split_on (CHR ''*'') txt))
                     (save_session R sid x s)))"
  using assms by (simp add: ussd_handle_def Let_def split: prod.split)

lemma ussd_handle_lifecycle:
  assumes "wf_store R s" "ussd_handle R sha salt sid phone txt s = (Inr r, v, s')"
  shows "cont r \<longleftrightarrow> r_get R (SK sid) s' \<noteq> None"
proof -
  obtain so where so: "get_session R sid s = Inr so" "case_option True wf_session so"
    using get_session_wf [OF assms(1)] .
  define x where "x = case_option new_session (\<lambda>y. y) so"
  have x: "wf_session x" using so(2) wf_new_session by (simp add: x_def split: option.splits)
  have d: "dispatch R sha salt sid phone x (filter (\<lambda>w. w \<noteq> []) (split_on (CHR ''*'') txt))
      (save_session R sid x s) = (r, v, s')"
    using assms(2)
    by (auto simp: handle_of_session [OF so(1)] Let_def apfst_def map_prod_def x_def split: prod.splits)
  show ?thesis by (rule dispatch_lifecycle [OF x _ d]) simp
qed

text \<open>The three requests of a complete dialogue.\<close>

lemma dialog_choose:
  assumes "r_get R (SK sid) s = None" "i < 5"
  shows "ussd_handle R sha salt sid phone (nat_str (i + 1)) s =
    (Inr (con (pol_title (POLICIES ! i) @ nl @ nl @ ''1. Support'' @ nl @ ''2. Oppose'' @ nl @
               ''3. Abstain'' @ nl @ ''#. Cancel'')), None,
     save_session R sid \<lparr>step = 1, policyIndex = 0, policyId = Some (pol_id (POLICIES ! i))\<rparr>
       (save_session R sid new_session s))"
proof -
  have "i = 0 \<or> i = 1 \<or> i = 2 \<or> i = 3 \<or> i = 4" using assms(2) by presburger
  then have i: "nat_str (i + 1) = [digit_char (i + 1)] \<and> split_on (CHR ''*'') (nat_str (i + 1)) = [[digit_char (i + 1)]]
    \<and> [digit_char (i + 1)] \<noteq> ''#'' \<and> [digit_char (i + 1)] \<noteq> ''0'' \<and> digit_char (i + 1) \<noteq> CHR ''*'' \<and>
      parse_int [digit_char (i + 1)] = Some (int i + 1)"
    by (elim disjE) (simp_all add: nat_str.simps digit_char_def parse_int_def is_space_def code_def
        parse_digits_def is_digit_def digits_val_def digit_val_def)
  then show ?thesis
    using assms
    by (simp add: handle_of_session [OF get_session_None [OF assms(1)]] dispatch_def select_policy_def
        policy_at_def new_session_def Let_def)
qed

lemma dialog_option:
  assumes "get_session R sid s = Inr (Some \<lparr>step = 1, policyIndex = j, policyId = Some pid\<rparr>)"
    and pid: "pid \<in> set POLICY_IDS"
    and parts: "last (filter (\<lambda>w. w \<noteq> []) (split_on (CHR ''*'') txt)) = inp"
    "filter (\<lambda>w. w \<noteq> []) (split_on (CHR ''*'') txt) \<noteq> []"
    and inp: "obj_get option_map inp \<noteq> Undefined"
  shows "\<exists>r. cont r \<and> ussd_handle R sha salt sid phone txt s =
    (Inr r, None,
     save_session R sid
       \<lparr>step = 2, policyIndex = j, policyId = Some (pid @ '':'' @ slot_text (obj_get option_map inp))\<rparr>
       (save_session R sid \<lparr>step = 1, policyIndex = j, policyId = Some pid\<rparr> s))"
proof -
  have "pid \<noteq> []" "hd (split_on (CHR '':'') pid) = pid"
    using POLICY_IDS_no_colon [OF pid] by (simp_all add: split_on_no_sep)
  moreover have "inp \<noteq> ''#''" using inp by (auto simp: obj_get_def option_map_def object_prototype_def)
  ultimately show ?thesis
    using inp parts
    by (cases "obj_get option_map inp")
      (simp_all add: handle_of_session [OF assms(1)] dispatch_def select_option_def Let_def con_def)
qed

lemma dialog_confirm:
  assumes "get_session R sid s = Inr (Some \<lparr>step = 2, policyIndex = j, policyId = Some (pid @ '':'' @ opt)\<rparr>)"
    and "pid \<in> set POLICY_IDS" "opt \<in> set accepted_options"
    and parts: "last (filter (\<lambda>w. w \<noteq> []) (split_on (CHR ''*'') txt)) = ''1''"
    "filter (\<lambda>w. w \<noteq> []) (split_on (CHR ''*'') txt) \<noteq> []"
    and fresh: "derive_nullifier sha salt phone pid \<notin> spent_in R s"
  shows "\<exists>s'. ussd_handle R sha salt sid phone txt s =
    (Inr (fin (''Vote recorded!'' @ nl @ ''Receipt: '' @ receipt_code (derive_nullifier sha salt phone pid) @
               nl @ nl @ ''Thank you for participating.'')),
     Some \<lparr>sub_policy = pid, sub_option = Some opt, sub_nullifier = derive_nullifier sha salt phone pid\<rparr>, s')"
proof -
  let ?x = "\<lparr>step = 2, policyIndex = j, policyId = Some (pid @ '':'' @ opt)\<rparr>"
  have "\<not> r_sismember R NULLIFIERS_KEY (derive_nullifier sha salt phone pid) (save_session R sid ?x s)"
    using fresh by (simp add: spent_in_def save_session_def sis_setex)
  then show ?thesis
    using parts split_choice [OF assms(2,3)]
    by (simp add: handle_of_session [OF assms(1)] dispatch_def confirm_vote_def Let_def)
qed

end
section \<open>Interleaved confirmations\<close>

text \<open>
  \<open>handle\<close> awaits \<open>SISMEMBER\<close> and then \<open>SADD\<close>: between the two, Node may run other requests.
  A request that confirms is \<open>Asking\<close>, then has seen its nullifier unspent (\<open>Unspent\<close>), then has
  replied. \<open>confirm_step\<close> is one such step of one of the requests in flight, numbered by \<open>nat\<close>.
\<close>

datatype confirm_phase =
    Asking string string string
  | Unspent string string
  | Rejected
  | Recorded string

inductive confirm_step ::
  "'r redis \<Rightarrow> hash \<Rightarrow> string \<Rightarrow> 'r \<times> (nat \<Rightarrow> confirm_phase) \<Rightarrow> 'r \<times> (nat \<Rightarrow> confirm_phase) \<Rightarrow> bool"
  for R sha salt where
  ask_unspent:
    "ph i = Asking sid phone pid \<Longrightarrow>
     \<not> r_sismember R NULLIFIERS_KEY (derive_nullifier sha salt phone pid) s \<Longrightarrow>
     confirm_step R sha salt (s, ph) (s, ph(i := Unspent sid (derive_nullifier sha salt phone pid)))"
| ask_spent:
    "ph i = Asking sid phone pid \<Longrightarrow>
     r_sismember R NULLIFIERS_KEY (derive_nullifier sha salt phone pid) s \<Longrightarrow>
     confirm_step R sha salt (s, ph) (r_del R (SK sid) s, ph(i := Rejected))"
| record_vote:
    "ph i = Unspent sid n \<Longrightarrow>
     confirm_step R sha salt (s, ph) (r_del R (SK sid) (r_sadd R NULLIFIERS_KEY n s), ph(i := Recorded n))"

inductive_cases confirm_stepE: "confirm_step R sha salt (s, ph) (s', ph')"

text \<open>Run without interruption, the two steps of a request are \<open>confirm_vote\<close>.\<close>

lemma confirm_vote_steps:
  assumes "ph i = Asking sid phone pid" "b = hd (split_on (CHR '':'') pid)"
  shows "confirm_vote R sha salt sid phone pid ''1'' s = (r, v, s') \<Longrightarrow>
     (confirm_step R sha salt)\<^sup>*\<^sup>* (s, ph(i := Asking sid phone b))
       (s', ph(i := (case v of None \<Rightarrow> Rejected | Some w \<Rightarrow> Recorded (sub_nullifier w))))"
proof -
  let ?n = "derive_nullifier sha salt phone b" and ?ph = "ph(i := Asking sid phone b)"
  show "(confirm_step R sha salt)\<^sup>*\<^sup>* (s, ?ph)
       (s', ph(i := (case v of None \<Rightarrow> Rejected | Some w \<Rightarrow> Recorded (sub_nullifier w))))"
    if h: "confirm_vote R sha salt sid phone pid ''1'' s = (r, v, s')"
  proof (cases "r_sismember R NULLIFIERS_KEY ?n s")
    case True
    then have "confirm_step R sha salt (s, ?ph) (r_del R (SK sid) s, ?ph(i := Rejected))"
      by (intro ask_spent [of _ i sid phone b]) simp_all
    with True h assms(2) show ?thesis by (auto simp: confirm_vote_def Let_def)
  next
    case False
    then have "confirm_step R sha salt (s, ?ph) (s, ?ph(i := Unspent sid ?n))"
      by (intro ask_unspent) simp_all
    moreover have "confirm_step R sha salt (s, ?ph(i := Unspent sid ?n))
        (r_del R (SK sid) (r_sadd R NULLIFIERS_KEY ?n s), ?ph(i := Unspent sid ?n, i := Recorded ?n))"
      by (intro record_vote) simp
    ultimately have "(confirm_step R sha salt)\<^sup>*\<^sup>* (s, ?ph)
        (r_del R (SK sid) (r_sadd R NULLIFIERS_KEY ?n s), ?ph(i := Unspent sid ?n, i := Recorded ?n))"
      by (meson converse_rtranclp_into_rtranclp r_into_rtranclp)
    with False h assms(2) show ?thesis by (auto simp: confirm_vote_def Let_def)
  qed
qed

context redis_store
begin

text \<open>The set of spent nullifiers holds every recorded nullifier, and no step forgets one.\<close>

lemma confirm_step_records:
  assumes "confirm_step R sha salt (s, ph) (s', ph')"
  shows "spent_in R s \<subseteq> spent_in R s'"
    and "(\<forall>i n. ph i = Recorded n \<longrightarrow> n \<in> spent_in R s) \<Longrightarrow> ph' i = Recorded n \<Longrightarrow> n \<in> spent_in R s'"
  using assms by (auto elim!: confirm_stepE split: if_splits)

lemma race:
  assumes "ph 0 = Asking a phone pid" "ph 1 = Asking b phone pid"
    and "derive_nullifier sha salt phone pid \<notin> spent_in R s"
  shows "\<exists>s' ph'. (confirm_step R sha salt)\<^sup>*\<^sup>* (s, ph) (s', ph') \<and>
    ph' 0 = Recorded (derive_nullifier sha salt phone pid) \<and>
    ph' 1 = Recorded (derive_nullifier sha salt phone pid)"
proof -
  let ?n = "derive_nullifier sha salt phone pid"
  let ?p1 = "ph(0 := Unspent a ?n)"
  let ?p2 = "?p1(1 := Unspent b ?n)"
  let ?p3 = "?p2(0 := Recorded ?n)"
  let ?s3 = "r_del R (SK a) (r_sadd R NULLIFIERS_KEY ?n s)"
  have n: "\<not> r_sismember R NULLIFIERS_KEY ?n s" using assms(3) by (simp add: spent_in_def)
  have "confirm_step R sha salt (s, ph) (s, ?p1)" using assms(1) n by (intro ask_unspent)
  moreover have "confirm_step R sha salt (s, ?p1) (s, ?p2)" using assms(2) n by (intro ask_unspent) simp_all
  moreover have "confirm_step R sha salt (s, ?p2) (?s3, ?p3)" by (intro record_vote) simp
  moreover have "confirm_step R sha salt (?s3, ?p3)
      (r_del R (SK b) (r_sadd R NULLIFIERS_KEY ?n ?s3), ?p3(1 := Recorded ?n))" by (intro record_vote) simp
  ultimately have run: "(confirm_step R sha salt)\<^sup>*\<^sup>* (s, ph)
      (r_del R (SK b) (r_sadd R NULLIFIERS_KEY ?n ?s3), ?p3(1 := Recorded ?n))"
    by (meson converse_rtranclp_into_rtranclp r_into_rtranclp)
  show ?thesis by (rule exI, rule exI, rule conjI, rule run) simp
qed

lemma ussd_run_once:
  "run_channel (ussd_channel R sha salt) qs s = (vs, t) \<Longrightarrow>
     distinct (map sub_nullifier vs) \<and> sub_nullifier ` set vs \<inter> spent_in R s = {} \<and>
     spent_in R t = spent_in R s \<union> sub_nullifier ` set vs"
  by (rule ussd.run_once)

end

context redis_store
begin

lemma accepted_input:
  assumes "obj_get option_map inp \<noteq> Undefined"
  shows "CHR ''*'' \<notin> set inp \<and> inp \<noteq> []"
proof -
  have "inp \<in> fst ` set option_map \<union> fst ` set object_prototype"
    using assms by (auto simp: obj_get_def split: option.splits dest!: map_of_SomeD) force+
  then show ?thesis by (auto simp: option_map_def object_prototype_def)
qed

lemma nat_str_no_star: "CHR ''*'' \<notin> set (nat_str n)"
  using nat_str_digits [of n] by (auto simp: list_all_iff is_digit_def code_def)

lemma dialog_complete:
  assumes s: "r_get R (SK sid) s = None" "i < 5"
    and inp: "obj_get option_map inp \<noteq> Undefined"
    and fresh: "derive_nullifier sha salt phone (pol_id (POLICIES ! i)) \<notin> spent_in R s"
  shows "\<exists>r1 s1 r2 s2 r3 s3.
    ussd_handle R sha salt sid phone (nat_str (i + 1)) s = (Inr r1, None, s1) \<and> cont r1 \<and>
    ussd_handle R sha salt sid phone (nat_str (i + 1) @ ''*'' @ inp) s1 = (Inr r2, None, s2) \<and> cont r2 \<and>
    ussd_handle R sha salt sid phone (nat_str (i + 1) @ ''*'' @ inp @ ''*1'') s2 =
      (Inr r3, Some \<lparr>sub_policy = pol_id (POLICIES ! i),
                     sub_option = Some (slot_text (obj_get option_map inp)),
                     sub_nullifier = derive_nullifier sha salt phone (pol_id (POLICIES ! i))\<rparr>, s3) \<and>
    \<not> cont r3"
proof -
  let ?p = "pol_id (POLICIES ! i)" and ?opt = "slot_text (obj_get option_map inp)"
  let ?x1 = "\<lparr>step = 1, policyIndex = 0, policyId = Some ?p\<rparr>"
  let ?x2 = "\<lparr>step = 2, policyIndex = 0, policyId = Some (?p @ '':'' @ ?opt)\<rparr>"
  let ?t2 = "nat_str (i + 1) @ ''*'' @ inp" and ?t3 = "nat_str (i + 1) @ ''*'' @ inp @ ''*1''"
  have p: "?p \<in> set POLICY_IDS" using s(2) by (simp add: POLICY_IDS_def)
  have opt: "?opt \<in> set accepted_options" using inp by (rule slot_text_accepted)
  have x: "wf_session ?x1" "wf_session ?x2" using p opt by (auto simp: wf_session_def)
  have split: "split_on (CHR ''*'') ?t2 = [nat_str (i + 1), inp]"
    "split_on (CHR ''*'') ?t3 = [nat_str (i + 1), inp, ''1'']" and inp': "inp \<noteq> []"
    using accepted_input [OF inp] nat_str_no_star by (simp_all add: split_on_append split_on_no_sep)
  obtain r1 s1 where 1: "ussd_handle R sha salt sid phone (nat_str (i + 1)) s = (Inr r1, None, s1)" "cont r1"
    "get_session R sid s1 = Inr (Some ?x1)" "spent_in R s1 = spent_in R s"
    using dialog_choose [OF s, of sha salt phone] get_saved [OF x(1)] by (auto simp: con_def)
  obtain r2 s2 where 2: "ussd_handle R sha salt sid phone ?t2 s1 = (Inr r2, None, s2)" "cont r2"
    "get_session R sid s2 = Inr (Some ?x2)" "spent_in R s2 = spent_in R s"
    using dialog_option [OF 1(3) p _ _ inp, of "?t2" sha salt phone] split(1) inp' 1(4) get_saved [OF x(2)]
    by auto
  obtain r3 s3 where 3: "ussd_handle R sha salt sid phone ?t3 s2 =
    (Inr r3, Some \<lparr>sub_policy = ?p, sub_option = Some ?opt, sub_nullifier = derive_nullifier sha salt phone ?p\<rparr>, s3)"
    "\<not> cont r3"
    using dialog_confirm [OF 2(3) p opt, of "?t3" sha salt phone] split(2) inp' 2(4) fresh
    by (auto simp: fin_def)
  show ?thesis using 1(1,2) 2(1,2) 3 by blast
qed
end

section \<open>Properties\<close>

text \<open>
  C10: Whatever the requests and expiries, in whatever order they are served one after the other, no
  nullifier (so no phone number on one policy) is submitted twice, none that was spent before is
  submitted again, and the spent nullifiers grow by exactly the submitted ones.
\<close>

theorem ussd_one_vote:
  assumes "redis_store R" "run_channel (ussd_channel R sha salt) qs s = (vs, t)"
  shows "distinct (map sub_nullifier vs) \<and> sub_nullifier ` set vs \<inter> spent_in R s = {} \<and>
    spent_in R t = spent_in R s \<union> sub_nullifier ` set vs"
  using assms by (rule redis_store.ussd_run_once)
theorem ussd_one_vote_witness:
  "\<exists>vs t. run_channel (ussd_channel redis_mem (\<lambda>x. x) ''s'')
      [Request ''a'' ''+1'' (nat_str (2 + 1)), Request ''a'' ''+1'' (nat_str (2 + 1) @ ''*'' @ ''3''),
       Request ''a'' ''+1'' (nat_str (2 + 1) @ ''*'' @ ''3'' @ ''*1'')] mem_empty = (vs, t) \<and>
    length vs = 1 \<and> distinct (map sub_nullifier vs) \<and>
    spent_in redis_mem t = spent_in redis_mem mem_empty \<union> sub_nullifier ` set vs"
proof -
  obtain v t where run: "run_channel (ussd_channel redis_mem (\<lambda>x. x) ''s'')
      [Request ''a'' ''+1'' (nat_str (2 + 1)), Request ''a'' ''+1'' (nat_str (2 + 1) @ ''*'' @ ''3''),
       Request ''a'' ''+1'' (nat_str (2 + 1) @ ''*'' @ ''3'' @ ''*1'')] mem_empty = ([v], t)"
    using mem.dialog_complete [of "''a''" mem_empty 2 "''3''" "\<lambda>x. x" "''s''" "''+1''"]
    by (auto simp: ussd_channel_def spent_in_def redis_mem_def mem_empty_def obj_get_def option_map_def)
  show ?thesis
    using run ussd_one_vote [OF mem.redis_store_axioms run] by (intro exI [of _ "[v]"] exI [of _ t]) simp
qed



text \<open>
  The complete dialogue works: a caller without a session who picks the i-th policy, then an
  accepted option, then confirms, has the vote recorded (if the nullifier was not spent) with the
  receipt of its nullifier, and the session is gone.
\<close>

theorem ussd_dialog:
  assumes R: "redis_store R"
    and s: "r_get R (SK sid) s = None" "i < 5"
    and inp: "obj_get option_map inp \<noteq> Undefined"
    and fresh: "derive_nullifier sha salt phone (pol_id (POLICIES ! i)) \<notin> spent_in R s"
  shows "\<exists>r1 s1 r2 s2 r3 s3.
    ussd_handle R sha salt sid phone (nat_str (i + 1)) s = (Inr r1, None, s1) \<and> cont r1 \<and>
    ussd_handle R sha salt sid phone (nat_str (i + 1) @ ''*'' @ inp) s1 = (Inr r2, None, s2) \<and> cont r2 \<and>
    ussd_handle R sha salt sid phone (nat_str (i + 1) @ ''*'' @ inp @ ''*1'') s2 =
      (Inr r3, Some \<lparr>sub_policy = pol_id (POLICIES ! i),
                     sub_option = Some (slot_text (obj_get option_map inp)),
                     sub_nullifier = derive_nullifier sha salt phone (pol_id (POLICIES ! i))\<rparr>, s3) \<and>
    \<not> cont r3"
  using assms by (rule redis_store.dialog_complete)


theorem ussd_dialog_witness:
  "\<exists>r1 s1 r2 s2 r3 s3.
    ussd_handle redis_mem (\<lambda>x. x) ''s'' ''a'' ''+1'' (nat_str (2 + 1)) mem_empty = (Inr r1, None, s1) \<and> cont r1 \<and>
    ussd_handle redis_mem (\<lambda>x. x) ''s'' ''a'' ''+1'' (nat_str (2 + 1) @ ''*'' @ ''3'') s1 = (Inr r2, None, s2) \<and>
    cont r2 \<and>
    ussd_handle redis_mem (\<lambda>x. x) ''s'' ''a'' ''+1'' (nat_str (2 + 1) @ ''*'' @ ''3'' @ ''*1'') s2 =
      (Inr r3, Some \<lparr>sub_policy = pol_id (POLICIES ! 2),
                     sub_option = Some (slot_text (obj_get option_map ''3'')),
                     sub_nullifier = derive_nullifier (\<lambda>x. x) ''s'' ''+1'' (pol_id (POLICIES ! 2))\<rparr>, s3) \<and>
    \<not> cont r3"
  by (rule ussd_dialog [OF mem.redis_store_axioms])
    (simp_all add: spent_in_def redis_mem_def mem_empty_def obj_get_def option_map_def)

text \<open>
  The option check \<open>optionMap[last]\<close> also finds what \<open>Object.prototype\<close> has: answering
  ``constructor'' to the option prompt is accepted, and confirming it submits a vote whose option is the
  text of a JavaScript function, not one of the three options.
\<close>

theorem ussd_inherited_option:
  assumes R: "redis_store R" and s: "r_get R (SK sid) s = None" "i < 5"
    and fresh: "derive_nullifier sha salt phone (pol_id (POLICIES ! i)) \<notin> spent_in R s"
  shows "\<exists>s1 s2 s3 v.
    snd (ussd_handle R sha salt sid phone (nat_str (i + 1)) s) = (None, s1) \<and>
    snd (ussd_handle R sha salt sid phone (nat_str (i + 1) @ ''*constructor'') s1) = (None, s2) \<and>
    snd (ussd_handle R sha salt sid phone (nat_str (i + 1) @ ''*constructor*1'') s2) = (Some v, s3) \<and>
    sub_option v = Some ''function Object() { [native code] }'' \<and> the (sub_option v) \<notin> snd ` set option_map"
proof -
  have c: "obj_get option_map ''constructor'' = Inherited ''function Object() { [native code] }''"
    by (simp add: obj_get_def option_map_def object_prototype_def native_fn_def)
  then show ?thesis
    using redis_store.dialog_complete [OF R s _ fresh, of "''constructor''"]
    by (fastforce simp: slot_text_def option_map_def)
qed

theorem ussd_inherited_option_witness:
  "\<exists>s1 s2 s3 v.
    snd (ussd_handle redis_mem (\<lambda>x. x) ''s'' ''a'' ''+1'' (nat_str (0 + 1)) mem_empty) = (None, s1) \<and>
    snd (ussd_handle redis_mem (\<lambda>x. x) ''s'' ''a'' ''+1'' (nat_str (0 + 1) @ ''*constructor'') s1) = (None, s2) \<and>
    snd (ussd_handle redis_mem (\<lambda>x. x) ''s'' ''a'' ''+1'' (nat_str (0 + 1) @ ''*constructor*1'') s2) = (Some v, s3) \<and>
    sub_option v = Some ''function Object() { [native code] }'' \<and> the (sub_option v) \<notin> snd ` set option_map"
  by (rule ussd_inherited_option [OF mem.redis_store_axioms])
    (simp_all add: spent_in_def redis_mem_def mem_empty_def)

text \<open>
  The check and the record of a nullifier are two steps: two sessions of one caller that confirm
  the same policy at the same time can both pass the check and both have their vote recorded.
\<close>

theorem ussd_confirm_race:
  assumes "redis_store R" "ph 0 = Asking a phone pid" "ph 1 = Asking b phone pid"
    and "derive_nullifier sha salt phone pid \<notin> spent_in R s"
  shows "\<exists>s' ph'. (confirm_step R sha salt)\<^sup>*\<^sup>* (s, ph) (s', ph') \<and>
    ph' 0 = Recorded (derive_nullifier sha salt phone pid) \<and>
    ph' 1 = Recorded (derive_nullifier sha salt phone pid)"
  using assms by (rule redis_store.race)

theorem ussd_confirm_race_witness:
  "\<exists>s' ph'. (confirm_step redis_mem (\<lambda>x. x) ''s'')\<^sup>*\<^sup>*
      (mem_empty, \<lambda>i. Asking (if i = 0 then ''a'' else ''b'') ''+1'' ''pol-001'') (s', ph') \<and>
    ph' 0 = Recorded (derive_nullifier (\<lambda>x. x) ''s'' ''+1'' ''pol-001'') \<and>
    ph' 1 = Recorded (derive_nullifier (\<lambda>x. x) ''s'' ''+1'' ''pol-001'')"
  by (rule ussd_confirm_race [OF mem.redis_store_axioms])
    (simp_all add: spent_in_def redis_mem_def mem_empty_def)

end
