(* ===== verification/Sms.thy ===== *)
theory Sms
  imports Ussd
begin

text \<open>
  The SMS channel: \<open>sms/SMSVoteService.ts\<close> and its Twilio webhook \<open>routes/sms.ts\<close>. \<open>sms_handle\<close> is
  \<open>handleInbound\<close>; the spent nullifiers are the Redis set \<open>sms:nullifiers\<close>. Sending a reply by
  Twilio's client (\<open>sendReply\<close>) and Twilio's signature check are outside the model; the check's
  verdict is an argument of the route.
\<close>

section \<open>Model\<close>

definition SMS_NULLIFIERS_KEY :: string where "SMS_NULLIFIERS_KEY = ''sms:nullifiers''"

definition extract_country_code :: "string \<Rightarrow> string" where
  "extract_country_code n =
     (if starts_with n ''+44'' then ''GB''
      else if starts_with n ''+1'' then ''US''
      else if starts_with n ''+91'' then ''IN''
      else if starts_with n ''+234'' then ''NG''
      else if starts_with n ''+254'' then ''KE''
      else if starts_with n ''+27'' then ''ZA''
      else ''UNKNOWN'')"

definition sms_option_map :: "(string \<times> string) list" where
  "sms_option_map =
     [(''SUPPORT'', ''option-support''), (''OPPOSE'', ''option-oppose''), (''ABSTAIN'', ''option-abstain'')]"

definition sms_nullifier :: "hash \<Rightarrow> string \<Rightarrow> string \<Rightarrow> string \<Rightarrow> string" where
  "sms_nullifier sha salt phone pid = ''0x'' @ sha (phone @ pid @ salt)"

definition submit_to_chain :: "hash \<Rightarrow> string \<Rightarrow> string \<Rightarrow> string \<Rightarrow> string" where
  "submit_to_chain sha n pid oid = ''0x'' @ sha (n @ pid @ oid)"

definition help_text :: string where
  "help_text =
     join nl
       [''TheVoteApp SMS Voting'',
        ''---------------------'',
        ''VOTE <policyId> SUPPORT|OPPOSE|ABSTAIN'',
        ''VERIFY <txHash>'',
        ''HELP '' @ [CHR 0xE2, CHR 0x80, CHR 0x94] @ '' show this message'',
        [],
        ''Your number is never stored.'',
        ''One vote per policy per number.'']"

definition handle_verify :: "string \<Rightarrow> string" where
  "handle_verify tx = ''Checking TX '' @ slice 0 12 tx @ ''... Visit the app for full verification details.''"

definition handle_vote ::
  "'r redis \<Rightarrow> hash \<Rightarrow> string \<Rightarrow> string \<Rightarrow> string \<Rightarrow> string \<Rightarrow> 'r \<Rightarrow> string \<times> submission option \<times> 'r" where
  "handle_vote R sha salt phone pid raw s =
     (case obj_get sms_option_map raw of
        Undefined \<Rightarrow>
          (''Unknown option \"'' @ raw @ ''\". Use SUPPORT, OPPOSE, or ABSTAIN.'', None, s)
      | v \<Rightarrow>
          (let oid = slot_text v; n = sms_nullifier sha salt phone pid
           in if r_sismember R SMS_NULLIFIERS_KEY n s
              then (''You have already voted on '' @ pid @ ''. Each number may vote once.'', None, s)
              else (let tx = submit_to_chain sha n pid oid
                    in (''Vote recorded! TX: '' @ slice 0 18 tx @ ''... Reply VERIFY '' @ tx @ '' to confirm.'',
                        Some \<lparr>sub_policy = pid, sub_option = Some oid, sub_nullifier = n\<rparr>,
                        r_sadd R SMS_NULLIFIERS_KEY n s))))"

text \<open>\<open>allowed\<close> is the configured list of country codes; the constructor upper-cases it.\<close>

definition sms_handle ::
  "'r redis \<Rightarrow> hash \<Rightarrow> string \<Rightarrow> string list \<Rightarrow> string \<Rightarrow> string \<Rightarrow> 'r
     \<Rightarrow> string \<times> submission option \<times> 'r" where
  "sms_handle R sha salt allowed phone txt s =
     (let codes = map to_upper allowed; parts = split_spaces (to_upper (trim txt)); cmd = hd parts
      in if codes \<noteq> [] \<and> extract_country_code phone \<notin> set codes
         then (''Voting via SMS is not available in your region.'', None, s)
         else if cmd = ''HELP'' then (help_text, None, s)
         else if cmd = ''VERIFY'' \<and> 2 \<le> length parts \<and> parts ! 1 \<noteq> []
         then (handle_verify (parts ! 1), None, s)
         else if cmd = ''VOTE'' \<and> 3 \<le> length parts
         then handle_vote R sha salt phone (parts ! 1) (parts ! 2) s
         else (''Unrecognised command. Text HELP for instructions.'', None, s))"

section \<open>The webhook\<close>

definition replace_all :: "char \<Rightarrow> string \<Rightarrow> string \<Rightarrow> string" where
  "replace_all c t s = concat (map (\<lambda>x. if x = c then t else [x]) s)"

definition escape_xml :: "string \<Rightarrow> string" where
  "escape_xml s =
     replace_all (CHR 0x27) ''&apos;''
       (replace_all (CHR 0x22) ''&quot;''
         (replace_all (CHR ''>'') ''&gt;''
           (replace_all (CHR ''<'') ''&lt;''
             (replace_all (CHR ''&'') ''&amp;'' s))))"

definition sms_route ::
  "'r redis \<Rightarrow> hash \<Rightarrow> string \<Rightarrow> string list \<Rightarrow> bool \<Rightarrow> bool \<Rightarrow> string option \<Rightarrow> string option \<Rightarrow> 'r
     \<Rightarrow> response \<times> submission option \<times> 'r" where
  "sms_route R sha salt allowed test_env signature_ok From Body s =
     (if \<not> test_env \<and> \<not> signature_ok then (text_res 403 ''Forbidden'', None, s)
      else if case_option [] (\<lambda>v. v) From = [] \<or> case_option [] (\<lambda>v. v) Body = []
      then (text_res 400 ''<Response></Response>'', None, s)
      else (case sms_handle R sha salt allowed (the From) (the Body) s of
              (reply, v, s') \<Rightarrow>
                (text_res 200 (''<Response><Message>'' @ escape_xml reply @ ''</Message></Response>''), v, s')))"

section \<open>Escaping\<close>

text \<open>The five replacements one after the other are one pass that never escapes twice.\<close>

definition xml_char :: "char \<Rightarrow> string" where
  "xml_char c =
     (if c = CHR ''&'' then ''&amp;''
      else if c = CHR ''<'' then ''&lt;''
      else if c = CHR ''>'' then ''&gt;''
      else if c = CHR 0x22 then ''&quot;''
      else if c = CHR 0x27 then ''&apos;''
      else [c])"

lemma replace_all_append: "replace_all c t (a @ b) = replace_all c t a @ replace_all c t b"
  by (simp add: replace_all_def)

lemma escape_xml_append: "escape_xml (a @ b) = escape_xml a @ escape_xml b"
  by (simp add: escape_xml_def replace_all_append)

lemma escape_xml_char: "escape_xml [c] = xml_char c"
  by (simp add: escape_xml_def replace_all_def xml_char_def)

lemma escape_xml_one_pass: "escape_xml s = concat (map xml_char s)"
proof (induction s)
  case Nil
  then show ?case by (simp add: escape_xml_def replace_all_def)
next
  case (Cons c s)
  then show ?case using escape_xml_append [of "[c]" s] by (simp add: escape_xml_char)
qed

section \<open>One message\<close>

lemma sms_option_own:
  assumes "obj_get sms_option_map (to_upper w) = v" "v \<noteq> Undefined"
  shows "\<exists>opt \<in> set (map snd sms_option_map). v = Own opt"
  using assms object_prototype_not_upper [of w]
  by (force simp: obj_get_def split: option.splits dest: map_of_SomeD)

lemma split_spaces_upper: "split_spaces (to_upper s) = map to_upper (split_spaces s)"
proof -
  have sp: "is_space (upper_char c) = is_space c" for c
    by (auto simp: is_space_def upper_char_def is_lower_def)
  show ?thesis
  proof (induction s)
    case (Cons c s)
    moreover have "s \<noteq> [] \<Longrightarrow> is_space (hd (map upper_char s)) = is_space (hd s)"
      by (cases s) (simp_all add: sp)
    ultimately show ?case by (auto simp: to_upper_def sp split: list.splits)
  qed (simp add: to_upper_def)
qed

definition sms_spent :: "'r redis \<Rightarrow> 'r \<Rightarrow> string set" where
  "sms_spent R s = {n. r_sismember R SMS_NULLIFIERS_KEY n s}"

definition sms_valid :: "hash \<Rightarrow> string \<Rightarrow> string list \<Rightarrow> string \<Rightarrow> submission \<Rightarrow> bool" where
  "sms_valid sha salt allowed phone v \<longleftrightarrow>
     (allowed = [] \<or> extract_country_code phone \<in> set (map to_upper allowed)) \<and>
     (\<exists>opt \<in> set (map snd sms_option_map). sub_option v = Some opt) \<and>
     sub_nullifier v = sms_nullifier sha salt phone (sub_policy v)"

text \<open>A message is a sender and a text.\<close>

definition sms_channel ::
  "'r redis \<Rightarrow> hash \<Rightarrow> string \<Rightarrow> string list \<Rightarrow> string \<times> string \<Rightarrow> 'r \<Rightarrow> submission option \<times> 'r" where
  "sms_channel R sha salt allowed m s = snd (sms_handle R sha salt allowed (fst m) (snd m) s)"

lemma sms_handle_cases:
  assumes "sms_handle R sha salt allowed phone txt s = (r, v, s')"
  shows "v = None \<and> s' = s \<or>
    (\<exists>pid opt. v = Some \<lparr>sub_policy = pid, sub_option = Some opt, sub_nullifier = sms_nullifier sha salt phone pid\<rparr> \<and>
       opt \<in> set (map snd sms_option_map) \<and>
       (allowed = [] \<or> extract_country_code phone \<in> set (map to_upper allowed)) \<and>
       \<not> r_sismember R SMS_NULLIFIERS_KEY (sms_nullifier sha salt phone pid) s \<and>
       s' = r_sadd R SMS_NULLIFIERS_KEY (sms_nullifier sha salt phone pid) s)"
proof -
  let ?p = "split_spaces (to_upper (trim txt))"
  have "obj_get sms_option_map (?p ! 2) = w \<Longrightarrow> w \<noteq> Undefined \<Longrightarrow>
      \<exists>opt \<in> set (map snd sms_option_map). w = Own opt" if "3 \<le> length ?p" for w
    using that sms_option_own [of "split_spaces (trim txt) ! 2" w] by (simp add: split_spaces_upper)
  then show ?thesis
    using assms
    by (cases "obj_get sms_option_map (?p ! 2)")
      (auto simp: sms_handle_def handle_vote_def Let_def slot_text_def split: if_splits)
qed

lemma sms_channel_handle:
  "sms_channel R sha salt allowed m s = (v, s') \<Longrightarrow>
     \<exists>r. sms_handle R sha salt allowed (fst m) (snd m) s = (r, v, s')"
  by (metis sms_channel_def prod.collapse)

sublocale redis_store \<subseteq> sms: vote_channel "sms_channel R sha salt allowed" "sms_spent R" sub_nullifier
  for sha salt allowed
  by unfold_locales
    (fastforce dest!: sms_channel_handle sms_handle_cases simp: sms_spent_def sis_sadd)+

context redis_store
begin

lemma sms_run_once:
  "run_channel (sms_channel R sha salt allowed) ms s = (vs, t) \<Longrightarrow>
     distinct (map sub_nullifier vs) \<and> sub_nullifier ` set vs \<inter> sms_spent R s = {} \<and>
     sms_spent R t = sms_spent R s \<union> sub_nullifier ` set vs"
  by (rule sms.run_once)

lemma sms_run_valid:
  "run_channel (sms_channel R sha salt allowed) ms s = (vs, t) \<Longrightarrow> v \<in> set vs \<Longrightarrow>
     \<exists>phone \<in> fst ` set ms. sms_valid sha salt allowed phone v"
proof (induction ms arbitrary: s vs)
  case (Cons m ms)
  obtain w s' where w: "sms_channel R sha salt allowed m s = (w, s')"
    by (cases "sms_channel R sha salt allowed m s")
  obtain vs' u where vs': "run_channel (sms_channel R sha salt allowed) ms s' = (vs', u)"
    by (cases "run_channel (sms_channel R sha salt allowed) ms s'")
  have "w = None \<or> sms_valid sha salt allowed (fst m) (the w)"
    using w by (auto dest!: sms_channel_handle sms_handle_cases simp: sms_valid_def)
  moreover have "u = t" "vs = (case w of None \<Rightarrow> vs' | Some x \<Rightarrow> x # vs')"
    using Cons.prems(1) w vs' by (auto split: option.splits)
  ultimately show ?case
    using Cons.IH [of s' vs'] Cons.prems(2) vs' by (auto split: option.splits)
qed simp

end

section \<open>Properties\<close>

text \<open>
  C12: In any sequence of messages no nullifier votes twice, and every vote submitted comes from a
  sender whose country is permitted, for one of the three options, under the nullifier of that
  sender and the policy.
\<close>

theorem sms_one_vote:
  assumes "redis_store R" "run_channel (sms_channel R sha salt allowed) ms s = (vs, t)"
  shows "distinct (map sub_nullifier vs) \<and> sub_nullifier ` set vs \<inter> sms_spent R s = {} \<and>
    list_all (\<lambda>v. \<exists>phone \<in> fst ` set ms. sms_valid sha salt allowed phone v) vs"
  using redis_store.sms_run_once [OF assms] redis_store.sms_run_valid [OF assms]
  by (simp add: list_all_iff)

theorem sms_one_vote_witness:
  "\<exists>vs t. run_channel (sms_channel redis_mem (\<lambda>x. x) ''s'' [''gb''])
      [(''+447'', ''vote p support''), (''+447'', ''VOTE P OPPOSE''), (''+1'', ''VOTE P OPPOSE'')] mem_empty = (vs, t) \<and>
    length vs = 1 \<and> distinct (map sub_nullifier vs)"
proof -
  let ?run = "run_channel (sms_channel redis_mem (\<lambda>x. x) ''s'' [''gb''])
      [(''+447'', ''vote p support''), (''+447'', ''VOTE P OPPOSE''), (''+1'', ''VOTE P OPPOSE'')] mem_empty"
  have "length (fst ?run) = 1" by code_simp
  moreover have "distinct (map sub_nullifier (fst ?run))"
    by (rule sms_one_vote [OF mem.redis_store_axioms prod.collapse [symmetric], THEN conjunct1])
  ultimately show ?thesis by (metis prod.collapse)
qed

text \<open>
  A nullifier hashes the number and the policy id with nothing between them, and any text is taken
  as a policy id: whoever texts from a number that is a prefix of another number, with the remaining
  digits in front of the policy id, spends the other number's nullifier, and its owner is told that
  they have already voted.
\<close>

theorem sms_nullifier_collision:
  assumes "redis_store R"
    and "handle_vote R sha salt a (d @ pid) ''SUPPORT'' s = (r, Some v, s')"
  shows "handle_vote R sha salt (a @ d) pid ''OPPOSE'' s' =
    (''You have already voted on '' @ pid @ ''. Each number may vote once.'', None, s')"
proof -
  have "sms_nullifier sha salt (a @ d) pid = sms_nullifier sha salt a (d @ pid)"
    by (simp add: sms_nullifier_def)
  moreover have "s' = r_sadd R SMS_NULLIFIERS_KEY (sms_nullifier sha salt a (d @ pid)) s"
    using assms(2) by (auto simp: handle_vote_def Let_def obj_get_def sms_option_map_def split: if_splits)
  ultimately show ?thesis
    using redis_store.sis_sadd [OF assms(1)]
    by (simp add: handle_vote_def Let_def obj_get_def sms_option_map_def)
qed

theorem sms_nullifier_collision_witness:
  "\<exists>r v s'. handle_vote redis_mem (\<lambda>x. x) [] ''+441'' (''2'' @ ''P'') ''SUPPORT'' mem_empty = (r, Some v, s') \<and>
     fst (handle_vote redis_mem (\<lambda>x. x) [] (''+441'' @ ''2'') ''P'' ''OPPOSE'' s') =
       ''You have already voted on '' @ ''P'' @ ''. Each number may vote once.''"
proof -
  let ?h = "handle_vote redis_mem (\<lambda>x. x) [] ''+441'' (''2'' @ ''P'') ''SUPPORT'' mem_empty"
  have "\<exists>v. fst (snd ?h) = Some v"
    by (simp add: handle_vote_def Let_def obj_get_def sms_option_map_def mem_defs)
  then obtain r v s' where h: "?h = (r, Some v, s')" by (metis prod.collapse)
  show ?thesis
    using h sms_nullifier_collision [OF mem.redis_store_axioms h]
    by (intro exI [of _ r] exI [of _ v] exI [of _ s']) (simp only: fst_conv simp_thms)
qed

text \<open>
  The webhook answers with TwiML that no inbound text can break out of: whatever the message, the
  answer to a signed request is the fixed envelope around a text without markup characters or quotes.
\<close>

theorem sms_reply_safe:
  assumes "From = Some (f # fs)" "Body = Some (b # bs)"
  shows "\<exists>m. body (fst (sms_route R sha salt allowed False True From Body s)) =
      Text (''<Response><Message>'' @ m @ ''</Message></Response>'') \<and>
    set m \<inter> {CHR ''<'', CHR ''>'', CHR 0x22, CHR 0x27} = {}"
proof -
  have "set (xml_char c) \<inter> {CHR ''<'', CHR ''>'', CHR 0x22, CHR 0x27} = {}" for c
    by (auto simp: xml_char_def)
  then have "set (escape_xml t) \<inter> {CHR ''<'', CHR ''>'', CHR 0x22, CHR 0x27} = {}" for t
    by (fastforce simp: escape_xml_one_pass)
  with assms show ?thesis
    by (cases "sms_handle R sha salt allowed (f # fs) (b # bs) s") (auto simp: sms_route_def)
qed

theorem sms_reply_safe_witness:
  "\<exists>m. body (fst (sms_route redis_mem (\<lambda>x. x) ''s'' [] False True (Some ''+1'') (Some ''VOTE P <b>'') mem_empty)) =
      Text (''<Response><Message>'' @ m @ ''</Message></Response>'') \<and>
    set m \<inter> {CHR ''<'', CHR ''>'', CHR 0x22, CHR 0x27} = {}"
  by (rule sms_reply_safe) simp_all

end
