(* ===== verification/Tally.thy ===== *)
theory Tally
  imports Http "HOL-Library.Multiset"
begin

text \<open>
  Counting the votes: \<open>services/TallyService.ts\<close> (\<open>getTally\<close> and its cache), the results route of
  \<open>routes/policy.ts\<close> and \<open>services/AnonymityService.ts\<close>. What the chain answers is a parameter: the
  record \<open>rpc\<close> holds the results of the two log queries, either of which may fail. \<open>id_hash\<close> is
  \<open>ethers.id\<close>.
\<close>

section \<open>Model\<close>

record tally =
  policyId :: string
  support :: int
  oppose :: int
  abstain :: int
  total :: int
  lastBlock :: int
  finalized :: bool
  stray :: "string list"

text \<open>
  \<open>stray\<close> lists the further properties, all \<open>NaN\<close>, that \<open>tally[field]++\<close> creates when \<open>field\<close> is not
  one of the counters.
\<close>

record vote_event =
  ev_policy :: string
  ev_nullifier :: string
  ev_option :: string
  ev_block :: int

record rpc =
  votes_of :: "string \<Rightarrow> vote_event list result"
  finals_of :: "string \<Rightarrow> nat result"

definition OPTION_MAP :: "(string \<times> string) list" where
  "OPTION_MAP =
     [(''option-support'', ''support''), (''option-oppose'', ''oppose''), (''option-abstain'', ''abstain'')]"

definition empty_tally :: "string \<Rightarrow> tally" where
  "empty_tally pid =
     \<lparr>policyId = pid, support = 0, oppose = 0, abstain = 0, total = 0, lastBlock = 0, finalized = False,
      stray = []\<rparr>"

definition bump :: "string \<Rightarrow> tally \<Rightarrow> tally" where
  "bump field t =
     (if field = ''support'' then t\<lparr>support := support t + 1\<rparr>
      else if field = ''oppose'' then t\<lparr>oppose := oppose t + 1\<rparr>
      else if field = ''abstain'' then t\<lparr>abstain := abstain t + 1\<rparr>
      else t\<lparr>stray := List.insert field (stray t)\<rparr>)"

definition count_option :: "string \<Rightarrow> tally \<Rightarrow> tally" where
  "count_option opt t =
     (case obj_get OPTION_MAP opt of Undefined \<Rightarrow> t | Own f \<Rightarrow> bump f t | Inherited f \<Rightarrow> bump f t)"

definition count_vote :: "string \<Rightarrow> int \<Rightarrow> tally \<Rightarrow> tally" where
  "count_vote opt bn t =
     (let t' = (count_option opt t)\<lparr>total := total t + 1\<rparr>
      in if lastBlock t' < bn then t'\<lparr>lastBlock := bn\<rparr> else t')"

fun tally_loop :: "vote_event list \<Rightarrow> string set \<Rightarrow> tally \<Rightarrow> tally" where
  "tally_loop [] seen t = t"
| "tally_loop (e # es) seen t =
     (if ev_nullifier e \<in> seen then tally_loop es seen t
      else tally_loop es (insert (ev_nullifier e) seen) (count_vote (ev_option e) (ev_block e) t))"

definition compute_tally :: "(string \<Rightarrow> string) \<Rightarrow> rpc \<Rightarrow> string \<Rightarrow> tally result" where
  "compute_tally id_hash c pid =
     bind_result (votes_of c (id_hash pid))
       (\<lambda>events. bind_result (finals_of c (id_hash pid))
         (\<lambda>n. Inr ((tally_loop events {} (empty_tally pid))\<lparr>finalized := 0 < n\<rparr>)))"

record entry =
  cached :: tally
  cachedAt :: int

type_synonym tally_cache = "string \<Rightarrow> entry option"

definition CACHE_TTL_MS :: int where "CACHE_TTL_MS = 30000"

text \<open>\<open>now\<close> and \<open>later\<close> are the two readings of the clock.\<close>

definition get_tally ::
  "(string \<Rightarrow> string) \<Rightarrow> int \<Rightarrow> int \<Rightarrow> rpc \<Rightarrow> string \<Rightarrow> tally_cache \<Rightarrow> tally result \<times> tally_cache" where
  "get_tally id_hash now later c pid m =
     (let fetch = (case compute_tally id_hash c pid of
                     Inl e \<Rightarrow> (Inl e, m)
                   | Inr t \<Rightarrow> (Inr t, m(pid \<mapsto> \<lparr>cached = t, cachedAt = later\<rparr>)))
      in case m pid of
           None \<Rightarrow> fetch
         | Some en \<Rightarrow> if now - cachedAt en < CACHE_TTL_MS then (Inr (cached en), m) else fetch)"

text \<open>One request for a tally: the clock before and after, the chain it would read, the policy.\<close>

record tally_call =
  t_now :: int
  t_later :: int
  t_rpc :: rpc
  t_policy :: string

fun run_tally ::
  "(string \<Rightarrow> string) \<Rightarrow> tally_call list \<Rightarrow> tally_cache \<Rightarrow> tally result list \<times> tally_cache" where
  "run_tally h [] m = ([], m)"
| "run_tally h (q # qs) m =
     (case get_tally h (t_now q) (t_later q) (t_rpc q) (t_policy q) m of
        (r, m') \<Rightarrow> (case run_tally h qs m' of (rs, m'') \<Rightarrow> (r # rs, m'')))"

definition get_all_tallies ::
  "(string \<Rightarrow> string) \<Rightarrow> int \<Rightarrow> int \<Rightarrow> rpc \<Rightarrow> string list \<Rightarrow> tally_cache \<Rightarrow> tally result list \<times> tally_cache" where
  "get_all_tallies h now later c pids m =
     run_tally h (map (\<lambda>p. \<lparr>t_now = now, t_later = later, t_rpc = c, t_policy = p\<rparr>) pids) m"

section \<open>The results route\<close>

definition tally_members :: "tally \<Rightarrow> (string \<times> json) list" where
  "tally_members t =
     [(''policyId'', JStr (policyId t)), (''support'', JNum (support t)), (''oppose'', JNum (oppose t)),
      (''abstain'', JNum (abstain t)), (''total'', JNum (total t)), (''lastBlock'', JNum (lastBlock t)),
      (''finalized'', JBool (finalized t))] @ map (\<lambda>n. (n, JNull)) (stray t)"

definition tally_json :: "tally \<Rightarrow> json" where
  "tally_json t = JObj (tally_members t)"

text \<open>\<open>known\<close> are the ids of the policies of all countries.\<close>

definition policy_results ::
  "(string \<Rightarrow> string) \<Rightarrow> string list \<Rightarrow> int \<Rightarrow> int \<Rightarrow> rpc \<Rightarrow> string \<Rightarrow> tally_cache
     \<Rightarrow> response result \<times> tally_cache" where
  "policy_results h known now later c pid m =
     (if pid \<notin> set known then (Inr (json_res 404 (error_json ''Policy not found'')), m)
      else (case get_tally h now later c pid m of
              (Inl e, m') \<Rightarrow> (Inl e, m')
            | (Inr t, m') \<Rightarrow>
                (Inr (json_res 200 (JObj [(''policyId'', JStr pid), (''tally'', tally_json t)])), m')))"

section \<open>Anonymity\<close>

datatype anonymised =
  Insufficient string js_num int
| Available string tally

text \<open>
  \<open>Insufficient policyId minimumRequired current\<close> withholds the breakdown. The threshold may be \<open>NaN\<close>,
  which \<open>parseInt(process.env.ANONYMITY_K)\<close> gives for a value that is no number.
\<close>

record anonymity =
  default_k :: js_num
  thresholds :: "string \<Rightarrow> js_num option"

definition threshold_for :: "anonymity \<Rightarrow> string option \<Rightarrow> js_num" where
  "threshold_for a cc =
     (case cc of
        None \<Rightarrow> default_k a
      | Some c \<Rightarrow> if c = [] then default_k a
                  else (case thresholds a (to_upper c) of None \<Rightarrow> default_k a | Some k \<Rightarrow> k))"

definition js_less :: "int \<Rightarrow> js_num \<Rightarrow> bool" where
  "js_less n k = (case k of None \<Rightarrow> False | Some i \<Rightarrow> n < i)"

definition anonymise :: "anonymity \<Rightarrow> tally \<Rightarrow> string option \<Rightarrow> anonymised" where
  "anonymise a t cc =
     (let k = threshold_for a cc
      in if js_less (total t) k then Insufficient (policyId t) k (total t)
         else Available (policyId t) (t\<lparr>stray := []\<rparr>))"

definition anonymise_all :: "anonymity \<Rightarrow> tally list \<Rightarrow> string option \<Rightarrow> anonymised list" where
  "anonymise_all a ts cc = map (\<lambda>t. anonymise a t cc) ts"

section \<open>Counting\<close>

text \<open>The events the loop counts: the first one of every nullifier.\<close>

fun first_votes :: "string set \<Rightarrow> vote_event list \<Rightarrow> vote_event list" where
  "first_votes seen [] = []"
| "first_votes seen (e # es) =
     (if ev_nullifier e \<in> seen then first_votes seen es
      else e # first_votes (insert (ev_nullifier e) seen) es)"

definition votes_for :: "string \<Rightarrow> vote_event list \<Rightarrow> int" where
  "votes_for opt es = int (length (filter (\<lambda>e. ev_option e = opt) es))"

definition max_block :: "int \<Rightarrow> vote_event list \<Rightarrow> int" where
  "max_block b es = foldl max b (map ev_block es)"

lemma count_option_other:
  assumes "opt \<notin> fst ` set OPTION_MAP"
  shows "count_option opt t = t \<or> (\<exists>ns. count_option opt t = t\<lparr>stray := ns\<rparr>)"
proof -
  have none: "map_of OPTION_MAP opt = None" using assms by (simp add: map_of_eq_None_iff)
  have inh: "\<forall>f \<in> snd ` set object_prototype. bump f t = t\<lparr>stray := List.insert f (stray t)\<rparr>"
    by (simp add: object_prototype_def native_fn_def bump_def)
  show ?thesis
  proof (cases "map_of object_prototype opt")
    case None
    with none show ?thesis by (simp add: count_option_def obj_get_def)
  next
    case (Some f)
    then have "f \<in> snd ` set object_prototype" by (force dest: map_of_SomeD)
    with inh none Some show ?thesis by (auto simp: count_option_def obj_get_def)
  qed
qed

lemma count_option_own:
  "count_option ''option-support'' t = t\<lparr>support := support t + 1\<rparr>"
  "count_option ''option-oppose'' t = t\<lparr>oppose := oppose t + 1\<rparr>"
  "count_option ''option-abstain'' t = t\<lparr>abstain := abstain t + 1\<rparr>"
  by (simp_all add: count_option_def obj_get_def OPTION_MAP_def bump_def)

lemma count_option_all:
  "count_option opt t =
     t\<lparr>support := support t + (if opt = ''option-support'' then 1 else 0),
       oppose := oppose t + (if opt = ''option-oppose'' then 1 else 0),
       abstain := abstain t + (if opt = ''option-abstain'' then 1 else 0),
       stray := stray (count_option opt t)\<rparr>"
proof (cases "opt \<in> fst ` set OPTION_MAP")
  case True
  then consider "opt = ''option-support''" | "opt = ''option-oppose''" | "opt = ''option-abstain''"
    by (auto simp: OPTION_MAP_def)
  then show ?thesis by cases (simp_all add: count_option_own)
next
  case False
  then have ne: "opt \<noteq> ''option-support''" "opt \<noteq> ''option-oppose''" "opt \<noteq> ''option-abstain''"
    by (auto simp: OPTION_MAP_def)
  show ?thesis using count_option_other [OF False, of t] ne by auto
qed

lemma count_option_simps:
  "support (count_option opt t) = support t + (if opt = ''option-support'' then 1 else 0)"
  "oppose (count_option opt t) = oppose t + (if opt = ''option-oppose'' then 1 else 0)"
  "abstain (count_option opt t) = abstain t + (if opt = ''option-abstain'' then 1 else 0)"
  "total (count_option opt t) = total t" "lastBlock (count_option opt t) = lastBlock t"
  "policyId (count_option opt t) = policyId t" "finalized (count_option opt t) = finalized t"
  by (subst count_option_all, simp)+

lemma count_vote_simps:
  "support (count_vote opt b t) = support t + (if opt = ''option-support'' then 1 else 0)"
  "oppose (count_vote opt b t) = oppose t + (if opt = ''option-oppose'' then 1 else 0)"
  "abstain (count_vote opt b t) = abstain t + (if opt = ''option-abstain'' then 1 else 0)"
  "total (count_vote opt b t) = total t + 1" "lastBlock (count_vote opt b t) = max (lastBlock t) b"
  "policyId (count_vote opt b t) = policyId t" "finalized (count_vote opt b t) = finalized t"
  by (simp_all add: count_vote_def Let_def count_option_simps)

lemma tally_loop_simps:
  "support (tally_loop es seen t) = support t + votes_for ''option-support'' (first_votes seen es)"
  "oppose (tally_loop es seen t) = oppose t + votes_for ''option-oppose'' (first_votes seen es)"
  "abstain (tally_loop es seen t) = abstain t + votes_for ''option-abstain'' (first_votes seen es)"
  "total (tally_loop es seen t) = total t + int (length (first_votes seen es))"
  "lastBlock (tally_loop es seen t) = max_block (lastBlock t) (first_votes seen es)"
  "policyId (tally_loop es seen t) = policyId t" "finalized (tally_loop es seen t) = finalized t"
  by (induction es arbitrary: seen t) (simp_all add: count_vote_simps votes_for_def max_block_def)

lemma first_votes_image: "ev_nullifier ` set (first_votes seen es) = ev_nullifier ` set es - seen"
  by (induction es arbitrary: seen) auto

lemma first_votes_subset: "set (first_votes seen es) \<subseteq> set es"
proof (induction es arbitrary: seen)
  case (Cons e es)
  show ?case using Cons [of seen] Cons [of "insert (ev_nullifier e) seen"] by auto
qed simp

lemma first_votes_distinct: "distinct (map ev_nullifier (first_votes seen es))"
proof (induction es arbitrary: seen)
  case (Cons e es)
  then show ?case using first_votes_image [of "insert (ev_nullifier e) seen" es] by auto
qed simp

lemma length_first_votes: "length (first_votes seen es) = card (ev_nullifier ` set es - seen)"
  by (metis first_votes_image first_votes_distinct distinct_card length_map set_map)


lemma votes_for_le: "votes_for a es \<le> int (length es)"
  by (simp add: votes_for_def)

lemma votes_for_disjoint:
  "a \<noteq> b \<Longrightarrow> a \<noteq> c \<Longrightarrow> b \<noteq> c \<Longrightarrow> votes_for a es + votes_for b es + votes_for c es \<le> int (length es)"
  by (induction es) (auto simp: votes_for_def)

lemma max_block_ge: "b \<le> max_block b es"
  by (induction es arbitrary: b) (auto simp: max_block_def intro: order_trans [OF max.cobounded1])

lemma max_block_Max: "max_block b es = Max (insert b (ev_block ` set es))"
proof (induction es arbitrary: b)
  case (Cons e es)
  have "Max (insert (max b (ev_block e)) (ev_block ` set es)) = Max (insert b (insert (ev_block e) (ev_block ` set es)))"
    by (cases "set es = {}") (simp_all add: max.assoc)
  with Cons [of "max b (ev_block e)"] show ?case by (simp add: max_block_def)
qed (simp add: max_block_def)

text \<open>A log that repeats no nullifier but in copies of the same event.\<close>

definition consistent :: "vote_event list \<Rightarrow> bool" where
  "consistent es \<longleftrightarrow> inj_on ev_nullifier (set es)"

lemma first_votes_consistent: "consistent es \<Longrightarrow> set (first_votes {} es) = set es"
proof -
  assume "consistent es"
  then have inj: "inj_on ev_nullifier (set es)" by (simp add: consistent_def)
  have "ev_nullifier ` set (first_votes {} es) = ev_nullifier ` set es"
    using first_votes_image [of "{}" es] by simp
  then show ?thesis using inj first_votes_subset [of "{}" es] by (simp add: inj_on_image_eq_iff)
qed

lemma votes_for_consistent:
  assumes "consistent es"
  shows "votes_for opt (first_votes {} es) = int (card {e \<in> set es. ev_option e = opt})"
proof -
  have "distinct (first_votes {} es)" using first_votes_distinct distinct_map by blast
  then have "card {e \<in> set (first_votes {} es). ev_option e = opt} =
      length (filter (\<lambda>e. ev_option e = opt) (first_votes {} es))"
    by (metis distinct_card distinct_filter set_filter)
  then show ?thesis using first_votes_consistent [OF assms] by (simp add: votes_for_def)
qed

lemma compute_tally_Inr:
  "compute_tally h c pid = Inr t \<longleftrightarrow>
     (\<exists>es n. votes_of c (h pid) = Inr es \<and> finals_of c (h pid) = Inr n \<and>
        t = (tally_loop es {} (empty_tally pid))\<lparr>finalized := 0 < n\<rparr>)"
  by (auto simp: compute_tally_def bind_result_def split: sum.splits)

section \<open>The cache\<close>

text \<open>Every entry was computed for its policy from a chain state that one of \<open>qs\<close> saw.\<close>

definition cache_from :: "(string \<Rightarrow> string) \<Rightarrow> tally_call list \<Rightarrow> tally_cache \<Rightarrow> bool" where
  "cache_from h qs m \<longleftrightarrow>
     (\<forall>pid en. m pid = Some en \<longrightarrow>
        (\<exists>q \<in> set qs. t_policy q = pid \<and> t_later q = cachedAt en \<and>
           compute_tally h (t_rpc q) pid = Inr (cached en)))"

lemma get_tally_cases:
  assumes "get_tally h now later c pid m = (r, m')"
  shows "m' = m \<and> (\<exists>en. m pid = Some en \<and> now - cachedAt en < CACHE_TTL_MS \<and> r = Inr (cached en)) \<or>
    r = compute_tally h c pid \<and>
      (case r of Inl e \<Rightarrow> m' = m | Inr t \<Rightarrow> m' = m(pid \<mapsto> \<lparr>cached = t, cachedAt = later\<rparr>))"
  using assms by (auto simp: get_tally_def Let_def split: option.splits sum.splits if_splits)

lemma cache_from_step:
  assumes "cache_from h qs m" "get_tally h (t_now q) (t_later q) (t_rpc q) (t_policy q) m = (r, m')"
  shows "cache_from h (qs @ [q]) m'"
  using get_tally_cases [OF assms(2)] assms(1)
  by (fastforce simp: cache_from_def split: sum.splits)

text \<open>An answer is as fresh as the time to live says.\<close>

definition fresh_answer ::
  "(string \<Rightarrow> string) \<Rightarrow> tally_call list \<Rightarrow> tally_call \<Rightarrow> tally result \<Rightarrow> bool" where
  "fresh_answer h qs q r \<longleftrightarrow>
     r = compute_tally h (t_rpc q) (t_policy q) \<or>
     (\<exists>q' \<in> set qs. t_policy q' = t_policy q \<and> t_now q - t_later q' < CACHE_TTL_MS \<and>
        r = compute_tally h (t_rpc q') (t_policy q))"

lemma get_tally_fresh:
  assumes "cache_from h qs m" "get_tally h (t_now q) (t_later q) (t_rpc q) (t_policy q) m = (r, m')"
  shows "fresh_answer h qs q r"
  using get_tally_cases [OF assms(2)] assms(1) by (fastforce simp: cache_from_def fresh_answer_def)

lemma run_tally_fresh:
  "cache_from h ps m \<Longrightarrow> run_tally h qs m = (rs, m') \<Longrightarrow>
     length rs = length qs \<and> (\<forall>i < length qs. fresh_answer h (ps @ take i qs) (qs ! i) (rs ! i))"
proof (induction qs arbitrary: ps m rs m')
  case (Cons q qs)
  obtain r m1 where q: "get_tally h (t_now q) (t_later q) (t_rpc q) (t_policy q) m = (r, m1)" by fastforce
  obtain rs1 m2 where qs: "run_tally h qs m1 = (rs1, m2)" by fastforce
  have rs: "rs = r # rs1" "m' = m2" using Cons.prems(2) q qs by auto
  have "length rs1 = length qs \<and>
      (\<forall>i < length qs. fresh_answer h ((ps @ [q]) @ take i qs) (qs ! i) (rs1 ! i))"
    using Cons.IH [OF cache_from_step [OF Cons.prems(1) q] qs] .
  moreover have "fresh_answer h ps q r" using get_tally_fresh [OF Cons.prems(1) q] .
  ultimately show ?case by (auto simp: rs less_Suc_eq_0_disj)
qed simp

section \<open>Properties\<close>

text \<open>
  C16: A tally counts every nullifier once, whatever the log repeats: the total is the number of
  distinct nullifiers, each counter the number of first votes for its option, the three counters
  never exceed the total, the last block is the largest block counted, and the tally is final
  exactly when a finalisation event exists.
\<close>

theorem tally_counts:
  assumes "compute_tally h c pid = Inr t" "votes_of c (h pid) = Inr es" "finals_of c (h pid) = Inr n"
  shows "total t = int (card (ev_nullifier ` set es)) \<and>
    support t = votes_for ''option-support'' (first_votes {} es) \<and>
    oppose t = votes_for ''option-oppose'' (first_votes {} es) \<and>
    abstain t = votes_for ''option-abstain'' (first_votes {} es) \<and>
    support t + oppose t + abstain t \<le> total t \<and>
    lastBlock t = Max (insert 0 (ev_block ` set (first_votes {} es))) \<and>
    policyId t = pid \<and> (finalized t \<longleftrightarrow> n \<noteq> 0)"
proof -
  have t: "t = (tally_loop es {} (empty_tally pid))\<lparr>finalized := 0 < n\<rparr>"
    using assms by (simp add: compute_tally_def bind_result_def)
  show ?thesis
    using votes_for_disjoint [of "''option-support''" "''option-oppose''" "''option-abstain''" "first_votes {} es"]
    by (simp add: t tally_loop_simps empty_tally_def length_first_votes max_block_Max)
qed

definition demo_rpc :: "vote_event list \<Rightarrow> rpc" where
  "demo_rpc es = \<lparr>votes_of = (\<lambda>h. Inr (filter (\<lambda>e. ev_policy e = h) es)), finals_of = (\<lambda>_. Inr 1)\<rparr>"

definition demo_event :: "string \<Rightarrow> string \<Rightarrow> int \<Rightarrow> vote_event" where
  "demo_event n opt b = \<lparr>ev_policy = ''p'', ev_nullifier = n, ev_option = opt, ev_block = b\<rparr>"

theorem tally_counts_witness:
  "\<exists>t. compute_tally (\<lambda>x. x) (demo_rpc [demo_event ''a'' ''option-support'' 7, demo_event ''b'' ''other'' 9,
       demo_event ''a'' ''option-oppose'' 8]) ''p'' = Inr t \<and> total t = 2 \<and> support t = 1"
proof -
  let ?es = "[demo_event ''a'' ''option-support'' 7, demo_event ''b'' ''other'' 9, demo_event ''a'' ''option-oppose'' 8]"
  let ?t = "(tally_loop ?es {} (empty_tally ''p''))\<lparr>finalized := 0 < (1 :: nat)\<rparr>"
  have c: "compute_tally (\<lambda>x. x) (demo_rpc ?es) ''p'' = Inr ?t"
    by (simp add: compute_tally_def bind_result_def demo_rpc_def demo_event_def)
  have "total ?t = 2 \<and> support ?t = 1"
    using tally_counts [OF c, of ?es 1]
    by (simp add: demo_rpc_def demo_event_def votes_for_def insert_commute)
  with c show ?thesis by blast
qed

text \<open>
  The tally is reproducible: two observers whose logs hold the same events, in any order and
  with any repetitions, compute the same counters, total and last block.
\<close>

theorem tally_reproducible:
  assumes "compute_tally h c pid = Inr t" "compute_tally h c' pid = Inr t'"
    and "votes_of c (h pid) = Inr es" "votes_of c' (h pid) = Inr es'"
    and "consistent es" "set es = set es'"
  shows "support t = support t' \<and> oppose t = oppose t' \<and> abstain t = abstain t' \<and>
    total t = total t' \<and> lastBlock t = lastBlock t'"
proof -
  have c': "consistent es'" using assms(5,6) by (simp add: consistent_def)
  show ?thesis
    using assms(1-4) votes_for_consistent [OF assms(5)] votes_for_consistent [OF c']
      first_votes_consistent [OF assms(5)] first_votes_consistent [OF c'] assms(6)
    by (auto simp: compute_tally_Inr tally_loop_simps empty_tally_def length_first_votes max_block_Max)
qed

theorem tally_reproducible_witness:
  "\<exists>t t'. compute_tally (\<lambda>x. x) (demo_rpc [demo_event ''a'' ''option-oppose'' 7, demo_event ''b'' ''x'' 9]) ''p'' = Inr t \<and>
     compute_tally (\<lambda>x. x) (demo_rpc [demo_event ''b'' ''x'' 9, demo_event ''a'' ''option-oppose'' 7,
        demo_event ''b'' ''x'' 9]) ''p'' = Inr t' \<and> oppose t = oppose t' \<and> total t = total t'"
proof -
  let ?a = "[demo_event ''a'' ''option-oppose'' 7, demo_event ''b'' ''x'' 9]"
  let ?b = "[demo_event ''b'' ''x'' 9, demo_event ''a'' ''option-oppose'' 7, demo_event ''b'' ''x'' 9]"
  obtain t where t: "compute_tally (\<lambda>x. x) (demo_rpc ?a) ''p'' = Inr t"
    by (simp add: compute_tally_def bind_result_def demo_rpc_def)
  obtain t' where t': "compute_tally (\<lambda>x. x) (demo_rpc ?b) ''p'' = Inr t'"
    by (simp add: compute_tally_def bind_result_def demo_rpc_def)
  have "oppose t = oppose t' \<and> total t = total t'"
    using tally_reproducible [OF t t', of ?a ?b]
    by (auto simp: demo_rpc_def demo_event_def consistent_def)
  with t t' show ?thesis by blast
qed

text \<open>
  C17: In any sequence of requests from an empty cache, every answer is the tally of the chain as the
  request itself, or an earlier request for the same policy less than thirty seconds older, saw it;
  a failed query is never cached.
\<close>

theorem tally_cache_fresh:
  assumes "run_tally h qs Map.empty = (rs, m)"
  shows "length rs = length qs \<and> (\<forall>i < length qs. fresh_answer h (take i qs) (qs ! i) (rs ! i))"
  using run_tally_fresh [of h "[]" Map.empty qs rs m] assms by (simp add: cache_from_def)

theorem tally_cache_fresh_witness:
  "\<exists>rs m. run_tally (\<lambda>x. x)
      [\<lparr>t_now = 0, t_later = 5, t_rpc = demo_rpc [], t_policy = ''p''\<rparr>,
       \<lparr>t_now = 30004, t_later = 30005, t_rpc = demo_rpc [demo_event ''a'' ''x'' 1], t_policy = ''p''\<rparr>] Map.empty = (rs, m) \<and>
     rs ! 1 = rs ! 0 \<and> length rs = 2"
proof -
  let ?run = "run_tally (\<lambda>x. x)
      [\<lparr>t_now = 0, t_later = 5, t_rpc = demo_rpc [], t_policy = ''p''\<rparr>,
       \<lparr>t_now = 30004, t_later = 30005, t_rpc = demo_rpc [demo_event ''a'' ''x'' 1], t_policy = ''p''\<rparr>] Map.empty"
  have "length (fst ?run) = 2"
    using tally_cache_fresh [OF prod.collapse [of ?run, symmetric]] by simp
  moreover have "fst ?run ! 1 = fst ?run ! 0"
    by (simp add: get_tally_def Let_def compute_tally_def bind_result_def demo_rpc_def CACHE_TTL_MS_def)
  ultimately show ?thesis by (metis prod.collapse)
qed

text \<open>
  Below the threshold the published result says nothing of how the votes split: any two tallies of
  a policy with the same total give the same result, which shows only the threshold and the total. From
  the threshold on the tally is published unchanged.
\<close>

theorem anonymise_withholds:
  assumes "threshold_for a cc = Some k" "policyId t = policyId u" "total t = total u"
  shows "(total t < k \<longrightarrow>
      anonymise a t cc = anonymise a u cc \<and> anonymise a t cc = Insufficient (policyId t) (Some k) (total t)) \<and>
    (k \<le> total t \<longrightarrow> anonymise a t cc = Available (policyId t) (t\<lparr>stray := []\<rparr>))"
  using assms by (auto simp: anonymise_def js_less_def)

theorem anonymise_withholds_witness:
  "anonymise \<lparr>default_k = Some 5, thresholds = [''NZ'' \<mapsto> Some 10]\<rparr>
      ((empty_tally ''p'')\<lparr>support := 9, total := 9\<rparr>) (Some ''nz'') = Insufficient ''p'' (Some 10) 9 \<and>
   anonymise \<lparr>default_k = Some 5, thresholds = [''NZ'' \<mapsto> Some 10]\<rparr>
      ((empty_tally ''p'')\<lparr>support := 9, total := 9\<rparr>) (Some ''nz'') =
   anonymise \<lparr>default_k = Some 5, thresholds = [''NZ'' \<mapsto> Some 10]\<rparr>
      ((empty_tally ''p'')\<lparr>oppose := 9, total := 9\<rparr>) (Some ''nz'')"
proof -
  let ?a = "\<lparr>default_k = Some 5, thresholds = [''NZ'' \<mapsto> Some 10]\<rparr>"
  have k: "threshold_for ?a (Some ''nz'') = Some 10" by code_simp
  show ?thesis
    using anonymise_withholds [OF k, of "(empty_tally ''p'')\<lparr>support := 9, total := 9\<rparr>"
        "(empty_tally ''p'')\<lparr>oppose := 9, total := 9\<rparr>"]
    by (auto simp: empty_tally_def)
qed

text \<open>
  The results route does not apply the anonymity filter: for a known policy its answer determines
  every counter, however few votes were cast; two chains that get the same answer have the same
  breakdown.
\<close>

theorem policy_results_reveal:
  assumes "pid \<in> set known" "m pid = None"
    and "compute_tally h c pid = Inr t" "compute_tally h c' pid = Inr t'"
    and "fst (policy_results h known now later c pid m) = fst (policy_results h known now later c' pid m)"
  shows "support t = support t' \<and> oppose t = oppose t' \<and> abstain t = abstain t' \<and> total t = total t'"
  using assms
  by (simp add: policy_results_def get_tally_def Let_def json_res_def tally_json_def tally_members_def)

theorem policy_results_reveal_witness:
  "fst (policy_results (\<lambda>x. x) [''p''] 0 0 (demo_rpc [demo_event ''a'' ''option-support'' 1]) ''p'' Map.empty) \<noteq>
   fst (policy_results (\<lambda>x. x) [''p''] 0 0 (demo_rpc [demo_event ''a'' ''option-oppose'' 1]) ''p'' Map.empty)"
proof
  let ?a = "[demo_event ''a'' ''option-support'' 1]" and ?b = "[demo_event ''a'' ''option-oppose'' 1]"
  assume eq: "fst (policy_results (\<lambda>x. x) [''p''] 0 0 (demo_rpc ?a) ''p'' Map.empty) =
    fst (policy_results (\<lambda>x. x) [''p''] 0 0 (demo_rpc ?b) ''p'' Map.empty)"
  obtain t where t: "compute_tally (\<lambda>x. x) (demo_rpc ?a) ''p'' = Inr t" "support t = 1"
    by (simp add: compute_tally_def bind_result_def demo_rpc_def demo_event_def count_vote_simps empty_tally_def)
  obtain t' where t': "compute_tally (\<lambda>x. x) (demo_rpc ?b) ''p'' = Inr t'" "support t' = 0"
    by (simp add: compute_tally_def bind_result_def demo_rpc_def demo_event_def count_vote_simps empty_tally_def)
  show False
    using policy_results_reveal [OF _ _ t(1) t'(1) eq] t(2) t'(2) by simp
qed

text \<open>
  The option ids of the country files (``support'', ``oppose'', ``abstain'') are not the ones the
  tally knows: of a log of votes for those ids every vote enters the total and none enters a counter.
\<close>

theorem tally_config_options_lost:
  assumes "compute_tally h c pid = Inr t" "votes_of c (h pid) = Inr es"
    and "ev_option ` set es \<subseteq> {''support'', ''oppose'', ''abstain''}"
  shows "support t = 0 \<and> oppose t = 0 \<and> abstain t = 0 \<and> total t = int (card (ev_nullifier ` set es))"
proof -
  have "votes_for opt (first_votes {} es) = 0" if "opt \<notin> {''support'', ''oppose'', ''abstain''}" for opt
    using that assms(3) first_votes_subset [of "{}" es] by (auto simp: votes_for_def filter_empty_conv)
  then have z: "votes_for ''option-support'' (first_votes {} es) = 0"
    "votes_for ''option-oppose'' (first_votes {} es) = 0" "votes_for ''option-abstain'' (first_votes {} es) = 0"
    by simp_all
  obtain n where t: "t = (tally_loop es {} (empty_tally pid))\<lparr>finalized := 0 < (n :: nat)\<rparr>"
    using assms(1,2) by (auto simp: compute_tally_Inr)
  show ?thesis by (simp add: t tally_loop_simps z empty_tally_def length_first_votes)
qed

theorem tally_config_options_lost_witness:
  "\<exists>t. compute_tally (\<lambda>x. x) (demo_rpc [demo_event ''a'' ''support'' 1, demo_event ''b'' ''oppose'' 1]) ''p'' = Inr t \<and>
     support t = 0 \<and> oppose t = 0 \<and> total t = 2"
proof -
  let ?es = "[demo_event ''a'' ''support'' 1, demo_event ''b'' ''oppose'' 1]"
  obtain t where t: "compute_tally (\<lambda>x. x) (demo_rpc ?es) ''p'' = Inr t"
    by (simp add: compute_tally_def bind_result_def demo_rpc_def)
  show ?thesis
    using t tally_config_options_lost [OF t, of ?es] by (auto simp: demo_rpc_def demo_event_def)
qed

end
