(* ===== verification/Live_Tally.thy ===== *)
theory Live_Tally
  imports Tally
begin

text \<open>
  The live feed: \<open>services/LiveTallyService.ts\<close> keeps a running tally per tracked policy and
  \<open>services/WSBroadcaster.ts\<close> forwards every update to the subscribed WebSocket clients. Events
  delivered by the provider and messages of clients are the requests of two state machines.
\<close>

section \<open>The running tally\<close>

record live =
  tallies :: "string \<Rightarrow> tally option"
  hash_to_id :: "string \<Rightarrow> string option"
  last_seen :: int

record live_update =
  u_policy :: string
  u_tally :: tally
  u_block :: int

definition live_empty :: live where
  "live_empty = \<lparr>tallies = Map.empty, hash_to_id = Map.empty, last_seen = 0\<rparr>"

definition track_policy :: "(string \<Rightarrow> string) \<Rightarrow> string \<Rightarrow> live \<Rightarrow> live" where
  "track_policy h pid st =
     (let st' = st\<lparr>hash_to_id := (hash_to_id st)(h pid \<mapsto> pid)\<rparr>
      in if tallies st' pid = None
         then st'\<lparr>tallies := (tallies st')(pid \<mapsto> empty_tally pid)\<rparr> else st')"

text \<open>The tally an event is for; an unknown hash, or an empty policy id, has none.\<close>

definition tally_for :: "live \<Rightarrow> string \<Rightarrow> (string \<times> tally) option" where
  "tally_for st ph =
     (case hash_to_id st ph of
        None \<Rightarrow> None
      | Some pid \<Rightarrow> if pid = [] then None else map_option (Pair pid) (tallies st pid))"

definition apply_vote_cast :: "string \<Rightarrow> string \<Rightarrow> int \<Rightarrow> live \<Rightarrow> live_update option \<times> live" where
  "apply_vote_cast ph opt bn st =
     (case tally_for st ph of
        None \<Rightarrow> (None, st)
      | Some (pid, t) \<Rightarrow>
          (let t' = count_vote opt bn t
           in (Some \<lparr>u_policy = pid, u_tally = t', u_block = bn\<rparr>,
               st\<lparr>tallies := (tallies st)(pid \<mapsto> t')\<rparr>)))"

fun catch_up :: "vote_event list \<Rightarrow> live \<Rightarrow> live" where
  "catch_up [] st = st"
| "catch_up (e # es) st =
     catch_up es (snd (apply_vote_cast (ev_policy e) (ev_option e) (ev_block e) st))"

text \<open>
  \<open>start\<close>; \<open>past\<close> answers \<open>queryFilter(VoteCast(), from)\<close>. The subscription to later events is
  the delivery of \<open>on_vote_cast\<close> and \<open>on_policy_finalized\<close>.
\<close>

definition start :: "(int \<Rightarrow> vote_event list result) \<Rightarrow> int \<Rightarrow> live \<Rightarrow> unit result \<times> live" where
  "start past from_block st =
     (let st' = st\<lparr>last_seen := from_block\<rparr>
      in if 0 < from_block
         then (case past from_block of Inl e \<Rightarrow> (Inl e, st') | Inr es \<Rightarrow> (Inr (), catch_up es st'))
         else (Inr (), st'))"

definition on_vote_cast :: "vote_event \<Rightarrow> live \<Rightarrow> live_update option \<times> live" where
  "on_vote_cast e st =
     (if ev_block e \<le> last_seen st then (None, st)
      else apply_vote_cast (ev_policy e) (ev_option e) (ev_block e) (st\<lparr>last_seen := ev_block e\<rparr>))"

definition on_policy_finalized :: "string \<Rightarrow> live \<Rightarrow> live_update option \<times> live" where
  "on_policy_finalized ph st =
     (case tally_for st ph of
        None \<Rightarrow> (None, st)
      | Some (pid, t) \<Rightarrow>
          (let t' = t\<lparr>finalized := True\<rparr>
           in (Some \<lparr>u_policy = pid, u_tally = t', u_block = last_seen st\<rparr>,
               st\<lparr>tallies := (tallies st)(pid \<mapsto> t')\<rparr>)))"

definition get_snapshot :: "live \<Rightarrow> string \<Rightarrow> tally option" where
  "get_snapshot st pid = tallies st pid"

fun deliver :: "vote_event list \<Rightarrow> live \<Rightarrow> live" where
  "deliver [] st = st"
| "deliver (e # es) st = deliver es (snd (on_vote_cast e st))"

section \<open>The broadcaster\<close>

text \<open>
  Clients are numbered; \<open>clients\<close> is the map of subscriptions in the order of connection. Of a
  client's set only the strings matter: a policy id of another type is never looked up.
\<close>

record ws_state =
  clients :: "(nat \<times> string list) list"
  is_open :: "nat \<Rightarrow> bool"
  feed :: live

datatype ws_event =
  Connect nat
| Closing nat
| Close nat
| Message nat string
| Update live_update

type_synonym sends = "(nat \<times> json) list"

definition ws_error :: "string \<Rightarrow> json" where
  "ws_error m = JObj [(''type'', JStr ''error''), (''message'', JStr m)]"

definition ws_pong :: json where "ws_pong = JObj [(''type'', JStr ''pong'')]"

definition ws_snapshot :: "string \<Rightarrow> tally \<Rightarrow> json" where
  "ws_snapshot pid t =
     JObj [(''type'', JStr ''snapshot''), (''policyId'', JStr pid), (''tally'', tally_json t)]"

definition ws_tally :: "live_update \<Rightarrow> json" where
  "ws_tally u =
     JObj [(''type'', JStr ''tally''), (''policyId'', JStr (u_policy u)),
           (''tally'', tally_json (u_tally u)), (''blockNumber'', JNum (u_block u))]"

definition subscribed :: "(nat \<times> string list) list \<Rightarrow> nat \<Rightarrow> string \<Rightarrow> bool" where
  "subscribed cs c pid \<longleftrightarrow> (case map_of cs c of None \<Rightarrow> False | Some ps \<Rightarrow> pid \<in> set ps)"

definition change_subs :: "nat \<Rightarrow> (string list \<Rightarrow> string list) \<Rightarrow> (nat \<times> string list) list \<Rightarrow> (nat \<times> string list) list" where
  "change_subs c f cs = map (\<lambda>(d, ps). if d = c then (d, f ps) else (d, ps)) cs"

text \<open>
  One message. \<open>JSON.parse\<close> can return \<open>null\<close>, whose \<open>type\<close> cannot be read: a \<open>TypeError\<close> that
  nothing catches, so it ends the process.
\<close>

definition ws_message :: "nat \<Rightarrow> string \<Rightarrow> ws_state \<Rightarrow> (sends \<times> ws_state) result" where
  "ws_message c raw st =
     (case json_parse raw of
        None \<Rightarrow> Inr ([(c, ws_error ''Invalid JSON'')], st)
      | Some msg \<Rightarrow>
          if msg = JNull then throw ''TypeError''
          else if json_get ''type'' msg = Some (JStr ''ping'') then Inr ([(c, ws_pong)], st)
          else if \<not> js_truthy (json_get ''policyId'' msg)
          then Inr ([(c, ws_error ''policyId required'')], st)
          else (case json_get ''policyId'' msg of
                  Some (JStr pid) \<Rightarrow>
                    if json_get ''type'' msg = Some (JStr ''subscribe'') then
                      Inr (case get_snapshot (feed st) pid of None \<Rightarrow> [] | Some t \<Rightarrow> [(c, ws_snapshot pid t)],
                           st\<lparr>clients := change_subs c (List.insert pid) (clients st)\<rparr>)
                    else if json_get ''type'' msg = Some (JStr ''unsubscribe'') then
                      Inr ([], st\<lparr>clients := change_subs c (removeAll pid) (clients st)\<rparr>)
                    else Inr ([], st)
                | _ \<Rightarrow> Inr ([], st)))"

definition broadcast :: "live_update \<Rightarrow> ws_state \<Rightarrow> sends" where
  "broadcast u st =
     map (\<lambda>(c, ps). (c, ws_tally u))
       (filter (\<lambda>(c, ps). is_open st c \<and> u_policy u \<in> set ps) (clients st))"

definition ws_step :: "ws_event \<Rightarrow> ws_state \<Rightarrow> (sends \<times> ws_state) result" where
  "ws_step ev st =
     (case ev of
        Connect c \<Rightarrow>
          Inr ([], st\<lparr>clients := clients st @ [(c, [])], is_open := (is_open st)(c := True)\<rparr>)
      | Closing c \<Rightarrow> Inr ([], st\<lparr>is_open := (is_open st)(c := False)\<rparr>)
      | Close c \<Rightarrow>
          Inr ([], st\<lparr>clients := filter (\<lambda>(d, ps). d \<noteq> c) (clients st), is_open := (is_open st)(c := False)\<rparr>)
      | Message c raw \<Rightarrow> ws_message c raw st
      | Update u \<Rightarrow> Inr (broadcast u st, st))"

fun ws_run :: "ws_event list \<Rightarrow> ws_state \<Rightarrow> (sends \<times> ws_state) result" where
  "ws_run [] st = Inr ([], st)"
| "ws_run (ev # evs) st =
     bind_result (ws_step ev st)
       (\<lambda>(out, st'). bind_result (ws_run evs st') (\<lambda>(out', st''). Inr (out @ out', st'')))"

section \<open>What the running tally counts\<close>

text \<open>The events \<open>on_vote_cast\<close> lets through: those in a later block than every one before.\<close>

fun rising :: "int \<Rightarrow> vote_event list \<Rightarrow> vote_event list" where
  "rising b [] = []"
| "rising b (e # es) = (if ev_block e \<le> b then rising b es else e # rising (ev_block e) es)"

definition count_all :: "vote_event list \<Rightarrow> tally \<Rightarrow> tally" where
  "count_all es t = foldl (\<lambda>t e. count_vote (ev_option e) (ev_block e) t) t es"

definition for_policy :: "(string \<Rightarrow> string) \<Rightarrow> string \<Rightarrow> vote_event list \<Rightarrow> vote_event list" where
  "for_policy h pid es = filter (\<lambda>e. ev_policy e = h pid) es"

text \<open>Hashes are mapped back to the policies they belong to, each of which has a tally.\<close>

definition wf_live :: "(string \<Rightarrow> string) \<Rightarrow> live \<Rightarrow> bool" where
  "wf_live h st \<longleftrightarrow> (\<forall>x p. hash_to_id st x = Some p \<longrightarrow> x = h p \<and> tallies st p \<noteq> None)"

definition tracked :: "(string \<Rightarrow> string) \<Rightarrow> string \<Rightarrow> live \<Rightarrow> bool" where
  "tracked h pid st \<longleftrightarrow> pid \<noteq> [] \<and> hash_to_id st (h pid) = Some pid"

lemma wf_live_empty: "wf_live h live_empty"
  by (simp add: wf_live_def live_empty_def)

lemma wf_live_track: "wf_live h st \<Longrightarrow> wf_live h (track_policy h pid st)"
  by (auto simp: wf_live_def track_policy_def Let_def)

lemma tracked_track: "pid \<noteq> [] \<Longrightarrow> tracked h pid (track_policy h pid st)"
  by (simp add: tracked_def track_policy_def Let_def)

lemma apply_wf:
  "wf_live h st \<Longrightarrow> wf_live h (snd (apply_vote_cast ph opt bn st))"
  "tracked h pid (snd (apply_vote_cast ph opt bn st)) = tracked h pid st"
  "last_seen (snd (apply_vote_cast ph opt bn st)) = last_seen st"
  by (auto simp: apply_vote_cast_def Let_def wf_live_def tracked_def split: option.splits)

lemma apply_tally:
  assumes "wf_live h st" "tracked h pid st" "tallies st pid = Some t"
  shows "tallies (snd (apply_vote_cast ph opt bn st)) pid = Some (if ph = h pid then count_vote opt bn t else t)"
  using assms
  by (auto simp: apply_vote_cast_def tally_for_def Let_def wf_live_def tracked_def split: option.splits)

lemma last_seen_wf:
  "wf_live h (st\<lparr>last_seen := b\<rparr>) = wf_live h st" "tracked h pid (st\<lparr>last_seen := b\<rparr>) = tracked h pid st"
  by (simp_all add: wf_live_def tracked_def)

lemma count_all_simps [simp]:
  "count_all [] t = t" "count_all (e # es) t = count_all es (count_vote (ev_option e) (ev_block e) t)"
  "count_all (es @ fs) t = count_all fs (count_all es t)"
  by (simp_all add: count_all_def)

lemma count_all_fields:
  "total (count_all es t) = total t + int (length es)"
  "support (count_all es t) = support t + votes_for ''option-support'' es"
  by (induction es arbitrary: t) (simp_all add: count_vote_simps votes_for_def)

lemma catch_up_tally:
  "wf_live h st \<Longrightarrow> tracked h pid st \<Longrightarrow> tallies st pid = Some t \<Longrightarrow>
     tallies (catch_up es st) pid = Some (count_all (for_policy h pid es) t) \<and>
     wf_live h (catch_up es st) \<and> tracked h pid (catch_up es st)"
proof (induction es arbitrary: st t)
  case (Cons e es)
  let ?st = "snd (apply_vote_cast (ev_policy e) (ev_option e) (ev_block e) st)"
  have "wf_live h ?st" "tracked h pid ?st" using Cons.prems by (simp_all add: apply_wf)
  from Cons.IH [OF this apply_tally [OF Cons.prems]] show ?case by (simp add: for_policy_def)
qed (simp add: for_policy_def)

lemma deliver_tally:
  "wf_live h st \<Longrightarrow> tracked h pid st \<Longrightarrow> tallies st pid = Some t \<Longrightarrow>
     tallies (deliver es st) pid = Some (count_all (for_policy h pid (rising (last_seen st) es)) t) \<and>
     wf_live h (deliver es st) \<and> tracked h pid (deliver es st)"
proof (induction es arbitrary: st t)
  case (Cons e es)
  show ?case
  proof (cases "ev_block e \<le> last_seen st")
    case True
    then show ?thesis using Cons by (simp add: on_vote_cast_def)
  next
    case False
    let ?s1 = "st\<lparr>last_seen := ev_block e\<rparr>"
    let ?st = "snd (apply_vote_cast (ev_policy e) (ev_option e) (ev_block e) ?s1)"
    have s1: "wf_live h ?s1" "tracked h pid ?s1" "tallies ?s1 pid = Some t"
      using Cons.prems by (simp_all add: last_seen_wf)
    have "wf_live h ?st" "tracked h pid ?st" using s1 by (simp_all add: apply_wf)
    from Cons.IH [OF this apply_tally [OF s1]] False show ?thesis
      by (simp add: for_policy_def on_vote_cast_def apply_wf)
  qed
qed (simp add: for_policy_def)

lemma rising_all: "sorted_wrt (<) (map ev_block es) \<Longrightarrow> \<forall>e \<in> set es. b < ev_block e \<Longrightarrow> rising b es = es"
  by (induction es arbitrary: b) auto

lemma rising_one_block: "\<forall>e \<in> set es. ev_block e = b \<Longrightarrow> c < b \<Longrightarrow> rising c es = take 1 es"
proof (induction es)
  case (Cons e es)
  have "rising b fs = []" if "\<forall>e \<in> set fs. ev_block e = b" for fs using that by (induction fs) auto
  with Cons.prems show ?case by simp
qed simp

lemma tally_loop_distinct:
  "distinct (map ev_nullifier es) \<Longrightarrow> ev_nullifier ` set es \<inter> seen = {} \<Longrightarrow>
     tally_loop es seen t = count_all es t"
  by (induction es arbitrary: seen t) auto

lemma start_tally:
  assumes "wf_live h st" "tracked h pid st" "tallies st pid = Some t" "0 < b" "past b = Inr es"
  shows "tallies (snd (start past b st)) pid = Some (count_all (for_policy h pid es) t)"
  using assms catch_up_tally [of h "st\<lparr>last_seen := b\<rparr>" pid t es]
  by (simp add: start_def last_seen_wf)

section \<open>Who receives an update\<close>

fun connects :: "ws_event list \<Rightarrow> nat list" where
  "connects [] = []"
| "connects (Connect c # evs) = c # connects evs"
| "connects (_ # evs) = connects evs"

text \<open>What a message asks about a policy: to be told of it, not to be told, or nothing.\<close>

definition intent :: "string \<Rightarrow> string \<Rightarrow> bool option" where
  "intent pid raw =
     (case json_parse raw of
        None \<Rightarrow> None
      | Some msg \<Rightarrow>
          if pid \<noteq> [] \<and> json_get ''policyId'' msg = Some (JStr pid) then
            (if json_get ''type'' msg = Some (JStr ''subscribe'') then Some True
             else if json_get ''type'' msg = Some (JStr ''unsubscribe'') then Some False
             else None)
          else None)"

text \<open>One client's own history: connected, with the socket open, and subscribed to the policy.\<close>

definition client_step :: "nat \<Rightarrow> string \<Rightarrow> ws_event \<Rightarrow> (bool \<times> bool) option \<Rightarrow> (bool \<times> bool) option" where
  "client_step c pid ev w =
     (case ev of
        Connect d \<Rightarrow> if d = c then Some (True, False) else w
      | Closing d \<Rightarrow> if d = c then map_option (\<lambda>(_, b). (False, b)) w else w
      | Close d \<Rightarrow> if d = c then None else w
      | Message d raw \<Rightarrow>
          if d = c then (case intent pid raw of None \<Rightarrow> w | Some b \<Rightarrow> map_option (\<lambda>(a, _). (a, b)) w) else w
      | Update u \<Rightarrow> w)"

fun client_run :: "nat \<Rightarrow> string \<Rightarrow> ws_event list \<Rightarrow> (bool \<times> bool) option \<Rightarrow> (bool \<times> bool) option" where
  "client_run c pid [] w = w"
| "client_run c pid (ev # evs) w = client_run c pid evs (client_step c pid ev w)"

definition view :: "nat \<Rightarrow> string \<Rightarrow> ws_state \<Rightarrow> (bool \<times> bool) option" where
  "view c pid st = map_option (\<lambda>ps. (is_open st c, pid \<in> set ps)) (map_of (clients st) c)"

lemma map_of_change_subs:
  "map_of (change_subs c f cs) d = (if d = c then map_option f (map_of cs d) else map_of cs d)"
  by (induction cs) (auto simp: change_subs_def)

lemma fst_change_subs: "map fst (change_subs c f cs) = map fst cs"
  by (auto simp: change_subs_def)

lemma map_of_filter_fst: "map_of (filter (\<lambda>(d, ps). d \<noteq> c) cs) d = (if d = c then None else map_of cs d)"
  by (induction cs) auto

lemma map_of_snoc: "d \<notin> fst ` set cs \<Longrightarrow> map_of (cs @ [(d, x)]) c = (if c = d then Some x else map_of cs c)"
  by (induction cs) auto

lemma message_view:
  assumes "ws_message d raw st = Inr (out, st')"
  shows "view c pid st' = client_step c pid (Message d raw) (view c pid st)"
    and "map fst (clients st') = map fst (clients st)"
proof -
  show "map fst (clients st') = map fst (clients st)"
    using assms
    by (auto simp: ws_message_def throw_def fst_change_subs split: option.splits if_splits json.splits)
  show "view c pid st' = client_step c pid (Message d raw) (view c pid st)"
  proof (cases "json_parse raw")
    case None
    with assms show ?thesis by (auto simp: ws_message_def client_step_def intent_def)
  next
    case (Some msg)
    with assms show ?thesis
      by (auto simp: ws_message_def throw_def client_step_def intent_def view_def map_of_change_subs
          js_truthy_def option.map_comp comp_def
          split: option.splits if_splits json.splits)
  qed
qed

lemma step_view:
  assumes "ws_step ev st = Inr (out, st')" "distinct (map fst (clients st))"
    and "set (connects [ev]) \<inter> fst ` set (clients st) = {}"
  shows "view c pid st' = client_step c pid ev (view c pid st)"
    and "distinct (map fst (clients st'))"
    and "fst ` set (clients st') \<subseteq> fst ` set (clients st) \<union> set (connects [ev])"
proof (atomize (full), cases ev)
  case (Message d raw)
  with assms message_view [of d raw st out st'] show
    "view c pid st' = client_step c pid ev (view c pid st) \<and> distinct (map fst (clients st')) \<and>
     fst ` set (clients st') \<subseteq> fst ` set (clients st) \<union> set (connects [ev])"
    by (simp add: ws_step_def) (metis list.set_map order_refl)
next
  case (Connect d)
  with assms show
    "view c pid st' = client_step c pid ev (view c pid st) \<and> distinct (map fst (clients st')) \<and>
     fst ` set (clients st') \<subseteq> fst ` set (clients st) \<union> set (connects [ev])"
    by (auto simp: ws_step_def client_step_def view_def map_of_snoc simp del: map_of_append)
qed (use assms in \<open>auto simp: ws_step_def client_step_def view_def map_of_filter_fst option.map_comp comp_def
      intro: distinct_map_filter\<close>)


lemma connects_Cons: "connects (ev # evs) = connects [ev] @ connects evs"
  by (cases ev) simp_all

lemma run_view:
  assumes "ws_run evs st = Inr (out, st')" "distinct (map fst (clients st))"
    and "distinct (connects evs)" "set (connects evs) \<inter> fst ` set (clients st) = {}"
  shows "view c pid st' = client_run c pid evs (view c pid st) \<and> distinct (map fst (clients st'))"
  using assms
proof (induction evs arbitrary: st out)
  case (Cons ev evs)
  obtain o1 s1 where s1: "ws_step ev st = Inr (o1, s1)"
    using Cons.prems(1) by (cases "ws_step ev st") (auto simp: bind_result_def)
  obtain o2 where run: "ws_run evs s1 = Inr (o2, st')"
    using Cons.prems(1) s1 by (cases "ws_run evs s1") (auto simp: bind_result_def)
  have conn: "set (connects [ev]) \<inter> fst ` set (clients st) = {}" "distinct (connects evs)"
    "set (connects evs) \<inter> (fst ` set (clients st) \<union> set (connects [ev])) = {}"
    using Cons.prems(3,4) connects_Cons [of ev evs] by auto
  note step = step_view [OF s1 Cons.prems(2) conn(1)]
  have "set (connects evs) \<inter> fst ` set (clients s1) = {}" using conn(3) step(3) by blast
  from Cons.IH [OF run step(2) conn(2) this] step(1) show ?case by simp
qed simp

lemma broadcast_view:
  assumes "distinct (map fst (clients st))"
  shows "\<exists>cs. broadcast u st = map (\<lambda>c. (c, ws_tally u)) cs \<and> distinct cs \<and>
    set cs = {c. view c (u_policy u) st = Some (True, True)}"
proof (intro exI conjI)
  let ?cs = "map fst (filter (\<lambda>(c, ps). is_open st c \<and> u_policy u \<in> set ps) (clients st))"
  show "broadcast u st = map (\<lambda>c. (c, ws_tally u)) ?cs" by (auto simp: broadcast_def)
  show "distinct ?cs" using assms by (rule distinct_map_filter)
  have "c \<in> set ?cs \<longleftrightarrow> view c (u_policy u) st = Some (True, True)" for c
    using assms map_of_eq_Some_iff [of "clients st" c] by (force simp: view_def)
  then show "set ?cs = {c. view c (u_policy u) st = Some (True, True)}" by blast
qed

definition ws_start :: "live \<Rightarrow> ws_state" where
  "ws_start f = \<lparr>clients = [], is_open = (\<lambda>_. False), feed = f\<rparr>"

lemma view_start [simp]: "view c pid (ws_start f) = None"
  by (simp add: view_def ws_start_def)

lemma ws_step_Inl:
  "ws_step ev st = Inl e \<longleftrightarrow> e = ''TypeError'' \<and> (\<exists>c raw. ev = Message c raw \<and> json_parse raw = Some JNull)"
  by (cases ev)
    (auto simp: ws_step_def ws_message_def throw_def split: option.splits json.splits)

lemma ws_run_Inl:
  "(\<exists>e. ws_run evs st = Inl e) \<longleftrightarrow> (\<exists>c raw. Message c raw \<in> set evs \<and> json_parse raw = Some JNull)"
proof (induction evs arbitrary: st)
  case (Cons ev evs)
  show ?case
  proof (cases "ws_step ev st")
    case (Inl e)
    then show ?thesis using ws_step_Inl [of ev st e] by (auto simp: bind_result_def)
  next
    case (Inr p)
    then have no: "\<not> (\<exists>c raw. ev = Message c raw \<and> json_parse raw = Some JNull)"
      using ws_step_Inl [of ev st "''TypeError''"] by auto
    obtain o1 s1 where p: "p = (o1, s1)" by fastforce
    have "(\<exists>e. ws_run (ev # evs) st = Inl e) \<longleftrightarrow> (\<exists>e. ws_run evs s1 = Inl e)"
      by (simp add: Inr p bind_result_def split: sum.splits prod.splits)
    with Cons [of s1] no show ?thesis by auto
  qed
qed simp

section \<open>Properties\<close>

text \<open>
  C18: The live tally agrees with the tally of the whole log as long as no two votes share a block: for
  a tracked policy, delivering a log with increasing blocks and distinct nullifiers leaves the
  snapshot that \<open>getTally\<close> computes from the policy's events, except for the finalised flag.
\<close>

theorem live_refines_tally:
  assumes "wf_live h st" "tracked h pid st" "tallies st pid = Some (empty_tally pid)"
    and "sorted_wrt (<) (map ev_block es)" "\<forall>e \<in> set es. last_seen st < ev_block e"
    and "distinct (map ev_nullifier es)"
    and "votes_of c (h pid) = Inr (for_policy h pid es)" "compute_tally h c pid = Inr t"
  shows "get_snapshot (deliver es st) pid = Some (t\<lparr>finalized := False\<rparr>)"
proof -
  have "distinct (map ev_nullifier (for_policy h pid es))"
    using assms(6) unfolding for_policy_def by (rule distinct_map_filter)
  then have "tally_loop (for_policy h pid es) {} (empty_tally pid) =
      count_all (for_policy h pid es) (empty_tally pid)"
    by (rule tally_loop_distinct) simp
  moreover have "finalized (count_all es t) = finalized t" for es t
    by (induction es arbitrary: t) (simp_all add: count_vote_simps)
  ultimately have "t\<lparr>finalized := False\<rparr> = count_all (for_policy h pid es) (empty_tally pid)"
    using assms(7,8) by (auto simp: compute_tally_Inr empty_tally_def)
  then show ?thesis
    using deliver_tally [OF assms(1-3), of es] rising_all [OF assms(4,5)] by (simp add: get_snapshot_def)
qed

theorem live_refines_tally_witness:
  "get_snapshot (deliver [demo_event ''a'' ''option-support'' 4, demo_event ''b'' ''x'' 6]
      (track_policy (\<lambda>x. x) ''p'' live_empty)) ''p'' =
    Some ((tally_loop [demo_event ''a'' ''option-support'' 4, demo_event ''b'' ''x'' 6] {}
       (empty_tally ''p''))\<lparr>finalized := True, finalized := False\<rparr>)"
  by (rule live_refines_tally [where h = "\<lambda>x. x" and
        c = "demo_rpc [demo_event ''a'' ''option-support'' 4, demo_event ''b'' ''x'' 6]"])
    (simp_all add: wf_live_track wf_live_empty tracked_track demo_event_def demo_rpc_def for_policy_def
      compute_tally_def bind_result_def, simp_all add: track_policy_def live_empty_def Let_def)

text \<open>
  Votes that share a block are lost: delivering n votes for one policy in one new block raises the
  live total by one only, where the tally of the log has all of them.
\<close>

theorem live_same_block_lost:
  assumes "wf_live h st" "tracked h pid st" "tallies st pid = Some (empty_tally pid)"
    and "\<forall>e \<in> set es. ev_block e = b \<and> ev_policy e = h pid" "last_seen st < b" "es \<noteq> []"
    and "distinct (map ev_nullifier es)"
    and "votes_of c (h pid) = Inr es" "compute_tally h c pid = Inr t"
  shows "map_option total (get_snapshot (deliver es st) pid) = Some 1 \<and> total t = int (length es)"
proof -
  have "rising (last_seen st) es = take 1 es"
    by (rule rising_one_block [of _ b]) (use assms(4,5) in auto)
  moreover have "for_policy h pid (take 1 es) = take 1 es"
    using assms(4) by (auto simp: for_policy_def filter_id_conv dest: in_set_takeD)
  ultimately have "tallies (deliver es st) pid = Some (count_all (take 1 es) (empty_tally pid))"
    using deliver_tally [OF assms(1-3), of es] by simp
  moreover have "length (take 1 es) = 1" using assms(6) by (cases es) simp_all
  moreover have "total t = int (length es)"
    using assms(7-9) tally_loop_distinct [OF assms(7), of "{}" "empty_tally pid"]
    by (auto simp: compute_tally_Inr empty_tally_def count_all_fields)
  ultimately show ?thesis by (simp add: get_snapshot_def count_all_fields empty_tally_def)
qed

theorem live_same_block_lost_witness:
  "map_option total (get_snapshot (deliver [demo_event ''a'' ''option-support'' 4, demo_event ''b'' ''option-oppose'' 4]
      (track_policy (\<lambda>x. x) ''p'' live_empty)) ''p'') = Some 1"
proof -
  let ?es = "[demo_event ''a'' ''option-support'' 4, demo_event ''b'' ''option-oppose'' 4]"
  obtain t where t: "compute_tally (\<lambda>x. x) (demo_rpc ?es) ''p'' = Inr t"
    by (simp add: compute_tally_def bind_result_def demo_rpc_def)
  show ?thesis
    by (rule live_same_block_lost [OF _ _ _ _ _ _ _ _ t, where b = 4, THEN conjunct1])
      (simp_all add: wf_live_track wf_live_empty tracked_track demo_event_def demo_rpc_def,
       simp_all add: track_policy_def live_empty_def Let_def)
qed

text \<open>
  A restart counts again what was counted: after a vote of block b was delivered and counted,
  \<open>start(b)\<close>, the catch-up from the last seen block, whose query includes that block, raises the total
  by that same vote once more.
\<close>

theorem live_restart_double:
  assumes "wf_live h st" "tracked h pid st" "tallies st pid = Some (empty_tally pid)"
    and "ev_policy e = h pid" "last_seen st < ev_block e" "0 < ev_block e"
    and "past (ev_block e) = Inr [e]"
  shows "map_option total (get_snapshot (deliver [e] st) pid) = Some 1 \<and>
    map_option total (get_snapshot (snd (start past (last_seen (deliver [e] st)) (deliver [e] st))) pid) = Some 2"
proof -
  have d: "tallies (deliver [e] st) pid = Some (count_all [e] (empty_tally pid))"
    "wf_live h (deliver [e] st)" "tracked h pid (deliver [e] st)"
    using deliver_tally [OF assms(1-3), of "[e]"] assms(4,5) by (simp_all add: for_policy_def)
  have ls: "last_seen (deliver [e] st) = ev_block e"
    using assms(5) by (simp add: on_vote_cast_def apply_wf)
  show ?thesis
    using d start_tally [of h "deliver [e] st" pid _ "ev_block e" past "[e]", OF d(2,3,1) assms(6,7)] assms(4)
    by (simp add: get_snapshot_def ls for_policy_def count_vote_simps empty_tally_def del: deliver.simps)
qed

theorem live_restart_double_witness:
  "map_option total (get_snapshot (snd (start (\<lambda>_. Inr [demo_event ''a'' ''x'' 4])
      (last_seen (deliver [demo_event ''a'' ''x'' 4] (track_policy (\<lambda>x. x) ''p'' live_empty)))
      (deliver [demo_event ''a'' ''x'' 4] (track_policy (\<lambda>x. x) ''p'' live_empty)))) ''p'') = Some 2"
  by (rule live_restart_double [where h = "\<lambda>x. x", THEN conjunct2])
    (simp_all add: wf_live_track wf_live_empty tracked_track demo_event_def,
     simp_all add: track_policy_def live_empty_def Let_def)

text \<open>
  A tally update reaches exactly the clients that want it: after any run from the start, in which
  every connection is a new client, it is sent once to each client whose own history leaves it
  connected, open and subscribed to the policy, and to no other.
\<close>

theorem ws_delivery:
  assumes "ws_run evs (ws_start f) = Inr (out, st)" "distinct (connects evs)"
  shows "\<exists>cs. ws_step (Update u) st = Inr (map (\<lambda>c. (c, ws_tally u)) cs, st) \<and> distinct cs \<and>
    set cs = {c. client_run c (u_policy u) evs None = Some (True, True)}"
proof -
  have "view c p st = client_run c p evs None \<and> distinct (map fst (clients st))" for c p
    using run_view [OF assms(1), of c p] assms(2) by (simp add: ws_start_def view_def)
  then show ?thesis
    using broadcast_view [of st u] by (simp add: ws_step_def)
qed

theorem ws_delivery_witness:
  "\<exists>out st. ws_run [Connect 1, Connect 2, Message 2 (stringify (JObj [(''type'', JStr ''subscribe''), (''policyId'', JStr ''p'')]))]
       (ws_start live_empty) = Inr (out, st) \<and>
     ws_step (Update \<lparr>u_policy = ''p'', u_tally = empty_tally ''p'', u_block = 1\<rparr>) st =
       Inr ([(2, ws_tally \<lparr>u_policy = ''p'', u_tally = empty_tally ''p'', u_block = 1\<rparr>)], st)"
proof -
  let ?m = "JObj [(''type'', JStr ''subscribe''), (''policyId'', JStr ''p'')]"
  let ?evs = "[Connect 1, Connect 2, Message 2 (stringify ?m)]"
  let ?u = "\<lparr>u_policy = ''p'', u_tally = empty_tally ''p'', u_block = 1\<rparr>"
  have m: "json_parse (stringify ?m) = Some ?m" by (rule json_roundtrip(1)) simp
  obtain out st where run: "ws_run ?evs (ws_start live_empty) = Inr (out, st)"
    by (simp add: ws_step_def bind_result_def ws_message_def m js_truthy_def get_snapshot_def split: option.splits)
  have "intent ''p'' (stringify ?m) = Some True" by (simp add: intent_def m)
  then have "{c. client_run c ''p'' ?evs None = Some (True, True)} = {2}"
    by (auto simp: client_step_def split: if_splits)
  moreover obtain cs where cs: "ws_step (Update ?u) st = Inr (map (\<lambda>c. (c, ws_tally ?u)) cs, st)" "distinct cs"
      "set cs = {c. client_run c (u_policy ?u) ?evs None = Some (True, True)}"
    using ws_delivery [OF run, of ?u] by auto
  ultimately have "set cs = set [2]" by simp
  then have "cs = [2]"
    using cs(2) by (cases cs; cases "tl cs") auto
  with run cs(1) show ?thesis by auto
qed

text \<open>
  The feed stops only for one reason: a run fails exactly when some client sent a message whose JSON
  is \<open>null\<close>, and then nothing after it is served to anyone.
\<close>

theorem ws_null_stops:
  "(\<exists>e. ws_run evs st = Inl e) \<longleftrightarrow> (\<exists>c raw. Message c raw \<in> set evs \<and> json_parse raw = Some JNull)"
  by (rule ws_run_Inl)

end
