(* ===== verification/Ledger.thy ===== *)
theory Ledger
  imports Redis_Store
begin

text \<open>
  The contract the backend relays votes to, \<open>src/blockchain/contracts/VoteLedger.sol\<close>, with the access
  control and pausing it inherits from OpenZeppelin as an owner address and a flag. A call runs in
  an environment (the sender and the block's timestamp) and either reverts, with the error's name, or
  gives a new state; byte strings are strings, \<open>keccak\<close> and the proof verifier \<open>verify\<close> are
  parameters, and the counters are checked 256-bit numbers. \<open>VoterRegistry.sol\<close> follows.
\<close>

section \<open>The vote ledger\<close>

definition uint256_max :: nat where "uint256_max = 2 ^ 256 - 1"

record poll =
  countryCode :: string
  policyHash :: string
  deadline :: nat
  finalised :: bool
  totalVotes :: nat
  optionTally :: "string \<Rightarrow> nat"

record vote_cast =
  vc_poll :: string
  vc_nullifier :: string
  vc_option :: string

record proof_data =
  piA :: "nat list"
  piB :: "nat list list"
  piC :: "nat list"
  publicSignals :: "nat list"

record ledger =
  owner :: string
  paused :: bool
  polls :: "string \<Rightarrow> poll"
  nullifiers :: "string \<Rightarrow> bool"
  nullifierList :: "string list"
  casts :: "vote_cast list"

record env =
  sender :: string
  now :: nat

definition no_poll :: poll where
  "no_poll = \<lparr>countryCode = [], policyHash = [], deadline = 0, finalised = False, totalVotes = 0,
              optionTally = (\<lambda>_. 0)\<rparr>"

text \<open>\<open>initialize\<close>.\<close>

definition ledger_init :: "string \<Rightarrow> ledger" where
  "ledger_init initial_owner =
     \<lparr>owner = initial_owner, paused = False, polls = (\<lambda>_. no_poll), nullifiers = (\<lambda>_. False),
      nullifierList = [], casts = []\<rparr>"

definition only_owner :: "env \<Rightarrow> ledger \<Rightarrow> ledger result \<Rightarrow> ledger result" where
  "only_owner en st r = (if sender en = owner st then r else throw ''OwnableUnauthorizedAccount'')"

definition packed_poll_id :: "(string \<Rightarrow> string) \<Rightarrow> string \<Rightarrow> string \<Rightarrow> string" where
  "packed_poll_id keccak policy_id cc = keccak (policy_id @ cc)"

definition create_poll ::
  "(string \<Rightarrow> string) \<Rightarrow> env \<Rightarrow> string \<Rightarrow> string \<Rightarrow> nat \<Rightarrow> ledger \<Rightarrow> ledger result" where
  "create_poll keccak en policy_id cc dl st =
     only_owner en st
       (if dl \<le> now en then throw ''DeadlineInPast''
        else (let i = packed_poll_id keccak policy_id cc
              in Inr (st\<lparr>polls := (polls st)(i := (polls st i)
                   \<lparr>countryCode := cc, policyHash := keccak policy_id, deadline := dl\<rparr>)\<rparr>)))"

definition cast_vote ::
  "(proof_data \<Rightarrow> bool) \<Rightarrow> env \<Rightarrow> string \<Rightarrow> string \<Rightarrow> string \<Rightarrow> proof_data \<Rightarrow> ledger \<Rightarrow> ledger result" where
  "cast_vote verify en poll_id option_hash nullifier proof st =
     (let p = polls st poll_id
      in if paused st then throw ''EnforcedPause''
         else if deadline p = 0 then throw ''PollNotFound''
         else if deadline p < now en then throw ''PollClosed''
         else if finalised p then throw ''PollAlreadyFinalised''
         else if nullifiers st nullifier then throw ''NullifierSpent''
         else if \<not> verify proof then throw ''InvalidZKProof''
         else if optionTally p option_hash = uint256_max \<or> totalVotes p = uint256_max then throw ''Panic''
         else Inr (st\<lparr>nullifiers := (nullifiers st)(nullifier := True),
                      nullifierList := nullifierList st @ [nullifier],
                      polls := (polls st)(poll_id := p
                        \<lparr>optionTally := (optionTally p)(option_hash := optionTally p option_hash + 1),
                         totalVotes := totalVotes p + 1\<rparr>),
                      casts := casts st @ [\<lparr>vc_poll = poll_id, vc_nullifier = nullifier, vc_option = option_hash\<rparr>]\<rparr>))"

definition finalise_poll :: "env \<Rightarrow> string \<Rightarrow> ledger \<Rightarrow> ledger result" where
  "finalise_poll en poll_id st =
     only_owner en st
       (if deadline (polls st poll_id) = 0 then throw ''PollNotFound''
        else if finalised (polls st poll_id) then throw ''PollAlreadyFinalised''
        else Inr (st\<lparr>polls := (polls st)(poll_id := (polls st poll_id)\<lparr>finalised := True\<rparr>)\<rparr>))"

definition pause :: "env \<Rightarrow> ledger \<Rightarrow> ledger result" where
  "pause en st = only_owner en st (if paused st then throw ''EnforcedPause'' else Inr (st\<lparr>paused := True\<rparr>))"

definition unpause :: "env \<Rightarrow> ledger \<Rightarrow> ledger result" where
  "unpause en st = only_owner en st (if paused st then Inr (st\<lparr>paused := False\<rparr>) else throw ''ExpectedPause'')"

definition get_tally_of :: "ledger \<Rightarrow> string \<Rightarrow> string \<Rightarrow> nat" where
  "get_tally_of st poll_id option_hash = optionTally (polls st poll_id) option_hash"

definition get_poll_meta :: "ledger \<Rightarrow> string \<Rightarrow> string \<times> nat \<times> bool \<times> nat" where
  "get_poll_meta st poll_id =
     (let p = polls st poll_id in (countryCode p, deadline p, finalised p, totalVotes p))"

definition is_nullifier_spent :: "ledger \<Rightarrow> string \<Rightarrow> bool" where
  "is_nullifier_spent st n = nullifiers st n"

datatype ledger_call =
  CreatePoll string string nat
| CastVote string string string proof_data
| FinalisePoll string
| Pause
| Unpause

definition ledger_exec ::
  "(string \<Rightarrow> string) \<Rightarrow> (proof_data \<Rightarrow> bool) \<Rightarrow> env \<Rightarrow> ledger_call \<Rightarrow> ledger \<Rightarrow> ledger result" where
  "ledger_exec keccak verify en c st =
     (case c of
        CreatePoll p cc dl \<Rightarrow> create_poll keccak en p cc dl st
      | CastVote i opt n pf \<Rightarrow> cast_vote verify en i opt n pf st
      | FinalisePoll i \<Rightarrow> finalise_poll en i st
      | Pause \<Rightarrow> pause en st
      | Unpause \<Rightarrow> unpause en st)"

text \<open>A transaction that reverts leaves the state as it was.\<close>

fun ledger_run ::
  "(string \<Rightarrow> string) \<Rightarrow> (proof_data \<Rightarrow> bool) \<Rightarrow> (env \<times> ledger_call) list \<Rightarrow> ledger \<Rightarrow> ledger" where
  "ledger_run k v [] st = st"
| "ledger_run k v ((en, c) # txs) st =
     (case ledger_exec k v en c st of Inl e \<Rightarrow> ledger_run k v txs st | Inr st' \<Rightarrow> ledger_run k v txs st')"

section \<open>The voter registry\<close>

record registry =
  reg_owner :: string
  reg_paused :: bool
  commitment_country :: "string \<Rightarrow> string"
  commitments :: "string list"
  registrar :: "string \<Rightarrow> string"

definition zero_bytes :: "nat \<Rightarrow> string" where "zero_bytes n = replicate n (CHR 0x00)"

text \<open>\<open>zero_bytes 20\<close> is the address, \<open>zero_bytes 32\<close> the commitment and \<open>zero_bytes 2\<close> the country that is unset.\<close>

definition register :: "env \<Rightarrow> string \<Rightarrow> string \<Rightarrow> registry \<Rightarrow> registry result" where
  "register en c cc st =
     (if reg_paused st then throw ''EnforcedPause''
      else if c = zero_bytes 32 then throw ''InvalidCommitment''
      else if commitment_country st c \<noteq> zero_bytes 2 then throw ''AlreadyRegistered''
      else if registrar st cc = zero_bytes 20 \<or> registrar st cc \<noteq> sender en then throw ''UnauthorisedRegistrar''
      else Inr (st\<lparr>commitment_country := (commitment_country st)(c := cc),
                   commitments := commitments st @ [c]\<rparr>))"

definition set_country_registrar :: "env \<Rightarrow> string \<Rightarrow> string \<Rightarrow> registry \<Rightarrow> registry result" where
  "set_country_registrar en cc r st =
     (if sender en = reg_owner st then Inr (st\<lparr>registrar := (registrar st)(cc := r)\<rparr>)
      else throw ''OwnableUnauthorizedAccount'')"

definition is_registered :: "registry \<Rightarrow> string \<Rightarrow> string \<Rightarrow> bool" where
  "is_registered st c cc = (commitment_country st c = cc)"

section \<open>What the log says\<close>

definition votes_in :: "string \<Rightarrow> vote_cast list \<Rightarrow> nat" where
  "votes_in i es = length (filter (\<lambda>e. vc_poll e = i) es)"

definition votes_on :: "string \<Rightarrow> string \<Rightarrow> vote_cast list \<Rightarrow> nat" where
  "votes_on i opt es = length (filter (\<lambda>e. vc_poll e = i \<and> vc_option e = opt) es)"

text \<open>The invariant of the contract: its state is what its log of events determines.\<close>

definition ledger_inv :: "ledger \<Rightarrow> bool" where
  "ledger_inv st \<longleftrightarrow>
     nullifierList st = map vc_nullifier (casts st) \<and> distinct (nullifierList st) \<and>
     (\<forall>n. nullifiers st n \<longleftrightarrow> n \<in> set (nullifierList st)) \<and>
     (\<forall>i. totalVotes (polls st i) = votes_in i (casts st)) \<and>
     (\<forall>i opt. optionTally (polls st i) opt = votes_on i opt (casts st))"

lemma ledger_inv_init: "ledger_inv (ledger_init a)"
  by (simp add: ledger_inv_def ledger_init_def no_poll_def votes_in_def votes_on_def)

lemma cast_vote_Inr:
  "cast_vote verify en i opt n pf st = Inr st' \<longleftrightarrow>
     \<not> paused st \<and> deadline (polls st i) \<noteq> 0 \<and> now en \<le> deadline (polls st i) \<and> \<not> finalised (polls st i) \<and>
     \<not> nullifiers st n \<and> verify pf \<and>
     optionTally (polls st i) opt \<noteq> uint256_max \<and> totalVotes (polls st i) \<noteq> uint256_max \<and>
     st' = st\<lparr>nullifiers := (nullifiers st)(n := True), nullifierList := nullifierList st @ [n],
              polls := (polls st)(i := (polls st i)
                \<lparr>optionTally := (optionTally (polls st i))(opt := optionTally (polls st i) opt + 1),
                 totalVotes := totalVotes (polls st i) + 1\<rparr>),
              casts := casts st @ [\<lparr>vc_poll = i, vc_nullifier = n, vc_option = opt\<rparr>]\<rparr>"
  by (auto simp: cast_vote_def Let_def throw_def)

lemma cast_vote_inv: "ledger_inv st \<Longrightarrow> cast_vote verify en i opt n pf st = Inr st' \<Longrightarrow> ledger_inv st'"
  by (auto simp: cast_vote_Inr ledger_inv_def votes_in_def votes_on_def)

lemmas owner_calls_defs =
  create_poll_def finalise_poll_def pause_def unpause_def only_owner_def throw_def Let_def

text \<open>What the owner's calls leave alone: every vote and every counter; a final poll stays final.\<close>

definition admin_change :: "env \<Rightarrow> ledger \<Rightarrow> ledger \<Rightarrow> bool" where
  "admin_change en st st' \<longleftrightarrow>
     sender en = owner st \<and> owner st' = owner st \<and> casts st' = casts st \<and> nullifiers st' = nullifiers st \<and>
     nullifierList st' = nullifierList st \<and>
     (\<forall>i. totalVotes (polls st' i) = totalVotes (polls st i) \<and> optionTally (polls st' i) = optionTally (polls st i) \<and>
          (finalised (polls st i) \<longrightarrow> finalised (polls st' i)))"

lemma ledger_exec_cases:
  assumes "ledger_exec k v en c st = Inr st'"
  shows "(\<exists>i opt n pf. c = CastVote i opt n pf \<and> cast_vote v en i opt n pf st = Inr st') \<or> admin_change en st st'"
  using assms
  by (cases c) (auto simp: ledger_exec_def owner_calls_defs admin_change_def split: if_splits)

lemma ledger_exec_inv: "ledger_inv st \<Longrightarrow> ledger_exec k v en c st = Inr st' \<Longrightarrow> ledger_inv st'"
  by (drule ledger_exec_cases, elim disjE exE conjE, erule cast_vote_inv, assumption)
    (auto simp: ledger_inv_def admin_change_def)

lemma ledger_run_inv: "ledger_inv st \<Longrightarrow> ledger_inv (ledger_run k v txs st)"
  by (induction txs arbitrary: st) (auto split: sum.split simp: ledger_exec_inv)

definition later :: "ledger \<Rightarrow> ledger \<Rightarrow> bool" where
  "later st st' \<longleftrightarrow>
     prefix (casts st) (casts st') \<and>
     (\<forall>i. finalised (polls st i) \<longrightarrow> finalised (polls st' i) \<and> votes_in i (casts st') = votes_in i (casts st))"

lemma later_refl: "later st st"
  by (simp add: later_def)

lemma later_trans: "later a b \<Longrightarrow> later b c \<Longrightarrow> later a c"
  by (auto simp: later_def intro: prefix_order.trans)

lemma ledger_exec_later: "ledger_exec k v en c st = Inr st' \<Longrightarrow> later st st'"
  by (drule ledger_exec_cases) (auto simp: cast_vote_Inr admin_change_def later_def votes_in_def)

lemma ledger_run_later: "later st (ledger_run k v txs st)"
proof (induction txs arbitrary: st)
  case (Cons tx txs)
  obtain en c where tx: "tx = (en, c)" by fastforce
  show ?case
  proof (cases "ledger_exec k v en c st")
    case (Inl e)
    with Cons [of st] show ?thesis by (simp add: tx)
  next
    case (Inr st')
    show ?thesis
      using later_trans [OF ledger_exec_later [OF Inr] Cons [of st']] by (simp add: tx Inr)
  qed
qed (simp add: later_refl)

lemma votes_mono: "prefix es fs \<Longrightarrow> votes_on i opt es \<le> votes_on i opt fs"
  by (auto simp: votes_on_def elim: prefixE)

section \<open>The ledger as a vote channel\<close>

definition spent_on :: "ledger \<Rightarrow> string set" where
  "spent_on st = {n. nullifiers st n}"

definition cast_of :: "ledger_call \<Rightarrow> vote_cast option" where
  "cast_of c =
     (case c of CastVote i opt n pf \<Rightarrow> Some \<lparr>vc_poll = i, vc_nullifier = n, vc_option = opt\<rparr> | _ \<Rightarrow> None)"

definition ledger_channel ::
  "(string \<Rightarrow> string) \<Rightarrow> (proof_data \<Rightarrow> bool) \<Rightarrow> env \<times> ledger_call \<Rightarrow> ledger \<Rightarrow> vote_cast option \<times> ledger" where
  "ledger_channel k v tx st =
     (case ledger_exec k v (fst tx) (snd tx) st of Inl e \<Rightarrow> (None, st) | Inr st' \<Rightarrow> (cast_of (snd tx), st'))"

lemma ledger_channel_step:
  assumes "ledger_channel k v tx st = (r, st')"
  shows "case r of None \<Rightarrow> spent_on st' = spent_on st
    | Some e \<Rightarrow> vc_nullifier e \<notin> spent_on st \<and> spent_on st' = insert (vc_nullifier e) (spent_on st)"
proof (cases "ledger_exec k v (fst tx) (snd tx) st")
  case (Inl e)
  with assms show ?thesis by (auto simp: ledger_channel_def)
next
  case (Inr st1)
  then have r: "r = cast_of (snd tx)" "st' = st1" using assms by (auto simp: ledger_channel_def)
  show ?thesis
  proof (cases "cast_of (snd tx)")
    case None
    with Inr r show ?thesis
      by (cases "snd tx") (auto simp: ledger_exec_def owner_calls_defs spent_on_def cast_of_def split: if_splits)
  next
    case (Some e)
    with Inr r show ?thesis
      by (cases "snd tx") (auto simp: ledger_exec_def cast_vote_Inr spent_on_def cast_of_def)
  qed
qed

interpretation ledger: vote_channel "ledger_channel k v" spent_on vc_nullifier for k v
  by unfold_locales (use ledger_channel_step in fastforce)+


section \<open>Properties\<close>

text \<open>
  C4: The ledger is auditable: after any transactions of anyone from a fresh ledger, the log of cast
  votes determines everything: no nullifier occurs twice, the spent nullifiers are those of the log, and
  every total and every option's counter is the number of its votes in the log.
\<close>

theorem ledger_audit:
  "ledger_inv (ledger_run keccak verify txs (ledger_init a))"
  by (rule ledger_run_inv) (rule ledger_inv_init)

text \<open>
  Votes are irrevocable: whatever happens later, the log only grows, no option's counter decreases,
  no spent nullifier becomes unspent, and a finalised poll gains no vote.
\<close>

theorem ledger_irrevocable:
  assumes "ledger_inv st" "st' = ledger_run keccak verify txs st"
  shows "prefix (casts st) (casts st') \<and>
    (\<forall>i opt. get_tally_of st i opt \<le> get_tally_of st' i opt) \<and>
    (\<forall>n. is_nullifier_spent st n \<longrightarrow> is_nullifier_spent st' n) \<and>
    (\<forall>i. finalised (polls st i) \<longrightarrow> totalVotes (polls st' i) = totalVotes (polls st i))"
proof -
  have l: "later st st'" using ledger_run_later assms(2) by simp
  have i: "ledger_inv st'" using ledger_run_inv [OF assms(1)] assms(2) by simp
  show ?thesis
    using l i assms(1)
    by (auto simp: later_def ledger_inv_def get_tally_of_def is_nullifier_spent_def votes_mono
        dest: set_mono_prefix)
qed

definition any_proof :: proof_data where
  "any_proof = \<lparr>piA = [], piB = [], piC = [], publicSignals = []\<rparr>"

theorem ledger_irrevocable_witness:
  "prefix (casts (ledger_init ''o''))
     (casts (ledger_run (\<lambda>x. x) (\<lambda>_. True)
        [(\<lparr>sender = ''o'', now = 1\<rparr>, CreatePoll ''p'' ''GB'' 9),
         (\<lparr>sender = ''v'', now = 2\<rparr>, CastVote ''pGB'' ''y'' ''n'' any_proof)] (ledger_init ''o'')))"
  using ledger_irrevocable [OF ledger_inv_init refl, of "''o''"] by blast

text \<open>
  C38: A vote is recorded exactly when the contract is not paused, the poll exists and is open, its
  nullifier is unspent, and the proof verifies; in every other case the transaction reverts with the
  error of the first check that fails (below the counters' bound, which no real count reaches).
\<close>

theorem cast_vote_outcome:
  assumes "optionTally (polls st i) opt < uint256_max" "totalVotes (polls st i) < uint256_max"
  shows "(case cast_vote verify en i opt n pf st of
      Inr st' \<Rightarrow>
        get_tally_of st' i opt = get_tally_of st i opt + 1 \<and> is_nullifier_spent st' n \<and>
        \<not> paused st \<and> deadline (polls st i) \<noteq> 0 \<and> now en \<le> deadline (polls st i) \<and>
        \<not> finalised (polls st i) \<and> \<not> is_nullifier_spent st n \<and> verify pf
    | Inl e \<Rightarrow>
        e = ''EnforcedPause'' \<and> paused st \<or>
        e = ''PollNotFound'' \<and> deadline (polls st i) = 0 \<or>
        e = ''PollClosed'' \<and> deadline (polls st i) < now en \<or>
        e = ''PollAlreadyFinalised'' \<and> finalised (polls st i) \<or>
        e = ''NullifierSpent'' \<and> is_nullifier_spent st n \<or>
        e = ''InvalidZKProof'' \<and> \<not> verify pf)"
  using assms
  by (simp add: cast_vote_def Let_def throw_def get_tally_of_def is_nullifier_spent_def)

theorem cast_vote_outcome_witness:
  "\<exists>st'. cast_vote (\<lambda>_. True) \<lparr>sender = ''v'', now = 2\<rparr> ''i'' ''y'' ''n'' any_proof
      ((ledger_init ''o'')\<lparr>polls := (\<lambda>_. no_poll\<lparr>deadline := 9\<rparr>)\<rparr>) = Inr st' \<and> get_tally_of st' ''i'' ''y'' = 1"
proof -
  let ?st = "(ledger_init ''o'')\<lparr>polls := (\<lambda>_. no_poll\<lparr>deadline := 9\<rparr>)\<rparr>"
  have "case cast_vote (\<lambda>_. True) \<lparr>sender = ''v'', now = 2\<rparr> ''i'' ''y'' ''n'' any_proof ?st of
      Inr st' \<Rightarrow> get_tally_of st' ''i'' ''y'' = get_tally_of ?st ''i'' ''y'' + 1 | Inl e \<Rightarrow> True"
    using cast_vote_outcome [where st = ?st and i = "''i''" and opt = "''y''" and verify = "\<lambda>_. True" and
        en = "\<lparr>sender = ''v'', now = 2\<rparr>" and n = "''n''" and pf = any_proof]
    by (auto simp: no_poll_def uint256_max_def split: sum.splits)
  moreover have "\<exists>st'. cast_vote (\<lambda>_. True) \<lparr>sender = ''v'', now = 2\<rparr> ''i'' ''y'' ''n'' any_proof ?st = Inr st'"
    by (simp add: cast_vote_Inr ledger_init_def no_poll_def uint256_max_def)
  ultimately show ?thesis by (auto simp: get_tally_of_def ledger_init_def no_poll_def)
qed

text \<open>
  The ledger never compares the proof's public signals with the nullifier and the poll it is given:
  whoever holds one valid proof can cast any number of votes with it, one for every unspent nullifier
  they make up, on any open poll.
\<close>

theorem ledger_proof_replay:
  assumes "verify pf" "distinct ns" "\<forall>n \<in> set ns. \<not> is_nullifier_spent st n"
    and "\<not> paused st" "deadline (polls st i) \<noteq> 0" "now en \<le> deadline (polls st i)" "\<not> finalised (polls st i)"
    and "ledger_inv st" "votes_in i (casts st) + length ns \<le> uint256_max"
  shows "totalVotes (polls (ledger_run keccak verify (map (\<lambda>n. (en, CastVote i opt n pf)) ns) st) i) =
    totalVotes (polls st i) + length ns"
  using assms(2-)
proof (induction ns arbitrary: st)
  case (Cons n ns)
  have le: "votes_on i opt es \<le> votes_in i es" for es
    by (auto simp: votes_on_def votes_in_def intro: order_trans [OF _ length_filter_le [of "\<lambda>e. vc_option e = opt"]])
  have "\<exists>st'. cast_vote verify en i opt n pf st = Inr st'"
    using Cons.prems assms(1) le [of "casts st"]
    by (auto simp: cast_vote_Inr is_nullifier_spent_def ledger_inv_def)
  then obtain st' where st': "cast_vote verify en i opt n pf st = Inr st'" by blast
  have inv: "ledger_inv st'" using cast_vote_inv [OF Cons.prems(7) st'] .
  have ex: "ledger_exec keccak verify en (CastVote i opt n pf) st = Inr st'" using st' by (simp add: ledger_exec_def)
  have "totalVotes (polls (ledger_run keccak verify (map (\<lambda>n. (en, CastVote i opt n pf)) ns) st') i) =
      totalVotes (polls st' i) + length ns"
    by (rule Cons.IH) (use Cons.prems st' inv in \<open>auto simp: cast_vote_Inr is_nullifier_spent_def votes_in_def\<close>)
  with ex st' show ?case by (simp add: cast_vote_Inr)
qed simp

theorem ledger_proof_replay_witness:
  "totalVotes (polls (ledger_run (\<lambda>x. x) (\<lambda>_. True)
      (map (\<lambda>n. (\<lparr>sender = ''v'', now = 2\<rparr>, CastVote ''i'' ''y'' n any_proof)) [''a'', ''b'', ''c''])
      ((ledger_init ''o'')\<lparr>polls := (\<lambda>_. no_poll\<lparr>deadline := 9\<rparr>)\<rparr>)) ''i'') = 3"
proof -
  let ?st = "(ledger_init ''o'')\<lparr>polls := (\<lambda>_. no_poll\<lparr>deadline := 9\<rparr>)\<rparr>"
  have "totalVotes (polls (ledger_run (\<lambda>x. x) (\<lambda>_. True)
      (map (\<lambda>n. (\<lparr>sender = ''v'', now = 2\<rparr>, CastVote ''i'' ''y'' n any_proof)) [''a'', ''b'', ''c'']) ?st) ''i'') =
    totalVotes (polls ?st ''i'') + length [''a'', ''b'', ''c'']"
    by (rule ledger_proof_replay)
      (simp_all add: ledger_inv_def ledger_init_def no_poll_def is_nullifier_spent_def votes_in_def votes_on_def
        uint256_max_def)
  then show ?thesis by (simp add: no_poll_def)
qed

end
