(* ===== verification/Vote.thy ===== *)
theory Vote
  imports Ledger Http
begin

text \<open>
  Casting a vote over HTTP: \<open>routes/vote.ts\<close>, \<open>services/VoteService.ts\<close>, \<open>services/ZKProver.ts\<close>,
  \<open>services/BlockchainService.ts\<close> and the paper-ballot route \<open>routes/qr.ts\<close>. The cryptography of
  ethers and snarkjs is a parameter (\<open>crypto\<close>), as is the transaction that \<open>castVote\<close> sends;
  \<open>ledger_send\<close> is the instance that runs the contract of theory \<open>Ledger\<close>. \<open>keccak\<close> works on bytes;
  ethers shows its result in hexadecimal.
\<close>

section \<open>Hexadecimal byte strings\<close>

definition hex_str :: "string \<Rightarrow> string" where
  "hex_str b = ''0x'' @ concat (map (\<lambda>c. [hex_digit (code c div 16), hex_digit (code c mod 16)]) b)"

fun unhex :: "string \<Rightarrow> string" where
  "unhex (a # b # s) = char_of (16 * hex_val a + hex_val b) # unhex s"
| "unhex s = []"

definition hex_bytes :: "string \<Rightarrow> string" where
  "hex_bytes s = unhex (drop 2 s)"

lemma hex_bytes_str: "hex_bytes (hex_str b) = b"
proof -
  have "unhex (concat (map (\<lambda>c. [hex_digit (code c div 16), hex_digit (code c mod 16)]) b)) = b"
    by (induction b) (simp_all add: hex_digit_ok code_def less_mult_imp_div_less)
  then show ?thesis by (simp add: hex_bytes_def hex_str_def)
qed


text \<open>Patterns of the schemas: \<open>/^0x[0-9a-fA-F]{n}$/\<close> and \<open>/^[\w-]+$/\<close>.\<close>

definition hex_of_length :: "nat \<Rightarrow> string \<Rightarrow> bool" where
  "hex_of_length n s \<longleftrightarrow> starts_with s ''0x'' \<and> length s = n + 2 \<and> list_all is_hex (drop 2 s)"

definition slug :: "string \<Rightarrow> bool" where
  "slug s \<longleftrightarrow> s \<noteq> [] \<and> length s \<le> 128 \<and> list_all (\<lambda>c. is_word_char c \<or> c = CHR ''-'') s"

section \<open>Requests\<close>

record zk_proof =
  pi_a :: "string list"
  pi_b :: "string list list"
  pi_c :: "string list"
  public_signals :: "string list"

record vote_request =
  vr_policy :: string
  vr_option :: string
  vr_nullifier :: string
  vr_proof :: zk_proof
  vr_signature :: string
  vr_timestamp :: int

definition vote_schema :: "vote_request \<Rightarrow> bool" where
  "vote_schema r \<longleftrightarrow>
     slug (vr_policy r) \<and> slug (vr_option r) \<and> hex_of_length 64 (vr_nullifier r) \<and>
     length (pi_a (vr_proof r)) = 2 \<and>
     length (pi_b (vr_proof r)) = 2 \<and> list_all (\<lambda>row. length row = 2) (pi_b (vr_proof r)) \<and>
     length (pi_c (vr_proof r)) = 2 \<and>
     hex_of_length 130 (vr_signature r) \<and> 0 < vr_timestamp r"

text \<open>\<open>vkey\<close> is the verification key, if the file exists; \<open>groth16\<close> is snarkjs's verifier, which may throw.\<close>

record 'k crypto =
  keccak :: "string \<Rightarrow> string"
  recover :: "string \<Rightarrow> string \<Rightarrow> string result"
  is_address :: "string \<Rightarrow> bool"
  node_env :: string
  vkey :: "'k option"
  groth16 :: "'k \<Rightarrow> zk_proof \<Rightarrow> bool result"

definition keccak_hex :: "'k crypto \<Rightarrow> string \<Rightarrow> string" where
  "keccak_hex X b = hex_str (keccak X b)"

definition vote_message :: "vote_request \<Rightarrow> string" where
  "vote_message r =
     vr_policy r @ '':'' @ vr_option r @ '':'' @ vr_nullifier r @ '':'' @ int_str (vr_timestamp r)"

definition verify_signature :: "'k crypto \<Rightarrow> vote_request \<Rightarrow> unit result" where
  "verify_signature X r =
     bind_result (recover X (keccak_hex X (vote_message r)) (vr_signature r))
       (\<lambda>a. if is_address X a then Inr () else throw ''Invalid vote signature'')"

definition zk_verify :: "'k crypto \<Rightarrow> zk_proof \<Rightarrow> unit result" where
  "zk_verify X p =
     (case vkey X of
        None \<Rightarrow>
          if node_env X = ''development'' then Inr ()
          else throw (''ZK verification key not found '' @ [CHR 0xE2, CHR 0x80, CHR 0x94] @ '' cannot verify proof'')
      | Some k \<Rightarrow>
          bind_result (groth16 X k p)
            (\<lambda>ok. if ok then Inr () else throw ''Zero-knowledge proof verification failed''))"

section \<open>The blockchain service\<close>

text \<open>\<open>BigInt(s)\<close> of a string.\<close>

definition digits_in :: "nat \<Rightarrow> string \<Rightarrow> int option" where
  "digits_in base s =
     (if s \<noteq> [] \<and> list_all (\<lambda>c. is_hex c \<and> hex_val c < base) s
      then Some (int (foldl (\<lambda>a c. base * a + hex_val c) 0 s)) else None)"

definition big_int :: "string \<Rightarrow> int result" where
  "big_int s =
     (let t = trim s; p = take 2 t;
          r = (if t = [] then Some 0
               else if p = ''0x'' \<or> p = ''0X'' then digits_in 16 (drop 2 t)
               else if p = ''0o'' \<or> p = ''0O'' then digits_in 8 (drop 2 t)
               else if p = ''0b'' \<or> p = ''0B'' then digits_in 2 (drop 2 t)
               else if hd t = CHR ''-'' then map_option uminus (digits_in 10 (tl t))
               else if hd t = CHR ''+'' then digits_in 10 (tl t)
               else digits_in 10 t)
      in case r of None \<Rightarrow> throw (''Cannot convert '' @ s @ '' to a BigInt'') | Some i \<Rightarrow> Inr i)"

fun map_result :: "('a \<Rightarrow> 'b result) \<Rightarrow> 'a list \<Rightarrow> 'b list result" where
  "map_result f [] = Inr []"
| "map_result f (x # xs) = bind_result (f x) (\<lambda>y. bind_result (map_result f xs) (\<lambda>ys. Inr (y # ys)))"

record call_proof =
  cp_a :: "int list"
  cp_b :: "int list list"
  cp_c :: "int list"
  cp_signals :: "int list"

definition convert_proof :: "zk_proof \<Rightarrow> call_proof result" where
  "convert_proof p =
     bind_result (map_result big_int (pi_a p)) (\<lambda>a.
     bind_result (map_result (map_result big_int) (pi_b p)) (\<lambda>b.
     bind_result (map_result big_int (pi_c p)) (\<lambda>c.
     bind_result (map_result big_int (public_signals p)) (\<lambda>ss.
       Inr \<lparr>cp_a = a, cp_b = b, cp_c = c, cp_signals = ss\<rparr>))))"

text \<open>A 32-byte big-endian word and the ABI encoding of a string and two bytes.\<close>

definition word32 :: "nat \<Rightarrow> string" where
  "word32 n = map (\<lambda>i. char_of (n div 256 ^ (31 - i) mod 256)) [0..<32]"

definition pad_right :: "nat \<Rightarrow> string \<Rightarrow> string" where
  "pad_right n s = s @ replicate (n - length s) (CHR 0x00)"

definition abi_encode :: "string \<Rightarrow> string \<Rightarrow> string" where
  "abi_encode s b2 =
     word32 64 @ pad_right 32 b2 @ word32 (length s) @ pad_right (32 * ((length s + 31) div 32)) s"

definition get_country_code :: "string \<Rightarrow> string" where
  "get_country_code policy_id = ''GB''"

definition cast_poll_id :: "'k crypto \<Rightarrow> string \<Rightarrow> string" where
  "cast_poll_id X policy_id = keccak_hex X (abi_encode policy_id (get_country_code policy_id))"

record tx_receipt =
  tx_hash :: string
  tx_block :: int

text \<open>\<open>voteLedger.castVote(...)\<close> and the wait for its receipt, which may be \<open>null\<close>.\<close>

type_synonym 'c send = "string \<Rightarrow> string \<Rightarrow> string \<Rightarrow> call_proof \<Rightarrow> 'c \<Rightarrow> tx_receipt option result \<times> 'c"

definition blockchain_cast_vote ::
  "'k crypto \<Rightarrow> 'c send \<Rightarrow> string \<Rightarrow> string \<Rightarrow> string \<Rightarrow> zk_proof \<Rightarrow> 'c \<Rightarrow> tx_receipt result \<times> 'c" where
  "blockchain_cast_vote X send policy_id option_hash nullifier p c =
     (case convert_proof p of
        Inl e \<Rightarrow> (Inl e, c)
      | Inr pf \<Rightarrow>
          (case send (cast_poll_id X policy_id) option_hash nullifier pf c of
             (Inl e, c') \<Rightarrow> (Inl e, c')
           | (Inr None, c') \<Rightarrow> (throw ''Transaction receipt not found'', c')
           | (Inr (Some rc), c') \<Rightarrow> (Inr rc, c')))"

definition results_poll_id :: "'k crypto \<Rightarrow> string \<Rightarrow> string" where
  "results_poll_id X policy_id = keccak_hex X policy_id"

text \<open>\<open>getResults\<close> on the state of the contract.\<close>

definition get_results :: "'k crypto \<Rightarrow> string \<Rightarrow> ledger \<Rightarrow> json" where
  "get_results X policy_id st =
     (case get_poll_meta st (hex_bytes (results_poll_id X policy_id)) of
        (cc, dl, final, votes) \<Rightarrow>
          JObj [(''policyId'', JStr policy_id), (''totalVotes'', JStr (nat_str votes)), (''isFinalised'', JBool final)])"

section \<open>The vote service and its route\<close>

record vote_receipt =
  rc_hash :: string
  rc_block :: int
  rc_nullifier :: string
  rc_timestamp :: int

text \<open>\<open>t\<close> and \<open>t'\<close> are the two readings of the clock.\<close>

definition submit_vote ::
  "'k crypto \<Rightarrow> 'c send \<Rightarrow> int \<Rightarrow> int \<Rightarrow> vote_request \<Rightarrow> 'c \<Rightarrow> vote_receipt result \<times> 'c" where
  "submit_vote X send t t' r c =
     (case verify_signature X r of
        Inl e \<Rightarrow> (Inl e, c)
      | Inr _ \<Rightarrow>
          (case zk_verify X (vr_proof r) of
             Inl e \<Rightarrow> (Inl e, c)
           | Inr _ \<Rightarrow>
               (let age = t - vr_timestamp r
                in if age < 0 \<or> 5 * 60 * 1000 < age
                   then (throw ''Vote payload timestamp is stale or in the future'', c)
                   else (case blockchain_cast_vote X send (vr_policy r) (keccak_hex X (vr_option r))
                                (vr_nullifier r) (vr_proof r) c of
                           (Inl e, c') \<Rightarrow> (Inl e, c')
                         | (Inr rc, c') \<Rightarrow>
                             (Inr \<lparr>rc_hash = tx_hash rc, rc_block = tx_block rc,
                                   rc_nullifier = vr_nullifier r, rc_timestamp = t'\<rparr>, c')))))"

definition receipt_json :: "vote_receipt \<Rightarrow> json" where
  "receipt_json rc =
     JObj [(''transactionHash'', JStr (rc_hash rc)), (''blockNumber'', JNum (rc_block rc)),
           (''nullifier'', JStr (rc_nullifier rc)), (''timestamp'', JNum (rc_timestamp rc))]"

definition vote_handler ::
  "'k crypto \<Rightarrow> 'c send \<Rightarrow> int \<Rightarrow> int \<Rightarrow> vote_request \<Rightarrow> 'c \<Rightarrow> response result \<times> 'c" where
  "vote_handler X send t t' r c =
     (case submit_vote X send t t' r c of
        (Inl e, c') \<Rightarrow> (Inl e, c')
      | (Inr rc, c') \<Rightarrow> (Inr (json_res 201 (receipt_json rc)), c'))"

text \<open>The whole request: schema, handler and error handler. \<open>safe_parse\<close> is zod on \<open>vote_schema\<close>.\<close>

definition vote_route ::
  "('raw \<Rightarrow> issue list + vote_request) \<Rightarrow> 'k crypto \<Rightarrow> 'c send \<Rightarrow> int \<Rightarrow> int \<Rightarrow> 'raw \<Rightarrow> 'c \<Rightarrow> response \<times> 'c" where
  "vote_route safe_parse X send t t' raw c =
     map_prod finish (\<lambda>c'. c') (validate_request safe_parse (vote_handler X send t t') raw c)"

text \<open>\<open>GET /vote/receipt/:txHash\<close>; \<open>lookup\<close> is the node's answer.\<close>

record chain_receipt =
  cr_hash :: string
  cr_block :: int
  cr_status :: nat

definition receipt_route :: "(string \<Rightarrow> chain_receipt option result) \<Rightarrow> string \<Rightarrow> response" where
  "receipt_route lookup h =
     (if \<not> hex_of_length 64 h then json_res 400 (error_json ''Invalid transaction hash'')
      else finish (bind_result (lookup h) (\<lambda>ro. Inr
             (case ro of
                None \<Rightarrow> json_res 404 (error_json ''Receipt not found'')
              | Some r \<Rightarrow>
                  json_res 200 (JObj [(''transactionHash'', JStr (cr_hash r)), (''blockNumber'', JNum (cr_block r)),
                                      (''status'', JStr (if cr_status r = 1 then ''success'' else ''reverted''))])))))"

section \<open>Paper ballots\<close>

record qr_payload =
  qr_policy :: string
  qr_option :: string
  qr_nullifier :: string
  qr_signature :: string
  qr_timestamp :: int

text \<open>\<open>solidityPackedKeccak256\<close> of two strings, a 32-byte word and a number.\<close>

definition qr_message :: "'k crypto \<Rightarrow> qr_payload \<Rightarrow> string" where
  "qr_message X q =
     keccak X (qr_policy q @ qr_option q @ hex_bytes (qr_nullifier q) @ word32 (nat (qr_timestamp q)))"

text \<open>\<open>hash_message\<close> is the EIP-191 hash of \<open>ethers.hashMessage\<close>.\<close>

definition qr_route ::
  "('raw \<Rightarrow> json + qr_payload) \<Rightarrow> 'k crypto \<Rightarrow> (string \<Rightarrow> string) \<Rightarrow> int \<Rightarrow> 'raw \<Rightarrow> response" where
  "qr_route safe_parse X hash_message t raw =
     (case safe_parse raw of
        Inl e \<Rightarrow> json_res 400 (JObj [(''error'', e)])
      | Inr q \<Rightarrow>
          if 30 * 24 * 3600 * 1000 < t - qr_timestamp q
          then json_res 400 (error_json ''QR ballot has expired (> 30 days)'')
          else (case recover X (hash_message (qr_message X q)) (qr_signature q) of
                  Inl e \<Rightarrow> json_res 400 (error_json ''Invalid signature'')
                | Inr signer \<Rightarrow>
                    json_res 201 (JObj [(''receipt'', JObj
                      [(''transactionHash'', JStr (keccak_hex X (qr_nullifier q @ qr_policy q @ qr_option q))),
                       (''blockNumber'', JNum 0), (''nullifier'', JStr (qr_nullifier q))])])))"

section \<open>The contract behind the service\<close>

text \<open>
  The transaction run on the contract of theory \<open>Ledger\<close>: numbers must be 256-bit, a revert becomes
  the message \<open>revert_message\<close> of the client library, and a success has some receipt.
\<close>

definition to_uint :: "int \<Rightarrow> nat result" where
  "to_uint i = (if 0 \<le> i \<and> nat i \<le> uint256_max then Inr (nat i) else throw ''value out-of-bounds'')"

definition encode_proof :: "call_proof \<Rightarrow> proof_data result" where
  "encode_proof p =
     bind_result (map_result to_uint (cp_a p)) (\<lambda>a.
     bind_result (map_result (map_result to_uint) (cp_b p)) (\<lambda>b.
     bind_result (map_result to_uint (cp_c p)) (\<lambda>c.
     bind_result (map_result to_uint (cp_signals p)) (\<lambda>ss.
       Inr \<lparr>piA = a, piB = b, piC = c, publicSignals = ss\<rparr>))))"

definition ledger_send ::
  "(string \<Rightarrow> string) \<Rightarrow> (proof_data \<Rightarrow> bool) \<Rightarrow> env \<Rightarrow> tx_receipt \<Rightarrow> ledger send" where
  "ledger_send revert_message verify en rc poll_id option_hash nullifier pf st =
     (case encode_proof pf of
        Inl e \<Rightarrow> (Inl e, st)
      | Inr p \<Rightarrow>
          (case cast_vote verify en (hex_bytes poll_id) (hex_bytes option_hash) (hex_bytes nullifier) p st of
             Inl e \<Rightarrow> (Inl (revert_message e), st)
           | Inr st' \<Rightarrow> (Inr (Some rc), st')))"

section \<open>The guards\<close>

text \<open>What a vote must have passed before anything is sent.\<close>

definition vote_checked :: "'k crypto \<Rightarrow> int \<Rightarrow> vote_request \<Rightarrow> bool" where
  "vote_checked X t r \<longleftrightarrow>
     (\<exists>a. recover X (keccak_hex X (vote_message r)) (vr_signature r) = Inr a \<and> is_address X a) \<and>
     (case vkey X of None \<Rightarrow> node_env X = ''development'' | Some k \<Rightarrow> groth16 X k (vr_proof r) = Inr True) \<and>
     0 \<le> t - vr_timestamp r \<and> t - vr_timestamp r \<le> 300000"

lemma verify_signature_Inr:
  "verify_signature X r = Inr u \<longleftrightarrow>
     (\<exists>a. recover X (keccak_hex X (vote_message r)) (vr_signature r) = Inr a \<and> is_address X a)"
  by (auto simp: verify_signature_def bind_result_def throw_def split: sum.splits)

lemma zk_verify_Inr:
  "zk_verify X p = Inr u \<longleftrightarrow>
     (case vkey X of None \<Rightarrow> node_env X = ''development'' | Some k \<Rightarrow> groth16 X k p = Inr True)"
  by (auto simp: zk_verify_def bind_result_def throw_def split: sum.splits option.splits if_splits)

lemma submit_vote_cases:
  assumes "submit_vote X send t t' r c = (res, c')"
  shows "(\<exists>e. res = Inl e) \<and> c' = c \<or>
    vote_checked X t r \<and>
      (\<exists>pf out. convert_proof (vr_proof r) = Inr pf \<and>
         send (cast_poll_id X (vr_policy r)) (keccak_hex X (vr_option r)) (vr_nullifier r) pf c = (out, c') \<and>
         (case out of Inr (Some rc) \<Rightarrow> res = Inr \<lparr>rc_hash = tx_hash rc, rc_block = tx_block rc,
                                        rc_nullifier = vr_nullifier r, rc_timestamp = t'\<rparr>
          | _ \<Rightarrow> \<exists>e. res = Inl e))"
proof (cases "vote_checked X t r")
  case True
  then obtain u v where "verify_signature X r = Inr u" "zk_verify X (vr_proof r) = Inr v"
    "\<not> (t - vr_timestamp r < 0 \<or> 5 * 60 * 1000 < t - vr_timestamp r)"
    by (auto simp: vote_checked_def verify_signature_Inr zk_verify_Inr)
  then have sub: "submit_vote X send t t' r c =
      (case blockchain_cast_vote X send (vr_policy r) (keccak_hex X (vr_option r)) (vr_nullifier r) (vr_proof r) c of
         (Inl e, c') \<Rightarrow> (Inl e, c')
       | (Inr rc, c') \<Rightarrow> (Inr \<lparr>rc_hash = tx_hash rc, rc_block = tx_block rc,
                             rc_nullifier = vr_nullifier r, rc_timestamp = t'\<rparr>, c'))"
    by (simp add: submit_vote_def Let_def)
  show ?thesis
  proof (cases "convert_proof (vr_proof r)")
    case (Inl e)
    with assms sub show ?thesis by (auto simp: blockchain_cast_vote_def)
  next
    case (Inr pf)
    obtain out c1 where out: "send (cast_poll_id X (vr_policy r)) (keccak_hex X (vr_option r)) (vr_nullifier r) pf c = (out, c1)"
      by fastforce
    have "c1 = c'" "case out of Inr (Some rc) \<Rightarrow> res = Inr \<lparr>rc_hash = tx_hash rc, rc_block = tx_block rc,
        rc_nullifier = vr_nullifier r, rc_timestamp = t'\<rparr> | _ \<Rightarrow> \<exists>e. res = Inl e"
      using assms sub Inr out
      by (auto simp: blockchain_cast_vote_def throw_def split: sum.splits option.splits)
    with True Inr out show ?thesis by blast
  qed
next
  case False
  then have "(\<exists>e. verify_signature X r = Inl e) \<or> (\<exists>e. zk_verify X (vr_proof r) = Inl e) \<or>
      t - vr_timestamp r < 0 \<or> 5 * 60 * 1000 < t - vr_timestamp r"
    by (cases "verify_signature X r"; cases "zk_verify X (vr_proof r)")
      (auto simp: vote_checked_def verify_signature_Inr zk_verify_Inr)
  with assms show ?thesis
    by (auto simp: submit_vote_def Let_def throw_def split: sum.splits)
qed

lemma error_handler_status: "status (error_handler m) \<in> {409, 410, 400, 422, 500}"
  using sanitize_error_status by (simp add: error_handler_def)

lemma vote_route_201:
  assumes "vote_route sp X send t t' raw c = (res, c')" "status res = 201"
  obtains r rc where "sp raw = Inr r" "submit_vote X send t t' r c = (Inr rc, c')" "body res = Json (receipt_json rc)"
proof (cases "sp raw")
  case (Inl e)
  with assms show ?thesis by (auto simp: vote_route_def validate_request_def)
next
  case (Inr r)
  obtain out c1 where out: "submit_vote X send t t' r c = (out, c1)" by fastforce
  show ?thesis
  proof (cases out)
    case (Inl e)
    with Inr out assms error_handler_status [of e] show ?thesis
      by (auto simp: vote_route_def validate_request_def vote_handler_def)
  next
    case (Inr rc)
    with \<open>sp raw = Inr r\<close> out assms that show ?thesis
      by (auto simp: vote_route_def validate_request_def vote_handler_def)
  qed
qed

section \<open>The service on the contract\<close>

lemma ledger_send_cases:
  assumes "ledger_send msg v en rc i opt n pf st = (out, st')"
  shows "(\<exists>e. out = Inl e) \<and> st' = st \<or>
    out = Inr (Some rc) \<and> (\<exists>p. cast_vote v en (hex_bytes i) (hex_bytes opt) (hex_bytes n) p st = Inr st')"
  using assms by (auto simp: ledger_send_def split: sum.splits)

text \<open>
  The traffic the contract sees: HTTP requests served by the backend, with the clock's two readings and the
  environment of the transaction, and transactions sent to it directly.
\<close>

datatype 'raw traffic = Post 'raw int int env | Direct env ledger_call

definition request_cast :: "'k crypto \<Rightarrow> vote_request \<Rightarrow> vote_cast" where
  "request_cast X r =
     \<lparr>vc_poll = hex_bytes (cast_poll_id X (vr_policy r)), vc_nullifier = hex_bytes (vr_nullifier r),
      vc_option = keccak X (vr_option r)\<rparr>"

definition backend_channel ::
  "('raw \<Rightarrow> issue list + vote_request) \<Rightarrow> 'k crypto \<Rightarrow> (string \<Rightarrow> string) \<Rightarrow> (proof_data \<Rightarrow> bool) \<Rightarrow> tx_receipt
     \<Rightarrow> 'raw traffic \<Rightarrow> ledger \<Rightarrow> vote_cast option \<times> ledger" where
  "backend_channel sp X msg v rc q st =
     (case q of
        Post raw t t' en \<Rightarrow>
          (case vote_route sp X (ledger_send msg v en rc) t t' raw st of
             (res, st') \<Rightarrow>
               (if status res = 201
                then (case sp raw of Inl e \<Rightarrow> None | Inr r \<Rightarrow> Some (request_cast X r)) else None, st'))
      | Direct en c \<Rightarrow> ledger_channel (keccak X) v (en, c) st)"

lemma vote_route_ledger:
  assumes "vote_route sp X (ledger_send msg v en rc) t t' raw st = (res, st')"
  shows "status res \<noteq> 201 \<and> st' = st \<or>
    (\<exists>r p. status res = 201 \<and> sp raw = Inr r \<and> vote_checked X t r \<and>
       cast_vote v en (hex_bytes (cast_poll_id X (vr_policy r))) (keccak X (vr_option r))
         (hex_bytes (vr_nullifier r)) p st = Inr st')"
proof (cases "status res = 201")
  case True
  obtain r rc' where r: "sp raw = Inr r" "submit_vote X (ledger_send msg v en rc) t t' r st = (Inr rc', st')"
    using vote_route_201 [OF assms True] by blast
  obtain pf out where out: "vote_checked X t r"
    "ledger_send msg v en rc (cast_poll_id X (vr_policy r)) (keccak_hex X (vr_option r)) (vr_nullifier r) pf st = (out, st')"
    "case out of Inr (Some rc) \<Rightarrow> True | _ \<Rightarrow> False"
    using submit_vote_cases [OF r(2)] by (fastforce split: sum.splits option.splits)
  then obtain p where "cast_vote v en (hex_bytes (cast_poll_id X (vr_policy r))) (hex_bytes (keccak_hex X (vr_option r)))
      (hex_bytes (vr_nullifier r)) p st = Inr st'"
    using ledger_send_cases [OF out(2)] by auto
  then have "cast_vote v en (hex_bytes (cast_poll_id X (vr_policy r))) (keccak X (vr_option r))
      (hex_bytes (vr_nullifier r)) p st = Inr st'"
    by (simp add: keccak_hex_def hex_bytes_str)
  with True r(1) out(1) show ?thesis by blast
next
  case False
  show ?thesis
  proof (cases "sp raw")
    case (Inl e)
    with assms False show ?thesis by (simp add: vote_route_def validate_request_def)
  next
    case (Inr r)
    obtain out st1 where o1: "submit_vote X (ledger_send msg v en rc) t t' r st = (out, st1)" by fastforce
    with assms Inr have "st1 = st'" "case out of Inr x \<Rightarrow> status res = 201 | Inl e \<Rightarrow> True"
      by (auto simp: vote_route_def validate_request_def vote_handler_def split: sum.splits)
    with False have "\<exists>e. out = Inl e" by (cases out) simp_all
    then have "st' = st"
      using submit_vote_cases [OF o1] ledger_send_cases \<open>st1 = st'\<close>
      by (fastforce split: sum.splits option.splits)
    with False show ?thesis by blast
  qed
qed

lemma backend_channel_step:
  assumes "backend_channel sp X msg v rc q st = (r, st')"
  shows "case r of None \<Rightarrow> spent_on st' = spent_on st
    | Some e \<Rightarrow> vc_nullifier e \<notin> spent_on st \<and> spent_on st' = insert (vc_nullifier e) (spent_on st)"
proof (cases q)
  case (Direct en c)
  with assms ledger_channel_step show ?thesis by (fastforce simp: backend_channel_def)
next
  case (Post raw t t' en)
  obtain res st1 where res: "vote_route sp X (ledger_send msg v en rc) t t' raw st = (res, st1)" by fastforce
  have st1: "st1 = st'" using assms res by (simp add: backend_channel_def Post)
  from vote_route_ledger [OF res] show ?thesis
  proof (elim disjE exE conjE)
    assume "status res \<noteq> 201" "st1 = st"
    with assms res st1 show ?thesis by (auto simp: backend_channel_def Post)
  next
    fix w p
    assume "status res = 201" "sp raw = Inr w" and
      cast: "cast_vote v en (hex_bytes (cast_poll_id X (vr_policy w))) (keccak X (vr_option w))
        (hex_bytes (vr_nullifier w)) p st = Inr st1"
    with assms res st1 have "r = Some (request_cast X w)" by (auto simp: backend_channel_def Post)
    with cast st1 show ?thesis by (auto simp: request_cast_def spent_on_def cast_vote_Inr)
  qed
qed

interpretation backend: vote_channel "backend_channel sp X msg v rc" spent_on vc_nullifier for sp X msg v rc
  by unfold_locales (use backend_channel_step in fastforce)+

section \<open>Which poll\<close>

lemma hd_abi_encode: "\<exists>s. abi_encode p cc = CHR 0x00 # s"
proof -
  have "[0..<32] = 0 # [Suc 0..<32]" by (simp add: upt_conv_Cons)
  moreover have "char_of (0 :: nat) = CHR 0x00" by code_simp
  ultimately show ?thesis by (simp add: abi_encode_def word32_def)
qed

lemma poll_created:
  assumes "deadline (polls (ledger_run k v txs (ledger_init a)) i) \<noteq> 0"
  shows "\<exists>en p cc dl. (en, CreatePoll p cc dl) \<in> set txs \<and> i = k (p @ cc)"
proof -
  have step: "deadline (polls st' i) \<noteq> 0 \<Longrightarrow> deadline (polls st i) \<noteq> 0 \<or> (\<exists>p cc dl. c = CreatePoll p cc dl \<and> i = k (p @ cc))"
    if "ledger_exec k v en c st = Inr st'" for en c st st'
    using that
    by (cases c) (auto simp: ledger_exec_def owner_calls_defs cast_vote_Inr packed_poll_id_def split: if_splits)
  have "deadline (polls (ledger_run k v txs st) i) \<noteq> 0 \<Longrightarrow>
      deadline (polls st i) \<noteq> 0 \<or> (\<exists>en p cc dl. (en, CreatePoll p cc dl) \<in> set txs \<and> i = k (p @ cc))" for st
  proof (induction txs arbitrary: st)
    case (Cons tx txs)
    obtain en c where tx: "tx = (en, c)" by fastforce
    show ?case
    proof (cases "ledger_exec k v en c st")
      case (Inl e)
      with Cons.IH [of st] Cons.prems show ?thesis by (auto simp: tx)
    next
      case (Inr st')
      with Cons.IH [of st'] Cons.prems step [OF Inr] show ?thesis by (auto simp: tx)
    qed
  qed simp
  from this [OF assms] show ?thesis by (simp add: ledger_init_def no_poll_def)
qed

section \<open>Properties\<close>

text \<open>
  C2: Nothing is sent to the chain, and no vote is confirmed, unless the signature recovers to an
  address, the proof verifies under the key (or there is no key and the process runs in development
  mode), and the request is at most five minutes old and not from the future.
\<close>

theorem vote_relay_guarded:
  assumes "submit_vote X send t t' r c = (res, c')" "c' \<noteq> c \<or> (\<exists>rc. res = Inr rc)"
  shows "vote_checked X t r"
  using submit_vote_cases [OF assms(1)] assms(2) by auto

definition demo_crypto :: "unit crypto" where
  "demo_crypto = \<lparr>keccak = (\<lambda>b. b), recover = (\<lambda>h s. Inr ''0xa''), is_address = (\<lambda>a. True),
     node_env = ''production'', vkey = Some (), groth16 = (\<lambda>k p. Inr (pi_a p = [''1'', ''2'']))\<rparr>"

definition demo_request :: vote_request where
  "demo_request = \<lparr>vr_policy = ''p'', vr_option = ''option-support'', vr_nullifier = ''0xab'',
     vr_proof = \<lparr>pi_a = [''1'', ''2''], pi_b = [[''3'', ''4''], [''5'', ''6'']], pi_c = [''7'', ''8''], public_signals = []\<rparr>,
     vr_signature = ''0x00'', vr_timestamp = 1000\<rparr>"

theorem vote_relay_guarded_witness:
  "\<exists>rc. fst (submit_vote demo_crypto (\<lambda>i h n p c. (Inr (Some \<lparr>tx_hash = ''t'', tx_block = 1\<rparr>), c)) 2000 2001 demo_request ()) = Inr rc \<and>
     vote_checked demo_crypto 2000 demo_request"
proof -
  let ?s = "submit_vote demo_crypto (\<lambda>i h n p c. (Inr (Some \<lparr>tx_hash = ''t'', tx_block = 1\<rparr>), c)) 2000 2001 demo_request ()"
  have "\<not> isl (fst ?s)" by code_simp
  then obtain rc where rc: "fst ?s = Inr rc" by (cases "fst ?s") simp_all
  then have "?s = (Inr rc, snd ?s)" by (metis prod.collapse)
  then have "vote_checked demo_crypto 2000 demo_request" by (rule vote_relay_guarded) blast
  with rc show ?thesis by blast
qed

text \<open>
  Each rejection has its own answer, whatever the chain: a malformed body gets 400 with the issues, a
  proof that does not verify 400 ``Invalid vote proof.'', and a checked request outside the five
  minutes 400 ``Vote payload has expired.''; in all three the chain is as before.
\<close>

theorem vote_rejections:
  "(sp raw = Inl iss \<longrightarrow> vote_route sp X send t t' raw c = (json_res 400 (issues_json iss), c)) \<and>
   (sp raw = Inr r \<longrightarrow> verify_signature X r = Inr () \<longrightarrow> vkey X = Some k \<longrightarrow>
      groth16 X k (vr_proof r) = Inr False \<longrightarrow>
      vote_route sp X send t t' raw c = (json_res 400 (error_json ''Invalid vote proof.''), c)) \<and>
   (sp raw = Inr r \<longrightarrow> verify_signature X r = Inr () \<longrightarrow> zk_verify X (vr_proof r) = Inr () \<longrightarrow>
      t < vr_timestamp r \<or> 300000 < t - vr_timestamp r \<longrightarrow>
      vote_route sp X send t t' raw c = (json_res 400 (error_json ''Vote payload has expired.''), c))"
proof -
  have e: "error_handler ''Zero-knowledge proof verification failed'' = json_res 400 (error_json ''Invalid vote proof.'')"
    "error_handler ''Vote payload timestamp is stale or in the future'' =
      json_res 400 (error_json ''Vote payload has expired.'')"
    by code_simp+
  show ?thesis
    by (auto simp: vote_route_def validate_request_def vote_handler_def submit_vote_def zk_verify_def
        bind_result_def throw_def e)
qed

theorem vote_rejections_witness:
  "vote_route (\<lambda>r. Inr r) (demo_crypto\<lparr>groth16 := (\<lambda>_ _. Inr False)\<rparr>) (\<lambda>i h n p c. (Inl ''e'', Suc c)) 2000 2001 demo_request 0 =
     (json_res 400 (error_json ''Invalid vote proof.''), 0)"
proof -
  have "verify_signature (demo_crypto\<lparr>groth16 := (\<lambda>_ _. Inr False)\<rparr>) demo_request = Inr ()"
    by (simp add: verify_signature_def demo_crypto_def bind_result_def)
  then show ?thesis
    using vote_rejections [of "\<lambda>r. Inr r" demo_request _ "demo_crypto\<lparr>groth16 := (\<lambda>_ _. Inr False)\<rparr>"
        "\<lambda>i h n p c. (Inl ''e'', Suc c)" 2000 2001 0 demo_request "()"]
    by (simp add: demo_crypto_def)
qed

text \<open>
  C1: End to end, no nullifier votes twice: for any traffic of HTTP votes and transactions sent
  directly to the contract, the confirmed votes (answer 201, or a successful transaction) have distinct
  nullifiers, none of them was spent before, and the contract's spent nullifiers grow by exactly these.
\<close>

theorem backend_one_vote:
  assumes "run_channel (backend_channel sp X msg v rc) qs st = (vs, st')"
  shows "distinct (map vc_nullifier vs) \<and> vc_nullifier ` set vs \<inter> spent_on st = {} \<and>
    spent_on st' = spent_on st \<union> vc_nullifier ` set vs"
  using assms by (rule backend.run_once)

theorem backend_one_vote_witness:
  "\<exists>vs st'. run_channel (backend_channel (\<lambda>r. Inr r) demo_crypto (\<lambda>e. e) (\<lambda>_. True) \<lparr>tx_hash = ''t'', tx_block = 1\<rparr>)
      [Direct \<lparr>sender = ''o'', now = 1\<rparr> (CreatePoll ''p'' ''GB'' 9),
       Direct \<lparr>sender = ''v'', now = 2\<rparr> (CastVote ''pGB'' ''y'' ''n'' any_proof),
       Direct \<lparr>sender = ''v'', now = 3\<rparr> (CastVote ''pGB'' ''z'' ''n'' any_proof)] (ledger_init ''o'') = (vs, st') \<and>
    length vs = 1 \<and> distinct (map vc_nullifier vs)"
proof -
  let ?run = "run_channel (backend_channel (\<lambda>r. Inr r) demo_crypto (\<lambda>e. e) (\<lambda>_. True) \<lparr>tx_hash = ''t'', tx_block = 1\<rparr>)
      [Direct \<lparr>sender = ''o'', now = 1\<rparr> (CreatePoll ''p'' ''GB'' 9),
       Direct \<lparr>sender = ''v'', now = 2\<rparr> (CastVote ''pGB'' ''y'' ''n'' any_proof),
       Direct \<lparr>sender = ''v'', now = 3\<rparr> (CastVote ''pGB'' ''z'' ''n'' any_proof)] (ledger_init ''o'')"
  have "length (fst ?run) = 1"
    by (simp add: backend_channel_def ledger_channel_def ledger_exec_def owner_calls_defs cast_vote_def cast_of_def
        ledger_init_def no_poll_def packed_poll_id_def demo_crypto_def uint256_max_def)
  then show ?thesis
    using backend_one_vote [OF prod.collapse [of ?run, symmetric]] by (metis prod.collapse)
qed

text \<open>
  The backend looks for polls where none can be: it hashes the ABI encoding of policy and country,
  the contract hashes their concatenation. If the hash is injective, then whatever the owner and others did
  with a fresh ledger (creating polls for policy ids that start with a character other than NUL), no vote sent
  through the backend is ever accepted.
\<close>

theorem vote_poll_unreachable:
  assumes "inj (keccak X)"
    and "\<forall>en p cc dl. (en, CreatePoll p cc dl) \<in> set txs \<longrightarrow> p \<noteq> [] \<and> hd p \<noteq> CHR 0x00"
    and "st = ledger_run (keccak X) v txs (ledger_init a)"
    and "vote_route sp X (ledger_send msg v en rc) t t' raw st = (res, st')"
  shows "status res \<noteq> 201 \<and> st' = st"
proof -
  have "deadline (polls st (hex_bytes (cast_poll_id X pid))) = 0" for pid
  proof (rule ccontr)
    assume "deadline (polls st (hex_bytes (cast_poll_id X pid))) \<noteq> 0"
    then obtain en p cc dl where p: "(en, CreatePoll p cc dl) \<in> set txs"
      "hex_bytes (cast_poll_id X pid) = keccak X (p @ cc)"
      unfolding assms(3) using poll_created by blast
    then have "abi_encode pid (get_country_code pid) = p @ cc"
      using assms(1) by (simp add: cast_poll_id_def keccak_hex_def hex_bytes_str inj_eq)
    with hd_abi_encode [of pid "get_country_code pid"] assms(2) p(1) show False
      by (metis append_is_Nil_conv hd_append2 list.sel(1))
  qed
  then show ?thesis
    using vote_route_ledger [OF assms(4)] by (auto simp: cast_vote_Inr)
qed

theorem vote_poll_unreachable_witness:
  "status (fst (vote_route (\<lambda>r. Inr r) demo_crypto (ledger_send (\<lambda>e. e) (\<lambda>_. True) \<lparr>sender = ''o'', now = 2\<rparr> \<lparr>tx_hash = ''t'', tx_block = 1\<rparr>)
      2000 2001 demo_request
      (ledger_run (keccak demo_crypto) (\<lambda>_. True) [(\<lparr>sender = ''o'', now = 1\<rparr>, CreatePoll ''p'' ''GB'' 9)] (ledger_init ''o'')))) \<noteq> 201"
proof -
  have "inj (keccak demo_crypto)" by (simp add: demo_crypto_def)
  then show ?thesis
    by (rule vote_poll_unreachable [OF _ _ refl prod.collapse [symmetric], THEN conjunct1]) auto
qed

text \<open>
  The results route reads yet another poll: for a poll created for policy p and country cc, the
  identifier looked up for p is not the poll's, and the poll's votes are what is reported for the
  ``policy'' p followed by cc.
\<close>

theorem results_wrong_poll:
  assumes "inj (keccak X)" "cc \<noteq> []"
  shows "hex_bytes (results_poll_id X p) \<noteq> packed_poll_id (keccak X) p cc \<and>
    get_results X (p @ cc) st =
      JObj [(''policyId'', JStr (p @ cc)),
            (''totalVotes'', JStr (nat_str (totalVotes (polls st (packed_poll_id (keccak X) p cc))))),
            (''isFinalised'', JBool (finalised (polls st (packed_poll_id (keccak X) p cc))))]"
  using assms
  by (simp add: results_poll_id_def packed_poll_id_def keccak_hex_def hex_bytes_str inj_eq get_results_def
      get_poll_meta_def Let_def)

theorem results_wrong_poll_witness:
  "hex_bytes (results_poll_id demo_crypto ''p'') \<noteq> packed_poll_id (keccak demo_crypto) ''p'' ''GB''"
  by (rule results_wrong_poll [THEN conjunct1]) (simp_all add: demo_crypto_def)

text \<open>
  The paper-ballot route accepts exactly the well-formed ballots at most thirty days old whose
  signature recovers to some signer, however often they are presented and also with a time in the
  future; and what is signed does not separate the policy from the option, so a ballot whose policy
  and option run together to the same text is accepted under the same signature with the same message.
\<close>

theorem qr_outcome:
  "(status (qr_route sp X hm t raw) = 201 \<longleftrightarrow>
      (\<exists>q a. sp raw = Inr q \<and> t - qr_timestamp q \<le> 2592000000 \<and>
         recover X (hm (qr_message X q)) (qr_signature q) = Inr a)) \<and>
   qr_message X (q\<lparr>qr_policy := a @ b, qr_option := d\<rparr>) = qr_message X (q\<lparr>qr_policy := a, qr_option := b @ d\<rparr>)"
  by (auto simp: qr_route_def qr_message_def split: sum.splits)

end
