(* ===== verification/Rate_Limit.thy ===== *)
theory Rate_Limit
  imports Http
begin

text \<open>
  The sliding-window rate limiter of \<open>middleware/rateLimitRedis.ts\<close>. A sorted set of Redis is the
  association list of its members and scores together with the time its key expires; the four
  commands of the pipeline act on it as the Redis documentation says. Times are milliseconds.
\<close>

section \<open>Sorted sets\<close>

record zset =
  members :: "(string \<times> int) list"
  expires :: int

type_synonym zstore = "string \<Rightarrow> zset option"

text \<open>A key whose time has come is gone.\<close>

definition zread :: "int \<Rightarrow> zstore \<Rightarrow> string \<Rightarrow> (string \<times> int) list" where
  "zread now st k =
     (case st k of None \<Rightarrow> [] | Some z \<Rightarrow> if expires z \<le> now then [] else members z)"

definition zremrangebyscore :: "int \<Rightarrow> (string \<times> int) list \<Rightarrow> (string \<times> int) list" where
  "zremrangebyscore hi ms = filter (\<lambda>(m, score). hi < score) ms"

definition zadd :: "int \<Rightarrow> string \<Rightarrow> (string \<times> int) list \<Rightarrow> (string \<times> int) list" where
  "zadd score m ms = filter (\<lambda>(m', _). m' \<noteq> m) ms @ [(m, score)]"

section \<open>The middleware\<close>

record http_req =
  header :: "string \<Rightarrow> string option"
  req_ip :: "string option"

record rl_options =
  namespace :: string
  window_ms :: int
  limit :: int
  key_fn :: "http_req \<Rightarrow> string"
  overrides :: "(string \<times> int) list"
  country_header :: string

datatype verdict =
  Proceed "(string \<times> int) list"
| Reject "(string \<times> int) list" response
| Fail_open

text \<open>The list holds the response headers; \<open>Fail_open\<close> sets none.\<close>

definition client_ip :: "http_req \<Rightarrow> string" where
  "client_ip r =
     (case header r ''x-forwarded-for'' of
        Some f \<Rightarrow> if f = [] then case_option ''unknown'' (\<lambda>v. v) (req_ip r)
                  else trim (hd (split_on (CHR '','') f))
      | None \<Rightarrow> case_option ''unknown'' (\<lambda>v. v) (req_ip r))"

definition default_key :: "http_req \<Rightarrow> string" where
  "default_key r =
     client_ip r @ '':'' @ to_upper (case_option ''XX'' (\<lambda>v. v) (header r ''x-country-code''))"

definition admin_key :: "http_req \<Rightarrow> string" where
  "admin_key r =
     (let auth = case_option [] (\<lambda>v. v) (header r ''authorization'')
      in if starts_with auth ''Bearer '' then slice 7 39 auth else default_key r)"

definition country_of :: "rl_options \<Rightarrow> http_req \<Rightarrow> string" where
  "country_of o' r = to_upper (case_option [] (\<lambda>v. v) (header r (country_header o')))"

text \<open>\<open>countryOverrides[country] ?? limit\<close>; an inherited property would be no number.\<close>

definition effective_limit :: "rl_options \<Rightarrow> http_req \<Rightarrow> js_num" where
  "effective_limit o' r =
     (case obj_get (overrides o') (country_of o' r) of
        Own l \<Rightarrow> Some l | Undefined \<Rightarrow> Some (limit o') | Inherited _ \<Rightarrow> None)"

definition redis_key :: "rl_options \<Rightarrow> http_req \<Rightarrow> string" where
  "redis_key o' r = ''rl:'' @ namespace o' @ '':'' @ key_fn o' r"

definition rl_headers :: "rl_options \<Rightarrow> int \<Rightarrow> int \<Rightarrow> (string \<times> int) list" where
  "rl_headers o' l count =
     [(''X-RateLimit-Limit'', l), (''X-RateLimit-Remaining'', max 0 (l - count - 1)),
      (''X-RateLimit-Reset'', - ((- window_ms o') div 1000))]"

definition too_many :: "rl_options \<Rightarrow> response" where
  "too_many o' =
     json_res 429 (JObj [(''error'', JStr (''Too many requests '' @ [CHR 0xE2, CHR 0x80, CHR 0x94] @
                                         '' please wait before trying again.'')),
                         (''retryAfterSeconds'', JNum (- ((- window_ms o') div 1000)))])"

text \<open>\<open>rand\<close> is the random part of the member; \<open>up\<close> says whether Redis answers.\<close>

definition rate_limit :: "rl_options \<Rightarrow> int \<Rightarrow> string \<Rightarrow> bool \<Rightarrow> http_req \<Rightarrow> zstore \<Rightarrow> verdict \<times> zstore" where
  "rate_limit o' now rand up r st =
     (if \<not> up then (Fail_open, st)
      else
        (let k = redis_key o' r;
             kept = zremrangebyscore (now - window_ms o') (zread now st k);
             count = int (length kept);
             st' = st(k \<mapsto> \<lparr>members = zadd now (int_str now @ ''-'' @ rand) kept, expires = now + window_ms o'\<rparr>)
         in case effective_limit o' r of
              None \<Rightarrow> (Proceed [], st')
            | Some l \<Rightarrow>
                if l \<le> count then (Reject (rl_headers o' l count) (too_many o'), st')
                else (Proceed (rl_headers o' l count), st')))"

definition vote_limiter :: rl_options where
  "vote_limiter = \<lparr>namespace = ''vote'', window_ms = 60000, limit = 5, key_fn = default_key,
     overrides = [(''NG'', 3), (''IN'', 3)], country_header = ''x-country-code''\<rparr>"

definition audit_limiter :: rl_options where
  "audit_limiter = \<lparr>namespace = ''audit'', window_ms = 60000, limit = 60, key_fn = default_key,
     overrides = [], country_header = ''x-country-code''\<rparr>"

definition admin_limiter :: rl_options where
  "admin_limiter = \<lparr>namespace = ''admin'', window_ms = 60000, limit = 10, key_fn = admin_key,
     overrides = [], country_header = ''x-country-code''\<rparr>"

definition fido2_limiter :: rl_options where
  "fido2_limiter = \<lparr>namespace = ''fido2'', window_ms = 60000, limit = 30, key_fn = default_key,
     overrides = [], country_header = ''x-country-code''\<rparr>"

section \<open>Runs\<close>

record arrival =
  at :: int
  rnd :: string
  req :: http_req

fun rl_run :: "rl_options \<Rightarrow> arrival list \<Rightarrow> zstore \<Rightarrow> verdict list \<times> zstore" where
  "rl_run o' [] st = ([], st)"
| "rl_run o' (a # as) st =
     (case rate_limit o' (at a) (rnd a) True (req a) st of
        (v, st') \<Rightarrow> (case rl_run o' as st' of (vs, st'') \<Rightarrow> (v # vs, st'')))"

definition admitted :: "verdict \<Rightarrow> bool" where
  "admitted v = (case v of Proceed _ \<Rightarrow> True | Reject _ _ \<Rightarrow> False | Fail_open \<Rightarrow> True)"

definition entry_name :: "arrival \<Rightarrow> string" where
  "entry_name a = int_str (at a) @ ''-'' @ rnd a"

text \<open>The requests of \<open>as\<close> under the key that are younger than the window at a time.\<close>

definition recent :: "rl_options \<Rightarrow> string \<Rightarrow> int \<Rightarrow> arrival list \<Rightarrow> arrival list" where
  "recent o' k t as = filter (\<lambda>a. redis_key o' (req a) = k \<and> t - window_ms o' < at a) as"

text \<open>
  The stored set against the history: at no time from now on does the set, once evicted, differ from
  the recent requests of the history.
\<close>

definition holds_history :: "rl_options \<Rightarrow> arrival list \<Rightarrow> int \<Rightarrow> zstore \<Rightarrow> bool" where
  "holds_history o' as t st \<longleftrightarrow>
     (\<forall>k t'. t \<le> t' \<longrightarrow>
        zremrangebyscore (t' - window_ms o') (zread t' st k) = map (\<lambda>a. (entry_name a, at a)) (recent o' k t' as))"

lemma effective_limit_Some: "\<exists>l. effective_limit o' r = Some l"
  using object_prototype_not_upper
  by (auto simp: effective_limit_def obj_get_def country_of_def split: option.splits)

lemma zremrange_twice:
  "lo \<le> hi \<Longrightarrow> zremrangebyscore hi (zremrangebyscore lo ms) = zremrangebyscore hi ms"
  by (induction ms) (auto simp: zremrangebyscore_def)

lemma rate_limit_step:
  assumes h: "holds_history o' as t st" and t: "t \<le> at a" and w: "0 < window_ms o'"
    and new: "entry_name a \<notin> entry_name ` set as" and past: "\<forall>x \<in> set as. at x \<le> at a"
    and step: "rate_limit o' (at a) (rnd a) True (req a) st = (v, st')"
  shows "holds_history o' (as @ [a]) (at a) st'"
    and "admitted v \<longleftrightarrow>
      int (length (recent o' (redis_key o' (req a)) (at a) as)) < the (effective_limit o' (req a))"
proof -
  let ?k = "redis_key o' (req a)"
  let ?kept = "zremrangebyscore (at a - window_ms o') (zread (at a) st ?k)"
  have kept: "?kept = map (\<lambda>a. (entry_name a, at a)) (recent o' ?k (at a) as)"
    using h t by (simp add: holds_history_def)
  obtain l where l: "effective_limit o' (req a) = Some l" using effective_limit_Some by blast
  have st': "st' = st(?k \<mapsto> \<lparr>members = zadd (at a) (entry_name a) ?kept, expires = at a + window_ms o'\<rparr>)"
    and "admitted v \<longleftrightarrow> int (length ?kept) < l"
    using step by (auto simp: rate_limit_def Let_def l entry_name_def admitted_def split: if_splits)
  then show "admitted v \<longleftrightarrow>
      int (length (recent o' ?k (at a) as)) < the (effective_limit o' (req a))"
    by (simp add: kept l)
  have "filter (\<lambda>(m', _). m' \<noteq> entry_name a) ?kept = ?kept"
    using new by (auto simp: kept recent_def filter_id_conv) (metis image_eqI)
  then have add: "zadd (at a) (entry_name a) ?kept =
      map (\<lambda>a. (entry_name a, at a)) (recent o' ?k (at a) as) @ [(entry_name a, at a)]"
    by (simp add: zadd_def kept)
  show "holds_history o' (as @ [a]) (at a) st'"
    unfolding holds_history_def
  proof (intro allI impI)
    fix k t' assume t': "at a \<le> t'"
    have sub: "zremrangebyscore (t' - window_ms o') (map (\<lambda>a. (entry_name a, at a)) (recent o' ?k (at a) as)) =
        map (\<lambda>a. (entry_name a, at a)) (recent o' ?k t' as)"
      using t' by (induction as) (auto simp: zremrangebyscore_def recent_def)
    show "zremrangebyscore (t' - window_ms o') (zread t' st' k) =
        map (\<lambda>a. (entry_name a, at a)) (recent o' k t' (as @ [a]))"
    proof (cases "k = ?k")
      case False
      then have "zread t' st' k = zread t' st k" by (simp add: st' zread_def)
      with h t t' False show ?thesis by (simp add: holds_history_def recent_def)
    next
      case True
      show ?thesis
      proof (cases "at a + window_ms o' \<le> t'")
        case True
        then have "recent o' ?k t' as = []"
          using past by (auto simp: recent_def filter_empty_conv)
        with True \<open>k = ?k\<close> show ?thesis
          by (simp add: st' zread_def zremrangebyscore_def recent_def)
      next
        case False
        then have "zread t' st' k = zadd (at a) (entry_name a) ?kept"
          using \<open>k = ?k\<close> by (simp add: st' zread_def [of t'])
        then have "zread t' st' k = map (\<lambda>a. (entry_name a, at a)) (recent o' ?k (at a) as) @ [(entry_name a, at a)]"
          using add by simp
        with sub False \<open>k = ?k\<close> show ?thesis
          by (simp add: zremrangebyscore_def recent_def)
      qed
    qed
  qed
qed


lemma rl_run_exact:
  assumes "rl_run o' as st = (vs, st')" "holds_history o' ps t st" "0 < window_ms o'"
    and "sorted (map at (ps @ as))" "distinct (map entry_name (ps @ as))" "\<forall>a \<in> set as. t \<le> at a"
  shows "length vs = length as \<and>
    (\<forall>i < length as. admitted (vs ! i) \<longleftrightarrow>
      int (length (recent o' (redis_key o' (req (as ! i))) (at (as ! i)) (ps @ take i as)))
        < the (effective_limit o' (req (as ! i))))"
  using assms
proof (induction as arbitrary: ps t st vs st')
  case (Cons a as)
  obtain v s1 where step: "rate_limit o' (at a) (rnd a) True (req a) st = (v, s1)" by fastforce
  obtain ws s2 where run: "rl_run o' as s1 = (ws, s2)" by fastforce
  have vs: "vs = v # ws" using Cons.prems(1) step run by simp
  have new: "entry_name a \<notin> entry_name ` set ps" and past: "\<forall>x \<in> set ps. at x \<le> at a"
    using Cons.prems(4,5) by (auto simp: sorted_append)
  have t: "t \<le> at a" using Cons.prems(6) by simp
  note s = rate_limit_step [OF Cons.prems(2) t Cons.prems(3) new past step]
  have "length ws = length as \<and>
    (\<forall>i < length as. admitted (ws ! i) \<longleftrightarrow>
      int (length (recent o' (redis_key o' (req (as ! i))) (at (as ! i)) ((ps @ [a]) @ take i as)))
        < the (effective_limit o' (req (as ! i))))"
    by (rule Cons.IH [OF run s(1) Cons.prems(3)]) (use Cons.prems(4,5) in \<open>auto simp: sorted_append\<close>)
  with s(2) show ?case by (auto simp: vs less_Suc_eq_0_disj)
qed simp

lemma holds_history_empty: "holds_history o' [] t Map.empty"
  by (simp add: holds_history_def zread_def zremrangebyscore_def recent_def)

lemma length_recent:
  "i \<le> length as \<Longrightarrow> length (recent o' k t (take i as)) =
     card {j. j < i \<and> redis_key o' (req (as ! j)) = k \<and> t - window_ms o' < at (as ! j)}"
  by (simp add: recent_def length_filter_conv_card) (metis (no_types, lifting) nth_take)

lemma window_exact:
  assumes "rl_run o' as Map.empty = (vs, st)" "0 < window_ms o'"
    and "sorted (map at as)" "distinct (map entry_name as)" "i < length as"
  shows "admitted (vs ! i) \<longleftrightarrow>
    int (length (recent o' (redis_key o' (req (as ! i))) (at (as ! i)) (take i as)))
      < the (effective_limit o' (req (as ! i)))"
  using rl_run_exact [OF assms(1) holds_history_empty [of o' "Min (insert 0 (at ` set as))"] assms(2)] assms(3-5)
  by simp

lemma window_bound:
  assumes "rl_run o' as Map.empty = (vs, st)" "0 < window_ms o'"
    and "sorted (map at as)" "distinct (map entry_name as)"
    and "\<forall>a \<in> set as. redis_key o' (req a) = k \<longrightarrow> the (effective_limit o' (req a)) \<le> int l"
  shows "card {i. i < length as \<and> admitted (vs ! i) \<and> redis_key o' (req (as ! i)) = k \<and>
      t - window_ms o' < at (as ! i) \<and> at (as ! i) \<le> t} \<le> l" (is "card ?I \<le> l")
proof (cases "?I = {}")
  case False
  define m where "m = Max ?I"
  have fin: "finite ?I" by simp
  have m: "m \<in> ?I" and max: "j \<in> ?I \<Longrightarrow> j \<le> m" for j
    using Max_in [OF fin False] Max_ge [OF fin] by (simp_all add: m_def)
  let ?J = "{j. j < m \<and> redis_key o' (req (as ! j)) = k \<and> at (as ! m) - window_ms o' < at (as ! j)}"
  have "int (card ?J) < int l"
    using window_exact [OF assms(1-4), of m] m length_recent [of m as o' k "at (as ! m)"] assms(5) by force
  moreover have "?I - {m} \<subseteq> ?J"
  proof
    fix j assume j: "j \<in> ?I - {m}"
    then have "j < m" using max [of j] by auto
    with j m show "j \<in> ?J" by auto
  qed
  then have "card (?I - {m}) \<le> card ?J" by (intro card_mono) simp_all
  moreover have "card ?I = Suc (card (?I - {m}))"
    using fin m by (rule card.remove)
  ultimately show ?thesis by linarith
next
  case True
  then show ?thesis by (metis card.empty le0)
qed

section \<open>Properties\<close>

text \<open>
  C39: The limiter is exactly a count over the past: in any run, with Redis answering and time not
  running backwards, a request is let through if and only if the earlier requests under its key in the
  last window, let through or not, are fewer than its limit.
\<close>

theorem rate_limit_exact:
  assumes "rl_run o' as Map.empty = (vs, st)" "0 < window_ms o'"
    and "sorted (map at as)" "distinct (map entry_name as)" "i < length as"
  shows "admitted (vs ! i) \<longleftrightarrow>
    int (length (recent o' (redis_key o' (req (as ! i))) (at (as ! i)) (take i as)))
      < the (effective_limit o' (req (as ! i)))"
  by (rule window_exact [OF assms])

definition demo_options :: rl_options where
  "demo_options = \<lparr>namespace = ''n'', window_ms = 100, limit = 2, key_fn = (\<lambda>r. ''k''), overrides = [],
     country_header = ''x-country-code''\<rparr>"

definition demo_arrival :: "int \<Rightarrow> arrival" where
  "demo_arrival t = \<lparr>at = t, rnd = [], req = \<lparr>header = (\<lambda>_. None), req_ip = None\<rparr>\<rparr>"

definition demo_as :: "arrival list" where
  "demo_as = [demo_arrival 10, demo_arrival 50, demo_arrival 90]"

lemma demo_entries: "distinct (map entry_name demo_as)"
  by code_simp

lemma demo_limit: "effective_limit demo_options (req (demo_arrival t)) = Some 2"
  by (simp add: demo_options_def demo_arrival_def effective_limit_def country_of_def obj_get_def to_upper_def
      object_prototype_def)

lemma demo_key: "redis_key demo_options r = ''rl:n:k''"
  by (simp add: redis_key_def demo_options_def)

lemma demo_at [simp]: "at (demo_arrival t) = t" "window_ms demo_options = 100"
  by (simp_all add: demo_arrival_def demo_options_def)

theorem rate_limit_exact_witness:
  "\<not> admitted (fst (rl_run demo_options demo_as Map.empty) ! 2)"
proof -
  have "admitted (fst (rl_run demo_options demo_as Map.empty) ! 2) \<longleftrightarrow>
      int (length (recent demo_options (redis_key demo_options (req (demo_as ! 2))) (at (demo_as ! 2)) (take 2 demo_as)))
        < the (effective_limit demo_options (req (demo_as ! 2)))"
    by (rule rate_limit_exact [OF prod.collapse [symmetric]])
      (use demo_entries in \<open>simp_all add: demo_as_def\<close>)
  then show ?thesis by (simp add: demo_as_def demo_limit demo_key recent_def)
qed

text \<open>
  Over any span of one window, at most the limit of requests is let through per key.
\<close>

theorem rate_limit_bound:
  assumes "rl_run o' as Map.empty = (vs, st)" "0 < window_ms o'"
    and "sorted (map at as)" "distinct (map entry_name as)"
    and "\<forall>a \<in> set as. redis_key o' (req a) = k \<longrightarrow> the (effective_limit o' (req a)) \<le> int l"
  shows "card {i. i < length as \<and> admitted (vs ! i) \<and> redis_key o' (req (as ! i)) = k \<and>
      t - window_ms o' < at (as ! i) \<and> at (as ! i) \<le> t} \<le> l"
  by (rule window_bound [OF assms])

theorem rate_limit_bound_witness:
  "card {i. i < length demo_as \<and> admitted (fst (rl_run demo_options demo_as Map.empty) ! i) \<and>
      redis_key demo_options (req (demo_as ! i)) = ''rl:n:k'' \<and>
      100 - window_ms demo_options < at (demo_as ! i) \<and> at (demo_as ! i) \<le> 100} \<le> 2"
  by (rule rate_limit_bound [OF prod.collapse [symmetric]])
    (use demo_entries demo_limit in \<open>auto simp: demo_as_def\<close>)

text \<open>
  Rejected requests count as well, against the documented steps (``otherwise, add''): a client that
  keeps asking every d milliseconds, with the limit times d below the window, is let through for its
  first requests up to the limit and then never again.
\<close>

theorem rate_limit_starves:
  assumes "rl_run o' as Map.empty = (vs, st)" "0 < window_ms o'"
    and "\<forall>i < length as. at (as ! i) = t0 + int i * d \<and> redis_key o' (req (as ! i)) = k \<and>
           effective_limit o' (req (as ! i)) = Some (int l)"
    and "0 \<le> d" "int l * d < window_ms o'" "distinct (map entry_name as)" "i < length as"
  shows "admitted (vs ! i) \<longleftrightarrow> i < l"
proof -
  have "sorted (map at as)"
    using assms(3,4) by (simp add: sorted_iff_nth_mono mult_right_mono)
  from window_exact [OF assms(1,2) this assms(6,7)]
  have "admitted (vs ! i) \<longleftrightarrow>
      card {j. j < i \<and> redis_key o' (req (as ! j)) = k \<and> at (as ! i) - window_ms o' < at (as ! j)} < l"
    using assms(3,7) length_recent [of i as o' k "at (as ! i)"] by simp
  also have "{j. j < i \<and> redis_key o' (req (as ! j)) = k \<and> at (as ! i) - window_ms o' < at (as ! j)} =
      {j. j < i \<and> int (i - j) * d < window_ms o'}" (is "?A = ?B")
  proof (rule Collect_cong, rule conj_cong [OF refl])
    fix j assume "j < i"
    then have "at (as ! i) - at (as ! j) = int (i - j) * d"
      using assms(3,7) by (simp add: of_nat_diff left_diff_distrib)
    then show "redis_key o' (req (as ! j)) = k \<and> at (as ! i) - window_ms o' < at (as ! j) \<longleftrightarrow> int (i - j) * d < window_ms o'"
      using assms(3,7) \<open>j < i\<close> by auto
  qed
  also have "card ?B < l \<longleftrightarrow> i < l"
  proof (cases "i < l")
    case True
    have "card ?B \<le> card {..<i}" by (intro card_mono) auto
    with True show ?thesis by simp
  next
    case False
    have "{i - l..<i} \<subseteq> ?B"
    proof
      fix j assume j: "j \<in> {i - l..<i}"
      then have "int (i - j) \<le> int l" using False by auto
      then have "int (i - j) * d \<le> int l * d" using assms(4) by (rule mult_right_mono)
      with j assms(5) show "j \<in> ?B" by simp
    qed
    then have "card {i - l..<i} \<le> card ?B" by (intro card_mono) auto
    with False show ?thesis by simp
  qed
  finally show ?thesis .
qed

theorem rate_limit_starves_witness:
  "\<not> admitted (fst (rl_run demo_options demo_as Map.empty) ! 2) \<and> admitted (fst (rl_run demo_options demo_as Map.empty) ! 1)"
proof -
  have "admitted (fst (rl_run demo_options demo_as Map.empty) ! i) \<longleftrightarrow> i < 2" if "i < 3" for i
    by (rule rate_limit_starves [where k = "''rl:n:k''" and ?t0.0 = 10 and d = 40, OF prod.collapse [symmetric]])
      (use demo_entries that in \<open>auto simp: demo_as_def demo_limit demo_key less_Suc_eq numeral_eq_Suc\<close>)
  then show ?thesis by simp
qed

text \<open>
  The vote limiter is evaded by the client's own header: requests of one client that name pairwise
  different countries are all let through, however many and however fast.
\<close>

theorem rate_limit_evaded:
  assumes "rl_run vote_limiter as Map.empty = (vs, st)"
    and "\<forall>i < length as. req (as ! i) = r\<lparr>header := (header r)(''x-country-code'' \<mapsto> cs ! i)\<rparr>"
    and "length cs = length as" "distinct (map to_upper cs)"
    and "sorted (map at as)" "distinct (map entry_name as)" "i < length as"
  shows "admitted (vs ! i)"
proof -
  have "client_ip (r\<lparr>header := (header r)(''x-country-code'' \<mapsto> c)\<rparr>) = client_ip r" for c
    by (simp add: client_ip_def split: option.split)
  then have key: "redis_key vote_limiter (req (as ! j)) = ''rl:vote:'' @ client_ip r @ '':'' @ to_upper (cs ! j)"
    if "j < length as" for j
    using assms(2) that by (simp add: vote_limiter_def redis_key_def default_key_def)
  have "redis_key vote_limiter (req (as ! j)) \<noteq> redis_key vote_limiter (req (as ! i))" if "j < i" for j
    using key [of i] key [of j] that assms(3,4,7) by (simp add: distinct_conv_nth)
  then have "{j. j < i \<and> redis_key vote_limiter (req (as ! j)) = redis_key vote_limiter (req (as ! i)) \<and>
      at (as ! i) - window_ms vote_limiter < at (as ! j)} = {}" by auto
  then have "card {j. j < i \<and> redis_key vote_limiter (req (as ! j)) = redis_key vote_limiter (req (as ! i)) \<and>
      at (as ! i) - window_ms vote_limiter < at (as ! j)} = 0" by (simp only: card.empty)
  then have "length (recent vote_limiter (redis_key vote_limiter (req (as ! i))) (at (as ! i)) (take i as)) = 0"
    using length_recent [of i as vote_limiter] assms(7) by (simp only: less_imp_le)
  moreover have "0 < the (effective_limit vote_limiter (req (as ! i)))"
    using effective_limit_Some [of vote_limiter "req (as ! i)"]
    by (auto simp: effective_limit_def vote_limiter_def obj_get_def split: option.splits if_splits)
  moreover have "0 < window_ms vote_limiter" by (simp add: vote_limiter_def)
  ultimately show ?thesis
    using window_exact [OF assms(1) _ assms(5-7)] by simp
qed

theorem rate_limit_evaded_witness:
  "admitted (fst (rl_run vote_limiter
      (map (\<lambda>c. \<lparr>at = 7, rnd = [c], req = \<lparr>header = [''x-country-code'' \<mapsto> [c]], req_ip = Some ''1.2.3.4''\<rparr>\<rparr>) ''abcdef'')
      Map.empty) ! 5)"
proof -
  have d: "distinct (map to_upper (map (\<lambda>c. [c]) ''abcdef''))" by code_simp
  show ?thesis
    by (rule rate_limit_evaded [where r = "\<lparr>header = Map.empty, req_ip = Some ''1.2.3.4''\<rparr>" and cs = "map (\<lambda>c. [c]) ''abcdef''",
          OF prod.collapse [symmetric]])
      (use d in \<open>auto simp: less_Suc_eq numeral_eq_Suc entry_name_def\<close>)
qed

end
