(* ===== verification/Identity.thy ===== *)
theory Identity
  imports Redis_Store Http
begin

text \<open>
  Identity adapters: \<open>identity/BaseIdentityAdapter.ts\<close>, \<open>MockAdapter.ts\<close>, \<open>GovUKAdapter.ts\<close>,
  \<open>eIDASAdapter.ts\<close>, \<open>ZKPassportAdapter.ts\<close>, \<open>IdentityAdapterRegistry.ts\<close> and the route
  \<open>routes/identity.ts\<close>. The check of a JWT by the jose package and the ZKPassport verifier are parameters;
  the environment variables are the record \<open>id_config\<close>, where an unset variable is the empty string
  or \<open>None\<close> as the code reads it.
\<close>

section \<open>Configuration and results\<close>

record identity_result =
  commitment :: string
  sybil_key :: "string option"
  country_code :: string
  adapter_name :: string

text \<open>The server's own query and what the verifier is asked.\<close>

record zkp_query =
  q_nationality :: string
  q_min_age :: int
  q_custom_data :: string
  q_facematch :: string

record zkp_input =
  in_proofs :: "json list"
  in_query :: zkp_query
  in_result :: json
  in_scope :: string
  in_dev :: bool
  in_oprf :: "string option"

record zkp_verification =
  verified :: bool
  unique_identifier :: "string option"
  identifier_type :: "int option"
  result_errors :: bool

record id_config =
  sha256 :: "string \<Rightarrow> string"
  commitment_salt :: string
  node_env :: string
  govuk_jwks :: string
  govuk_issuer :: string
  govuk_client :: string
  eidas_jwks :: string
  eidas_issuer :: string
  eidas_audience :: string
  eidas_countries :: string
  jwt_verify :: "string \<Rightarrow> string \<Rightarrow> string \<Rightarrow> string \<Rightarrow> json result"
  country_alpha3 :: "string \<Rightarrow> string option"
  zkp_dev_flag :: bool
  zkp_oprf :: "string option"
  zkp_verify :: "zkp_input \<Rightarrow> zkp_verification result"
  salted_type :: int
  salted_mock_type :: int
  zod_message :: "json \<Rightarrow> string"

text \<open>\<open>jwt_verify jwks issuer audience token\<close> gives the payload.\<close>

definition derive_commitment :: "id_config \<Rightarrow> string \<Rightarrow> string \<Rightarrow> string" where
  "derive_commitment C subject cc =
     ''0x'' @ sha256 C (subject @ to_upper cc @ commitment_salt C)"

section \<open>Mock\<close>

definition mock_verify :: "id_config \<Rightarrow> string \<Rightarrow> identity_result result" where
  "mock_verify C token =
     (if node_env C = ''production'' then throw ''MockAdapter is disabled in production''
      else (case json_parse token of
              None \<Rightarrow> throw ''MockAdapter: token must be JSON { sub, countryCode }''
            | Some j \<Rightarrow>
                if j = JNull then throw ''Cannot read properties of null (reading 'sub')''
                else
                  (let sub = (if nullish (json_get ''sub'' j) then ''mock-user''
                              else js_string (the (json_get ''sub'' j)))
                   in case (if nullish (json_get ''countryCode'' j) then Some (JStr ''GB'')
                            else json_get ''countryCode'' j) of
                        Some (JStr c) \<Rightarrow>
                          (let cc = to_upper c
                           in Inr \<lparr>commitment = derive_commitment C sub cc, sybil_key = None,
                                   country_code = cc, adapter_name = ''mock''\<rparr>)
                      | _ \<Rightarrow> throw ''(intermediate value).toUpperCase is not a function'')))"

section \<open>Gov.UK One Login\<close>

definition ACCEPTED_VOT :: "string list" where
  "ACCEPTED_VOT = [''Cl.Cm'', ''Cl.Cm.P2'', ''P1.Cl.Cm'', ''P2.Cl.Cm'']"

definition in_set :: "json option \<Rightarrow> string list \<Rightarrow> bool" where
  "in_set v xs = (case v of Some (JStr s) \<Rightarrow> s \<in> set xs | _ \<Rightarrow> False)"

definition govuk_verify :: "id_config \<Rightarrow> string \<Rightarrow> identity_result result" where
  "govuk_verify C token =
     (if govuk_jwks C = [] \<or> govuk_issuer C = [] \<or> govuk_client C = []
      then throw (''GovUK adapter not configured '' @ [CHR 0xE2, CHR 0x80, CHR 0x94] @
                  '' set GOVUK_OIDC_JWKS_URI, GOVUK_OIDC_ISSUER, GOVUK_OIDC_CLIENT_ID'')
      else bind_result (jwt_verify C (govuk_jwks C) (govuk_issuer C) (govuk_client C) token) (\<lambda>payload.
        (let vot = json_get ''vot'' payload; sub = json_get ''sub'' payload
         in if js_truthy vot \<and> \<not> in_set vot ACCEPTED_VOT
            then throw (''Gov.UK One Login vot '' @ [CHR 0x27] @ js_string (the vot) @ [CHR 0x27] @ '' insufficient '' @
                        [CHR 0xE2, CHR 0x80, CHR 0x94] @ '' Cl.Cm or higher required'')
            else if \<not> js_truthy sub then throw ''Gov.UK One Login token missing sub claim''
            else Inr \<lparr>commitment = derive_commitment C (js_string (the sub)) ''GB'', sybil_key = None,
                      country_code = ''GB'', adapter_name = ''govuk''\<rparr>)))"

section \<open>eIDAS\<close>

definition ACCEPTED_LOA :: "string list" where
  "ACCEPTED_LOA = [''http://eidas.europa.eu/LoA/high'', ''http://eidas.europa.eu/LoA/substantial'']"

definition allowed_countries :: "id_config \<Rightarrow> string list" where
  "allowed_countries C = map (\<lambda>c. to_upper (trim c)) (split_on (CHR '','') (eidas_countries C))"

text \<open>The issuing country of \<open>/^([A-Z]{2})\/([A-Z]{2}|EU)\/(.+)$/\<close>; the dot matches no line end.\<close>

definition npi_country :: "string \<Rightarrow> string option" where
  "npi_country s =
     (if 7 \<le> length s \<and> is_upper (s ! 0) \<and> is_upper (s ! 1) \<and> s ! 2 = CHR ''/'' \<and>
         is_upper (s ! 3) \<and> is_upper (s ! 4) \<and> s ! 5 = CHR ''/'' \<and>
         list_all (\<lambda>c. c \<noteq> CHR 0x0A \<and> c \<noteq> CHR 0x0D) (drop 6 s) \<and>
         \<not> str_includes (drop 6 s) [CHR 0xE2, CHR 0x80, CHR 0xA8] \<and>
         \<not> str_includes (drop 6 s) [CHR 0xE2, CHR 0x80, CHR 0xA9]
      then Some (take 2 s) else None)"

definition eidas_verify :: "id_config \<Rightarrow> string \<Rightarrow> identity_result result" where
  "eidas_verify C token =
     (if eidas_jwks C = [] \<or> eidas_issuer C = [] \<or> eidas_audience C = []
      then throw (''eIDAS adapter not configured '' @ [CHR 0xE2, CHR 0x80, CHR 0x94] @
                  '' set EIDAS_JWKS_URI, EIDAS_ISSUER, EIDAS_AUDIENCE'')
      else bind_result (jwt_verify C (eidas_jwks C) (eidas_issuer C) (eidas_audience C) token) (\<lambda>payload.
        (let loa = json_get ''acr'' payload;
             npi = (if nullish (json_get ''eidas_natural_person_identifier'' payload) then json_get ''sub'' payload
                    else json_get ''eidas_natural_person_identifier'' payload)
         in if js_truthy loa \<and> \<not> in_set loa ACCEPTED_LOA
            then throw (''eIDAS LoA '' @ [CHR 0x27] @ js_string (the loa) @ [CHR 0x27] @ '' insufficient '' @
                        [CHR 0xE2, CHR 0x80, CHR 0x94] @ '' high or substantial required'')
            else if \<not> js_truthy npi then throw ''eIDAS token missing natural person identifier''
            else (case npi of
                Some (JStr n) \<Rightarrow>
                  bind_result
                    (case npi_country n of
                       Some cc \<Rightarrow> Inr (to_upper cc)
                     | None \<Rightarrow>
                         (if nullish (json_get ''c'' payload) then Inr ''EU''
                          else (case json_get ''c'' payload of
                                  Some (JStr c) \<Rightarrow> Inr (to_upper c)
                                | _ \<Rightarrow> throw ''(intermediate value).toUpperCase is not a function'')))
                    (\<lambda>cc. if cc \<notin> set (allowed_countries C)
                          then throw (''Country '' @ [CHR 0x27] @ cc @ [CHR 0x27] @ '' not in eIDAS allow-list'')
                          else Inr \<lparr>commitment = derive_commitment C n cc, sybil_key = None,
                                    country_code = cc, adapter_name = ''eidas''\<rparr>)
              | _ \<Rightarrow> throw ''npi.match is not a function''))))"

section \<open>ZKPassport\<close>

definition MIN_VOTING_AGE :: int where "MIN_VOTING_AGE = 18"

definition scope_for :: "string \<Rightarrow> string" where
  "scope_for alpha3 = ''citizen-'' @ to_lower alpha3"

definition build_query :: "string \<Rightarrow> string \<Rightarrow> zkp_query" where
  "build_query alpha3 c =
     \<lparr>q_nationality = alpha3, q_min_age = MIN_VOTING_AGE, q_custom_data = to_lower c, q_facematch = ''strict''\<rparr>"

definition dev_mode :: "id_config \<Rightarrow> bool result" where
  "dev_mode C =
     (if zkp_dev_flag C \<and> node_env C = ''production''
      then throw ''ZKPassport dev mode (mock proofs) is not allowed in production'' else Inr (zkp_dev_flag C))"

record zkp_token =
  tk_country :: string
  tk_commitment :: string
  tk_proofs :: "json list"
  tk_result :: json

definition commitment_format :: "string \<Rightarrow> bool" where
  "commitment_format s \<longleftrightarrow> starts_with s ''0x'' \<and> length s = 66 \<and> list_all is_hex (drop 2 s)"

definition token_schema :: "json \<Rightarrow> zkp_token option" where
  "token_schema j =
     (case (json_get ''country'' j, json_get ''commitment'' j, json_get ''proofs'' j, json_get ''queryResult'' j) of
        (Some (JStr cc), Some (JStr c), Some (JArr ps), Some (JObj q)) \<Rightarrow>
          if length cc = 2 \<and> commitment_format c \<and> ps \<noteq> []
          then Some \<lparr>tk_country = cc, tk_commitment = c, tk_proofs = ps, tk_result = JObj q\<rparr> else None
      | _ \<Rightarrow> None)"

definition parse_token :: "id_config \<Rightarrow> string \<Rightarrow> zkp_token result" where
  "parse_token C token =
     (case json_parse token of
        None \<Rightarrow> throw ''ZKPassport: malformed token (not JSON)''
      | Some j \<Rightarrow>
          (case token_schema j of
             None \<Rightarrow> throw (''ZKPassport: malformed token ('' @ zod_message C j @ '')'')
           | Some t \<Rightarrow> Inr t))"

text \<open>\<open>v?.a?.b?.c\<close>.\<close>

fun json_path :: "string list \<Rightarrow> json option \<Rightarrow> json option" where
  "json_path [] v = v"
| "json_path (k # ks) v = (case v of None \<Rightarrow> None | Some j \<Rightarrow> json_path ks (json_get k j))"

definition check_results :: "string \<Rightarrow> string \<Rightarrow> json \<Rightarrow> unit result" where
  "check_results alpha3 c q =
     (if json_path [''nationality'', ''eq'', ''expected''] (Some q) \<noteq> Some (JStr alpha3) \<or>
         json_path [''nationality'', ''eq'', ''result''] (Some q) \<noteq> Some (JBool True)
      then throw ''ZKPassport: nationality not proven''
      else if json_path [''age'', ''gte'', ''result''] (Some q) \<noteq> Some (JBool True) \<or>
              json_path [''age'', ''gte'', ''expected''] (Some q) \<noteq> Some (JNum MIN_VOTING_AGE)
      then throw ''ZKPassport: minimum age not proven''
      else (case json_path [''bind'', ''custom_data''] (Some q) of
              Some (JStr d) \<Rightarrow>
                if to_lower d \<noteq> c then throw ''ZKPassport: proof is not bound to this commitment'' else Inr ()
            | v \<Rightarrow>
                if nullish v then throw ''ZKPassport: proof is not bound to this commitment''
                else throw ''queryResult.bind?.custom_data?.toLowerCase is not a function''))"

definition zkp_adapter_verify :: "id_config \<Rightarrow> string \<Rightarrow> identity_result result" where
  "zkp_adapter_verify C token =
     bind_result (parse_token C token) (\<lambda>t.
     (let cc = to_upper (tk_country t)
      in case country_alpha3 C cc of
           None \<Rightarrow> throw (''ZKPassport: unsupported country '' @ [CHR 0x27] @ cc @ [CHR 0x27])
         | Some alpha3 \<Rightarrow>
             bind_result (dev_mode C) (\<lambda>dev.
             if \<not> dev \<and> (zkp_oprf C = None \<or> zkp_oprf C = Some [])
             then throw (''ZKPassport adapter not configured '' @ [CHR 0xE2, CHR 0x80, CHR 0x94] @ '' set ZKP_OPRF_KEY_ID'')
             else
               (let c = to_lower (tk_commitment t)
                in bind_result
                     (zkp_verify C \<lparr>in_proofs = tk_proofs t, in_query = build_query alpha3 c,
                                    in_result = tk_result t, in_scope = scope_for alpha3, in_dev = dev,
                                    in_oprf = zkp_oprf C\<rparr>) (\<lambda>r.
                     if \<not> verified r \<or> result_errors r then throw ''ZKPassport: invalid proof''
                     else (case unique_identifier r of
                         None \<Rightarrow> throw ''ZKPassport: proof carried no unique identifier''
                       | Some u \<Rightarrow>
                           if u = [] then throw ''ZKPassport: proof carried no unique identifier''
                           else if identifier_type r \<noteq> Some (salted_type C) \<and>
                                   \<not> (dev \<and> identifier_type r = Some (salted_mock_type C))
                           then throw ''ZKPassport: salted unique identifier required''
                           else bind_result (check_results alpha3 c (tk_result t)) (\<lambda>_.
                                  Inr \<lparr>commitment = c, sybil_key = Some u, country_code = cc,
                                       adapter_name = ''zkpassport''\<rparr>)))))))"

section \<open>The registry of adapters and the route\<close>

definition adapter_names :: "string list" where
  "adapter_names = [''eidas'', ''govuk'', ''zkpassport'', ''mock'']"

definition get_adapter :: "id_config \<Rightarrow> string \<Rightarrow> (string \<Rightarrow> identity_result result) result" where
  "get_adapter C name =
     (case map_of [(''eidas'', eidas_verify C), (''govuk'', govuk_verify C),
                   (''zkpassport'', zkp_adapter_verify C), (''mock'', mock_verify C)] (to_lower name) of
        None \<Rightarrow> throw (''Unknown identity adapter '' @ [CHR 0x27] @ name @ [CHR 0x27] @ ''. Available: '' @
                       join '', '' adapter_names)
      | Some f \<Rightarrow> Inr f)"

definition list_adapters :: "id_config \<Rightarrow> string list" where
  "list_adapters C = filter (\<lambda>k. k \<noteq> ''mock'' \<or> node_env C \<noteq> ''production'') adapter_names"

record identity_body =
  b_adapter :: string
  b_token :: string

definition adapter_verify :: "id_config \<Rightarrow> identity_body \<Rightarrow> identity_result result" where
  "adapter_verify C b = bind_result (get_adapter C (b_adapter b)) (\<lambda>f. f (b_token b))"

text \<open>\<open>flat\<close> is the flattened zod error.\<close>

definition identity_route :: "(json + identity_body) \<Rightarrow> id_config \<Rightarrow> response" where
  "identity_route parsed C =
     (case parsed of
        Inl flat \<Rightarrow> json_res 400 (JObj [(''error'', JStr ''Invalid request''), (''details'', flat)])
      | Inr b \<Rightarrow>
          (case adapter_verify C b of
             Inl e \<Rightarrow> json_res 401 (error_json e)
           | Inr r \<Rightarrow>
               json_res 200 (JObj [(''commitment'', JStr (commitment r)), (''countryCode'', JStr (country_code r))])))"

definition adapters_route :: "id_config \<Rightarrow> response" where
  "adapters_route C = json_res 200 (JObj [(''adapters'', JArr (map JStr (list_adapters C)))])"

section \<open>What an accepted identity rests on\<close>

lemma bind_Inr: "bind_result r f = Inr y \<longleftrightarrow> (\<exists>x. r = Inr x \<and> f x = Inr y)"
  by (auto simp: bind_result_def split: sum.splits)

lemma throw_Inr [simp]: "throw m \<noteq> Inr x" "Inr x \<noteq> throw m"
  by (simp_all add: throw_def)

lemma check_results_Inr:
  "check_results alpha3 c q = Inr u \<longleftrightarrow>
     json_path [''nationality'', ''eq'', ''expected''] (Some q) = Some (JStr alpha3) \<and>
     json_path [''nationality'', ''eq'', ''result''] (Some q) = Some (JBool True) \<and>
     json_path [''age'', ''gte'', ''expected''] (Some q) = Some (JNum 18) \<and>
     json_path [''age'', ''gte'', ''result''] (Some q) = Some (JBool True) \<and>
     (\<exists>d. json_path [''bind'', ''custom_data''] (Some q) = Some (JStr d) \<and> to_lower d = c)"
  by (auto simp: check_results_def MIN_VOTING_AGE_def split: option.splits json.splits simp del: json_path.simps)

text \<open>The facts a ZKPassport result stands for.\<close>

definition zkp_facts :: "id_config \<Rightarrow> zkp_token \<Rightarrow> string \<Rightarrow> zkp_verification \<Rightarrow> identity_result \<Rightarrow> bool" where
  "zkp_facts C t alpha3 v r \<longleftrightarrow>
     country_code r = to_upper (tk_country t) \<and> country_alpha3 C (country_code r) = Some alpha3 \<and>
     commitment r = to_lower (tk_commitment t) \<and>
     zkp_verify C \<lparr>in_proofs = tk_proofs t, in_query = build_query alpha3 (commitment r), in_result = tk_result t,
       in_scope = scope_for alpha3, in_dev = zkp_dev_flag C, in_oprf = zkp_oprf C\<rparr> = Inr v \<and>
     verified v \<and> \<not> result_errors v \<and>
     sybil_key r = unique_identifier v \<and> unique_identifier v \<notin> {None, Some []} \<and>
     (identifier_type v = Some (salted_type C) \<or>
      zkp_dev_flag C \<and> node_env C \<noteq> ''production'' \<and> identifier_type v = Some (salted_mock_type C)) \<and>
     check_results alpha3 (commitment r) (tk_result t) = Inr ()"

lemma zkp_facts_verified: "zkp_facts C t alpha3 v r \<Longrightarrow> verified v"
  by (simp add: zkp_facts_def)

lemma zkp_adapter_Inr:
  assumes "zkp_adapter_verify C token = Inr r"
  shows "adapter_name r = ''zkpassport'' \<and>
    (\<exists>t alpha3 v. parse_token C token = Inr t \<and> zkp_facts C t alpha3 v r)"
proof -
  obtain t where t: "parse_token C token = Inr t"
    using assms by (auto simp: zkp_adapter_verify_def bind_Inr)
  obtain alpha3 where a: "country_alpha3 C (to_upper (tk_country t)) = Some alpha3"
    using assms t by (auto simp: zkp_adapter_verify_def bind_Inr Let_def split: option.splits)
  obtain dev where dev: "dev_mode C = Inr dev"
    using assms t a by (auto simp: zkp_adapter_verify_def bind_Inr Let_def)
  then have d: "dev = zkp_dev_flag C" "dev \<Longrightarrow> node_env C \<noteq> ''production''"
    by (auto simp: dev_mode_def throw_def split: if_splits)
  let ?i = "\<lparr>in_proofs = tk_proofs t, in_query = build_query alpha3 (to_lower (tk_commitment t)),
    in_result = tk_result t, in_scope = scope_for alpha3, in_dev = zkp_dev_flag C, in_oprf = zkp_oprf C\<rparr>"
  obtain v where v: "zkp_verify C ?i = Inr v"
    using assms t a dev d(1) by (auto simp: zkp_adapter_verify_def bind_Inr Let_def split: if_splits)
  show ?thesis
    using assms t a dev d v
    by (auto simp: zkp_adapter_verify_def bind_Inr Let_def zkp_facts_def split: if_splits option.splits)
qed

lemma govuk_Inr:
  assumes "govuk_verify C token = Inr r"
  shows "adapter_name r = ''govuk'' \<and> country_code r = ''GB'' \<and>
    (\<exists>p. jwt_verify C (govuk_jwks C) (govuk_issuer C) (govuk_client C) token = Inr p)"
  using assms by (auto simp: govuk_verify_def bind_Inr Let_def split: if_splits)

lemma eidas_Inr:
  assumes "eidas_verify C token = Inr r"
  shows "adapter_name r = ''eidas'' \<and> country_code r \<in> set (allowed_countries C) \<and>
    (\<exists>p. jwt_verify C (eidas_jwks C) (eidas_issuer C) (eidas_audience C) token = Inr p)"
  using assms
  by (auto simp: eidas_verify_def bind_Inr Let_def split: if_splits option.splits json.splits)

lemma mock_production: "node_env C = ''production'' \<Longrightarrow> mock_verify C token \<noteq> Inr r"
  by (simp add: mock_verify_def)

lemma adapter_verify_cases:
  assumes "adapter_verify C b = Inr r"
  shows "eidas_verify C (b_token b) = Inr r \<or> govuk_verify C (b_token b) = Inr r \<or>
    zkp_adapter_verify C (b_token b) = Inr r \<or> mock_verify C (b_token b) = Inr r"
  using assms by (auto simp: adapter_verify_def get_adapter_def bind_Inr split: if_splits)

section \<open>Properties\<close>

text \<open>
  C27: A ZKPassport identity is sound: when the adapter accepts a token, the verifier accepted its proofs
  against the query the server built itself (this nationality, age 18, this commitment, a strict face
  match, the scope of the country), the salted identifier of the document is the Sybil key, and the
  proven results name the nationality, the age and this very commitment; mock identifiers count only
  outside production.
\<close>

theorem zkpassport_sound:
  assumes "zkp_adapter_verify C token = Inr r"
  shows "\<exists>t alpha3 v. parse_token C token = Inr t \<and> zkp_facts C t alpha3 v r \<and>
    json_path [''nationality'', ''eq'', ''expected''] (Some (tk_result t)) = Some (JStr alpha3) \<and>
    json_path [''age'', ''gte'', ''expected''] (Some (tk_result t)) = Some (JNum 18) \<and>
    (\<exists>d. json_path [''bind'', ''custom_data''] (Some (tk_result t)) = Some (JStr d) \<and> to_lower d = commitment r)"
proof -
  obtain t alpha3 v where "parse_token C token = Inr t" and f: "zkp_facts C t alpha3 v r"
    using zkp_adapter_Inr [OF assms] by blast
  moreover have "check_results alpha3 (commitment r) (tk_result t) = Inr ()"
    using f unfolding zkp_facts_def by (elim conjE)
  ultimately show ?thesis by (auto simp: check_results_Inr)
qed

definition demo_config :: id_config where
  "demo_config = \<lparr>sha256 = (\<lambda>s. s), commitment_salt = ''s'', node_env = ''production'',
     govuk_jwks = ''j'', govuk_issuer = ''i'', govuk_client = ''c'',
     eidas_jwks = ''j'', eidas_issuer = ''i'', eidas_audience = ''a'', eidas_countries = ''DE,FR'',
     jwt_verify = (\<lambda>j i a t. Inr (JObj [(''sub'', JStr ''DE/EU/12345678X'')])),
     country_alpha3 = (\<lambda>c. if c = ''GB'' then Some ''GBR'' else None),
     zkp_dev_flag = False, zkp_oprf = Some ''1'',
     zkp_verify = (\<lambda>i. Inr \<lparr>verified = True, unique_identifier = Some ''u'', identifier_type = Some 1, result_errors = False\<rparr>),
     salted_type = 1, salted_mock_type = 2, zod_message = (\<lambda>j. ''bad'')\<rparr>"

definition demo_commitment :: string where
  "demo_commitment = ''0x'' @ replicate 64 (CHR ''a'')"

definition demo_token :: json where
  "demo_token = JObj [(''country'', JStr ''GB''), (''commitment'', JStr demo_commitment), (''proofs'', JArr [JNull]),
     (''queryResult'', JObj
        [(''nationality'', JObj [(''eq'', JObj [(''expected'', JStr ''GBR''), (''result'', JBool True)])]),
         (''age'', JObj [(''gte'', JObj [(''expected'', JNum 18), (''result'', JBool True)])]),
         (''bind'', JObj [(''custom_data'', JStr demo_commitment)])])]"

lemma demo_commitment_lower: "to_lower demo_commitment = demo_commitment" "commitment_format demo_commitment"
  by code_simp+

lemma demo_accepted:
  "zkp_adapter_verify demo_config (stringify demo_token) =
     Inr \<lparr>commitment = demo_commitment, sybil_key = Some ''u'', country_code = ''GB'', adapter_name = ''zkpassport''\<rparr>"
proof -
  have "json_parse (stringify demo_token) = Some demo_token"
    by (rule json_roundtrip(1)) (simp add: demo_token_def max_safe_def)
  moreover have "to_upper ''GB'' = ''GB''" by code_simp
  ultimately show ?thesis
    by (simp add: zkp_adapter_verify_def parse_token_def token_schema_def demo_commitment_lower bind_result_def
        demo_token_def demo_config_def dev_mode_def check_results_def MIN_VOTING_AGE_def Let_def)
qed

theorem zkpassport_sound_witness:
  "\<exists>t alpha3 (v :: zkp_verification). parse_token demo_config (stringify demo_token) = Inr t \<and>
     json_path [''nationality'', ''eq'', ''expected''] (Some (tk_result t)) = Some (JStr alpha3) \<and> verified v"
proof -
  obtain t alpha3 v where "parse_token demo_config (stringify demo_token) = Inr t"
    "json_path [''nationality'', ''eq'', ''expected''] (Some (tk_result t)) = Some (JStr alpha3)"
    "zkp_facts demo_config t alpha3 v \<lparr>commitment = demo_commitment, sybil_key = Some ''u'', country_code = ''GB'',
       adapter_name = ''zkpassport''\<rparr>"
    using zkpassport_sound [OF demo_accepted] by blast
  then show ?thesis using zkp_facts_verified by blast
qed

text \<open>
  In production every identity comes from a provider: whatever adapter a request names, an accepted
  identity has a Gov.UK or eIDAS token that jose verified, or a ZKPassport proof of which the facts hold;
  the mock adapter and mock proofs are never accepted.
\<close>

theorem production_identity:
  assumes "node_env C = ''production''" "adapter_verify C b = Inr r"
  shows "adapter_name r \<noteq> ''mock'' \<and>
    ((\<exists>p. jwt_verify C (govuk_jwks C) (govuk_issuer C) (govuk_client C) (b_token b) = Inr p) \<or>
     (\<exists>p. jwt_verify C (eidas_jwks C) (eidas_issuer C) (eidas_audience C) (b_token b) = Inr p) \<or>
     (\<exists>t alpha3 v. zkp_facts C t alpha3 v r \<and> identifier_type v = Some (salted_type C)))"
  using adapter_verify_cases [OF assms(2)] mock_production [OF assms(1)]
    eidas_Inr [of C "b_token b" r] govuk_Inr [of C "b_token b" r] zkp_adapter_Inr [of C "b_token b" r] assms(1)
  by (fastforce simp: zkp_facts_def)

theorem production_identity_witness:
  "adapter_verify demo_config \<lparr>b_adapter = ''zkpassport'', b_token = stringify demo_token\<rparr> =
     Inr \<lparr>commitment = demo_commitment, sybil_key = Some ''u'', country_code = ''GB'', adapter_name = ''zkpassport''\<rparr> \<and>
   ''zkpassport'' \<noteq> ''mock''"
proof -
  have "to_lower ''zkpassport'' = ''zkpassport''" by code_simp
  then have a: "adapter_verify demo_config \<lparr>b_adapter = ''zkpassport'', b_token = stringify demo_token\<rparr> =
     Inr \<lparr>commitment = demo_commitment, sybil_key = Some ''u'', country_code = ''GB'', adapter_name = ''zkpassport''\<rparr>"
    using demo_accepted by (simp add: adapter_verify_def get_adapter_def bind_result_def)
  have "node_env demo_config = ''production''" by (simp add: demo_config_def)
  from production_identity [OF this a] show ?thesis using a by simp
qed

text \<open>
  The level of assurance is checked only if the token states one, against the stated minimum: a
  verified token without the claim (\<open>vot\<close> at Gov.UK, \<open>acr\<close> at eIDAS) is accepted whatever its level.
\<close>

theorem assurance_optional:
  assumes "govuk_jwks C \<noteq> []" "govuk_issuer C \<noteq> []" "govuk_client C \<noteq> []"
    and "jwt_verify C (govuk_jwks C) (govuk_issuer C) (govuk_client C) token = Inr p"
    and "json_get ''vot'' p = None" "json_get ''sub'' p = Some (JStr (c # cs))"
    and "eidas_jwks C \<noteq> []" "eidas_issuer C \<noteq> []" "eidas_audience C \<noteq> []"
    and "jwt_verify C (eidas_jwks C) (eidas_issuer C) (eidas_audience C) token' = Inr p'"
    and "json_get ''acr'' p' = None" "json_get ''eidas_natural_person_identifier'' p' = Some (JStr (d # ds))"
    and "npi_country (d # ds) = Some cc" "to_upper cc \<in> set (allowed_countries C)"
  shows "(\<exists>r. govuk_verify C token = Inr r) \<and> (\<exists>r. eidas_verify C token' = Inr r)"
  using assms by (simp add: govuk_verify_def eidas_verify_def bind_result_def Let_def js_truthy_def nullish_def)

theorem assurance_optional_witness:
  "\<exists>r. eidas_verify (demo_config\<lparr>jwt_verify := (\<lambda>j i a t. Inr (JObj [(''sub'', JStr ''x''),
      (''eidas_natural_person_identifier'', JStr ''DE/EU/12345678X'')]))\<rparr>) ''t'' = Inr r"
proof -
  let ?C = "demo_config\<lparr>jwt_verify := (\<lambda>j i a t. Inr (JObj [(''sub'', JStr ''x''),
      (''eidas_natural_person_identifier'', JStr ''DE/EU/12345678X'')]))\<rparr>"
  have n: "npi_country ''DE/EU/12345678X'' = Some ''DE''" by code_simp
  have c: "to_upper ''DE'' \<in> set (allowed_countries demo_config)" by code_simp
  then have c': "to_upper ''DE'' \<in> set (allowed_countries ?C)" by (simp add: allowed_countries_def)
  show ?thesis
    by (rule assurance_optional [OF _ _ _ _ _ _ _ _ _ _ _ _ n c', THEN conjunct2, of "''t''"])
      (auto simp: demo_config_def)
qed

end
