(* ===== verification/Registration.thy ===== *)
theory Registration
  imports Identity Ledger
begin

text \<open>
  Voter registration: \<open>routes/identityRegister.ts\<close> and the store of used document identifiers,
  \<open>repositories/UsedIdentifierStore.ts\<close>. The contract of that store is the locale
  \<open>identifier_store\<close>, which the Redis and the in-memory implementation satisfy; the route is modelled
  once as a whole and once as the steps between its awaits. The registry contract is reached through the
  operations \<open>reg_ops\<close>, of which \<open>contract_ops\<close> is the instance on \<open>VoterRegistry.sol\<close>.
\<close>

section \<open>Used identifiers\<close>

datatype claim_result = Claimed | Existing string

definition UK :: "string \<Rightarrow> string" where "UK key = ''zkp:uid:'' @ key"

text \<open>
  The Redis store's \<open>claim\<close>: \<open>SET NX\<close>, and if that fails \<open>GET\<close>, and if the key has vanished in between
  the same again. \<open>others\<close> lists what other processes do to the store between the two commands of each
  attempt; \<open>None\<close> would be a loop that does not end.
\<close>

fun redis_claim ::
  "'r redis \<Rightarrow> ('r \<Rightarrow> 'r) list \<Rightarrow> string \<Rightarrow> string \<Rightarrow> 'r \<Rightarrow> (claim_result \<times> 'r) option" where
  "redis_claim R [] key c s =
     (case r_setnx R (UK key) c s of
        (True, s') \<Rightarrow> Some (Claimed, s')
      | (False, s') \<Rightarrow>
          (case r_get R (UK key) s' of Some e \<Rightarrow> Some (Existing e, s') | None \<Rightarrow> None))"
| "redis_claim R (f # fs) key c s =
     (case r_setnx R (UK key) c s of
        (True, s') \<Rightarrow> Some (Claimed, s')
      | (False, s') \<Rightarrow>
          (case r_get R (UK key) (f s') of
             Some e \<Rightarrow> Some (Existing e, f s')
           | None \<Rightarrow> redis_claim R fs key c (f s')))"

text \<open>The script of \<open>release\<close> runs atomically.\<close>

definition redis_release :: "'r redis \<Rightarrow> string \<Rightarrow> string \<Rightarrow> 'r \<Rightarrow> 'r" where
  "redis_release R key c s = (if r_get R (UK key) s = Some c then r_del R (UK key) s else s)"

definition memory_claim :: "string \<Rightarrow> string \<Rightarrow> (string \<Rightarrow> string option) \<Rightarrow> claim_result \<times> (string \<Rightarrow> string option)" where
  "memory_claim key c m = (case m key of Some e \<Rightarrow> (Existing e, m) | None \<Rightarrow> (Claimed, m(key \<mapsto> c)))"

definition memory_release :: "string \<Rightarrow> string \<Rightarrow> (string \<Rightarrow> string option) \<Rightarrow> (string \<Rightarrow> string option)" where
  "memory_release key c m = (if m key = Some c then m(key := None) else m)"

text \<open>The undisturbed claim of the Redis store.\<close>

definition redis_claim_now :: "'r redis \<Rightarrow> string \<Rightarrow> string \<Rightarrow> 'r \<Rightarrow> claim_result \<times> 'r" where
  "redis_claim_now R key c s = the (redis_claim R [] key c s)"

locale identifier_store =
  fixes claim :: "string \<Rightarrow> string \<Rightarrow> 's \<Rightarrow> claim_result \<times> 's"
    and release :: "string \<Rightarrow> string \<Rightarrow> 's \<Rightarrow> 's"
    and holder :: "'s \<Rightarrow> string \<Rightarrow> string option"
  assumes claim_free: "holder s k = None \<Longrightarrow> fst (claim k c s) = Claimed"
    and claim_taken: "holder s k = Some e \<Longrightarrow> fst (claim k c s) = Existing e"
    and holder_claim: "holder (snd (claim k c s)) = (if holder s k = None then (holder s)(k \<mapsto> c) else holder s)"
    and holder_release: "holder (release k c s) = (if holder s k = Some c then (holder s)(k := None) else holder s)"
begin

lemma claim_cases:
  "claim k c s = (r, s') \<Longrightarrow>
     holder s k = None \<and> r = Claimed \<and> holder s' = (holder s)(k \<mapsto> c) \<or>
     (\<exists>e. holder s k = Some e \<and> r = Existing e \<and> holder s' = holder s)"
  using claim_free [of s k c] claim_taken [of s k _ c] holder_claim [of k c s] by (cases "holder s k") auto

lemma claim_release:
  "claim k c s = (Claimed, s') \<Longrightarrow> holder (release k c s') = holder s"
  using claim_cases [of k c s Claimed s'] holder_release [of k c s'] by auto

end

interpretation memory: identifier_store memory_claim memory_release "\<lambda>m. m"
  by unfold_locales (auto simp: memory_claim_def memory_release_def split: option.splits)

sublocale redis_store \<subseteq> ids: identifier_store "redis_claim_now R" "redis_release R" "\<lambda>s k. r_get R (UK k) s"
proof unfold_locales
  have uk: "UK a = UK b \<longleftrightarrow> a = b" for a b by (simp add: UK_def)
  show "fst (redis_claim_now R k c s) = Claimed" if "r_get R (UK k) s = None" for s k c
    using that by (simp add: redis_claim_now_def setnx)
  show "fst (redis_claim_now R k c s) = Existing e" if "r_get R (UK k) s = Some e" for s k e c
    using that by (simp add: redis_claim_now_def setnx)
  show "(\<lambda>j. r_get R (UK j) (snd (redis_claim_now R k c s))) =
      (if r_get R (UK k) s = None then (\<lambda>j. r_get R (UK j) s)(k \<mapsto> c) else (\<lambda>j. r_get R (UK j) s))" for s k c
    by (auto simp: redis_claim_now_def setnx get_set uk)
  show "(\<lambda>j. r_get R (UK j) (redis_release R k c s)) =
      (if r_get R (UK k) s = Some c then (\<lambda>j. r_get R (UK j) s)(k := None) else (\<lambda>j. r_get R (UK j) s))" for s k c
    by (auto simp: redis_release_def get_del uk)
qed

section \<open>The registry behind the route\<close>

record 'c reg_ops =
  op_is_registered :: "string \<Rightarrow> string \<Rightarrow> 'c \<Rightarrow> bool result"
  op_register :: "string \<Rightarrow> string \<Rightarrow> 'c \<Rightarrow> string result \<times> 'c"

text \<open>Two bytes of the country code, as in \<open>padEnd(2).slice(0, 2)\<close>.\<close>

definition country_bytes :: "string \<Rightarrow> string" where
  "country_bytes cc = take 2 (pad_end 2 (CHR 0x20) cc)"

text \<open>The contract reached by a relay account; a commitment is given by its 32 bytes \<open>bytes c\<close>.\<close>

definition contract_ops :: "(string \<Rightarrow> string) \<Rightarrow> (string \<Rightarrow> string) \<Rightarrow> env \<Rightarrow> string \<Rightarrow> registry reg_ops" where
  "contract_ops bytes revert_message en tx = \<lparr>
     op_is_registered = (\<lambda>c cc st. Inr (is_registered st (bytes c) cc)),
     op_register = (\<lambda>c cc st.
       case register en (bytes c) cc st of Inl e \<Rightarrow> (Inl (revert_message e), st) | Inr st' \<Rightarrow> (Inr tx, st'))\<rparr>"

section \<open>The route\<close>

definition registered_json :: "identity_result \<Rightarrow> string option \<Rightarrow> json" where
  "registered_json r tx =
     JObj [(''commitment'', JStr (commitment r)), (''countryCode'', JStr (country_code r)),
           (''txHash'', case tx of None \<Rightarrow> JNull | Some h \<Rightarrow> JStr h),
           (''alreadyRegistered'', JBool (tx = None))]"

definition truthy_key :: "identity_result \<Rightarrow> string option" where
  "truthy_key r = (case sybil_key r of None \<Rightarrow> None | Some k \<Rightarrow> if k = [] then None else Some k)"

text \<open>From the identity on: \<open>claim\<close> and \<open>release\<close> are the store's.\<close>

definition finish_registration ::
  "(string \<Rightarrow> string \<Rightarrow> 's \<Rightarrow> 's) \<Rightarrow> 'c reg_ops \<Rightarrow> identity_result \<Rightarrow> bool \<Rightarrow> 's \<Rightarrow> 'c \<Rightarrow> response \<times> 's \<times> 'c" where
  "finish_registration release G r claimed s c =
     (case op_is_registered G (commitment r) (country_bytes (country_code r)) c of
        Inl e \<Rightarrow> (json_res 400 (error_json e), s, c)
      | Inr True \<Rightarrow> (json_res 200 (registered_json r None), s, c)
      | Inr False \<Rightarrow>
          (case op_register G (commitment r) (country_bytes (country_code r)) c of
             (Inl e, c') \<Rightarrow>
               (json_res 400 (error_json e),
                case truthy_key r of Some k \<Rightarrow> if claimed then release k (commitment r) s else s | None \<Rightarrow> s, c')
           | (Inr tx, c') \<Rightarrow> (json_res 201 (registered_json r (Some tx)), s, c')))"

definition register_identity ::
  "(string \<Rightarrow> string \<Rightarrow> 's \<Rightarrow> claim_result \<times> 's) \<Rightarrow> (string \<Rightarrow> string \<Rightarrow> 's \<Rightarrow> 's) \<Rightarrow> 'c reg_ops
     \<Rightarrow> identity_result \<Rightarrow> 's \<Rightarrow> 'c \<Rightarrow> response \<times> 's \<times> 'c" where
  "register_identity claim release G r s c =
     (case truthy_key r of
        None \<Rightarrow> finish_registration release G r False s c
      | Some k \<Rightarrow>
          (case claim k (commitment r) s of
             (Existing e, s') \<Rightarrow>
               if e \<noteq> commitment r
               then (json_res 409 (error_json ''This identity has already registered''), s', c)
               else finish_registration release G r False s' c
           | (Claimed, s') \<Rightarrow> finish_registration release G r True s' c))"

definition register_route ::
  "(json + identity_body) \<Rightarrow> id_config \<Rightarrow> (string \<Rightarrow> string \<Rightarrow> 's \<Rightarrow> claim_result \<times> 's)
     \<Rightarrow> (string \<Rightarrow> string \<Rightarrow> 's \<Rightarrow> 's) \<Rightarrow> 'c reg_ops \<Rightarrow> 's \<Rightarrow> 'c \<Rightarrow> response \<times> 's \<times> 'c" where
  "register_route parsed C claim release G s c =
     (case parsed of
        Inl flat \<Rightarrow> (json_res 400 (JObj [(''error'', JStr ''Invalid request''), (''details'', flat)]), s, c)
      | Inr b \<Rightarrow>
          (case adapter_verify C b of
             Inl e \<Rightarrow> (json_res 400 (error_json e), s, c)
           | Inr r \<Rightarrow> register_identity claim release G r s c))"

section \<open>The steps between the awaits\<close>

text \<open>
  \<open>Verified r\<close>: the identity is known. \<open>Checking r b\<close>: the identifier is claimed, by this request if \<open>b\<close>.
  \<open>Sending r b\<close>: the registry said ``not registered''. \<open>Failed r b\<close>: the transaction was rejected.
  \<open>Done\<close>: the status of the answer.
\<close>

datatype reg_phase =
  Verified identity_result
| Checking identity_result bool
| Sending identity_result bool
| Failed identity_result bool
| Done nat

inductive reg_step ::
  "(string \<Rightarrow> string \<Rightarrow> 's \<Rightarrow> claim_result \<times> 's) \<Rightarrow> (string \<Rightarrow> string \<Rightarrow> 's \<Rightarrow> 's) \<Rightarrow> 'c reg_ops
     \<Rightarrow> 's \<times> 'c \<times> (nat \<Rightarrow> reg_phase) \<Rightarrow> 's \<times> 'c \<times> (nat \<Rightarrow> reg_phase) \<Rightarrow> bool"
  for claim release G where
  no_key: "ph i = Verified r \<Longrightarrow> truthy_key r = None \<Longrightarrow>
     reg_step claim release G (s, c, ph) (s, c, ph(i := Checking r False))"
| fresh_key: "ph i = Verified r \<Longrightarrow> truthy_key r = Some k \<Longrightarrow> claim k (commitment r) s = (Claimed, s') \<Longrightarrow>
     reg_step claim release G (s, c, ph) (s', c, ph(i := Checking r True))"
| same_key: "ph i = Verified r \<Longrightarrow> truthy_key r = Some k \<Longrightarrow> claim k (commitment r) s = (Existing (commitment r), s') \<Longrightarrow>
     reg_step claim release G (s, c, ph) (s', c, ph(i := Checking r False))"
| used_key: "ph i = Verified r \<Longrightarrow> truthy_key r = Some k \<Longrightarrow> claim k (commitment r) s = (Existing e, s') \<Longrightarrow>
     e \<noteq> commitment r \<Longrightarrow> reg_step claim release G (s, c, ph) (s', c, ph(i := Done 409))"
| check_fails: "ph i = Checking r b \<Longrightarrow>
     op_is_registered G (commitment r) (country_bytes (country_code r)) c = Inl e \<Longrightarrow>
     reg_step claim release G (s, c, ph) (s, c, ph(i := Done 400))"
| is_there: "ph i = Checking r b \<Longrightarrow>
     op_is_registered G (commitment r) (country_bytes (country_code r)) c = Inr True \<Longrightarrow>
     reg_step claim release G (s, c, ph) (s, c, ph(i := Done 200))"
| not_there: "ph i = Checking r b \<Longrightarrow>
     op_is_registered G (commitment r) (country_bytes (country_code r)) c = Inr False \<Longrightarrow>
     reg_step claim release G (s, c, ph) (s, c, ph(i := Sending r b))"
| tx_ok: "ph i = Sending r b \<Longrightarrow>
     op_register G (commitment r) (country_bytes (country_code r)) c = (Inr tx, c') \<Longrightarrow>
     reg_step claim release G (s, c, ph) (s, c', ph(i := Done 201))"
| tx_fails: "ph i = Sending r b \<Longrightarrow>
     op_register G (commitment r) (country_bytes (country_code r)) c = (Inl e, c') \<Longrightarrow>
     reg_step claim release G (s, c, ph) (s, c', ph(i := Failed r b))"
| release_claim: "ph i = Failed r b \<Longrightarrow>
     reg_step claim release G (s, c, ph)
       ((case truthy_key r of Some k \<Rightarrow> if b then release k (commitment r) s else s | None \<Rightarrow> s), c, ph(i := Done 400))"

inductive_cases reg_stepE: "reg_step claim release G (s, c, ph) (s', c', ph')"

section \<open>The claim under interference\<close>

context redis_store
begin

lemma redis_claim_returns:
  "\<exists>r s'. redis_claim R fs key c s = Some (r, s') \<and>
     (case r of Claimed \<Rightarrow> r_get R (UK key) s' = Some c | Existing e \<Rightarrow> r_get R (UK key) s' = Some e)"
proof (induction fs arbitrary: s)
  case Nil
  then show ?case by (auto simp: setnx get_set)
next
  case (Cons f fs)
  show ?case
  proof (cases "r_get R (UK key) s")
    case None
    then show ?thesis by (simp add: setnx get_set)
  next
    case (Some e)
    with Cons [of "f s"] show ?thesis by (auto simp: setnx split: option.splits)
  qed
qed

end

section \<open>One commitment per document\<close>

fun run_reg ::
  "(string \<Rightarrow> string \<Rightarrow> 's \<Rightarrow> claim_result \<times> 's) \<Rightarrow> (string \<Rightarrow> string \<Rightarrow> 's \<Rightarrow> 's) \<Rightarrow> 'c reg_ops
     \<Rightarrow> identity_result list \<Rightarrow> 's \<Rightarrow> 'c \<Rightarrow> response list \<times> 's \<times> 'c" where
  "run_reg claim release G [] s c = ([], s, c)"
| "run_reg claim release G (r # rs) s c =
     (case register_identity claim release G r s c of
        (res, s', c') \<Rightarrow> (case run_reg claim release G rs s' c' of (ress, t) \<Rightarrow> (res # ress, t)))"

definition accepted :: "response \<Rightarrow> bool" where
  "accepted res \<longleftrightarrow> status res = 200 \<or> status res = 201"

lemma finish_status:
  assumes "finish_registration release G r claimed s c = (res, s', c')"
  shows "accepted res \<and> s' = s \<or>
    status res = 400 \<and> (s' = s \<or> claimed \<and> (\<exists>k. truthy_key r = Some k \<and> s' = release k (commitment r) s))"
  using assms
  by (auto simp: finish_registration_def accepted_def split: sum.splits bool.splits prod.splits option.splits if_splits)

context identifier_store
begin

lemma register_holder:
  assumes "register_identity claim release G r s c = (res, s', c')"
  shows "accepted res \<longrightarrow> truthy_key r = Some k \<longrightarrow> holder s' k = Some (commitment r)"
    and "holder s k = Some e \<Longrightarrow> holder s' k = Some e"
proof -
  show "accepted res \<longrightarrow> truthy_key r = Some k \<longrightarrow> holder s' k = Some (commitment r)"
  proof (intro impI)
    assume acc: "accepted res" and k: "truthy_key r = Some k"
    obtain q s1 where q: "claim k (commitment r) s = (q, s1)" by fastforce
    show "holder s' k = Some (commitment r)"
    proof (cases q)
      case Claimed
      then have "finish_registration release G r True s1 c = (res, s', c')"
        using assms k q by (simp add: register_identity_def)
      from finish_status [OF this] acc have "s' = s1" by (auto simp: accepted_def)
      with claim_cases [OF q] Claimed show ?thesis by auto
    next
      case (Existing e)
      then have "e = commitment r" and "finish_registration release G r False s1 c = (res, s', c')"
        using assms k q acc by (auto simp: register_identity_def accepted_def split: if_splits)
      from finish_status [OF this(2)] \<open>e = commitment r\<close> claim_cases [OF q] Existing show ?thesis by auto
    qed
  qed
  show "holder s' k = Some e" if h: "holder s k = Some e"
  proof (cases "truthy_key r")
    case None
    then have "finish_registration release G r False s c = (res, s', c')"
      using assms by (simp add: register_identity_def)
    from finish_status [OF this] h show ?thesis by auto
  next
    case (Some j)
    obtain q s1 where q: "claim j (commitment r) s = (q, s1)" by fastforce
    show ?thesis
    proof (cases q)
      case Claimed
      then have fin: "finish_registration release G r True s1 c = (res, s', c')"
        using assms Some q by (simp add: register_identity_def)
      have "holder s j = None" "holder s1 = (holder s)(j \<mapsto> commitment r)"
        using claim_cases [OF q] Claimed by auto
      with finish_status [OF fin] Some h show ?thesis by (auto simp: holder_release)
    next
      case (Existing d)
      have "holder s1 = holder s" using claim_cases [OF q] Existing by auto
      moreover have "s' = s1"
        using assms Some q Existing finish_status [of release G r False s1 c res s' c']
        by (auto simp: register_identity_def split: if_splits)
      ultimately show ?thesis using h by simp
    qed
  qed
qed

lemma run_holder:
  "run_reg claim release G rs s c = (ress, s', c') \<Longrightarrow> holder s k = Some e \<Longrightarrow>
     holder s' k = Some e \<and> length ress = length rs \<and>
     (\<forall>i < length rs. accepted (ress ! i) \<longrightarrow> truthy_key (rs ! i) = Some k \<longrightarrow> commitment (rs ! i) = e)"
proof (induction rs arbitrary: s c ress)
  case (Cons r rs)
  obtain res s1 c1 where r: "register_identity claim release G r s c = (res, s1, c1)" by (metis prod.collapse)
  obtain ress' t where rs: "run_reg claim release G rs s1 c1 = (ress', t)" by (meson surj_pair)
  have eq: "ress = res # ress'" "t = (s', c')" using Cons.prems(1) r rs by auto
  have h1: "holder s1 k = Some e" using register_holder(2) [OF r Cons.prems(2)] .
  have "accepted res \<longrightarrow> truthy_key r = Some k \<longrightarrow> commitment r = e"
    using register_holder(1) [OF r, of k] h1 by auto
  with Cons.IH [OF rs [unfolded eq(2)] h1] show ?case by (auto simp: eq(1) less_Suc_eq_0_disj)
qed simp

lemma run_one_commitment:
  "run_reg claim release G rs s c = (ress, s', c') \<Longrightarrow> i < j \<Longrightarrow> j < length rs \<Longrightarrow>
     accepted (ress ! i) \<Longrightarrow> accepted (ress ! j) \<Longrightarrow>
     truthy_key (rs ! i) = Some k \<Longrightarrow> truthy_key (rs ! j) = Some k \<Longrightarrow> commitment (rs ! i) = commitment (rs ! j)"
proof (induction rs arbitrary: s c ress i j)
  case (Cons r rs)
  obtain res s1 c1 where r: "register_identity claim release G r s c = (res, s1, c1)" by (metis prod.collapse)
  obtain ress' t where rs: "run_reg claim release G rs s1 c1 = (ress', t)" by (meson surj_pair)
  have eq: "ress = res # ress'" "t = (s', c')" using Cons.prems(1) r rs by auto
  obtain j' where j: "j = Suc j'" using Cons.prems(2) by (cases j) auto
  show ?case
  proof (cases i)
    case 0
    then have "holder s1 k = Some (commitment r)"
      using register_holder(1) [OF r, of k] Cons.prems(4,6) eq(1) by simp
    from run_holder [OF rs [unfolded eq(2)] this] Cons.prems(3,5,7) show ?thesis by (auto simp: eq(1) j 0)
  next
    case (Suc i')
    show ?thesis
      using Cons.IH [OF rs [unfolded eq(2)], of i' j'] Cons.prems(2-) by (simp add: eq(1) j Suc)
  qed
qed simp

end

section \<open>Retrying and racing\<close>

text \<open>A registry that the relay account may register a commitment in.\<close>

definition can_register :: "env \<Rightarrow> string \<Rightarrow> string \<Rightarrow> registry \<Rightarrow> bool" where
  "can_register en b cc st \<longleftrightarrow>
     \<not> reg_paused st \<and> b \<noteq> zero_bytes 32 \<and> commitment_country st b = zero_bytes 2 \<and>
     cc \<noteq> zero_bytes 2 \<and> registrar st cc = sender en \<and> sender en \<noteq> zero_bytes 20"

definition with_commitment :: "string \<Rightarrow> string \<Rightarrow> registry \<Rightarrow> registry" where
  "with_commitment b cc st =
     st\<lparr>commitment_country := (commitment_country st)(b := cc), commitments := commitments st @ [b]\<rparr>"

lemma register_ok: "can_register en b cc st \<Longrightarrow> register en b cc st = Inr (with_commitment b cc st)"
  by (simp add: can_register_def register_def with_commitment_def)

lemma register_again:
  "can_register en b cc st \<Longrightarrow> register en b cc (with_commitment b cc st) = Inl ''AlreadyRegistered''"
  by (simp add: can_register_def register_def with_commitment_def throw_def)

lemma can_register_other:
  "can_register en b cc st \<Longrightarrow> b \<noteq> b' \<Longrightarrow> can_register en b cc (with_commitment b' cc st)"
  by (simp add: can_register_def with_commitment_def)

lemma not_yet_registered: "can_register en b cc st \<Longrightarrow> \<not> is_registered st b cc"
  by (auto simp: can_register_def is_registered_def)

lemma is_registered_with: "is_registered (with_commitment b cc st) b' cc \<longleftrightarrow> b = b' \<or> is_registered st b' cc"
  by (auto simp: with_commitment_def is_registered_def)

context identifier_store
begin

lemma register_race:
  assumes ph: "ph 0 = Verified r" "ph 1 = Verified r" "ph 2 = Verified q"
    and keys: "truthy_key r = Some k" "truthy_key q = Some k" "holder s k = None"
    and cc: "country_bytes (country_code r) = cc" "country_bytes (country_code q) = cc"
    and st: "can_register en (bytes (commitment r)) cc st" "can_register en (bytes (commitment q)) cc st"
    and ne: "bytes (commitment r) \<noteq> bytes (commitment q)"
  shows "\<exists>s' st' ph'. (reg_step claim release (contract_ops bytes msg en tx))\<^sup>*\<^sup>* (s, st, ph) (s', st', ph') \<and>
    ph' 1 = Done 201 \<and> ph' 2 = Done 201 \<and>
    is_registered st' (bytes (commitment r)) cc \<and> is_registered st' (bytes (commitment q)) cc"
proof -
  let ?G = "contract_ops bytes msg en tx" and ?b = "bytes (commitment r)" and ?d = "bytes (commitment q)"
  let ?step = "reg_step claim release ?G"
  obtain s1 where s1: "claim k (commitment r) s = (Claimed, s1)"
    using claim_free [OF keys(3), of "commitment r"] by (metis prod.collapse)
  have h1: "holder s1 k = Some (commitment r)" using claim_cases [OF s1] by auto
  obtain s2 where s2: "claim k (commitment r) s1 = (Existing (commitment r), s2)"
    using claim_taken [OF h1, of "commitment r"] by (metis prod.collapse)
  have h2: "holder s2 = holder s1" using claim_cases [OF s2] by auto
  let ?s3 = "release k (commitment r) s2"
  have h3: "holder ?s3 k = None" using h1 h2 by (simp add: holder_release)
  obtain s4 where s4: "claim k (commitment q) ?s3 = (Claimed, s4)"
    using claim_free [OF h3, of "commitment q"] by (metis prod.collapse)
  let ?st1 = "with_commitment ?b cc st" let ?st2 = "with_commitment ?d cc ?st1"
  let ?p1 = "ph(0 := Checking r True)" let ?p2 = "?p1(1 := Checking r False)"
  let ?p3 = "?p2(0 := Sending r True)" let ?p4 = "?p3(1 := Sending r False)"
  let ?p5 = "?p4(1 := Done 201)" let ?p6 = "?p5(0 := Failed r True)" let ?p7 = "?p6(0 := Done 400)"
  let ?p8 = "?p7(2 := Checking q True)" let ?p9 = "?p8(2 := Sending q True)" let ?p10 = "?p9(2 := Done 201)"
  have "?step (s, st, ph) (s1, st, ?p1)" by (rule fresh_key) (use ph keys s1 in auto)
  moreover have "?step (s1, st, ?p1) (s2, st, ?p2)" by (rule same_key) (use ph keys s2 in auto)
  moreover have "?step (s2, st, ?p2) (s2, st, ?p3)"
    by (rule not_there) (use not_yet_registered [OF st(1)] cc in \<open>auto simp: contract_ops_def\<close>)
  moreover have "?step (s2, st, ?p3) (s2, st, ?p4)"
    by (rule not_there) (use not_yet_registered [OF st(1)] cc in \<open>auto simp: contract_ops_def\<close>)
  moreover have "?step (s2, st, ?p4) (s2, ?st1, ?p5)"
    by (rule tx_ok [where tx = tx]) (use register_ok [OF st(1)] cc in \<open>auto simp: contract_ops_def\<close>)
  moreover have "?step (s2, ?st1, ?p5) (s2, ?st1, ?p6)"
    by (rule tx_fails) (use register_again [OF st(1)] cc in \<open>auto simp: contract_ops_def\<close>)
  moreover have "?step (s2, ?st1, ?p6) (?s3, ?st1, ?p7)"
    using release_claim [of ?p6 0 r True claim release ?G s2 ?st1] keys(1) by simp
  moreover have "?step (?s3, ?st1, ?p7) (s4, ?st1, ?p8)" by (rule fresh_key) (use ph keys s4 in auto)
  moreover have "?step (s4, ?st1, ?p8) (s4, ?st1, ?p9)"
    by (rule not_there)
      (use not_yet_registered [OF can_register_other [OF st(2)]] ne cc in \<open>auto simp: contract_ops_def\<close>)
  moreover have "?step (s4, ?st1, ?p9) (s4, ?st2, ?p10)"
    by (rule tx_ok [where tx = tx])
      (use register_ok [OF can_register_other [OF st(2)]] ne cc in \<open>auto simp: contract_ops_def\<close>)
  ultimately have "?step\<^sup>*\<^sup>* (s, st, ph) (s4, ?st2, ?p10)"
    by (meson converse_rtranclp_into_rtranclp r_into_rtranclp)
  moreover have "is_registered ?st2 ?b cc" "is_registered ?st2 ?d cc"
    using ne by (simp_all add: is_registered_with)
  ultimately show ?thesis by (intro exI conjI) (assumption, simp_all)
qed

end


context redis_store
begin

lemmas redis_one_commitment = ids.run_one_commitment
lemmas redis_race = ids.register_race

lemma redis_register_holder:
  "register_identity (redis_claim_now R) (redis_release R) G r s c = (res, s', c') \<Longrightarrow> accepted res \<Longrightarrow>
     truthy_key r = Some k \<Longrightarrow> r_get R (UK k) s' = Some (commitment r)"
  using ids.register_holder(1) [of G r s c res s' c' k] by simp

end

section \<open>Properties\<close>

text \<open>
  C25: One document, one commitment: over any sequence of registrations served one after the other, with
  a registry that may fail in any way, two accepted registrations (200 or 201) of one document carry the
  same commitment.
\<close>

theorem register_one_commitment:
  assumes "redis_store R"
    and "run_reg (redis_claim_now R) (redis_release R) G rs s c = (ress, s', c')"
    and "i < j" "j < length rs" "accepted (ress ! i)" "accepted (ress ! j)"
    and "truthy_key (rs ! i) = Some k" "truthy_key (rs ! j) = Some k"
  shows "commitment (rs ! i) = commitment (rs ! j)"
  by (rule redis_store.redis_one_commitment [OF assms])

definition demo_identity :: "string \<Rightarrow> identity_result" where
  "demo_identity c = \<lparr>commitment = c, sybil_key = Some ''doc'', country_code = ''GB'', adapter_name = ''zkpassport''\<rparr>"

definition demo_registry :: registry where
  "demo_registry = \<lparr>reg_owner = ''o'', reg_paused = False, commitment_country = (\<lambda>_. zero_bytes 2), commitments = [],
     registrar = (\<lambda>_. ''relay'')\<rparr>"

definition demo_ops :: "registry reg_ops" where
  "demo_ops = contract_ops (\<lambda>c. c) (\<lambda>e. e) \<lparr>sender = ''relay'', now = 1\<rparr> ''tx''"

lemma demo_can_register: "length c < 32 \<Longrightarrow> can_register \<lparr>sender = ''relay'', now = 1\<rparr> c ''GB'' demo_registry"
proof -
  assume "length c < 32"
  moreover have "length (zero_bytes 32) = 32" by (simp add: zero_bytes_def)
  ultimately have "c \<noteq> zero_bytes 32" by fastforce
  moreover have "''relay'' \<noteq> zero_bytes 20" by code_simp
  moreover have "''GB'' \<noteq> zero_bytes 2" by code_simp
  ultimately show ?thesis by (simp add: can_register_def demo_registry_def)
qed

lemma demo_country: "country_bytes ''GB'' = ''GB''"
  by (simp add: country_bytes_def pad_end_def)

theorem register_one_commitment_witness:
  "\<exists>ress t. run_reg (redis_claim_now redis_mem) (redis_release redis_mem) demo_ops
      [demo_identity ''a'', demo_identity ''a''] mem_empty demo_registry = (ress, t) \<and>
     accepted (ress ! 0) \<and> accepted (ress ! 1) \<and> commitment ([demo_identity ''a'', demo_identity ''a''] ! 0) =
       commitment ([demo_identity ''a'', demo_identity ''a''] ! 1)"
proof -
  let ?run = "run_reg (redis_claim_now redis_mem) (redis_release redis_mem) demo_ops
      [demo_identity ''a'', demo_identity ''a''] mem_empty demo_registry"
  have acc: "accepted (fst ?run ! 0) \<and> accepted (fst ?run ! 1)"
    by code_simp
  obtain ress s' c' where run: "?run = (ress, s', c')" by (rule prod_cases3)
  then have acc': "accepted (ress ! 0)" "accepted (ress ! 1)" using acc by (simp_all only: fst_conv)
  have "commitment ([demo_identity ''a'', demo_identity ''a''] ! 0) = commitment ([demo_identity ''a'', demo_identity ''a''] ! 1)"
    by (rule register_one_commitment [OF mem.redis_store_axioms run _ _ acc'])
      (simp_all add: demo_identity_def truthy_key_def)
  with run acc' show ?thesis by blast
qed



text \<open>
  A registration can be repeated: after a 201 on the registry contract, the same request is answered
  200 ``already registered'', sends no transaction and leaves the contract as it is.
\<close>

theorem register_idempotent:
  assumes "redis_store R" "G = contract_ops bytes msg en tx"
    and "register_identity (redis_claim_now R) (redis_release R) G r s st = (res, s', st')" "status res = 201"
  shows "register_identity (redis_claim_now R) (redis_release R) G r s' st' = (json_res 200 (registered_json r None), s', st')"
proof -
  have fin: "is_registered st' (bytes (commitment r)) (country_bytes (country_code r)) \<and> s' = s1"
    if "finish_registration (redis_release R) G r b s1 st = (res, s', st')" for b s1
    using that assms(4)
    by (auto simp: finish_registration_def assms(2) contract_ops_def register_def throw_def is_registered_def
        split: bool.splits if_splits)
  have again: "finish_registration (redis_release R) G r b s1 st' = (json_res 200 (registered_json r None), s1, st')"
    if "is_registered st' (bytes (commitment r)) (country_bytes (country_code r))" for b s1
    using that by (simp add: finish_registration_def assms(2) contract_ops_def)
  show ?thesis
  proof (cases "truthy_key r")
    case None
    with assms(3) fin again show ?thesis by (auto simp: register_identity_def)
  next
    case (Some k)
    have held: "r_get R (UK k) s' = Some (commitment r)"
      using redis_store.redis_register_holder [OF assms(1,3)] assms(4) Some by (simp add: accepted_def)
    then have claim: "redis_claim_now R k (commitment r) s' = (Existing (commitment r), s')"
      using redis_store.setnx [OF assms(1)] by (simp add: redis_claim_now_def)
    have "is_registered st' (bytes (commitment r)) (country_bytes (country_code r))"
      using assms(3,4) Some fin
      by (auto simp: register_identity_def split: prod.splits claim_result.splits if_splits)
    with claim again Some show ?thesis by (simp add: register_identity_def)
  qed
qed

theorem register_idempotent_witness:
  "\<exists>s st. register_identity (redis_claim_now redis_mem) (redis_release redis_mem) demo_ops (demo_identity ''a'') s st =
     (json_res 200 (registered_json (demo_identity ''a'') None), s, st)"
proof -
  let ?r = "register_identity (redis_claim_now redis_mem) (redis_release redis_mem) demo_ops (demo_identity ''a'') mem_empty demo_registry"
  have st: "status (fst ?r) = 201" by code_simp
  obtain res s' st' where r: "?r = (res, s', st')" by (rule prod_cases3)
  with st have "status res = 201" by (simp only: fst_conv)
  from register_idempotent [OF mem.redis_store_axioms demo_ops_def r this] show ?thesis by blast
qed

text \<open>
  Giving a claim back can free a document that is registered: of two concurrent requests for the same
  document and commitment, one registers, and the transaction of the other, who made the claim, is
  rejected as a duplicate and releases the claim; then the document registers once more under
  another commitment, and both commitments are on the registry.
\<close>

theorem register_race_frees_document:
  assumes "redis_store R"
    and "ph 0 = Verified r" "ph 1 = Verified r" "ph 2 = Verified q"
    and "truthy_key r = Some k" "truthy_key q = Some k" "r_get R (UK k) s = None"
    and "country_bytes (country_code r) = cc" "country_bytes (country_code q) = cc"
    and "can_register en (bytes (commitment r)) cc st" "can_register en (bytes (commitment q)) cc st"
    and "bytes (commitment r) \<noteq> bytes (commitment q)"
  shows "\<exists>s' st' ph'. (reg_step (redis_claim_now R) (redis_release R) (contract_ops bytes msg en tx))\<^sup>*\<^sup>*
      (s, st, ph) (s', st', ph') \<and> ph' 1 = Done 201 \<and> ph' 2 = Done 201 \<and>
    is_registered st' (bytes (commitment r)) cc \<and> is_registered st' (bytes (commitment q)) cc"
  by (rule redis_store.redis_race [OF assms])

theorem register_race_frees_document_witness:
  "\<exists>s' st' ph'. (reg_step (redis_claim_now redis_mem) (redis_release redis_mem)
        (contract_ops (\<lambda>c. c) (\<lambda>e. e) \<lparr>sender = ''relay'', now = 1\<rparr> ''tx''))\<^sup>*\<^sup>*
      (mem_empty, demo_registry, \<lambda>i. Verified (demo_identity (if i < 2 then ''a'' else ''b''))) (s', st', ph') \<and>
    ph' 1 = Done 201 \<and> ph' 2 = Done 201 \<and> is_registered st' ''a'' ''GB'' \<and> is_registered st' ''b'' ''GB''"
  using register_race_frees_document [OF mem.redis_store_axioms,
      where ph = "\<lambda>i. Verified (demo_identity (if i < 2 then ''a'' else ''b''))" and r = "demo_identity ''a''" and
      q = "demo_identity ''b''" and k = "''doc''" and s = mem_empty and cc = "''GB''" and bytes = "\<lambda>c. c" and
      st = demo_registry and en = "\<lparr>sender = ''relay'', now = 1\<rparr>" and msg = "\<lambda>e. e" and tx = "''tx''"]
    demo_can_register [of "''a''"] demo_can_register [of "''b''"]
  by (simp add: demo_identity_def truthy_key_def demo_country redis_mem_def mem_empty_def)

end
