(* ===== verification/Baby_Jubjub.thy ===== *)
theory Baby_Jubjub
  imports Prelude "HOL-Library.Signed_Division"
begin

text \<open>
  The Baby Jubjub arithmetic of \<open>services/HomomorphicTallyService.ts\<close> (lines 40 to 149): BigInts are
  integers, whose \<open>/\<close> and \<open>%\<close> truncate (\<open>sdiv\<close>, \<open>smod\<close>). The loops of \<open>modInv\<close> and \<open>bjjScalarMul\<close> are
  total functions by their measures; the loops of \<open>bsgs\<close> count to \<open>m\<close>. Proved are the modular inverse, that
  the addition stays on the curve and inside the field wherever its denominators are invertible, that
  negation gives the inverse, and what a result of the search means.
\<close>

section \<open>Model\<close>

definition BJJ_P :: int where
  "BJJ_P = 21888242871839275222246405745257275088548364400416034343698204186575808495617"

definition BJJ_A :: int where "BJJ_A = 168700"
definition BJJ_D :: int where "BJJ_D = 168696"

definition BJJ_GX :: int where
  "BJJ_GX = 5299619240641551281634865583518297030282874472190772894086521144482721001553"

definition BJJ_GY :: int where
  "BJJ_GY = 16950150798460657717958625567821834550301663161624707787222815936182638968203"

type_synonym point = "int \<times> int"

definition BJJ_NEUTRAL :: point where "BJJ_NEUTRAL = (0, 1)"

function mod_inv_loop :: "int \<Rightarrow> int \<Rightarrow> int \<Rightarrow> int \<Rightarrow> int \<times> int" where
  "mod_inv_loop old_r r old_s s =
     (if r = 0 then (old_r, old_s)
      else (let q = old_r sdiv r in mod_inv_loop r (old_r - q * r) s (old_s - q * s)))"
  by pat_completeness auto

termination
proof (relation "measure (\<lambda>(old_r, r, old_s, s). nat \<bar>r\<bar>)")
  fix old_r r old_s s q :: int
  assume "r \<noteq> 0" "q = old_r sdiv r"
  then have "old_r - q * r = old_r smod r" by (simp add: minus_sdiv_mult_eq_smod)
  then have "\<bar>old_r - q * r\<bar> < \<bar>r\<bar>"
    using \<open>r \<noteq> 0\<close> by (simp add: smod_int_alt_def abs_mult abs_sgn_eq)
  then show "((r, old_r - q * r, s, old_s - q * s), (old_r, r, old_s, s)) \<in> measure (\<lambda>(old_r, r, old_s, s). nat \<bar>r\<bar>)"
    by simp
qed simp

declare mod_inv_loop.simps [simp del]

definition mod_inv :: "int \<Rightarrow> int \<Rightarrow> int" where
  "mod_inv a p = (snd (mod_inv_loop a p 1 0) smod p + p) smod p"

definition bjj_add :: "point \<Rightarrow> point \<Rightarrow> point" where
  "bjj_add P1 P2 =
     (case (P1, P2) of ((x1, y1), (x2, y2)) \<Rightarrow>
        if x1 = 0 \<and> y1 = 1 then (x2, y2)
        else if x2 = 0 \<and> y2 = 1 then (x1, y1)
        else
          (let x1x2 = (x1 * x2) smod BJJ_P;
               y1y2 = (y1 * y2) smod BJJ_P;
               dx1x2y1y2 = ((BJJ_D * x1x2) smod BJJ_P * y1y2) smod BJJ_P;
               x3num = ((x1 * y2) smod BJJ_P + (y1 * x2) smod BJJ_P) smod BJJ_P;
               x3den = (1 + dx1x2y1y2) smod BJJ_P;
               y3num = (y1y2 + BJJ_P - (BJJ_A * x1x2) smod BJJ_P) smod BJJ_P;
               y3den = (1 + BJJ_P - dx1x2y1y2) smod BJJ_P
           in ((x3num * mod_inv x3den BJJ_P) smod BJJ_P, (y3num * mod_inv y3den BJJ_P) smod BJJ_P)))"

function scalar_loop :: "int \<Rightarrow> point \<Rightarrow> point \<Rightarrow> point" where
  "scalar_loop s r c =
     (if 0 < s then scalar_loop (s div 2) (if odd s then bjj_add r c else r) (bjj_add c c) else r)"
  by pat_completeness auto

termination by (relation "measure (\<lambda>(s, r, c). nat s)") auto

declare scalar_loop.simps [simp del]

definition bjj_scalar_mul :: "int \<Rightarrow> point \<Rightarrow> point" where
  "bjj_scalar_mul scalar p = scalar_loop scalar BJJ_NEUTRAL p"

definition bjj_neg :: "point \<Rightarrow> point" where
  "bjj_neg p = (case p of (x, y) \<Rightarrow> ((BJJ_P - x) smod BJJ_P, y))"

text \<open>\<open>Math.ceil(Math.sqrt(n))\<close>, exact for the bounds in use: the first \<open>k\<close> with \<open>n \<le> k * k\<close>.\<close>

function sqrt_from :: "nat \<Rightarrow> nat \<Rightarrow> nat" where
  "sqrt_from k n = (if n \<le> k * k then k else sqrt_from (Suc k) n)"
  by pat_completeness auto

termination
proof (relation "measure (\<lambda>(k, n). n - k)")
  fix k n :: nat
  assume "\<not> n \<le> k * k"
  then have "k < n" using le_square [of k] by linarith
  then show "((Suc k, n), (k, n)) \<in> measure (\<lambda>(k, n). n - k)" by simp
qed simp

declare sqrt_from.simps [simp del]

definition ceil_sqrt :: "nat \<Rightarrow> nat" where
  "ceil_sqrt n = sqrt_from 0 n"

text \<open>The table after the baby steps: point to the last index that reached it.\<close>

fun baby_steps :: "nat \<Rightarrow> nat \<Rightarrow> point \<Rightarrow> (point \<Rightarrow> nat option) \<Rightarrow> (point \<Rightarrow> nat option)" where
  "baby_steps 0 j b t = t"
| "baby_steps (Suc n) j b t = baby_steps n (Suc j) (bjj_add b (BJJ_GX, BJJ_GY)) (t(b \<mapsto> j))"

fun giant_steps :: "nat \<Rightarrow> nat \<Rightarrow> nat \<Rightarrow> nat \<Rightarrow> point \<Rightarrow> point \<Rightarrow> (point \<Rightarrow> nat option) \<Rightarrow> nat option" where
  "giant_steps 0 i m maxK neg g t = None"
| "giant_steps (Suc n) i m maxK neg g t =
     (case t g of
        Some j \<Rightarrow> if i * m + j \<le> maxK then Some (i * m + j)
                  else giant_steps n (Suc i) m maxK neg (bjj_add g neg) t
      | None \<Rightarrow> giant_steps n (Suc i) m maxK neg (bjj_add g neg) t)"

definition bsgs :: "point \<Rightarrow> nat \<Rightarrow> nat option" where
  "bsgs T maxK =
     (let m = ceil_sqrt maxK + 1;
          table = baby_steps m 0 BJJ_NEUTRAL Map.empty;
          neg = bjj_neg (bjj_scalar_mul (int m) (BJJ_GX, BJJ_GY))
      in giant_steps m 0 m maxK neg T table)"

section \<open>The modular inverse\<close>

lemma smod_nonneg: "0 \<le> (a :: int) \<Longrightarrow> 0 < b \<Longrightarrow> a smod b = a mod b"
  by (cases "a = 0") (simp_all add: smod_int_alt_def)

lemma sdiv_nonneg: "0 \<le> (a :: int) \<Longrightarrow> 0 < b \<Longrightarrow> a sdiv b = a div b"
  using sdiv_mult_smod_eq [of a b] smod_nonneg [of a b] div_mult_mod_eq [of a b]
  by (metis add_right_cancel less_numeral_extra(3) mult_cancel_right)

text \<open>The loop ends with the greatest common divisor and its coefficient.\<close>

lemma mod_inv_loop_gcd:
  assumes "0 \<le> old_r" "0 \<le> r" "p dvd old_r - old_s * a" "p dvd r - s * a"
  shows "case mod_inv_loop old_r r old_s s of (g, t) \<Rightarrow> g = gcd old_r r \<and> p dvd g - t * a"
  using assms
proof (induction old_r r old_s s rule: mod_inv_loop.induct)
  case (1 old_r r old_s s)
  show ?case
  proof (cases "r = 0")
    case True
    with "1.prems" show ?thesis by (simp add: mod_inv_loop.simps [of old_r 0])
  next
    case False
    let ?q = "old_r sdiv r"
    have r: "0 < r" using False "1.prems"(2) by simp
    have rem: "old_r - ?q * r = old_r mod r"
      using smod_nonneg [OF "1.prems"(1) r] by (simp add: minus_sdiv_mult_eq_smod)
    have "p dvd (old_r - old_s * a) - ?q * (r - s * a)"
      by (rule dvd_diff [OF "1.prems"(3) dvd_mult [OF "1.prems"(4)]])
    moreover have "(old_r - old_s * a) - x * (r - s * a) = (old_r - x * r) - (old_s - x * s) * a" for x
      by (simp add: algebra_simps)
    ultimately have "p dvd (old_r - ?q * r) - (old_s - ?q * s) * a" by simp
    with "1.IH" [OF False refl] "1.prems" r rem
    have "case mod_inv_loop r (old_r - ?q * r) s (old_s - ?q * s) of (g, t) \<Rightarrow>
        g = gcd r (old_r mod r) \<and> p dvd g - t * a" by (simp add: rem)
    then show ?thesis
      using False by (simp add: mod_inv_loop.simps [of old_r r] Let_def gcd.commute [of r] gcd_red_int [symmetric]
          gcd.commute [of "old_r mod r"])
  qed
qed

lemma mod_inv_range: "0 < p \<Longrightarrow> 0 \<le> mod_inv a p \<and> mod_inv a p < p"
proof -
  assume p: "0 < p"
  have "\<bar>snd (mod_inv_loop a p 1 0) smod p\<bar> < p"
    using p by (simp add: smod_int_alt_def abs_mult abs_sgn_eq)
  then have "0 \<le> snd (mod_inv_loop a p 1 0) smod p + p" by linarith
  with p show ?thesis by (simp add: mod_inv_def smod_nonneg)
qed

lemma mod_inv_mult:
  assumes "0 \<le> a" "1 < p" "coprime a p"
  shows "(a * mod_inv a p) mod p = 1"
proof -
  obtain g t where gt: "mod_inv_loop a p 1 0 = (g, t)" by fastforce
  have "case (g, t) of (g, t) \<Rightarrow> g = gcd a p \<and> p dvd g - t * a"
    using assms(1,2) by (intro mod_inv_loop_gcd [of a p p 1 a 0, unfolded gt]) simp_all
  then have "g = gcd a p" "p dvd g - t * a" by auto
  then have d1: "p dvd 1 - t * a" using assms(3) by (metis coprime_imp_gcd_eq_1)
  have "\<bar>t smod p\<bar> < p" using assms(2) by (simp add: smod_int_alt_def abs_mult abs_sgn_eq)
  then have "mod_inv a p = (t smod p + p) mod p"
    using assms(2) by (simp add: mod_inv_def gt smod_nonneg)
  then have "mod_inv a p mod p = (t smod p) mod p" by simp
  moreover have "(t smod p) mod p = t mod p"
    using minus_smod_eq_sdiv_mult [of t p] by (metis dvd_triv_right mod_eq_dvd_iff)
  ultimately have "(a * mod_inv a p) mod p = (a * t) mod p" by (metis mod_mult_right_eq)
  also have "\<dots> = 1 mod p" using d1 by (metis mod_eq_dvd_iff mult.commute)
  finally show ?thesis using assms(2) by simp
qed

section \<open>The addition\<close>

definition in_field :: "point \<Rightarrow> bool" where
  "in_field p = (0 \<le> fst p \<and> fst p < BJJ_P \<and> 0 \<le> snd p \<and> snd p < BJJ_P)"

definition on_curve :: "point \<Rightarrow> bool" where
  "on_curve p = ((BJJ_A * (fst p)\<^sup>2 + (snd p)\<^sup>2) mod BJJ_P = (1 + BJJ_D * ((fst p)\<^sup>2 * (snd p)\<^sup>2)) mod BJJ_P)"

text \<open>The product whose distance from \<open>1\<close> and \<open>-1\<close> makes the denominators.\<close>

definition edwards_t :: "point \<Rightarrow> point \<Rightarrow> int" where
  "edwards_t p q = BJJ_D * (fst p * fst q) * (snd p * snd q)"

definition addable :: "point \<Rightarrow> point \<Rightarrow> bool" where
  "addable p q = (coprime (1 + edwards_t p q) BJJ_P \<and> coprime (1 - edwards_t p q) BJJ_P)"

lemma BJJ_P_gt [simp]: "1 < BJJ_P" "0 < BJJ_P" "0 \<le> BJJ_P"
  by (simp_all add: BJJ_P_def)

lemma smod_BJJ: "0 \<le> a \<Longrightarrow> a smod BJJ_P = a mod BJJ_P"
  by (rule smod_nonneg) simp_all

text \<open>Multiplying by the inverse of the residue solves the equation modulo \<open>P\<close>.\<close>

lemma inv_solves:
  assumes "d' = d mod BJJ_P" "coprime d BJJ_P"
  shows "((n * mod_inv d' BJJ_P) mod BJJ_P * d) mod BJJ_P = n mod BJJ_P"
proof -
  have cop: "coprime d' BJJ_P"
    using assms by (metis BJJ_P_gt(2) coprime_mod_left_iff less_irrefl)
  have "((n * mod_inv d' BJJ_P) mod BJJ_P * d) mod BJJ_P = (n * (d' * mod_inv d' BJJ_P)) mod BJJ_P"
    unfolding assms(1) by (metis mod_mult_left_eq mult.assoc mult.commute)
  also have "\<dots> = (n * ((d' * mod_inv d' BJJ_P) mod BJJ_P)) mod BJJ_P" by (simp add: mod_simps)
  also have "\<dots> = n mod BJJ_P"
    using mod_inv_mult [of d' BJJ_P] cop assms(1) by simp
  finally show ?thesis .
qed

lemma bjj_add_neutral [simp]:
  "bjj_add (0, 1) q = q" "bjj_add p (0, 1) = p"
  by (cases p, cases q, simp add: bjj_add_def)+

text \<open>The code's computation with its truncated remainders, over the field.\<close>

lemma bjj_add_mod:
  assumes "in_field (x1, y1)" "in_field (x2, y2)" "(x1, y1) \<noteq> (0, 1)" "(x2, y2) \<noteq> (0, 1)"
  shows "bjj_add (x1, y1) (x2, y2) =
      (let t = BJJ_D * (x1 * x2) * (y1 * y2) in
       (((x1 * y2 + y1 * x2) mod BJJ_P * mod_inv ((1 + t) mod BJJ_P) BJJ_P) mod BJJ_P,
        ((y1 * y2 - BJJ_A * (x1 * x2)) mod BJJ_P * mod_inv ((1 - t) mod BJJ_P) BJJ_P) mod BJJ_P))"
proof -
  have nn: "0 \<le> x1 * x2" "0 \<le> y1 * y2" "0 \<le> x1 * y2" "0 \<le> y1 * x2" using assms(1,2) by (simp_all add: in_field_def)
  have D: "0 \<le> BJJ_D" "0 \<le> BJJ_A" by (simp_all add: BJJ_D_def BJJ_A_def)
  let ?t = "(BJJ_D * ((x1 * x2) mod BJJ_P)) mod BJJ_P * ((y1 * y2) mod BJJ_P)"
  have m: "0 \<le> a mod BJJ_P" "a mod BJJ_P \<le> BJJ_P" for a by (simp_all add: order_less_imp_le)
  have inv_nn: "0 \<le> mod_inv a BJJ_P" for a by (simp add: mod_inv_range)
  have t: "?t mod BJJ_P = (BJJ_D * (x1 * x2) * (y1 * y2)) mod BJJ_P" by (simp add: mod_simps)
  have v: "0 \<le> (y1 * y2) mod BJJ_P + BJJ_P - (BJJ_A * ((x1 * x2) mod BJJ_P)) mod BJJ_P"
    using m(1) [of "y1 * y2"] m(2) [of "BJJ_A * ((x1 * x2) mod BJJ_P)"] by linarith
  have w: "0 \<le> 1 + BJJ_P - (BJJ_D * (x1 * x2) * (y1 * y2)) mod BJJ_P"
    using m(2) [of "BJJ_D * (x1 * x2) * (y1 * y2)"] by linarith
  have e1: "(y1 * y2 mod BJJ_P + BJJ_P - BJJ_A * (x1 * x2 mod BJJ_P) mod BJJ_P) mod BJJ_P
      = (y1 * y2 - BJJ_A * (x1 * x2)) mod BJJ_P"
    by (metis (no_types, opaque_lifting) add_diff_eq diff_add_eq mod_add_self2 mod_diff_left_eq mod_diff_right_eq mod_mult_right_eq)
  have e2: "(1 + BJJ_P - BJJ_D * (x1 * x2) * (y1 * y2) mod BJJ_P) mod BJJ_P = (1 - BJJ_D * (x1 * x2) * (y1 * y2)) mod BJJ_P"
    by (metis (no_types, opaque_lifting) diff_add_eq mod_add_self2 mod_diff_right_eq)
  have n1: "x1 * x2 smod BJJ_P = x1 * x2 mod BJJ_P" "y1 * y2 smod BJJ_P = y1 * y2 mod BJJ_P"
    "(x1 * y2 smod BJJ_P + y1 * x2 smod BJJ_P) smod BJJ_P = (x1 * y2 + y1 * x2) mod BJJ_P"
    using nn m(1) by (simp_all add: smod_BJJ mod_simps)
  have n2: "BJJ_D * (x1 * x2 mod BJJ_P) smod BJJ_P = BJJ_D * (x1 * x2 mod BJJ_P) mod BJJ_P"
    "BJJ_A * (x1 * x2 mod BJJ_P) smod BJJ_P = BJJ_A * (x1 * x2 mod BJJ_P) mod BJJ_P"
    using D m(1) by (simp_all add: smod_BJJ)
  have n3: "BJJ_D * (x1 * x2 mod BJJ_P) mod BJJ_P * (y1 * y2 mod BJJ_P) smod BJJ_P = (BJJ_D * (x1 * x2) * (y1 * y2)) mod BJJ_P"
    using m(1) t by (simp add: smod_BJJ)
  have n4: "(1 + (BJJ_D * (x1 * x2) * (y1 * y2)) mod BJJ_P) smod BJJ_P = (1 + BJJ_D * (x1 * x2) * (y1 * y2)) mod BJJ_P"
    using m(1) [of "BJJ_D * (x1 * x2) * (y1 * y2)"] by (simp add: smod_BJJ mod_simps)
  have n5: "(1 + BJJ_P - (BJJ_D * (x1 * x2) * (y1 * y2)) mod BJJ_P) smod BJJ_P = (1 - BJJ_D * (x1 * x2) * (y1 * y2)) mod BJJ_P"
    "(y1 * y2 mod BJJ_P + BJJ_P - BJJ_A * (x1 * x2 mod BJJ_P) mod BJJ_P) smod BJJ_P = (y1 * y2 - BJJ_A * (x1 * x2)) mod BJJ_P"
    by (simp_all only: smod_BJJ [OF w] smod_BJJ [OF v] e1 e2)
  have n6: "a mod BJJ_P * mod_inv b BJJ_P smod BJJ_P = a mod BJJ_P * mod_inv b BJJ_P mod BJJ_P" for a b
    using m(1) inv_nn by (simp add: smod_BJJ)
  have "\<not> (x1 = 0 \<and> y1 = 1)" "\<not> (x2 = 0 \<and> y2 = 1)" using assms(3,4) by simp_all
  then show ?thesis
    by (simp only: bjj_add_def Let_def prod.case if_False n1 n2 n3 n4 n5 n6)
qed

text \<open>The sum solves the two equations of the unified Edwards law, the neutral cases included.\<close>

lemma bjj_add_law:
  assumes "in_field p" "in_field q" "addable p q"
  shows "(fst (bjj_add p q) * (1 + edwards_t p q)) mod BJJ_P = (fst p * snd q + snd p * fst q) mod BJJ_P"
    and "(snd (bjj_add p q) * (1 - edwards_t p q)) mod BJJ_P = (snd p * snd q - BJJ_A * (fst p * fst q)) mod BJJ_P"
    and "in_field (bjj_add p q)"
proof -
  obtain x1 y1 x2 y2 where pq: "p = (x1, y1)" "q = (x2, y2)" by (cases p, cases q)
  let ?claim = "(fst (bjj_add p q) * (1 + edwards_t p q)) mod BJJ_P = (fst p * snd q + snd p * fst q) mod BJJ_P \<and>
      (snd (bjj_add p q) * (1 - edwards_t p q)) mod BJJ_P = (snd p * snd q - BJJ_A * (fst p * fst q)) mod BJJ_P \<and>
      in_field (bjj_add p q)"
  have "?claim" if "p = (0, 1) \<or> q = (0, 1)"
    using that assms(1,2) by (auto simp: edwards_t_def)
  moreover have "?claim" if "p \<noteq> (0, 1)" "q \<noteq> (0, 1)"
  proof -
    note add = bjj_add_mod [OF assms(1,2) [unfolded pq] that [unfolded pq]]
    have cop: "coprime (1 + BJJ_D * (x1 * x2) * (y1 * y2)) BJJ_P" "coprime (1 - BJJ_D * (x1 * x2) * (y1 * y2)) BJJ_P"
      using assms(3) by (simp_all add: addable_def edwards_t_def pq)
    show ?thesis
      unfolding pq add Let_def in_field_def edwards_t_def fst_conv snd_conv
      using inv_solves [OF refl cop(1)] inv_solves [OF refl cop(2)] by simp
  qed
  ultimately have ?claim by blast
  then show "(fst (bjj_add p q) * (1 + edwards_t p q)) mod BJJ_P = (fst p * snd q + snd p * fst q) mod BJJ_P"
    "(snd (bjj_add p q) * (1 - edwards_t p q)) mod BJJ_P = (snd p * snd q - BJJ_A * (fst p * fst q)) mod BJJ_P"
    "in_field (bjj_add p q)" by simp_all
qed

text \<open>Two polynomial identities behind the closure of the curve.\<close>

lemma edwards_identity_left:
  fixes a d x y t :: int
  shows "(a * x\<^sup>2 + y\<^sup>2 - (1 + d * (x\<^sup>2 * y\<^sup>2))) * ((1 + t)\<^sup>2 * (1 - t)\<^sup>2) =
      a * (x * (1 + t))\<^sup>2 * (1 - t)\<^sup>2 + (y * (1 - t))\<^sup>2 * (1 + t)\<^sup>2 - ((1 + t) * (1 - t))\<^sup>2
      - d * ((x * (1 + t))\<^sup>2 * (y * (1 - t))\<^sup>2)"
  by algebra

lemma edwards_identity_right:
  fixes a d x1 y1 x2 y2 :: int
  assumes t: "t = d * (x1 * x2) * (y1 * y2)"
    and e1: "e1 = a * x1\<^sup>2 + y1\<^sup>2 - (1 + d * (x1\<^sup>2 * y1\<^sup>2))"
    and e2: "e2 = a * x2\<^sup>2 + y2\<^sup>2 - (1 + d * (x2\<^sup>2 * y2\<^sup>2))"
  shows "\<exists>k1 k2. a * (x1 * y2 + y1 * x2)\<^sup>2 * (1 - t)\<^sup>2 + (y1 * y2 - a * (x1 * x2))\<^sup>2 * (1 + t)\<^sup>2 - ((1 + t) * (1 - t))\<^sup>2
      - d * ((x1 * y2 + y1 * x2)\<^sup>2 * (y1 * y2 - a * (x1 * x2))\<^sup>2) = e1 * k1 + e2 * k2"
  unfolding assms by algebra

lemma edwards_residue_cong:
  assumes "z mod m = u mod m" "w mod m = v mod m"
  shows "(a * z\<^sup>2 * b + w\<^sup>2 * c - e - d * (z\<^sup>2 * w\<^sup>2)) mod m = (a * u\<^sup>2 * b + v\<^sup>2 * c - e - d * (u\<^sup>2 * v\<^sup>2)) mod (m :: int)"
proof -
  have "z\<^sup>2 mod m = u\<^sup>2 mod m" "w\<^sup>2 mod m = v\<^sup>2 mod m" using assms by (metis power_mod)+
  then show ?thesis by (intro mod_diff_cong mod_add_cong mod_mult_cong) simp_all
qed

lemma bjj_add_on_curve:
  assumes "in_field p" "in_field q" "on_curve p" "on_curve q" "addable p q"
  shows "on_curve (bjj_add p q)"
proof -
  obtain x1 y1 x2 y2 where pq: "p = (x1, y1)" "q = (x2, y2)" by (cases p, cases q)
  obtain x y where xy: "bjj_add p q = (x, y)" by fastforce
  let ?t = "BJJ_D * (x1 * x2) * (y1 * y2)"
  let ?u = "x1 * y2 + y1 * x2" and ?v = "y1 * y2 - BJJ_A * (x1 * x2)"
  let ?e = "\<lambda>x y. BJJ_A * x\<^sup>2 + y\<^sup>2 - (1 + BJJ_D * (x\<^sup>2 * y\<^sup>2))"
  let ?r = "\<lambda>z w. BJJ_A * z\<^sup>2 * (1 - ?t)\<^sup>2 + w\<^sup>2 * (1 + ?t)\<^sup>2 - ((1 + ?t) * (1 - ?t))\<^sup>2 - BJJ_D * (z\<^sup>2 * w\<^sup>2)"
  have law: "(x * (1 + ?t)) mod BJJ_P = ?u mod BJJ_P" "(y * (1 - ?t)) mod BJJ_P = ?v mod BJJ_P"
    using bjj_add_law(1,2) [OF assms(1,2,5)] unfolding xy by (simp_all add: pq edwards_t_def)
  have on: "BJJ_P dvd ?e x1 y1" "BJJ_P dvd ?e x2 y2"
    using assms(3,4) by (simp_all only: on_curve_def pq fst_conv snd_conv mod_eq_dvd_iff)
  obtain k1 k2 where "?r ?u ?v = ?e x1 y1 * k1 + ?e x2 y2 * k2"
    using edwards_identity_right [OF refl refl refl, of BJJ_A x1 y2 y1 x2 BJJ_D] by blast
  then have "BJJ_P dvd ?r ?u ?v" using on by (metis dvd_add dvd_mult2)
  then have "?r ?u ?v mod BJJ_P = 0" by (rule dvd_imp_mod_0)
  then have "?r (x * (1 + ?t)) (y * (1 - ?t)) mod BJJ_P = 0"
    using edwards_residue_cong [OF law] by metis
  then have "BJJ_P dvd ?e x y * ((1 + ?t)\<^sup>2 * (1 - ?t)\<^sup>2)"
    unfolding edwards_identity_left by (rule mod_0_imp_dvd)
  moreover have "coprime BJJ_P ((1 + ?t)\<^sup>2 * (1 - ?t)\<^sup>2)"
    using assms(5) by (simp add: addable_def edwards_t_def pq coprime_commute)
  ultimately have "BJJ_P dvd ?e x y" by (simp add: coprime_dvd_mult_left_iff)
  then show ?thesis by (simp only: on_curve_def xy fst_conv snd_conv mod_eq_dvd_iff)
qed

text \<open>C31: the sum of two points of the curve is a point of the curve with coordinates in the field, whenever the
  two denominators are invertible: the code's chain of truncated remainders and modular inverses computes the
  unified addition law.\<close>

theorem bjj_add_closed:
  assumes "in_field p" "in_field q" "on_curve p" "on_curve q" "addable p q"
  shows "in_field (bjj_add p q) \<and> on_curve (bjj_add p q)"
  using bjj_add_law(3) [OF assms(1,2,5)] bjj_add_on_curve [OF assms] by blast

lemma bjj_add_commute: "bjj_add p q = bjj_add q p"
  by (cases p, cases q) (auto simp: bjj_add_def Let_def mult.commute add.commute)

text \<open>The inverse used to subtract \<open>sk * C1\<close> from \<open>C2\<close>.\<close>

theorem bjj_add_neg:
  assumes "in_field p" "on_curve p" "coprime (1 + BJJ_D * ((fst p)\<^sup>2 * (snd p)\<^sup>2)) BJJ_P" "coprime (1 - BJJ_D * ((fst p)\<^sup>2 * (snd p)\<^sup>2)) BJJ_P"
  shows "bjj_add p (bjj_neg p) = BJJ_NEUTRAL"
proof -
  obtain x y where p: "p = (x, y)" by fastforce
  have f: "0 \<le> x" "x < BJJ_P" "0 \<le> y" "y < BJJ_P" using assms(1) by (simp_all add: in_field_def p)
  have neg: "bjj_neg p = ((- x) mod BJJ_P, y)"
    using f by (simp add: bjj_neg_def p smod_BJJ)
  let ?q = "bjj_neg p"
  have cong: "edwards_t p ?q mod BJJ_P = (- (BJJ_D * (x\<^sup>2 * y\<^sup>2))) mod BJJ_P"
  proof -
    have "edwards_t p ?q mod BJJ_P = (BJJ_D * (x * (- x)) * (y * y)) mod BJJ_P"
      unfolding edwards_t_def neg unfolding p fst_conv snd_conv by (intro mod_mult_cong) simp_all
    then show ?thesis by (simp add: power2_eq_square ac_simps)
  qed
  have plus: "(1 + edwards_t p ?q) mod BJJ_P = (1 - BJJ_D * (x\<^sup>2 * y\<^sup>2)) mod BJJ_P"
    and minus: "(1 - edwards_t p ?q) mod BJJ_P = (1 + BJJ_D * (x\<^sup>2 * y\<^sup>2)) mod BJJ_P"
    using mod_add_cong [OF refl cong, of 1] mod_diff_cong [OF refl cong, of 1] by simp_all
  have add: "addable p ?q"
    using assms(3,4) plus minus unfolding addable_def p fst_conv snd_conv
    by (metis BJJ_P_gt(2) coprime_mod_left_iff less_irrefl)
  have q: "in_field ?q" using f by (simp add: neg in_field_def)
  obtain u v where uv: "bjj_add p ?q = (u, v)" by fastforce
  have r: "in_field (u, v)" using bjj_add_law(3) [OF assms(1) q add] by (simp add: uv)
  have "(u * (1 + edwards_t p ?q)) mod BJJ_P = (x * y + y * ((- x) mod BJJ_P)) mod BJJ_P"
    using bjj_add_law(1) [OF assms(1) q add] unfolding uv unfolding neg by (simp add: p)
  also have "\<dots> = (x * y + y * (- x)) mod BJJ_P" by (intro mod_add_cong mod_mult_cong) simp_all
  also have "\<dots> = 0" by simp
  finally have "BJJ_P dvd u * (1 + edwards_t p ?q)" by (rule mod_0_imp_dvd)
  then have "BJJ_P dvd u" using add by (simp add: addable_def coprime_commute coprime_dvd_mult_left_iff)
  then have u: "u = 0" using r zdvd_not_zless [of u BJJ_P] by (cases "u = 0") (simp_all add: in_field_def)
  have "(v * (1 - edwards_t p ?q)) mod BJJ_P = (y * y - BJJ_A * (x * ((- x) mod BJJ_P))) mod BJJ_P"
    using bjj_add_law(2) [OF assms(1) q add] unfolding uv unfolding neg by (simp add: p)
  also have "\<dots> = (y * y - BJJ_A * (x * (- x))) mod BJJ_P"
    by (intro mod_diff_cong mod_mult_cong) (simp_all add: mod_simps)
  also have "\<dots> = (1 + BJJ_D * (x\<^sup>2 * y\<^sup>2)) mod BJJ_P"
    using assms(2) by (simp add: on_curve_def p power2_eq_square algebra_simps)
  also have "\<dots> = (1 - edwards_t p ?q) mod BJJ_P" by (rule minus [symmetric])
  finally have "BJJ_P dvd (v - 1) * (1 - edwards_t p ?q)" by (simp add: mod_eq_dvd_iff left_diff_distrib)
  then have "BJJ_P dvd v - 1" using add by (simp add: addable_def coprime_commute coprime_dvd_mult_left_iff)
  then have "v mod BJJ_P = 1 mod BJJ_P" by (simp only: mod_eq_dvd_iff)
  then have "v = 1" using r by (simp add: in_field_def)
  with u uv show ?thesis by (simp add: BJJ_NEUTRAL_def)
qed

text \<open>A sum is certified by the two equations and by inverses of the denominators.\<close>

lemma addable_certificate:
  assumes "((1 + edwards_t p q) * i) mod BJJ_P = 1" "((1 - edwards_t p q) * j) mod BJJ_P = 1"
  shows "addable p q"
proof -
  have "coprime a BJJ_P" if "(a * i) mod BJJ_P = 1" for a i :: int
    using that by (metis coprime_1_left coprime_mod_left_iff coprime_mult_left_iff BJJ_P_gt(2) less_irrefl)
  then show ?thesis using assms by (auto simp: addable_def)
qed

lemma bjj_add_eqI:
  assumes "in_field p" "in_field q" "addable p q" "in_field (u, v)"
    and "(u * (1 + edwards_t p q)) mod BJJ_P = (fst p * snd q + snd p * fst q) mod BJJ_P"
    and "(v * (1 - edwards_t p q)) mod BJJ_P = (snd p * snd q - BJJ_A * (fst p * fst q)) mod BJJ_P"
  shows "bjj_add p q = (u, v)"
proof -
  have eq: "a = b" if "(a * d) mod BJJ_P = (b * d) mod BJJ_P" "coprime d BJJ_P" "0 \<le> a" "a < BJJ_P" "0 \<le> b" "b < BJJ_P" for a b d :: int
  proof -
    have "BJJ_P dvd (a - b) * d" using that(1) by (simp add: mod_eq_dvd_iff left_diff_distrib)
    then have "BJJ_P dvd a - b" using that(2) by (simp add: coprime_commute coprime_dvd_mult_left_iff)
    then have "a mod BJJ_P = b mod BJJ_P" by (simp add: mod_eq_dvd_iff)
    with that(3-6) show ?thesis by simp
  qed
  have f: "in_field (bjj_add p q)" by (rule bjj_add_law(3) [OF assms(1-3)])
  have "fst (bjj_add p q) = u"
    using eq [OF trans [OF bjj_add_law(1) [OF assms(1-3)] assms(5) [symmetric]]] assms(3,4) f
    by (simp add: addable_def in_field_def)
  moreover have "snd (bjj_add p q) = v"
    using eq [OF trans [OF bjj_add_law(2) [OF assms(1-3)] assms(6) [symmetric]]] assms(3,4) f
    by (simp add: addable_def in_field_def)
  ultimately show ?thesis by (simp add: prod_eq_iff)
qed

section \<open>The search\<close>

lemma sqrt_from_bound:
  assumes "\<forall>j < k. j * j < n"
  shows "n \<le> sqrt_from k n * sqrt_from k n \<and> (\<forall>j < sqrt_from k n. j * j < n)"
  using assms
proof (induction k n rule: sqrt_from.induct)
  case (1 k n)
  show ?case
  proof (cases "n \<le> k * k")
    case True
    then show ?thesis using "1.prems" by (simp add: sqrt_from.simps [of k n])
  next
    case False
    with "1.prems" have "\<forall>j < Suc k. j * j < n" by (auto simp: less_Suc_eq)
    from "1.IH" [OF False this] show ?thesis using False by (simp add: sqrt_from.simps [of k n])
  qed
qed

lemma ceil_sqrt_bound: "n \<le> ceil_sqrt n * ceil_sqrt n" "j < ceil_sqrt n \<Longrightarrow> j * j < n"
  using sqrt_from_bound [of 0 n] by (simp_all add: ceil_sqrt_def)

text \<open>The points the two loops visit.\<close>

definition baby :: "point \<Rightarrow> nat \<Rightarrow> point" where
  "baby b j = ((\<lambda>p. bjj_add p (BJJ_GX, BJJ_GY)) ^^ j) b"

definition giant :: "point \<Rightarrow> point \<Rightarrow> nat \<Rightarrow> point" where
  "giant neg g i = ((\<lambda>p. bjj_add p neg) ^^ i) g"

lemma baby_Suc: "baby (bjj_add b (BJJ_GX, BJJ_GY)) j = baby b (Suc j)"
  by (simp only: baby_def funpow_Suc_right o_apply)

lemma giant_Suc: "giant neg (bjj_add g neg) i = giant neg g (Suc i)"
  by (simp only: giant_def funpow_Suc_right o_apply)

lemma baby_steps_keeps: "t q \<noteq> None \<Longrightarrow> baby_steps n j b t q \<noteq> None"
  by (induction n j b t rule: baby_steps.induct) simp_all

lemma baby_steps_sound:
  "baby_steps n j b t q = Some k \<Longrightarrow> t q = Some k \<or> (j \<le> k \<and> k < j + n \<and> q = baby b (k - j))"
proof (induction n j b t rule: baby_steps.induct)
  case (2 n j b t)
  then consider "(t(b \<mapsto> j)) q = Some k" | "Suc j \<le> k" "k < Suc j + n" "q = baby (bjj_add b (BJJ_GX, BJJ_GY)) (k - Suc j)"
    by (auto simp del: fun_upd_apply)
  then show ?case
  proof cases
    case 1
    then show ?thesis by (auto simp: baby_def split: if_splits)
  next
    case 2
    then show ?thesis by (simp add: baby_Suc Suc_diff_Suc)
  qed
qed simp

lemma baby_steps_complete: "i < n \<Longrightarrow> baby_steps n j b t (baby b i) \<noteq> None"
proof (induction n j b t arbitrary: i rule: baby_steps.induct)
  case (2 n j b t)
  show ?case
  proof (cases i)
    case 0
    then show ?thesis using baby_steps_keeps [of "t(b \<mapsto> j)" b] by (simp add: baby_def)
  next
    case (Suc i')
    then show ?thesis using "2.IH" [of i'] "2.prems" by (simp add: baby_Suc del: fun_upd_apply)
  qed
qed simp

lemma giant_steps_sound:
  "giant_steps n i m K neg g t = Some k \<Longrightarrow>
     \<exists>i' j. i \<le> i' \<and> i' < i + n \<and> k = i' * m + j \<and> k \<le> K \<and> t (giant neg g (i' - i)) = Some j"
proof (induction n i m K neg g t rule: giant_steps.induct)
  case (2 n i m K neg g t)
  show ?case
  proof (cases "\<exists>j. t g = Some j \<and> i * m + j \<le> K")
    case True
    then obtain j where j: "t g = Some j" "i * m + j \<le> K" by blast
    then have "k = i * m + j" using "2.prems" by simp
    with j show ?thesis by (intro exI [of _ i] exI [of _ j]) (simp add: giant_def)
  next
    case False
    then have "giant_steps n (Suc i) m K neg (bjj_add g neg) t = Some k"
      using "2.prems" by (auto split: option.splits if_splits)
    then have "\<exists>i' j. Suc i \<le> i' \<and> i' < Suc i + n \<and> k = i' * m + j \<and> k \<le> K \<and> t (giant neg (bjj_add g neg) (i' - Suc i)) = Some j"
      using False "2.IH" by (cases "t g") auto
    then obtain i' j where ij: "Suc i \<le> i'" "i' < Suc i + n" "k = i' * m + j" "k \<le> K"
      "t (giant neg (bjj_add g neg) (i' - Suc i)) = Some j" by blast
    moreover have "giant neg (bjj_add g neg) (i' - Suc i) = giant neg g (i' - i)"
      using ij(1) by (simp add: giant_Suc Suc_diff_Suc)
    ultimately show ?thesis by (intro exI [of _ i'] exI [of _ j]) simp
  qed
qed simp

lemma giant_steps_None:
  assumes "giant_steps n i m K neg g t = None" "x < n" "t (giant neg g x) = Some j"
  shows "K < (i + x) * m + j"
  using assms
proof (induction n i m K neg g t arbitrary: x rule: giant_steps.induct)
  case (2 n i m K neg g t)
  show ?case
  proof (cases x)
    case 0
    then show ?thesis using "2.prems" by (auto simp: giant_def split: if_splits)
  next
    case (Suc y)
    have "giant_steps n (Suc i) m K neg (bjj_add g neg) t = None"
      using "2.prems"(1) by (auto split: option.splits if_splits)
    with "2.IH" Suc "2.prems"(1-3) show ?thesis
      by (cases "t g") (auto simp: giant_Suc split: if_splits)
  qed
qed simp

text \<open>What \<open>bsgs\<close> returns. A result \<open>k\<close> is within the bound and comes from a collision: the \<open>i\<close>-th giant
  step from the point equals the \<open>j\<close>-th multiple of the generator, with \<open>k = i * m + j\<close>. When the search
  returns \<open>null\<close>, no pair of indices whose result is safely within the bound collides, and the indices searched
  reach every number up to the bound.\<close>

theorem bsgs_result:
  fixes T :: point and K :: nat
  defines "m \<equiv> ceil_sqrt K + 1"
  defines "neg \<equiv> bjj_neg (bjj_scalar_mul (int (ceil_sqrt K + 1)) (BJJ_GX, BJJ_GY))"
  shows "(case bsgs T K of
      Some k \<Rightarrow> k \<le> K \<and> (\<exists>i j. i < m \<and> j < m \<and> k = i * m + j \<and> giant neg T i = baby BJJ_NEUTRAL j)
    | None \<Rightarrow> \<not> (\<exists>i j. i < m \<and> j < m \<and> i * m + (m - 1) \<le> K \<and> giant neg T i = baby BJJ_NEUTRAL j)) \<and>
    K < m * m"
proof -
  have run: "bsgs T K = giant_steps m 0 m K neg T (baby_steps m 0 BJJ_NEUTRAL Map.empty)"
    by (simp only: bsgs_def Let_def m_def neg_def)
  have table: "j < m \<and> q = baby BJJ_NEUTRAL j" if "baby_steps m 0 BJJ_NEUTRAL Map.empty q = Some j" for q j
    using baby_steps_sound [OF that] by simp
  have "K \<le> ceil_sqrt K * ceil_sqrt K" by (rule ceil_sqrt_bound(1))
  then have "K < m * m" by (simp add: m_def)
  have some: "k \<le> K \<and> (\<exists>i j. i < m \<and> j < m \<and> k = i * m + j \<and> giant neg T i = baby BJJ_NEUTRAL j)"
    if "bsgs T K = Some k" for k
  proof -
    note found = that
    obtain i j where "i < 0 + m" "k = i * m + j" "k \<le> K"
      and hit: "baby_steps m 0 BJJ_NEUTRAL Map.empty (giant neg T (i - 0)) = Some j"
      using giant_steps_sound [OF found [unfolded run]] by blast
    with table [OF hit] show ?thesis by (metis add_0 diff_zero)
  qed
  have none: False
    if "bsgs T K = None" "i < m" "j < m" "i * m + (m - 1) \<le> K" "giant neg T i = baby BJJ_NEUTRAL j" for i j
  proof -
    note prems = that
    obtain j' where j': "baby_steps m 0 BJJ_NEUTRAL Map.empty (giant neg T i) = Some j'"
      using baby_steps_complete [OF prems(3), of 0 BJJ_NEUTRAL Map.empty] prems(5) by auto
    then have "K < (0 + i) * m + j'"
      using giant_steps_None [OF prems(1) [unfolded run] prems(2)] by blast
    moreover have "j' < m" using table [OF j'] by simp
    ultimately show False using prems(4) by simp
  qed
  show ?thesis
  proof (cases "bsgs T K")
    case None
    with \<open>K < m * m\<close> none show ?thesis by (simp only: option.case) blast
  next
    case (Some k)
    with \<open>K < m * m\<close> some [OF Some] show ?thesis by (simp only: option.case)
  qed
qed

end
