(* ===== verification/Curve_Points.thy ===== *)
theory Curve_Points
  imports Baby_Jubjub
begin

text \<open>
  The generator of \<open>services/HomomorphicTallyService.ts\<close> lies on the curve, checked on its coordinates, and with
  it the closure of the addition at a concrete pair of points: the generator and the point of order two.
\<close>

text \<open>The generator is a point of the curve; the squares are reduced through their quotients.\<close>

lemma mod_by_quotient: "a = k * m + r \<Longrightarrow> a mod m = r mod (m :: int)"
  by simp

lemma generator_on_curve: "on_curve (BJJ_GX, BJJ_GY)"
proof -
  have x: "BJJ_GX\<^sup>2 mod BJJ_P = 607742042888016619569620746324513481149123972252924884615094806956300595521 mod BJJ_P"
    by (rule mod_by_quotient [where k = 1283152981270719112173590965168703648169485001952648533879912510875365050464]) (simp add: BJJ_GX_def BJJ_P_def)
  have y: "BJJ_GY\<^sup>2 mod BJJ_P = 11976306643719063753190278949402960726252923955722022258665135291130529546895 mod BJJ_P"
    by (rule mod_by_quotient [where k = 13126115868359511340460820844889397414038424881599594996385915013151266539242]) (simp add: BJJ_GY_def BJJ_P_def)
  have "(BJJ_A * BJJ_GX\<^sup>2 + BJJ_GY\<^sup>2) mod BJJ_P = (BJJ_A * 607742042888016619569620746324513481149123972252924884615094806956300595521 + 11976306643719063753190278949402960726252923955722022258665135291130529546895) mod BJJ_P"
    by (intro mod_add_cong mod_mult_cong x y refl)
  also have "\<dots> = (1 + BJJ_D * (607742042888016619569620746324513481149123972252924884615094806956300595521 * 11976306643719063753190278949402960726252923955722022258665135291130529546895)) mod BJJ_P"
    by (rule mod_eq_dvd_iff [THEN iffD2], rule dvdI [where k = "-56096539945560990405048039532227505545979333414296602289701114492619685354938878"]) (simp add: BJJ_A_def BJJ_D_def BJJ_P_def)
  also have "\<dots> = (1 + BJJ_D * (BJJ_GX\<^sup>2 * BJJ_GY\<^sup>2)) mod BJJ_P"
    by (intro mod_add_cong mod_mult_cong x [symmetric] y [symmetric] refl)
  finally show ?thesis by (simp add: on_curve_def)
qed

lemma bjj_add_closed_witness:
  "in_field (bjj_add (BJJ_GX, BJJ_GY) (0, BJJ_P - 1)) \<and> on_curve (bjj_add (BJJ_GX, BJJ_GY) (0, BJJ_P - 1))"
proof (rule bjj_add_closed [OF _ _ generator_on_curve])
  show "in_field (BJJ_GX, BJJ_GY)" by (simp add: in_field_def BJJ_GX_def BJJ_GY_def BJJ_P_def)
  show "in_field (0, BJJ_P - 1)" by (simp add: in_field_def)
  have "(BJJ_P - 1)\<^sup>2 mod BJJ_P = 1 mod BJJ_P"
    by (rule mod_by_quotient [where k = "BJJ_P - 2"]) (simp add: power2_eq_square algebra_simps)
  then show "on_curve (0, BJJ_P - 1)" by (simp add: on_curve_def)
  show "addable (BJJ_GX, BJJ_GY) (0, BJJ_P - 1)" by (simp add: addable_def edwards_t_def)
qed

end
