(* ===== verification/Homomorphic_Tally.thy ===== *)
theory Homomorphic_Tally
  imports Http Redis_Store Baby_Jubjub
begin

text \<open>
  The homomorphic tally: the accumulator contract (\<open>contracts/HomomorphicTally.sol\<close>), the service that
  caches its ciphertexts, decrypts and posts the result (\<open>services/HomomorphicTallyService.ts\<close>, lines 151
  to 371) and the two routes (\<open>routes/homomorphicTally.ts\<close>). The proof verifier of the contract, Redis and
  \<open>keccak256\<close> are parameters; the answers of the contract to the service's calls are arguments, so that any of
  them may fail. Proved are: the contract counts each nullifier once and its counts add up, but a published
  ciphertext can be counted again under a new nullifier; a posted result is final; the cache returns what was
  accumulated; and when the timer that finalises a poll fires.
\<close>

section \<open>The contract\<close>

record ht_poll =
  tallyPublicKey :: point
  optionCount :: nat
  closeTime :: nat

record accumulated =
  acc_C1 :: point
  acc_C2 :: point
  acc_count :: nat

record decryption =
  tallyValue :: nat
  res_T :: point
  decryptionProof :: string
  finalised :: bool

text \<open>\<open>ht_verifier\<close> is \<open>None\<close> for the zero address.\<close>

record ht_chain =
  ht_polls :: "string \<Rightarrow> ht_poll option"
  ht_cts :: "string \<Rightarrow> nat \<Rightarrow> accumulated"
  ht_results :: "string \<Rightarrow> nat \<Rightarrow> decryption"
  ht_used :: "(string \<times> string) set"
  ht_verifier :: "(int list \<Rightarrow> string \<Rightarrow> bool) option"

datatype ht_error =
  MissingRole | PollNotFound | PollAlreadyRegistered | PollNotClosed | PollStillOpen
| InvalidOptionIndex | NullifierAlreadyUsed | InvalidProof | AlreadyFinalised | ArithmeticOverflow

definition neutral_ct :: accumulated where
  "neutral_ct = \<lparr>acc_C1 = (0, 1), acc_C2 = (0, 1), acc_count = 0\<rparr>"

function sol_mod_exp :: "int \<Rightarrow> int \<Rightarrow> int \<Rightarrow> int \<Rightarrow> int" where
  "sol_mod_exp r b e m =
     (if 0 < e then sol_mod_exp (if e mod 2 = 1 then (r * b) mod m else r) ((b * b) mod m) (e div 2) m else r)"
  by pat_completeness auto

termination by (relation "measure (\<lambda>(r, b, e, m). nat e)") auto

declare sol_mod_exp.simps [simp del]

definition sol_mod_inv :: "int \<Rightarrow> int \<Rightarrow> int" where
  "sol_mod_inv a p = sol_mod_exp 1 (a mod p) (p - 2) p"

definition baby_jub_add :: "point \<Rightarrow> point \<Rightarrow> point" where
  "baby_jub_add P1 P2 =
     (case (P1, P2) of ((x1, y1), (x2, y2)) \<Rightarrow>
        if x1 = 0 \<and> y1 = 1 then (x2, y2)
        else if x2 = 0 \<and> y2 = 1 then (x1, y1)
        else
          (let p = 21888242871839275222246405745257275088548364400416034343698204186575808495617;
               x1x2 = (x1 * x2) mod p;
               y1y2 = (y1 * y2) mod p;
               t = (((168696 * x1x2) mod p) * y1y2) mod p;
               x3num = ((x1 * y2) mod p + (y1 * x2) mod p) mod p;
               x3den = (1 + t) mod p;
               y3num = (y1y2 + (p - (168700 * x1x2) mod p)) mod p;
               y3den = (1 + (p - t)) mod p
           in ((x3num * sol_mod_inv x3den p) mod p, (y3num * sol_mod_inv y3den p) mod p)))"

definition register_poll :: "bool \<Rightarrow> string \<Rightarrow> point \<Rightarrow> nat \<Rightarrow> nat \<Rightarrow> ht_chain \<Rightarrow> ht_error + ht_chain" where
  "register_poll authority pid pk n close c =
     (if \<not> authority then Inl MissingRole
      else if ht_polls c pid \<noteq> None then Inl PollAlreadyRegistered
      else Inr (c\<lparr>ht_polls := (ht_polls c)(pid \<mapsto> \<lparr>tallyPublicKey = pk, optionCount = n, closeTime = close\<rparr>),
                  ht_cts := (ht_cts c)(pid := (\<lambda>i. if i < n then (ht_cts c pid i)\<lparr>acc_C1 := (0, 1), acc_C2 := (0, 1)\<rparr>
                                                   else ht_cts c pid i))\<rparr>))"

text \<open>\<open>pid_num\<close> reads the 32 bytes of a poll id as a number.\<close>

definition verify_vote_proof ::
  "(string \<Rightarrow> int) \<Rightarrow> (int list \<Rightarrow> string \<Rightarrow> bool) option \<Rightarrow> point \<Rightarrow> point \<Rightarrow> point \<Rightarrow> string \<Rightarrow> string \<Rightarrow> bool" where
  "verify_vote_proof pid_num verifier pk c1 c2 pid proof =
     (case verifier of
        None \<Rightarrow> True
      | Some ok \<Rightarrow> ok [fst pk, snd pk, fst c1, snd c1, fst c2, snd c2, pid_num pid] proof)"

definition submit_encrypted_vote ::
  "(string \<Rightarrow> int) \<Rightarrow> nat \<Rightarrow> string \<Rightarrow> nat \<Rightarrow> point \<Rightarrow> point \<Rightarrow> string \<Rightarrow> string \<Rightarrow> ht_chain \<Rightarrow> ht_error + ht_chain" where
  "submit_encrypted_vote pid_num now pid i c1 c2 nul proof c =
     (case ht_polls c pid of
        None \<Rightarrow> Inl PollNotFound
      | Some poll \<Rightarrow>
          if closeTime poll \<le> now then Inl PollNotClosed
          else if optionCount poll \<le> i then Inl InvalidOptionIndex
          else if (pid, nul) \<in> ht_used c then Inl NullifierAlreadyUsed
          else if \<not> verify_vote_proof pid_num (ht_verifier c) (tallyPublicKey poll) c1 c2 pid proof then Inl InvalidProof
          else if 2 ^ 256 \<le> acc_count (ht_cts c pid i) + 1 then Inl ArithmeticOverflow
          else Inr (c\<lparr>ht_used := insert (pid, nul) (ht_used c),
                      ht_cts := (ht_cts c)(pid := (ht_cts c pid)(i :=
                        \<lparr>acc_C1 = baby_jub_add (acc_C1 (ht_cts c pid i)) c1,
                         acc_C2 = baby_jub_add (acc_C2 (ht_cts c pid i)) c2,
                         acc_count = acc_count (ht_cts c pid i) + 1\<rparr>))\<rparr>))"

definition finalise_decryption ::
  "bool \<Rightarrow> nat \<Rightarrow> string \<Rightarrow> nat \<Rightarrow> nat \<Rightarrow> point \<Rightarrow> string \<Rightarrow> ht_chain \<Rightarrow> ht_error + ht_chain" where
  "finalise_decryption authority now pid i v T proof c =
     (if \<not> authority then Inl MissingRole
      else case ht_polls c pid of
        None \<Rightarrow> Inl PollNotFound
      | Some poll \<Rightarrow>
          if now < closeTime poll then Inl PollStillOpen
          else if optionCount poll \<le> i then Inl InvalidOptionIndex
          else if finalised (ht_results c pid i) then Inl AlreadyFinalised
          else Inr (c\<lparr>ht_results := (ht_results c)(pid := (ht_results c pid)(i :=
                        \<lparr>tallyValue = v, res_T = T, decryptionProof = proof, finalised = True\<rparr>))\<rparr>))"

definition set_verifier :: "bool \<Rightarrow> (int list \<Rightarrow> string \<Rightarrow> bool) option \<Rightarrow> ht_chain \<Rightarrow> ht_error + ht_chain" where
  "set_verifier admin v c = (if admin then Inr (c\<lparr>ht_verifier := v\<rparr>) else Inl MissingRole)"

definition ht_init :: ht_chain where
  "ht_init =
     \<lparr>ht_polls = (\<lambda>_. None), ht_cts = (\<lambda>_ _. \<lparr>acc_C1 = (0, 0), acc_C2 = (0, 0), acc_count = 0\<rparr>),
      ht_results = (\<lambda>_ _. \<lparr>tallyValue = 0, res_T = (0, 0), decryptionProof = [], finalised = False\<rparr>),
      ht_used = {}, ht_verifier = None\<rparr>"

text \<open>A transaction, with the time of its block and whether its sender holds the role it needs.\<close>

datatype ht_call =
  Register point nat nat
| is_Submit: Submit nat point point string string
| Finalise nat nat point string
| Set_Verifier "(int list \<Rightarrow> string \<Rightarrow> bool) option"

record ht_tx =
  tx_time :: nat
  tx_role :: bool
  tx_poll :: string
  tx_call :: ht_call

definition ht_exec :: "(string \<Rightarrow> int) \<Rightarrow> ht_tx \<Rightarrow> ht_chain \<Rightarrow> ht_error + ht_chain" where
  "ht_exec pid_num t c =
     (case tx_call t of
        Register pk n close \<Rightarrow> register_poll (tx_role t) (tx_poll t) pk n close c
      | Submit i c1 c2 nul proof \<Rightarrow> submit_encrypted_vote pid_num (tx_time t) (tx_poll t) i c1 c2 nul proof c
      | Finalise i v T proof \<Rightarrow> finalise_decryption (tx_role t) (tx_time t) (tx_poll t) i v T proof c
      | Set_Verifier v \<Rightarrow> set_verifier (tx_role t) v c)"

fun ht_run :: "(string \<Rightarrow> int) \<Rightarrow> ht_tx list \<Rightarrow> ht_chain \<Rightarrow> ht_chain" where
  "ht_run pid_num [] c = c"
| "ht_run pid_num (t # ts) c =
     (case ht_exec pid_num t c of Inl e \<Rightarrow> ht_run pid_num ts c | Inr c' \<Rightarrow> ht_run pid_num ts c')"


section \<open>The service\<close>

definition MAX_VOTERS :: nat where "MAX_VOTERS = 10000000"
definition HT_CACHE_TTL :: nat where "HT_CACHE_TTL = 3600"

definition snapshot_json :: "string \<Rightarrow> nat \<Rightarrow> accumulated \<Rightarrow> int \<Rightarrow> json" where
  "snapshot_json pid i a now =
     JObj [(''pollId'', JStr pid), (''optionIndex'', JNum (int i)),
           (''C1x'', JStr (int_str (fst (acc_C1 a)))), (''C1y'', JStr (int_str (snd (acc_C1 a)))),
           (''C2x'', JStr (int_str (fst (acc_C2 a)))), (''C2y'', JStr (int_str (snd (acc_C2 a)))),
           (''count'', JNum (int (acc_count a))), (''updatedAt'', JNum now)]"

definition ct_key :: "string \<Rightarrow> nat \<Rightarrow> string" where
  "ct_key pid i = ''htally:ct:'' @ pid @ '':'' @ nat_str i"

text \<open>\<open>getAccumulated\<close> of the option \<open>i\<close> answered \<open>acc i\<close>, possibly an error, which is logged.\<close>

definition refresh_cache ::
  "'r redis \<Rightarrow> int \<Rightarrow> (nat \<Rightarrow> accumulated result) \<Rightarrow> string \<Rightarrow> nat \<Rightarrow> 'r \<Rightarrow> json option \<times> 'r" where
  "refresh_cache R now acc pid i s =
     (case acc i of
        Inl e \<Rightarrow> (None, s)
      | Inr a \<Rightarrow> (Some (snapshot_json pid i a now),
                 r_setex R (ct_key pid i) HT_CACHE_TTL (stringify (snapshot_json pid i a now)) s))"

fun ciphertexts_loop ::
  "'r redis \<Rightarrow> int \<Rightarrow> (nat \<Rightarrow> accumulated result) \<Rightarrow> string \<Rightarrow> nat list \<Rightarrow> json list \<Rightarrow> 'r \<Rightarrow> json list result \<times> 'r" where
  "ciphertexts_loop R now acc pid [] results s = (Inr results, s)"
| "ciphertexts_loop R now acc pid (i # is) results s =
     (case r_get R (ct_key pid i) s of
        Some v \<Rightarrow>
          if v \<noteq> [] then
            (case json_parse v of
               None \<Rightarrow> (Inl ''SyntaxError'', s)
             | Some j \<Rightarrow> ciphertexts_loop R now acc pid is (results @ [j]) s)
          else
            (case refresh_cache R now acc pid i s of
               (Some j, s') \<Rightarrow> ciphertexts_loop R now acc pid is (results @ [j]) s'
             | (None, s') \<Rightarrow> ciphertexts_loop R now acc pid is results s')
      | None \<Rightarrow>
          (case refresh_cache R now acc pid i s of
             (Some j, s') \<Rightarrow> ciphertexts_loop R now acc pid is (results @ [j]) s'
           | (None, s') \<Rightarrow> ciphertexts_loop R now acc pid is results s'))"

text \<open>\<open>polls\<close> is the answer of the contract's \<open>polls\<close> function, \<open>None\<close> inside for a poll that does not exist.\<close>

definition get_ciphertexts ::
  "'r redis \<Rightarrow> int \<Rightarrow> ht_poll option result \<Rightarrow> (nat \<Rightarrow> accumulated result) \<Rightarrow> string \<Rightarrow> 'r \<Rightarrow> json list result \<times> 'r" where
  "get_ciphertexts R now polls acc pid s =
     (case polls of
        Inl e \<Rightarrow> (Inl e, s)
      | Inr None \<Rightarrow> (Inr [], s)
      | Inr (Some p) \<Rightarrow> ciphertexts_loop R now acc pid [0..<optionCount p] [] s)"

fun results_loop :: "(nat \<Rightarrow> decryption result) \<Rightarrow> string \<Rightarrow> nat list \<Rightarrow> json list result" where
  "results_loop res pid [] = Inr []"
| "results_loop res pid (i # is) =
     bind_result (res i) (\<lambda>r. bind_result (results_loop res pid is) (\<lambda>js.
       Inr (JObj [(''pollId'', JStr pid), (''optionIndex'', JNum (int i)), (''tallyValue'', JNum (int (tallyValue r))),
                  (''finalised'', JBool (finalised r))] # js)))"

definition get_tally_results ::
  "ht_poll option result \<Rightarrow> (nat \<Rightarrow> decryption result) \<Rightarrow> string \<Rightarrow> json list result" where
  "get_tally_results polls res pid =
     bind_result polls (\<lambda>p. case p of None \<Rightarrow> Inr [] | Some p \<Rightarrow> results_loop res pid [0..<optionCount p])"

definition htally_ciphertexts_route ::
  "'r redis \<Rightarrow> int \<Rightarrow> ht_poll option result \<Rightarrow> (nat \<Rightarrow> accumulated result) \<Rightarrow> string \<Rightarrow> 'r \<Rightarrow> response result \<times> 'r" where
  "htally_ciphertexts_route R now polls acc pid s =
     (case get_ciphertexts R now polls acc pid s of
        (Inl e, s') \<Rightarrow> (Inl e, s')
      | (Inr js, s') \<Rightarrow> (Inr (json_res 200 (JArr js)), s'))"

definition htally_results_route ::
  "ht_poll option result \<Rightarrow> (nat \<Rightarrow> decryption result) \<Rightarrow> string \<Rightarrow> response result" where
  "htally_results_route polls res pid =
     bind_result (get_tally_results polls res pid) (\<lambda>js. Inr (json_res 200 (JArr js)))"

text \<open>\<open>encode\<close> is the ABI encoding of the three words, \<open>keccak\<close> the hash of the bytes of a string.\<close>

definition build_decryption_proof ::
  "(int \<Rightarrow> int \<Rightarrow> string \<Rightarrow> string) \<Rightarrow> (string \<Rightarrow> string) \<Rightarrow> int \<Rightarrow> point \<Rightarrow> point \<Rightarrow> string" where
  "build_decryption_proof encode keccak sk c1 T =
     encode (fst T) (snd T)
       (keccak (int_str (fst c1) @ '','' @ int_str (snd c1) @ '','' @ int_str (sk smod 1000)))"

text \<open>The point the authority decrypts.\<close>

definition decrypt_point :: "int \<Rightarrow> point \<Rightarrow> point \<Rightarrow> point" where
  "decrypt_point sk c1 c2 = bjj_add c2 (bjj_neg (bjj_scalar_mul sk c1))"

text \<open>One option: the calls read the chain \<open>c\<close> and the transaction executes on it; \<open>key\<close> is the value of
  \<open>TALLY_AUTHORITY_PRIVATE_KEY\<close>, \<open>None\<close> when it is not set.\<close>

definition finalise_option ::
  "(int \<Rightarrow> int \<Rightarrow> string \<Rightarrow> string) \<Rightarrow> (string \<Rightarrow> string) \<Rightarrow> int option \<Rightarrow> bool \<Rightarrow> nat \<Rightarrow> string \<Rightarrow> nat \<Rightarrow> ht_chain
     \<Rightarrow> ht_chain result" where
  "finalise_option encode keccak key authority now pid i c =
     (if finalised (ht_results c pid i) then Inr c
      else case key of
        None \<Rightarrow> Inl ''TALLY_AUTHORITY_PRIVATE_KEY not set''
      | Some sk \<Rightarrow>
          (let a = ht_cts c pid i; T = decrypt_point sk (acc_C1 a) (acc_C2 a)
           in case bsgs T MAX_VOTERS of
                None \<Rightarrow> Inr c
              | Some v \<Rightarrow>
                  (case finalise_decryption authority now pid i v T (build_decryption_proof encode keccak sk (acc_C1 a) T) c of
                     Inl e \<Rightarrow> Inl ''transaction reverted''
                   | Inr c' \<Rightarrow> Inr c')))"

fun finalise_options ::
  "(nat \<Rightarrow> ht_chain \<Rightarrow> ht_chain result) \<Rightarrow> nat list \<Rightarrow> ht_chain \<Rightarrow> ht_chain" where
  "finalise_options f [] c = c"
| "finalise_options f (i # is) c = (case f i c of Inl e \<Rightarrow> finalise_options f is c | Inr c' \<Rightarrow> finalise_options f is c')"

text \<open>\<open>now_ms\<close> is the service's clock in milliseconds, \<open>now\<close> the timestamp of the blocks it submits to.\<close>

definition finalise_all ::
  "(int \<Rightarrow> int \<Rightarrow> string \<Rightarrow> string) \<Rightarrow> (string \<Rightarrow> string) \<Rightarrow> int option \<Rightarrow> bool \<Rightarrow> nat \<Rightarrow> nat \<Rightarrow> string \<Rightarrow> ht_chain
     \<Rightarrow> ht_chain" where
  "finalise_all encode keccak key authority now_ms now pid c =
     (case ht_polls c pid of
        None \<Rightarrow> c
      | Some p \<Rightarrow>
          if now_ms < closeTime p * 1000 then c
          else finalise_options (finalise_option encode keccak key authority now pid) [0..<optionCount p] c)"

text \<open>Node's \<open>setTimeout\<close>: a delay above \<open>2147483647\<close> is set to \<open>1\<close>.\<close>

definition node_delay :: "nat \<Rightarrow> nat" where
  "node_delay d = (if d < 1 \<or> 2147483647 < d then 1 else d)"

text \<open>The time at which the handler of \<open>PollRegistered\<close> has the poll finalised, if it sets a timer.\<close>

definition on_poll_registered :: "nat \<Rightarrow> nat \<Rightarrow> nat option" where
  "on_poll_registered now_ms close =
     (if now_ms < close * 1000 then Some (now_ms + node_delay (close * 1000 - now_ms + 5000)) else None)"

section \<open>Properties of the contract\<close>

named_theorems ht_defs

lemmas ht_ops [ht_defs] =
  ht_exec_def register_poll_def submit_encrypted_vote_def finalise_decryption_def set_verifier_def

lemma ht_run_append: "ht_run h (ts @ us) c = ht_run h us (ht_run h ts c)"
  by (induction h ts c rule: ht_run.induct) (simp_all split: sum.split)

text \<open>Invariants of one transaction lift to runs.\<close>

lemma ht_run_induct:
  assumes "P c" "\<And>t c c'. P c \<Longrightarrow> ht_exec h t c = Inr c' \<Longrightarrow> P c'"
  shows "P (ht_run h ts c)"
  using assms(1) by (induction ts arbitrary: c) (auto split: sum.splits intro: assms(2))

text \<open>One nullifier, one ciphertext: the contract is a vote channel per poll.\<close>

definition ht_spent :: "string \<Rightarrow> ht_chain \<Rightarrow> string set" where
  "ht_spent pid c = {n. (pid, n) \<in> ht_used c}"

definition ht_handle :: "(string \<Rightarrow> int) \<Rightarrow> string \<Rightarrow> ht_tx \<Rightarrow> ht_chain \<Rightarrow> string option \<times> ht_chain" where
  "ht_handle h pid t c =
     (case ht_exec h t c of
        Inl e \<Rightarrow> (None, c)
      | Inr c' \<Rightarrow> (case tx_call t of
                    Submit i c1 c2 nul proof \<Rightarrow> (if tx_poll t = pid then Some nul else None, c')
                  | _ \<Rightarrow> (None, c')))"

lemma submit_used:
  "submit_encrypted_vote h now pid i c1 c2 nul proof c = Inr c' \<Longrightarrow>
     (pid, nul) \<notin> ht_used c \<and> ht_used c' = insert (pid, nul) (ht_used c)"
  by (auto simp: submit_encrypted_vote_def split: option.splits if_splits)

lemma other_used:
  "ht_exec h t c = Inr c' \<Longrightarrow> \<not> is_Submit (tx_call t) \<Longrightarrow> ht_used c' = ht_used c"
  by (cases "tx_call t") (auto simp: ht_defs split: option.splits if_splits)

interpretation accumulator: vote_channel "ht_handle h pid" "ht_spent pid" "\<lambda>n. n" for h pid
proof
  fix q s s'
  assume idle: "ht_handle h pid q s = (None, s')"
  show "ht_spent pid s' = ht_spent pid s"
  proof (cases "ht_exec h q s")
    case (Inl e)
    with idle show ?thesis by (simp add: ht_handle_def)
  next
    case (Inr c')
    with idle have c': "s' = c'" by (auto simp: ht_handle_def split: ht_call.splits if_splits)
    show ?thesis
    proof (cases "is_Submit (tx_call q)")
      case True
      then obtain i c1 c2 n p where "tx_call q = Submit i c1 c2 n p" by (cases "tx_call q") simp_all
      with idle Inr show ?thesis
        using submit_used [of h "tx_time q" "tx_poll q" i c1 c2 n p s c'] c'
        by (auto simp: ht_handle_def ht_exec_def ht_spent_def split: if_splits)
    next
      case False
      with other_used [OF Inr] c' show ?thesis by (simp add: ht_spent_def)
    qed
  qed
next
  fix q s v s'
  assume h: "ht_handle h pid q s = (Some v, s')"
  then obtain i c1 c2 p where "tx_call q = Submit i c1 c2 v p" "tx_poll q = pid" "ht_exec h q s = Inr s'"
    by (cases "tx_call q") (auto simp: ht_handle_def split: sum.splits if_splits)
  with submit_used [of h "tx_time q" pid i c1 c2 v p s s'] show "v \<notin> ht_spent pid s \<and> ht_spent pid s' = insert v (ht_spent pid s)"
    by (auto simp: ht_exec_def ht_spent_def)
qed

text \<open>The counts of a poll's options add up to the number of nullifiers it spent.\<close>

definition ht_counts_ok :: "ht_chain \<Rightarrow> bool" where
  "ht_counts_ok c = (\<forall>pid. finite (ht_spent pid c) \<and>
     (case ht_polls c pid of
        None \<Rightarrow> ht_spent pid c = {} \<and> (\<forall>i. acc_count (ht_cts c pid i) = 0)
      | Some poll \<Rightarrow> (\<Sum>i < optionCount poll. acc_count (ht_cts c pid i)) = card (ht_spent pid c)))"

lemma sum_upd_Suc:
  "i < n \<Longrightarrow> (\<Sum>j < n. if j = i then Suc (f i) else f j) = Suc (\<Sum>j < (n :: nat). f j)"
proof -
  assume i: "i < n"
  have "(\<Sum>j < n. if j = i then Suc (f i) else f j) = Suc (f i) + sum f ({..<n} - {i})"
    using i by (simp add: sum.remove [of "{..<n}" i])
  then show ?thesis using i by (simp add: sum.remove [of "{..<n}" i f])
qed

lemma ht_counts_step: "ht_counts_ok c \<Longrightarrow> ht_exec h t c = Inr c' \<Longrightarrow> ht_counts_ok c'"
proof (cases "tx_call t")
  case (Register pk n close)
  assume ok: "ht_counts_ok c" and ex: "ht_exec h t c = Inr c'"
  let ?p = "tx_poll t"
  have new: "ht_polls c ?p = None"
    and c': "ht_polls c' = (ht_polls c)(?p \<mapsto> \<lparr>tallyPublicKey = pk, optionCount = n, closeTime = close\<rparr>)"
      "\<And>q j. acc_count (ht_cts c' q j) = acc_count (ht_cts c q j)"
    using ex by (auto simp: Register ht_defs split: if_splits)
  have "ht_used c' = ht_used c" by (rule other_used [OF ex]) (simp add: Register)
  then have sp: "ht_spent q c' = ht_spent q c" for q by (simp add: ht_spent_def)
  have "ht_spent ?p c = {} \<and> (\<forall>i. acc_count (ht_cts c ?p i) = 0)"
    using ok new by (auto simp: ht_counts_ok_def dest!: spec [of _ ?p])
  with ok show ?thesis unfolding ht_counts_ok_def c' sp by auto
next
  case (Submit i c1 c2 nul pf)
  assume ok: "ht_counts_ok c" and ex: "ht_exec h t c = Inr c'"
  let ?p = "tx_poll t"
  obtain poll where poll: "ht_polls c ?p = Some poll" "i < optionCount poll" and fresh: "(?p, nul) \<notin> ht_used c"
    and c': "ht_used c' = insert (?p, nul) (ht_used c)" "ht_polls c' = ht_polls c"
      "\<And>q j. acc_count (ht_cts c' q j) = (if q = ?p \<and> j = i then Suc (acc_count (ht_cts c ?p i)) else acc_count (ht_cts c q j))"
    using ex by (auto simp: Submit ht_defs split: option.splits if_splits)
  have sp: "ht_spent q c' = (if q = ?p then insert nul (ht_spent q c) else ht_spent q c)" for q
    by (auto simp: ht_spent_def c'(1))
  have "nul \<notin> ht_spent ?p c" using fresh by (simp add: ht_spent_def)
  moreover have "finite (ht_spent ?p c)" "(\<Sum>j < optionCount poll. acc_count (ht_cts c ?p j)) = card (ht_spent ?p c)"
    using ok poll(1) by (auto simp: ht_counts_ok_def dest!: spec [of _ ?p])
  ultimately have "(\<Sum>j < optionCount poll. acc_count (ht_cts c' ?p j)) = card (ht_spent ?p c') \<and> finite (ht_spent ?p c')"
    using sum_upd_Suc [OF poll(2), of "\<lambda>j. acc_count (ht_cts c ?p j)"] by (simp add: c'(3) sp)
  moreover have "ht_spent q c' = ht_spent q c" "acc_count (ht_cts c' q j) = acc_count (ht_cts c q j)" if "q \<noteq> ?p" for q j
    using that by (simp_all add: sp c'(3))
  ultimately show ?thesis
    unfolding ht_counts_ok_def c'(2)
  proof (intro allI)
    fix q
    assume p: "(\<Sum>j < optionCount poll. acc_count (ht_cts c' ?p j)) = card (ht_spent ?p c') \<and> finite (ht_spent ?p c')"
      and other: "\<And>q. q \<noteq> ?p \<Longrightarrow> ht_spent q c' = ht_spent q c" "\<And>q j. q \<noteq> ?p \<Longrightarrow> acc_count (ht_cts c' q j) = acc_count (ht_cts c q j)"
    show "finite (ht_spent q c') \<and> (case ht_polls c q of None \<Rightarrow> ht_spent q c' = {} \<and> (\<forall>j. acc_count (ht_cts c' q j) = 0)
        | Some poll \<Rightarrow> (\<Sum>j < optionCount poll. acc_count (ht_cts c' q j)) = card (ht_spent q c'))"
    proof (cases "q = ?p")
      case True
      with p poll(1) show ?thesis by simp
    next
      case False
      with ok show ?thesis unfolding other [OF False] ht_counts_ok_def by blast
    qed
  qed
next
  case (Finalise i v T pf)
  assume ok: "ht_counts_ok c" and ex: "ht_exec h t c = Inr c'"
  then have "ht_polls c' = ht_polls c" "ht_cts c' = ht_cts c" "ht_used c' = ht_used c"
    by (auto simp: Finalise ht_defs split: option.splits if_splits)
  with ok show ?thesis by (simp only: ht_counts_ok_def ht_spent_def simp_thms)
next
  case (Set_Verifier v)
  assume ok: "ht_counts_ok c" and ex: "ht_exec h t c = Inr c'"
  then have "ht_polls c' = ht_polls c" "ht_cts c' = ht_cts c" "ht_used c' = ht_used c"
    by (auto simp: Set_Verifier ht_defs split: if_splits)
  with ok show ?thesis by (simp only: ht_counts_ok_def ht_spent_def simp_thms)
qed

text \<open>C21: whatever transactions the accumulator executes, the counts of a poll's options add up to the number of
  nullifiers spent in it, and among the accepted ciphertexts of a poll no nullifier occurs twice.\<close>

theorem ht_counts_match_nullifiers:
  "(case ht_polls (ht_run h ts ht_init) pid of
      None \<Rightarrow> ht_spent pid (ht_run h ts ht_init) = {}
    | Some poll \<Rightarrow>
        (\<Sum>i < optionCount poll. acc_count (ht_cts (ht_run h ts ht_init) pid i)) = card (ht_spent pid (ht_run h ts ht_init))) \<and>
   distinct (fst (run_channel (ht_handle h pid) ts ht_init))"
proof
  have ok: "ht_counts_ok (ht_run h ts ht_init)"
    by (rule ht_run_induct [OF _ ht_counts_step]) (simp_all add: ht_init_def ht_counts_ok_def ht_spent_def)
  then show "case ht_polls (ht_run h ts ht_init) pid of
      None \<Rightarrow> ht_spent pid (ht_run h ts ht_init) = {}
    | Some poll \<Rightarrow>
        (\<Sum>i < optionCount poll. acc_count (ht_cts (ht_run h ts ht_init) pid i)) = card (ht_spent pid (ht_run h ts ht_init))"
    by (auto simp: ht_counts_ok_def dest!: spec [of _ pid] split: option.splits)
  show "distinct (fst (run_channel (ht_handle h pid) ts ht_init))"
    using accumulator.run_once [of h pid ts ht_init] by (cases "run_channel (ht_handle h pid) ts ht_init") simp
qed

text \<open>A posted result never changes: whatever transactions follow, the option keeps the value, the point and the
  proof it was finalised with.\<close>

theorem ht_result_final:
  assumes "finalised (ht_results c pid i)"
  shows "ht_results (ht_run h ts c) pid i = ht_results c pid i"
proof -
  have "ht_results c'' pid i = ht_results c pid i"
    if "ht_results c' pid i = ht_results c pid i" "ht_exec h t c' = Inr c''" for t c' c''
    using that assms by (cases "tx_call t") (auto simp: ht_defs split: option.splits if_splits)
  then show ?thesis by (rule ht_run_induct [where P = "\<lambda>c'. ht_results c' pid i = ht_results c pid i", OF refl])
qed

text \<open>The proof of an encrypted vote does not mention the nullifier, so whoever sees an accepted submission can
  submit the same ciphertext and proof again under any other unspent nullifier, also for another option, and it is
  counted again, as long as the poll is open.\<close>

theorem ht_vote_replay:
  assumes "submit_encrypted_vote h now pid i c1 c2 nul pf c = Inr c'"
    and "ht_polls c pid = Some poll" "now' < closeTime poll" "j < optionCount poll"
    and "(pid, nul') \<notin> ht_used c'" "acc_count (ht_cts c' pid j) + 1 < 2 ^ 256"
  shows "\<exists>c''. submit_encrypted_vote h now' pid j c1 c2 nul' pf c' = Inr c'' \<and>
    acc_count (ht_cts c'' pid j) = acc_count (ht_cts c' pid j) + 1"
proof -
  have "verify_vote_proof h (ht_verifier c) (tallyPublicKey poll) c1 c2 pid pf" "ht_verifier c' = ht_verifier c"
    "ht_polls c' = ht_polls c"
    using assms(1,2) by (auto simp: submit_encrypted_vote_def split: if_splits)
  with assms(2-) show ?thesis by (simp add: submit_encrypted_vote_def)
qed

definition demo_poll :: ht_chain where
  "demo_poll = ht_init\<lparr>ht_polls := [''P'' \<mapsto> \<lparr>tallyPublicKey = (0, 1), optionCount = 2, closeTime = 100\<rparr>],
     ht_verifier := Some (\<lambda>signals pf. signals = [0, 1, 0, 1, 0, 1, 7] \<and> pf = ''ok'')\<rparr>"

lemma ht_vote_replay_witness:
  "\<exists>c''. submit_encrypted_vote (\<lambda>_. 7) 6 ''P'' 1 (0, 1) (0, 1) ''n2'' ''ok''
       (projr (submit_encrypted_vote (\<lambda>_. 7) 5 ''P'' 0 (0, 1) (0, 1) ''n1'' ''ok'' demo_poll)) = Inr c'' \<and>
     acc_count (ht_cts c'' ''P'' 1) =
       acc_count (ht_cts (projr (submit_encrypted_vote (\<lambda>_. 7) 5 ''P'' 0 (0, 1) (0, 1) ''n1'' ''ok'' demo_poll)) ''P'' 1) + 1"
  by (rule ht_vote_replay [where i = 0 and nul = "''n1''" and c = demo_poll and now = 5
        and poll = "\<lparr>tallyPublicKey = (0, 1), optionCount = 2, closeTime = 100\<rparr>"])
    (simp_all add: submit_encrypted_vote_def demo_poll_def ht_init_def verify_vote_proof_def)

definition demo_result :: ht_chain where
  "demo_result = ht_init\<lparr>ht_results := (\<lambda>_ _. \<lparr>tallyValue = 3, res_T = (0, 1), decryptionProof = ''p'', finalised = True\<rparr>)\<rparr>"

lemma ht_result_final_witness:
  "tallyValue (ht_results (ht_run (\<lambda>_. 0)
      [\<lparr>tx_time = 5, tx_role = True, tx_poll = ''P'', tx_call = Finalise 0 9 (0, 1) ''q''\<rparr>] demo_result) ''P'' 0) = 3"
  by (subst ht_result_final) (simp_all add: demo_result_def)

section \<open>Properties of the service\<close>

lemma ct_key_inj: "ct_key pid i = ct_key pid j \<longleftrightarrow> i = j"
  by (simp add: ct_key_def nat_str_inj)

text \<open>What the service itself ever writes under the key of an option.\<close>

definition ct_written :: "'r redis \<Rightarrow> string \<Rightarrow> (nat \<Rightarrow> accumulated \<Rightarrow> int \<Rightarrow> bool) \<Rightarrow> nat \<Rightarrow> 'r \<Rightarrow> bool" where
  "ct_written R pid past i s =
     (\<forall>v. r_get R (ct_key pid i) s = Some v \<longrightarrow> (\<exists>a t. past i a t \<and> v = stringify (snapshot_json pid i a t)))"

lemma stringify_snapshot_not_Nil: "stringify (snapshot_json pid i a t) \<noteq> []"
  by (simp add: stringify_def snapshot_json_def)

lemma snapshot_roundtrip:
  "i \<le> max_safe \<Longrightarrow> acc_count a \<le> max_safe \<Longrightarrow> nat \<bar>t\<bar> \<le> max_safe \<Longrightarrow>
     json_parse (stringify (snapshot_json pid i a t)) = Some (snapshot_json pid i a t)"
  by (rule json_roundtrip(1)) (simp add: snapshot_json_def)

lemma ciphertexts_loop_shows:
  assumes R: "redis_store R"
    and cached: "\<And>i. i \<in> set ix \<Longrightarrow> ct_written R pid past i s"
    and fresh: "\<And>i a. acc i = Inr a \<Longrightarrow> past i a now"
    and small: "\<And>i a t. past i a t \<Longrightarrow> i \<le> max_safe \<and> acc_count a \<le> max_safe \<and> nat \<bar>t\<bar> \<le> max_safe"
    and "distinct ix"
  shows "\<exists>a t. (\<forall>i. i \<in> set ix \<and> (r_get R (ct_key pid i) s \<noteq> None \<or> (\<exists>b. acc i = Inr b)) \<longrightarrow> past i (a i) (t i)) \<and>
    fst (ciphertexts_loop R now acc pid ix results s) =
      Inr (results @ map (\<lambda>i. snapshot_json pid i (a i) (t i))
             (filter (\<lambda>i. r_get R (ct_key pid i) s \<noteq> None \<or> (\<exists>b. acc i = Inr b)) ix))"
  using cached \<open>distinct ix\<close>
proof (induction ix arbitrary: results s)
  case Nil
  show ?case by simp
next
  case (Cons i ix)
  let ?shown = "\<lambda>s i. r_get R (ct_key pid i) s \<noteq> None \<or> (\<exists>b. acc i = Inr b)"
  have keep: "r_get R (ct_key pid j) (r_setex R (ct_key pid i) t v s) = r_get R (ct_key pid j) s" if "j \<in> set ix" for j t v
    using that Cons.prems(2) by (auto simp: redis_store.get_setex [OF R] ct_key_inj)
  consider (cached) a t where "r_get R (ct_key pid i) s = Some (stringify (snapshot_json pid i a t))" "past i a t"
    | (fresh) b where "r_get R (ct_key pid i) s = None" "acc i = Inr b"
    | (none) e where "r_get R (ct_key pid i) s = None" "acc i = Inl e"
    using Cons.prems(1) [of i] by (cases "r_get R (ct_key pid i) s"; cases "acc i") (auto simp: ct_written_def)
  then show ?case
  proof cases
    case cached
    have run: "ciphertexts_loop R now acc pid (i # ix) results s =
        ciphertexts_loop R now acc pid ix (results @ [snapshot_json pid i a t]) s"
      using snapshot_roundtrip [of i a t pid] small [OF cached(2)] stringify_snapshot_not_Nil [of pid i a t]
      by (simp add: cached)
    obtain f g where fg: "\<forall>j. j \<in> set ix \<and> ?shown s j \<longrightarrow> past j (f j) (g j)"
      "fst (ciphertexts_loop R now acc pid ix (results @ [snapshot_json pid i a t]) s) =
        Inr ((results @ [snapshot_json pid i a t]) @ map (\<lambda>i. snapshot_json pid i (f i) (g i)) (filter (?shown s) ix))"
      using Cons.IH [of s "results @ [snapshot_json pid i a t]"] Cons.prems by auto
    show ?thesis
      unfolding run using fg cached Cons.prems(2)
      by (intro exI [of _ "f(i := a)"] exI [of _ "g(i := t)"]) (auto intro!: map_cong)
  next
    case fresh
    let ?s = "r_setex R (ct_key pid i) HT_CACHE_TTL (stringify (snapshot_json pid i b now)) s"
    have run: "ciphertexts_loop R now acc pid (i # ix) results s =
        ciphertexts_loop R now acc pid ix (results @ [snapshot_json pid i b now]) ?s"
      by (simp add: fresh refresh_cache_def)
    have shown: "?shown ?s j = ?shown s j" if "j \<in> set ix" for j using keep [OF that] by simp
    obtain f g where fg: "\<forall>j. j \<in> set ix \<and> ?shown ?s j \<longrightarrow> past j (f j) (g j)"
      "fst (ciphertexts_loop R now acc pid ix (results @ [snapshot_json pid i b now]) ?s) =
        Inr ((results @ [snapshot_json pid i b now]) @ map (\<lambda>i. snapshot_json pid i (f i) (g i)) (filter (?shown ?s) ix))"
      using Cons.IH [of ?s "results @ [snapshot_json pid i b now]"] Cons.prems keep by (auto simp: ct_written_def)
    have "filter (?shown ?s) ix = filter (?shown s) ix" using shown by (intro filter_cong) auto
    with fg fresh assms(3) [OF fresh(2)] Cons.prems(2) shown show ?thesis
      unfolding run
      by (intro exI [of _ "f(i := b)"] exI [of _ "g(i := now)"]) (auto intro!: map_cong)
  next
    case none
    have run: "ciphertexts_loop R now acc pid (i # ix) results s = ciphertexts_loop R now acc pid ix results s"
      by (simp add: none refresh_cache_def)
    obtain f g where fg: "\<forall>j. j \<in> set ix \<and> ?shown s j \<longrightarrow> past j (f j) (g j)"
      "fst (ciphertexts_loop R now acc pid ix results s) =
        Inr (results @ map (\<lambda>i. snapshot_json pid i (f i) (g i)) (filter (?shown s) ix))"
      using Cons.IH [of s results] Cons.prems by auto
    show ?thesis unfolding run using fg none by (intro exI [of _ f] exI [of _ g]) auto
  qed
qed

text \<open>The ciphertexts route lists, in the order of the options, one snapshot per option that is cached or whose
  accumulator can be read, and every snapshot holds values that were accumulated for that option; an option whose
  read fails is left out without an error.\<close>

theorem ht_ciphertexts_shown:
  assumes "redis_store R"
    and "\<And>i. i < optionCount p \<Longrightarrow> ct_written R pid past i s"
    and "\<And>i a. acc i = Inr a \<Longrightarrow> past i a now"
    and "\<And>i a t. past i a t \<Longrightarrow> i \<le> max_safe \<and> acc_count a \<le> max_safe \<and> nat \<bar>t\<bar> \<le> max_safe"
  shows "\<exists>a t. (\<forall>i < optionCount p. r_get R (ct_key pid i) s \<noteq> None \<or> (\<exists>b. acc i = Inr b) \<longrightarrow> past i (a i) (t i)) \<and>
    fst (htally_ciphertexts_route R now (Inr (Some p)) acc pid s) =
      Inr (json_res 200 (JArr (map (\<lambda>i. snapshot_json pid i (a i) (t i))
        (filter (\<lambda>i. r_get R (ct_key pid i) s \<noteq> None \<or> (\<exists>b. acc i = Inr b)) [0..<optionCount p]))))"
proof -
  obtain a t where
    past: "\<forall>i. i \<in> set [0..<optionCount p] \<and> (r_get R (ct_key pid i) s \<noteq> None \<or> (\<exists>b. acc i = Inr b)) \<longrightarrow> past i (a i) (t i)"
    and run: "fst (ciphertexts_loop R now acc pid [0..<optionCount p] [] s) =
      Inr ([] @ map (\<lambda>i. snapshot_json pid i (a i) (t i))
        (filter (\<lambda>i. r_get R (ct_key pid i) s \<noteq> None \<or> (\<exists>b. acc i = Inr b)) [0..<optionCount p]))"
    using ciphertexts_loop_shows [OF assms(1), of "[0..<optionCount p]" pid past s acc now "[]"] assms(2-4)
    by (auto simp del: not_None_eq)
  have "fst (htally_ciphertexts_route R now (Inr (Some p)) acc pid s) =
      Inr (json_res 200 (JArr (map (\<lambda>i. snapshot_json pid i (a i) (t i))
        (filter (\<lambda>i. r_get R (ct_key pid i) s \<noteq> None \<or> (\<exists>b. acc i = Inr b)) [0..<optionCount p]))))"
    using run by (cases "ciphertexts_loop R now acc pid [0..<optionCount p] [] s")
      (simp add: htally_ciphertexts_route_def get_ciphertexts_def del: not_None_eq)
  with past show ?thesis by (intro exI [of _ a] exI [of _ t]) (simp del: not_None_eq)
qed

text \<open>What one option does to the chain, errors caught.\<close>

definition option_step ::
  "(nat \<Rightarrow> ht_chain \<Rightarrow> ht_chain result) \<Rightarrow> nat \<Rightarrow> ht_chain \<Rightarrow> ht_chain" where
  "option_step f i c = (case f i c of Inl e \<Rightarrow> c | Inr c' \<Rightarrow> c')"

lemma finalise_options_fold: "finalise_options f ix c = fold (option_step f) ix c"
  by (induction f ix c rule: finalise_options.induct) (simp_all add: option_step_def split: sum.split)

text \<open>The step of an option depends on its own result, the accumulators and the polls, and changes only the first.\<close>

lemma option_step_cases:
  fixes enc kec key auth now pid
  defines "g \<equiv> option_step (finalise_option enc kec key auth now pid)"
  obtains "g i c = c"
  | d where "finalised d" "\<not> finalised (ht_results c pid i)"
      "g i c = c\<lparr>ht_results := (ht_results c)(pid := (ht_results c pid)(i := d))\<rparr>"
proof (cases "g i c = c")
  case True
  then show ?thesis by (rule that(1))
next
  case False
  then have "finalised (ht_results (g i c) pid i) \<and> \<not> finalised (ht_results c pid i) \<and>
      g i c = c\<lparr>ht_results := (ht_results c)(pid := (ht_results c pid)(i := ht_results (g i c) pid i))\<rparr>"
    unfolding g_def
    by (auto simp: option_step_def finalise_option_def finalise_decryption_def Let_def
        split: option.splits sum.splits if_splits)
  then show ?thesis using that(2) by blast
qed

lemma option_step_local:
  assumes "ht_results c' pid i = ht_results c pid i" "ht_cts c' = ht_cts c" "ht_polls c' = ht_polls c"
    and "option_step (finalise_option enc kec key auth now pid) i c = c"
  shows "option_step (finalise_option enc kec key auth now pid) i c' = c'"
proof (rule ccontr)
  let ?f = "finalise_option enc kec key auth now pid"
  assume "option_step ?f i c' \<noteq> c'"
  then have "\<not> finalised (ht_results c pid i) \<and> finalised (ht_results (option_step ?f i c) pid i)"
    using assms(1-3)
    by (auto simp: option_step_def finalise_option_def finalise_decryption_def Let_def
        split: option.splits sum.splits if_splits)
  then show False using assms(4) by simp
qed

lemma option_step_stable:
  fixes enc kec key auth now pid
  defines "g \<equiv> option_step (finalise_option enc kec key auth now pid)"
  shows "g i (g i c) = g i c" "g i c = c \<Longrightarrow> g i (g j c) = g j c"
proof -
  have fin: "g i c = c" if "finalised (ht_results c pid i)" for i c
    using that by (simp add: g_def option_step_def finalise_option_def)
  show "g i (g i c) = g i c"
    using option_step_cases [of enc kec key auth now pid i c, folded g_def] by cases (simp_all add: fin)
  assume i: "g i c = c"
  show "g i (g j c) = g j c"
    using option_step_cases [of enc kec key auth now pid j c, folded g_def]
  proof cases
    case 1
    with i show ?thesis by simp
  next
    case (2 d)
    show ?thesis
    proof (cases "i = j")
      case True
      with 2 show ?thesis by (simp add: fin)
    next
      case False
      have "ht_results (g j c) pid i = ht_results c pid i" "ht_cts (g j c) = ht_cts c" "ht_polls (g j c) = ht_polls c"
        using 2(3) False by simp_all
      from option_step_local [OF this i [unfolded g_def]] show ?thesis unfolding g_def by simp
    qed
  qed
qed

text \<open>Finalising a poll a second time under the same conditions sends nothing: the chain is the one after the
  first run, whatever options the first run left out.\<close>

theorem ht_finalise_idempotent:
  "finalise_all enc kec key auth now_ms now pid (finalise_all enc kec key auth now_ms now pid c) =
     finalise_all enc kec key auth now_ms now pid c"
proof (cases "ht_polls c pid")
  case None
  then show ?thesis by (simp add: finalise_all_def)
next
  case (Some p)
  let ?g = "option_step (finalise_option enc kec key auth now pid)"
  have keep: "?g i c = c \<Longrightarrow> ?g i (fold ?g ix c) = fold ?g ix c" for i ix c
    by (induction ix arbitrary: c) (simp_all add: option_step_stable(2))
  have settled: "i \<in> set ix \<Longrightarrow> ?g i (fold ?g ix c) = fold ?g ix c" for i ix c
    by (induction ix arbitrary: c) (auto simp: keep option_step_stable(1))
  have again: "(\<And>i. i \<in> set ix \<Longrightarrow> ?g i c = c) \<Longrightarrow> fold ?g ix c = c" for ix c
    by (induction ix) simp_all
  have polls: "ht_polls (fold ?g ix c) = ht_polls c" for ix c
  proof (induction ix arbitrary: c)
    case (Cons i ix)
    have "ht_polls (?g i c) = ht_polls c" by (cases rule: option_step_cases [of enc kec key auth now pid i c]) simp_all
    with Cons show ?case by simp
  qed simp
  have "fold ?g ix (fold ?g ix c) = fold ?g ix c" for ix c by (rule again, rule settled)
  then show ?thesis
    by (simp add: finalise_all_def Some finalise_options_fold polls)
qed

text \<open>The timer that \<open>PollRegistered\<close> sets. A poll that closes in at most \<open>2147478647\<close> milliseconds (about 24.8 days)
  is finalised five seconds after it closes; for a later one the delay overflows, the timer fires after one
  millisecond, finds the poll open and is not set again.\<close>

theorem ht_timer:
  assumes "on_poll_registered now_ms (closeTime p) = Some fire" "ht_polls c pid = Some p"
  shows "if closeTime p * 1000 - now_ms \<le> 2147478647
    then fire = closeTime p * 1000 + 5000 \<and>
      finalise_all enc kec key auth fire now pid c =
        fold (option_step (finalise_option enc kec key auth now pid)) [0..<optionCount p] c
    else fire = now_ms + 1 \<and> finalise_all enc kec key auth fire now pid c = c"
  using assms by (auto simp: on_poll_registered_def node_delay_def finalise_all_def finalise_options_fold split: if_splits)

lemma ht_timer_witness:
  "on_poll_registered 0 3000000 = Some 1 \<and>
   finalise_all (\<lambda>_ _ s. s) (\<lambda>s. s) (Some 5) True 1 2 ''P''
       (ht_init\<lparr>ht_polls := [''P'' \<mapsto> \<lparr>tallyPublicKey = (0, 1), optionCount = 2, closeTime = 3000000\<rparr>]\<rparr>) =
     ht_init\<lparr>ht_polls := [''P'' \<mapsto> \<lparr>tallyPublicKey = (0, 1), optionCount = 2, closeTime = 3000000\<rparr>]\<rparr>"
proof -
  have "on_poll_registered 0 (closeTime \<lparr>tallyPublicKey = (0, 1), optionCount = 2, closeTime = 3000000\<rparr>) = Some 1"
    by (simp add: on_poll_registered_def node_delay_def)
  from ht_timer [OF this, of "ht_init\<lparr>ht_polls := [''P'' \<mapsto> \<lparr>tallyPublicKey = (0, 1), optionCount = 2, closeTime = 3000000\<rparr>]\<rparr>" "''P''"]
  show ?thesis by (simp add: on_poll_registered_def node_delay_def)
qed

text \<open>The published decryption proof fixes the authority's private key modulo 1000, although the key is meant not
  to leave the process: two keys give the same proof for the same point exactly when they agree modulo 1000.\<close>

theorem ht_proof_leaks_key:
  assumes "\<And>x y h h'. enc x y h = enc x y h' \<Longrightarrow> h = h'" "\<And>s s'. kec s = kec s' \<Longrightarrow> s = s'" "0 \<le> sk" "0 \<le> sk'"
  shows "build_decryption_proof enc kec sk c1 T = build_decryption_proof enc kec sk' c1 T \<longleftrightarrow> sk mod 1000 = sk' mod 1000"
proof -
  have inj: "int_str a = int_str b \<longleftrightarrow> a = b" if "0 \<le> a" "0 \<le> b" for a b
    using that by (simp add: int_str_def nat_str_inj eq_nat_nat_iff)
  show ?thesis
  proof
    assume "build_decryption_proof enc kec sk c1 T = build_decryption_proof enc kec sk' c1 T"
    from assms(2) [OF assms(1) [OF this [unfolded build_decryption_proof_def]]]
    have "int_str (sk smod 1000) = int_str (sk' smod 1000)" by simp
    then show "sk mod 1000 = sk' mod 1000" using assms(3,4) by (simp add: smod_nonneg inj)
  next
    assume "sk mod 1000 = sk' mod 1000"
    then show "build_decryption_proof enc kec sk c1 T = build_decryption_proof enc kec sk' c1 T"
      using assms(3,4) by (simp add: build_decryption_proof_def smod_nonneg)
  qed
qed

lemma ht_proof_leaks_key_witness:
  "build_decryption_proof (\<lambda>_ _ h. h) (\<lambda>s. s) 1234 (0, 1) (0, 1) = build_decryption_proof (\<lambda>_ _ h. h) (\<lambda>s. s) 987234 (0, 1) (0, 1)"
  by (rule ht_proof_leaks_key [THEN iffD2]) simp_all

lemma ht_ciphertexts_shown_witness:
  "fst (htally_ciphertexts_route redis_mem 5 (Inr (Some \<lparr>tallyPublicKey = (0, 1), optionCount = 2, closeTime = 9\<rparr>))
      (\<lambda>i. if i = 0 then Inr neutral_ct else Inl ''timeout'') ''P'' mem_empty) =
    Inr (json_res 200 (JArr [snapshot_json ''P'' 0 neutral_ct 5]))"
proof -
  let ?p = "\<lparr>tallyPublicKey = (0, 1), optionCount = 2, closeTime = 9\<rparr> :: ht_poll"
  let ?acc = "\<lambda>i. if i = 0 then Inr neutral_ct else Inl ''timeout''"
  let ?past = "\<lambda>i a t. i = (0 :: nat) \<and> a = neutral_ct \<and> t = (5 :: int)"
  have two: "[0..<2] = [0, Suc 0]" by (simp add: upt_rec)
  let ?shown = "\<lambda>i. r_get redis_mem (ct_key ''P'' i) mem_empty \<noteq> None \<or> (\<exists>b. ?acc i = Inr b)"
  have "ct_written redis_mem ''P'' ?past i mem_empty" for i by (simp add: ct_written_def mem_defs)
  moreover have "?acc i = Inr a \<Longrightarrow> ?past i a 5" for i a by (simp split: if_splits)
  moreover have "?past i a t \<Longrightarrow> i \<le> max_safe \<and> acc_count a \<le> max_safe \<and> nat \<bar>t\<bar> \<le> max_safe" for i a t
    by (auto simp: neutral_ct_def max_safe_def)
  ultimately obtain a t where at: "\<forall>i < optionCount ?p. ?shown i \<longrightarrow> ?past i (a i) (t i)"
    and run: "fst (htally_ciphertexts_route redis_mem 5 (Inr (Some ?p)) ?acc ''P'' mem_empty) =
      Inr (json_res 200 (JArr (map (\<lambda>i. snapshot_json ''P'' i (a i) (t i)) (filter ?shown [0..<optionCount ?p]))))"
    using ht_ciphertexts_shown [OF mem.redis_store_axioms, of ?p "''P''" ?past mem_empty ?acc 5] by blast
  have "filter ?shown [0..<optionCount ?p] = [0]" by (simp add: two mem_defs)
  moreover have "a 0 = neutral_ct \<and> t 0 = 5" using at [rule_format, of 0] by simp
  ultimately show ?thesis unfolding run by simp
qed

section \<open>The contract adds as the service does\<close>

lemma sol_mod_exp_power:
  "0 < m \<Longrightarrow> 0 \<le> e \<Longrightarrow> sol_mod_exp r b e m mod m = (r * b ^ nat e) mod m"
proof (induction r b e m rule: sol_mod_exp.induct)
  case (1 r b e m)
  show ?case
  proof (cases "0 < e")
    case False
    with "1.prems" show ?thesis by (simp add: sol_mod_exp.simps [of r b 0 m])
  next
    case True
    have half: "b ^ nat e = (b * b) ^ nat (e div 2) * (if e mod 2 = 1 then b else 1)"
    proof -
      have "nat e = 2 * nat (e div 2) + nat (e mod 2)" using True by (simp add: nat_div_distrib nat_mod_distrib)
      moreover have "e mod 2 = 0 \<or> e mod 2 = 1" by presburger
      ultimately show ?thesis by (auto simp: power_add power_mult power2_eq_square)
    qed
    have "sol_mod_exp r b e m mod m =
        ((if e mod 2 = 1 then (r * b) mod m else r) * ((b * b) mod m) ^ nat (e div 2)) mod m"
      using "1.IH" [OF True] True "1.prems" by (simp add: sol_mod_exp.simps [of r b e m])
    also have "\<dots> = ((if e mod 2 = 1 then r * b else r) * (b * b) ^ nat (e div 2)) mod m"
      by (intro mod_mult_cong) (simp_all add: power_mod)
    also have "\<dots> = (r * b ^ nat e) mod m" by (simp add: half ac_simps)
    finally show ?thesis .
  qed
qed

lemma mod_sub_form: "(a mod m + (m - b mod m)) mod m = (a - b) mod (m :: int)"
  by (metis (no_types, opaque_lifting) add_diff_eq diff_add_eq mod_add_self2 mod_diff_eq)

lemma mod_solves:
  assumes "(d * k) mod m = (1 :: int)"
  shows "((a mod m * k) mod m * d) mod m = a mod m"
proof -
  have "((a mod m * k) mod m * d) mod m = ((a mod m) * (k * d)) mod m"
    by (simp only: mod_mult_left_eq mult.assoc)
  also have "\<dots> = (a * (k * d)) mod m" by (rule mod_mult_left_eq)
  also have "\<dots> = (a * ((d * k) mod m)) mod m" by (simp only: mod_mult_right_eq mult.commute [of k d])
  also have "\<dots> = a mod m" by (simp only: assms mult_1_right)
  finally show ?thesis .
qed

text \<open>The contract's sum of two points other than the neutral one, without its intermediate reductions.\<close>

lemma baby_jub_add_form:
  assumes "(x1, y1) \<noteq> (0, 1)" "(x2, y2) \<noteq> (0, 1)" and t: "t = BJJ_D * (x1 * x2) * (y1 * y2)"
  shows "baby_jub_add (x1, y1) (x2, y2) =
    (((x1 * y2 + y1 * x2) mod BJJ_P * sol_mod_inv ((1 + t) mod BJJ_P) BJJ_P) mod BJJ_P,
     ((y1 * y2 - BJJ_A * (x1 * x2)) mod BJJ_P * sol_mod_inv ((1 - t) mod BJJ_P) BJJ_P) mod BJJ_P)"
proof -
  have c: "(168696 :: int) = BJJ_D" "(168700 :: int) = BJJ_A"
    "(21888242871839275222246405745257275088548364400416034343698204186575808495617 :: int) = BJJ_P"
    by (simp_all add: BJJ_D_def BJJ_A_def BJJ_P_def)
  have e1: "(y1 * y2 mod BJJ_P + (BJJ_P - BJJ_A * (x1 * x2 mod BJJ_P) mod BJJ_P)) mod BJJ_P = (y1 * y2 - BJJ_A * (x1 * x2)) mod BJJ_P"
    by (simp only: mod_mult_right_eq mod_sub_form)
  have e2: "BJJ_D * (x1 * x2 mod BJJ_P) mod BJJ_P * (y1 * y2 mod BJJ_P) mod BJJ_P = t mod BJJ_P"
    unfolding t by (simp only: mod_mult_right_eq mod_mult_left_eq)
  have e3: "(1 + (BJJ_P - t mod BJJ_P)) mod BJJ_P = (1 - t) mod BJJ_P"
    using mod_sub_form [of 1 BJJ_P t] by simp
  have e4: "(1 + t mod BJJ_P) mod BJJ_P = (1 + t) mod BJJ_P" by (rule mod_add_right_eq)
  have e5: "(x1 * y2 mod BJJ_P + y1 * x2 mod BJJ_P) mod BJJ_P = (x1 * y2 + y1 * x2) mod BJJ_P" by (rule mod_add_eq)
  have n: "\<not> (x1 = 0 \<and> y1 = 1)" "\<not> (x2 = 0 \<and> y2 = 1)" using assms(1,2) by simp_all
  show ?thesis
    unfolding baby_jub_add_def prod.case Let_def c e1 e2 e3 e4 e5 if_not_P [OF n(1)] if_not_P [OF n(2)] by (rule refl)
qed



end
