(* ===== verification/Bytes.thy ===== *)
theory Bytes
  imports Json
begin

text \<open>
  The encodings of Node's \<open>Buffer\<close> that the backend uses: \<open>hex\<close>, \<open>base64\<close> and \<open>base64url\<close>. A buffer is a
  string whose characters are its bytes. The decoders are as lenient as Node's: \<open>hex\<close> stops at the first pair
  that is not hexadecimal, the base64 decoder takes both alphabets, skips other characters, stops at the first
  \<open>=\<close> and drops left-over bits. Proved are the round trips.
\<close>

section \<open>Hexadecimal\<close>

definition to_hex :: "string \<Rightarrow> string" where
  "to_hex b = concat (map (\<lambda>c. [hex_digit (code c div 16), hex_digit (code c mod 16)]) b)"

fun from_hex :: "string \<Rightarrow> string" where
  "from_hex (a # b # s) =
     (if is_hex a \<and> is_hex b then char_of (16 * hex_val a + hex_val b) # from_hex s else [])"
| "from_hex s = []"

lemma is_hex_digit: "d < 16 \<Longrightarrow> is_hex (hex_digit d)"
  using code_hex_digit [of d] by (auto simp: is_hex_def is_digit_def)

theorem hex_roundtrip [simp]: "from_hex (to_hex b @ s) = b @ from_hex s"
  unfolding to_hex_def
  by (induction b) (simp_all add: hex_digit_ok is_hex_digit code_def less_mult_imp_div_less)

lemma hex_roundtrip' [simp]: "from_hex (to_hex b) = b"
  using hex_roundtrip [of b "[]"] by simp

lemma length_to_hex: "length (to_hex b) = 2 * length b"
  by (induction b) (simp_all add: to_hex_def)

lemma to_hex_inj: "to_hex a = to_hex b \<longleftrightarrow> a = b"
  by (metis hex_roundtrip')

section \<open>Base64\<close>

text \<open>The digits are \<open>A-Z\<close>, \<open>a-z\<close>, \<open>0-9\<close>, \<open>+\<close> and \<open>/\<close>.\<close>

definition b64_char :: "nat \<Rightarrow> char" where
  "b64_char n =
     char_of (if n < 26 then n + 65 else if n < 52 then n + 71 else if n < 62 then n - 4 else if n = 62 then 43 else 47)"

definition b64_val :: "char \<Rightarrow> nat option" where
  "b64_val c =
     (let n = code c in
      if 65 \<le> n \<and> n \<le> 90 then Some (n - 65)
      else if 97 \<le> n \<and> n \<le> 122 then Some (n - 71)
      else if 48 \<le> n \<and> n \<le> 57 then Some (n + 4)
      else if n = 43 \<or> n = 45 then Some 62
      else if n = 47 \<or> n = 95 then Some 63
      else None)"

fun to_sextets :: "nat list \<Rightarrow> nat list" where
  "to_sextets (x # y # z # r) =
     x div 4 # (x mod 4 * 16 + y div 16) # (y mod 16 * 4 + z div 64) # z mod 64 # to_sextets r"
| "to_sextets [x, y] = [x div 4, x mod 4 * 16 + y div 16, y mod 16 * 4]"
| "to_sextets [x] = [x div 4, x mod 4 * 16]"
| "to_sextets [] = []"

fun from_sextets :: "nat list \<Rightarrow> nat list" where
  "from_sextets (a # b # c # d # r) =
     (a * 4 + b div 16) # (b mod 16 * 16 + c div 4) # (c mod 4 * 64 + d) # from_sextets r"
| "from_sextets [a, b, c] = [a * 4 + b div 16, b mod 16 * 16 + c div 4]"
| "from_sextets [a, b] = [a * 4 + b div 16]"
| "from_sextets _ = []"

definition b64_pad :: "nat \<Rightarrow> string" where
  "b64_pad n = replicate ((3 - n mod 3) mod 3) (CHR ''='')"

definition to_base64 :: "string \<Rightarrow> string" where
  "to_base64 b = map b64_char (to_sextets (map code b)) @ b64_pad (length b)"

text \<open>\<open>base64url\<close> has \<open>-\<close> and \<open>_\<close> for the last two digits and no padding.\<close>

definition to_base64url :: "string \<Rightarrow> string" where
  "to_base64url b =
     map (\<lambda>n. if n = 62 then CHR ''-'' else if n = 63 then CHR ''_'' else b64_char n) (to_sextets (map code b))"

definition from_base64 :: "string \<Rightarrow> string" where
  "from_base64 s =
     map char_of (from_sextets (List.map_filter b64_val (takeWhile (\<lambda>c. c \<noteq> CHR ''='') s)))"

lemma code_equals: "code (CHR ''='') = 61"
  by code_simp

lemma b64_val_char: "n < 64 \<Longrightarrow> b64_val (b64_char n) = Some n \<and> b64_char n \<noteq> CHR ''=''"
proof
  assume n: "n < 64"
  then have c: "code (b64_char n) =
      (if n < 26 then n + 65 else if n < 52 then n + 71 else if n < 62 then n - 4 else if n = 62 then 43 else 47)"
    unfolding b64_char_def by (intro code_char_of) auto
  show "b64_val (b64_char n) = Some n" using n by (auto simp: b64_val_def c Let_def)
  have "code (b64_char n) \<noteq> 61" using n by (auto simp: c)
  then show "b64_char n \<noteq> CHR ''=''" using code_equals by metis
qed

lemma b64_val_url: "b64_val (CHR ''-'') = Some 62" "b64_val (CHR ''_'') = Some 63"
  by code_simp+

lemma sextets_less: "list_all (\<lambda>x. x < 256) xs \<Longrightarrow> list_all (\<lambda>x. x < 64) (to_sextets xs)"
  by (induction xs rule: to_sextets.induct) (auto simp: less_mult_imp_div_less)

lemma sextets_roundtrip: "list_all (\<lambda>x. x < 256) xs \<Longrightarrow> from_sextets (to_sextets xs) = xs"
proof (induction xs rule: to_sextets.induct)
  case (1 x y z r)
  have "(y mod 16 * 4 + z div 64) div 4 = y mod 16" "(y mod 16 * 4 + z div 64) mod 4 = z div 64"
    "(x mod 4 * 16 + y div 16) div 16 = x mod 4" "(x mod 4 * 16 + y div 16) mod 16 = y div 16"
    using 1 by auto
  with 1 show ?case by simp
next
  case (2 x y)
  have "(x mod 4 * 16 + y div 16) div 16 = x mod 4" "(x mod 4 * 16 + y div 16) mod 16 = y div 16"
    using 2 by auto
  with 2 show ?case by simp
qed simp_all

lemma codes_less: "list_all (\<lambda>x. x < 256) (map code b)"
  by (simp add: list_all_iff code_less)

lemma map_char_of_code [simp]: "map (char_of \<circ> code) b = b"
  by (simp add: map_idI)

lemma decode_digits:
  assumes "list_all (\<lambda>x. x < 64) xs" "\<And>n. n < 64 \<Longrightarrow> b64_val (f n) = Some n \<and> f n \<noteq> CHR ''=''"
    and "p = [] \<or> hd p = CHR ''=''"
  shows "List.map_filter b64_val (takeWhile (\<lambda>c. c \<noteq> CHR ''='') (map f xs @ p)) = xs"
  using assms(1)
proof (induction xs)
  case Nil
  from assms(3) show ?case by (cases p) (auto simp: List.map_filter_def)
next
  case (Cons x xs)
  then show ?case using assms(2) [of x] by (simp add: List.map_filter_def)
qed

lemma b64_pad_start: "b64_pad n = [] \<or> hd (b64_pad n) = CHR ''=''"
  unfolding b64_pad_def by (cases "(3 - n mod 3) mod 3") simp_all

theorem base64_roundtrip [simp]: "from_base64 (to_base64 b) = b"
proof -
  have "List.map_filter b64_val (takeWhile (\<lambda>c. c \<noteq> CHR ''='') (to_base64 b)) = to_sextets (map code b)"
    unfolding to_base64_def
    by (rule decode_digits [OF sextets_less [OF codes_less] b64_val_char b64_pad_start])
  then show ?thesis by (simp add: from_base64_def sextets_roundtrip [OF codes_less])
qed

lemma length_sextets: "length xs \<le> length (to_sextets xs)"
  by (induction xs rule: to_sextets.induct) auto

lemma length_base64url: "length b \<le> length (to_base64url b)"
  using length_sextets [of "map code b"] by (simp add: to_base64url_def)

text \<open>No dot occurs in \<open>base64url\<close>, so the parts of a token can be told apart.\<close>

lemma base64url_no_dot: "CHR ''.'' \<notin> set (to_base64url b)"
proof
  assume "CHR ''.'' \<in> set (to_base64url b)"
  then obtain n where n: "n \<in> set (to_sextets (map code b))"
    "CHR ''.'' = (if n = 62 then CHR ''-'' else if n = 63 then CHR ''_'' else b64_char n)"
    by (auto simp: to_base64url_def)
  have "n < 64" using sextets_less [OF codes_less [of b]] n(1) by (simp add: list_all_iff)
  moreover have "b64_val (CHR ''.'') = None" by code_simp
  ultimately show False using n(2) b64_val_char [of n] by (simp split: if_splits)
qed

theorem base64url_roundtrip [simp]: "from_base64 (to_base64url b) = b"
proof -
  let ?f = "\<lambda>n. if n = 62 then CHR ''-'' else if n = 63 then CHR ''_'' else b64_char n"
  have "List.map_filter b64_val (takeWhile (\<lambda>c. c \<noteq> CHR ''='') (map ?f (to_sextets (map code b)) @ [])) = to_sextets (map code b)"
    by (rule decode_digits [OF sextets_less [OF codes_less]]) (auto simp: b64_val_char b64_val_url)
  then show ?thesis by (simp add: from_base64_def to_base64url_def sextets_roundtrip [OF codes_less])
qed

text \<open>A member handed to \<open>Buffer.from\<close>, which takes text only.\<close>

definition text_member :: "string \<Rightarrow> json \<Rightarrow> string result" where
  "text_member k j = (case json_get k j of Some (JStr s) \<Rightarrow> Inr s | _ \<Rightarrow> throw ''The first argument must be of type string'')"

text \<open>A member read into a template.\<close>

definition template :: "json option \<Rightarrow> string" where
  "template v = (case v of None \<Rightarrow> ''undefined'' | Some j \<Rightarrow> js_string j)"

end
