(* ===== verification/Fido2.thy ===== *)
theory Fido2
  imports Http Redis_Store Bytes
begin

text \<open>
  Security keys: \<open>auth/FIDO2Service.ts\<close> and \<open>routes/fido2.ts\<close>. The WebAuthn library (simplewebauthn) is a
  parameter, the record \<open>webauthn\<close>: what it generates (the challenge with the options around it, chosen by a
  seed) and what it answers when asked to verify a response against an expected challenge and, for a login, a
  credential. The TypeScript record types are not checked at run time, so a stored credential is the JSON value
  that Redis holds. Proved are what a successful login means, that a challenge is spent by success only, that a
  login gets the key that was registered, and that a credential id can be taken over.
\<close>

section \<open>Model\<close>

record reg_info =
  ri_id :: string
  ri_public_key :: string
  ri_counter :: int

record webauthn =
  w_reg_options :: "nat \<Rightarrow> string \<Rightarrow> string \<Rightarrow> string list \<Rightarrow> string \<times> json"
  w_auth_options :: "nat \<Rightarrow> string list \<Rightarrow> string \<times> json"
  w_verify_reg :: "json \<Rightarrow> string \<Rightarrow> (bool \<times> reg_info option) result"
  w_verify_auth :: "json \<Rightarrow> string \<Rightarrow> string \<Rightarrow> string \<Rightarrow> int \<Rightarrow> (bool \<times> int) result"

definition CHALLENGE_TTL :: nat where "CHALLENGE_TTL = 300"

definition CK :: "string \<Rightarrow> string" where "CK u = ''fido2:challenge:'' @ u"
definition CR :: "string \<Rightarrow> string" where "CR c = ''fido2:cred:'' @ c"
definition UC :: "string \<Rightarrow> string" where "UC u = ''fido2:user:'' @ u @ '':creds''"

text \<open>A member used as a number.\<close>

definition number_member :: "string \<Rightarrow> json \<Rightarrow> int result" where
  "number_member k j = (case json_get k j of Some (JNum n) \<Rightarrow> Inr n | _ \<Rightarrow> throw ''counter is not a number'')"

definition store_challenge :: "'r redis \<Rightarrow> string \<Rightarrow> string \<Rightarrow> 'r \<Rightarrow> 'r" where
  "store_challenge R u ch s = r_setex R (CK u) CHALLENGE_TTL ch s"

definition get_challenge :: "'r redis \<Rightarrow> string \<Rightarrow> 'r \<Rightarrow> string option" where
  "get_challenge R u s = r_get R (CK u) s"

definition delete_challenge :: "'r redis \<Rightarrow> string \<Rightarrow> 'r \<Rightarrow> 'r" where
  "delete_challenge R u s = r_del R (CK u) s"

definition credential_json :: "string \<Rightarrow> string \<Rightarrow> int \<Rightarrow> string \<Rightarrow> json" where
  "credential_json cid pk n u =
     JObj [(''credentialID'', JStr cid), (''credentialPublicKey'', JStr pk), (''counter'', JNum n), (''userId'', JStr u)]"

definition store_credential :: "'r redis \<Rightarrow> string \<Rightarrow> reg_info \<Rightarrow> 'r \<Rightarrow> 'r" where
  "store_credential R u i s =
     r_sadd R (UC u) (ri_id i)
       (r_set R (CR (ri_id i)) (stringify (credential_json (ri_id i) (to_base64 (ri_public_key i)) (ri_counter i) u)) s)"

definition get_credential :: "'r redis \<Rightarrow> string \<Rightarrow> 'r \<Rightarrow> json option result" where
  "get_credential R cid s =
     (case r_get R (CR cid) s of
        None \<Rightarrow> Inr None
      | Some raw \<Rightarrow> if raw = [] then Inr None
                   else (case json_parse raw of None \<Rightarrow> throw ''SyntaxError'' | Some j \<Rightarrow> Inr (Some j)))"

fun credentials_of :: "'r redis \<Rightarrow> 'r \<Rightarrow> string list \<Rightarrow> json list result" where
  "credentials_of R s [] = Inr []"
| "credentials_of R s (c # cs) =
     bind_result (get_credential R c s) (\<lambda>r. bind_result (credentials_of R s cs) (\<lambda>js.
       Inr (case r of Some j \<Rightarrow> if js_truthy (Some j) then j # js else js | None \<Rightarrow> js)))"

definition get_user_credentials :: "'r redis \<Rightarrow> string \<Rightarrow> 'r \<Rightarrow> json list result" where
  "get_user_credentials R u s = credentials_of R s (r_smembers R (UC u) s)"

text \<open>\<open>stored.counter = n\<close> on a parsed object.\<close>

definition set_member :: "string \<Rightarrow> json \<Rightarrow> (string \<times> json) list \<Rightarrow> (string \<times> json) list" where
  "set_member k v kvs =
     (if k \<in> fst ` set kvs then map (\<lambda>(k', w). (k', if k' = k then v else w)) kvs else kvs @ [(k, v)])"

definition update_counter :: "'r redis \<Rightarrow> string \<Rightarrow> int \<Rightarrow> 'r \<Rightarrow> 'r" where
  "update_counter R cid n s =
     (case r_get R (CR cid) s of
        None \<Rightarrow> s
      | Some raw \<Rightarrow>
          (case json_parse raw of
             Some (JObj kvs) \<Rightarrow> r_set R (CR cid) (stringify (JObj (set_member ''counter'' (JNum n) kvs))) s
           | _ \<Rightarrow> s))"

definition credential_ids :: "json list \<Rightarrow> string list" where
  "credential_ids js = map (\<lambda>j. template (json_get ''credentialID'' j)) js"

definition generate_registration_options ::
  "webauthn \<Rightarrow> 'r redis \<Rightarrow> nat \<Rightarrow> string \<Rightarrow> string \<Rightarrow> 'r \<Rightarrow> json result \<times> 'r" where
  "generate_registration_options W R seed u name s =
     (case get_user_credentials R u s of
        Inl e \<Rightarrow> (Inl e, s)
      | Inr js \<Rightarrow> (case w_reg_options W seed u name (credential_ids js) of
                    (ch, opts) \<Rightarrow> (Inr opts, store_challenge R u ch s)))"

definition verify_registration ::
  "webauthn \<Rightarrow> 'r redis \<Rightarrow> string \<Rightarrow> json \<Rightarrow> 'r \<Rightarrow> string result \<times> 'r" where
  "verify_registration W R u resp s =
     (case get_challenge R u s of
        None \<Rightarrow> (throw ''No pending challenge for user'', s)
      | Some ch \<Rightarrow>
          if ch = [] then (throw ''No pending challenge for user'', s)
          else (case w_verify_reg W resp ch of
                  Inl e \<Rightarrow> (Inl e, s)
                | Inr (True, Some i) \<Rightarrow> (Inr (ri_id i), delete_challenge R u (store_credential R u i s))
                | Inr _ \<Rightarrow> (throw ''Registration verification failed'', s)))"

definition generate_authentication_options ::
  "webauthn \<Rightarrow> 'r redis \<Rightarrow> nat \<Rightarrow> string \<Rightarrow> 'r \<Rightarrow> json result \<times> 'r" where
  "generate_authentication_options W R seed u s =
     (case get_user_credentials R u s of
        Inl e \<Rightarrow> (Inl e, s)
      | Inr js \<Rightarrow> (case w_auth_options W seed (credential_ids js) of
                    (ch, opts) \<Rightarrow> (Inr opts, store_challenge R u ch s)))"

definition verify_with ::
  "webauthn \<Rightarrow> json \<Rightarrow> string \<Rightarrow> json \<Rightarrow> (bool \<times> int) result" where
  "verify_with W resp ch cred =
     bind_result (text_member ''credentialID'' cred) (\<lambda>cid.
     bind_result (text_member ''credentialPublicKey'' cred) (\<lambda>pk.
     bind_result (number_member ''counter'' cred) (\<lambda>n. w_verify_auth W resp ch cid (from_base64 pk) n)))"

definition verify_authentication ::
  "webauthn \<Rightarrow> 'r redis \<Rightarrow> string \<Rightarrow> json \<Rightarrow> 'r \<Rightarrow> bool result \<times> 'r" where
  "verify_authentication W R u resp s =
     (case get_challenge R u s of
        None \<Rightarrow> (throw ''No pending challenge for user'', s)
      | Some ch \<Rightarrow>
          if ch = [] then (throw ''No pending challenge for user'', s)
          else (case get_credential R (template (json_get ''id'' resp)) s of
                  Inl e \<Rightarrow> (Inl e, s)
                | Inr None \<Rightarrow> (throw ''Credential not found for user'', s)
                | Inr (Some cred) \<Rightarrow>
                    if \<not> js_truthy (Some cred) \<or> json_get ''userId'' cred \<noteq> Some (JStr u)
                    then (throw ''Credential not found for user'', s)
                    else (case verify_with W resp ch cred of
                            Inl e \<Rightarrow> (Inl e, s)
                          | Inr (ok, n) \<Rightarrow>
                              if \<not> ok then (throw ''Authentication verification failed'', s)
                              else (Inr True,
                                    delete_challenge R u (update_counter R (template (json_get ''id'' resp)) n s)))))"

section \<open>The routes\<close>

text \<open>The argument is what the schema of the route made of the body, \<open>None\<close> when it was rejected.\<close>

definition register_options_route ::
  "webauthn \<Rightarrow> 'r redis \<Rightarrow> nat \<Rightarrow> (string \<times> string) option \<Rightarrow> 'r \<Rightarrow> response \<times> 'r" where
  "register_options_route W R seed parsed s =
     (case parsed of
        None \<Rightarrow> (json_res 400 (error_json ''userId and displayName are required''), s)
      | Some (u, name) \<Rightarrow>
          (case generate_registration_options W R seed u name s of
             (Inl e, s') \<Rightarrow> (json_res 500 (error_json ''Failed to generate registration options''), s')
           | (Inr opts, s') \<Rightarrow> (json_res 200 opts, s')))"

definition register_verify_route ::
  "webauthn \<Rightarrow> 'r redis \<Rightarrow> (string \<times> json) option \<Rightarrow> 'r \<Rightarrow> response \<times> 'r" where
  "register_verify_route W R parsed s =
     (case parsed of
        None \<Rightarrow> (json_res 400 (error_json ''userId and response are required''), s)
      | Some (u, resp) \<Rightarrow>
          (case verify_registration W R u resp s of
             (Inl e, s') \<Rightarrow> (json_res 400 (error_json e), s')
           | (Inr cid, s') \<Rightarrow> (json_res 201 (JObj [(''credentialId'', JStr cid)]), s')))"

definition authenticate_options_route ::
  "webauthn \<Rightarrow> 'r redis \<Rightarrow> nat \<Rightarrow> string option \<Rightarrow> 'r \<Rightarrow> response \<times> 'r" where
  "authenticate_options_route W R seed parsed s =
     (case parsed of
        None \<Rightarrow> (json_res 400 (error_json ''userId is required''), s)
      | Some u \<Rightarrow>
          (case generate_authentication_options W R seed u s of
             (Inl e, s') \<Rightarrow> (json_res 500 (error_json ''Failed to generate authentication options''), s')
           | (Inr opts, s') \<Rightarrow> (json_res 200 opts, s')))"

definition authenticate_verify_route ::
  "webauthn \<Rightarrow> 'r redis \<Rightarrow> (string \<times> json) option \<Rightarrow> 'r \<Rightarrow> response \<times> 'r" where
  "authenticate_verify_route W R parsed s =
     (case parsed of
        None \<Rightarrow> (json_res 400 (error_json ''userId and response are required''), s)
      | Some (u, resp) \<Rightarrow>
          (case verify_authentication W R u resp s of
             (Inl e, s') \<Rightarrow> (json_res 401 (error_json e), s')
           | (Inr ok, s') \<Rightarrow> (json_res 200 (JObj [(''verified'', JBool True)]), s')))"

section \<open>Properties\<close>

lemma fido_keys [simp]:
  "CR a \<noteq> CK b" "CK a \<noteq> CR b" "UC a \<noteq> CK b" "CK a \<noteq> UC b" "UC a \<noteq> CR b" "CR a \<noteq> UC b"
  "CR a = CR a' \<longleftrightarrow> a = a'" "CK b = CK b' \<longleftrightarrow> b = b'"
  by (simp_all add: CR_def CK_def UC_def)

lemma credential_roundtrip:
  "nat \<bar>n\<bar> \<le> max_safe \<Longrightarrow>
     json_parse (stringify (credential_json cid pk n u)) = Some (credential_json cid pk n u)"
  by (rule json_roundtrip(1)) (simp add: credential_json_def)

lemma stringify_credential_not_Nil [simp]: "stringify (credential_json cid pk n u) \<noteq> []"
  by (simp add: stringify_def credential_json_def)

lemma credential_members [simp]:
  "json_get ''credentialID'' (credential_json cid pk n u) = Some (JStr cid)"
  "json_get ''credentialPublicKey'' (credential_json cid pk n u) = Some (JStr pk)"
  "json_get ''counter'' (credential_json cid pk n u) = Some (JNum n)"
  "json_get ''userId'' (credential_json cid pk n u) = Some (JStr u)"
  "js_truthy (Some (credential_json cid pk n u))"
  by (simp_all add: credential_json_def js_truthy_def)

lemma get_stored_credential:
  "r_get R (CR cid) s = Some (stringify (credential_json cid pk n u)) \<Longrightarrow> nat \<bar>n\<bar> \<le> max_safe \<Longrightarrow>
     get_credential R cid s = Inr (Some (credential_json cid pk n u))"
  by (simp add: get_credential_def credential_roundtrip)

text \<open>What a successful registration did.\<close>

lemma verify_registration_Inr:
  assumes "verify_registration W R u resp s = (Inr cid, s')"
  obtains ch i where "get_challenge R u s = Some ch" "ch \<noteq> []" "w_verify_reg W resp ch = Inr (True, Some i)"
    "cid = ri_id i" "s' = delete_challenge R u (store_credential R u i s)"
  using assms
  by (auto simp: verify_registration_def throw_def split: option.splits sum.splits if_splits bool.splits prod.splits)

lemma registered_record:
  assumes "redis_store R" "s' = delete_challenge R u (store_credential R u i s)"
  shows "r_get R (CR (ri_id i)) s' =
    Some (stringify (credential_json (ri_id i) (to_base64 (ri_public_key i)) (ri_counter i) u))"
  using assms by (simp add: delete_challenge_def store_credential_def redis_store.get_del redis_store.get_sadd redis_store.get_set)

text \<open>C26: a login succeeds only when a challenge is pending for the user and the library verified the response against
  that challenge with the key and counter of a stored credential of that very user.\<close>

theorem fido_login_sound:
  assumes "verify_authentication W R u resp s = (Inr ok, s')"
  shows "\<exists>ch raw cred cid pk n n'.
    get_challenge R u s = Some ch \<and> ch \<noteq> [] \<and>
    r_get R (CR (template (json_get ''id'' resp))) s = Some raw \<and> json_parse raw = Some cred \<and>
    json_get ''userId'' cred = Some (JStr u) \<and> json_get ''credentialID'' cred = Some (JStr cid) \<and>
    json_get ''credentialPublicKey'' cred = Some (JStr pk) \<and> json_get ''counter'' cred = Some (JNum n) \<and>
    w_verify_auth W resp ch cid (from_base64 pk) n = Inr (True, n') \<and> ok"
  using assms
  by (auto simp: verify_authentication_def verify_with_def text_member_def number_member_def get_credential_def throw_def
      bind_result_Inr_iff split: option.splits sum.splits if_splits json.splits)

text \<open>A challenge is spent by success only: a successful verification leaves no pending challenge, a failed one
  changes nothing, so the same challenge can be tried again.\<close>

theorem fido_challenge_spent_by_success_only:
  assumes "redis_store R"
  shows "(case verify_authentication W R u resp s of
      (Inl e, s') \<Rightarrow> s' = s | (Inr ok, s') \<Rightarrow> get_challenge R u s' = None) \<and>
    (case verify_registration W R u resp s of
      (Inl e, s') \<Rightarrow> s' = s | (Inr cid, s') \<Rightarrow> get_challenge R u s' = None)"
proof -
  have spent: "get_challenge R u (delete_challenge R u t) = None" for t
    by (simp add: get_challenge_def delete_challenge_def redis_store.get_del [OF assms])
  show ?thesis
    by (auto simp: verify_authentication_def verify_registration_def throw_def spent
        split: option.splits sum.splits if_splits prod.splits bool.splits)
qed

text \<open>A login with a credential that was just registered.\<close>

lemma registered_login:
  assumes "redis_store R"
    and "verify_registration W R u resp s = (Inr (ri_id i), s')"
    and "get_challenge R u s = Some ch" "w_verify_reg W resp ch = Inr (True, Some i)"
    and "nat \<bar>ri_counter i\<bar> \<le> max_safe" "ch' \<noteq> []" "json_get ''id'' resp' = Some (JStr (ri_id i))"
  shows "fst (verify_authentication W R u resp' (store_challenge R u ch' s')) =
    (case w_verify_auth W resp' ch' (ri_id i) (ri_public_key i) (ri_counter i) of
       Inl e \<Rightarrow> Inl e
     | Inr (True, n) \<Rightarrow> Inr True
     | Inr (False, n) \<Rightarrow> Inl ''Authentication verification failed'')"
proof -
  have s': "s' = delete_challenge R u (store_credential R u i s)"
    using assms(2-4) by (auto elim: verify_registration_Inr)
  let ?c = "credential_json (ri_id i) (to_base64 (ri_public_key i)) (ri_counter i) u"
  have "r_get R (CR (ri_id i)) (store_challenge R u ch' s') = Some (stringify ?c)"
    using registered_record [OF assms(1) s'] by (simp add: store_challenge_def redis_store.get_setex [OF assms(1)])
  note cred = get_stored_credential [OF this assms(5)]
  have ch: "get_challenge R u (store_challenge R u ch' s') = Some ch'"
    by (simp add: get_challenge_def store_challenge_def redis_store.get_setex [OF assms(1)])
  show ?thesis
    using assms(6)
    by (simp add: verify_authentication_def ch assms(7) template_def cred verify_with_def text_member_def number_member_def
        throw_def split: sum.split bool.split)
qed

text \<open>The key survives storage: after a registration, a login with the registered credential hands the library the
  very bytes and the counter that the registration returned, and the login's outcome is the library's.\<close>

theorem fido_key_roundtrip:
  assumes "redis_store R"
    and "verify_registration W R u resp s = (Inr (ri_id i), s')"
    and "get_challenge R u s = Some ch" "w_verify_reg W resp ch = Inr (True, Some i)"
    and "nat \<bar>ri_counter i\<bar> \<le> max_safe" "ch' \<noteq> []" "json_get ''id'' resp' = Some (JStr (ri_id i))"
  shows "fst (verify_authentication W R u resp' (store_challenge R u ch' s')) =
    (case w_verify_auth W resp' ch' (ri_id i) (ri_public_key i) (ri_counter i) of
       Inl e \<Rightarrow> Inl e
     | Inr (True, n) \<Rightarrow> Inr True
     | Inr (False, n) \<Rightarrow> Inl ''Authentication verification failed'')"
  by (rule registered_login [OF assms])

text \<open>A credential id belongs to whoever registered it last: after a registration by one user, no response with that
  id logs in another user, whatever the library says and whoever had registered the id before.\<close>

theorem fido_takeover:
  assumes "redis_store R"
    and "verify_registration W R v resp s = (Inr cid, s')" "u \<noteq> v"
    and "\<And>ch i. w_verify_reg W resp ch = Inr (True, Some i) \<Longrightarrow> nat \<bar>ri_counter i\<bar> \<le> max_safe"
    and "json_get ''id'' resp' = Some (JStr cid)"
  shows "\<exists>e. verify_authentication W R u resp' (store_challenge R u ch' s') = (Inl e, store_challenge R u ch' s')"
proof -
  from verify_registration_Inr [OF assms(2)] obtain ch i where
    i: "w_verify_reg W resp ch = Inr (True, Some i)" "cid = ri_id i" "s' = delete_challenge R v (store_credential R v i s)"
    by metis
  let ?c = "credential_json (ri_id i) (to_base64 (ri_public_key i)) (ri_counter i) v"
  have "r_get R (CR (ri_id i)) (store_challenge R u ch' s') = Some (stringify ?c)"
    using registered_record [OF assms(1) i(3)] by (simp add: store_challenge_def redis_store.get_setex [OF assms(1)])
  note cred = get_stored_credential [OF this assms(4) [OF i(1)]]
  show ?thesis
    using assms(3,5) by (auto simp: verify_authentication_def template_def i(2) cred throw_def split: option.splits)
qed

section \<open>Witnesses\<close>

definition demo_webauthn :: webauthn where
  "demo_webauthn =
     \<lparr>w_reg_options = (\<lambda>seed u name ids. (''ch'', JNull)),
      w_auth_options = (\<lambda>seed ids. (''ch'', JNull)),
      w_verify_reg = (\<lambda>resp ch. Inr (True, Some \<lparr>ri_id = ''key1'', ri_public_key = ''abcd'', ri_counter = 4\<rparr>)),
      w_verify_auth = (\<lambda>resp ch cid pk n. Inr (pk = ''abcd'' \<and> n = 4, 5))\<rparr>"

abbreviation demo_resp :: json where
  "demo_resp \<equiv> JObj [(''id'', JStr ''key1'')]"

definition demo_registered :: mem where
  "demo_registered = snd (verify_registration demo_webauthn redis_mem ''ann'' JNull
     (store_challenge redis_mem ''ann'' ''ch'' mem_empty))"

lemma demo_registration:
  "verify_registration demo_webauthn redis_mem u JNull (store_challenge redis_mem u ''ch'' s) =
     (Inr ''key1'', delete_challenge redis_mem u (store_credential redis_mem u
        \<lparr>ri_id = ''key1'', ri_public_key = ''abcd'', ri_counter = 4\<rparr> (store_challenge redis_mem u ''ch'' s)))"
  by (simp add: verify_registration_def get_challenge_def store_challenge_def mem_defs demo_webauthn_def)

lemma demo_premises:
  "verify_registration demo_webauthn redis_mem ''ann'' JNull (store_challenge redis_mem ''ann'' ''ch'' mem_empty) =
     (Inr (ri_id \<lparr>ri_id = ''key1'', ri_public_key = ''abcd'', ri_counter = 4\<rparr>), demo_registered)"
  "get_challenge redis_mem ''ann'' (store_challenge redis_mem ''ann'' ''ch'' mem_empty) = Some ''ch''"
  "w_verify_reg demo_webauthn JNull ''ch'' = Inr (True, Some \<lparr>ri_id = ''key1'', ri_public_key = ''abcd'', ri_counter = 4\<rparr>)"
  "nat \<bar>ri_counter \<lparr>ri_id = ''key1'', ri_public_key = ''abcd'', ri_counter = 4\<rparr>\<bar> \<le> max_safe"
  "''c2'' \<noteq> []"
  "json_get ''id'' demo_resp = Some (JStr (ri_id \<lparr>ri_id = ''key1'', ri_public_key = ''abcd'', ri_counter = 4\<rparr>))"
  by (simp_all add: demo_registered_def demo_registration)
    (simp_all add: demo_webauthn_def get_challenge_def store_challenge_def mem_defs max_safe_def)

lemma fido_key_roundtrip_witness:
  "fst (verify_authentication demo_webauthn redis_mem ''ann'' demo_resp
      (store_challenge redis_mem ''ann'' ''c2'' demo_registered)) = Inr True"
proof -
  show ?thesis
    using fido_key_roundtrip [OF mem.redis_store_axioms demo_premises] by (simp add: demo_webauthn_def)
qed

lemma fido_login_sound_witness:
  "\<exists>ch raw cred cid pk n n'.
    get_challenge redis_mem ''ann'' (store_challenge redis_mem ''ann'' ''c2'' demo_registered) = Some ch \<and> ch \<noteq> [] \<and>
    r_get redis_mem (CR (template (json_get ''id'' demo_resp))) (store_challenge redis_mem ''ann'' ''c2'' demo_registered) = Some raw \<and>
    json_parse raw = Some cred \<and>
    json_get ''userId'' cred = Some (JStr ''ann'') \<and> json_get ''credentialID'' cred = Some (JStr cid) \<and>
    json_get ''credentialPublicKey'' cred = Some (JStr pk) \<and> json_get ''counter'' cred = Some (JNum n) \<and>
    w_verify_auth demo_webauthn demo_resp ch cid (from_base64 pk) n = Inr (True, n') \<and> True"
proof (rule fido_login_sound)
  have "fst (verify_authentication demo_webauthn redis_mem ''ann'' demo_resp (store_challenge redis_mem ''ann'' ''c2'' demo_registered)) = Inr True"
    using registered_login [OF mem.redis_store_axioms demo_premises] by (simp add: demo_webauthn_def)
  then show "verify_authentication demo_webauthn redis_mem ''ann'' demo_resp (store_challenge redis_mem ''ann'' ''c2'' demo_registered) =
    (Inr True, snd (verify_authentication demo_webauthn redis_mem ''ann'' demo_resp (store_challenge redis_mem ''ann'' ''c2'' demo_registered)))"
    by (simp add: prod_eq_iff)
qed

lemma fido_challenge_spent_by_success_only_witness:
  "(case verify_authentication demo_webauthn redis_mem ''ann'' JNull (store_challenge redis_mem ''ann'' ''c2'' demo_registered) of
      (Inl e, s') \<Rightarrow> s' = store_challenge redis_mem ''ann'' ''c2'' demo_registered
    | (Inr ok, s') \<Rightarrow> get_challenge redis_mem ''ann'' s' = None) \<and>
   (case verify_registration demo_webauthn redis_mem ''ann'' JNull (store_challenge redis_mem ''ann'' ''c2'' demo_registered) of
      (Inl e, s') \<Rightarrow> s' = store_challenge redis_mem ''ann'' ''c2'' demo_registered
    | (Inr cid, s') \<Rightarrow> get_challenge redis_mem ''ann'' s' = None)"
  by (rule fido_challenge_spent_by_success_only [OF mem.redis_store_axioms])

lemma fido_takeover_witness:
  "\<exists>e. verify_authentication demo_webauthn redis_mem ''ann'' demo_resp
      (store_challenge redis_mem ''ann'' ''c2'' (snd (verify_registration demo_webauthn redis_mem ''bob'' JNull
        (store_challenge redis_mem ''bob'' ''ch'' demo_registered)))) =
    (Inl e, store_challenge redis_mem ''ann'' ''c2'' (snd (verify_registration demo_webauthn redis_mem ''bob'' JNull
        (store_challenge redis_mem ''bob'' ''ch'' demo_registered))))"
  by (rule fido_takeover [OF mem.redis_store_axioms, where v = "''bob''" and cid = "''key1''" and resp = JNull
        and s = "store_challenge redis_mem ''bob'' ''ch'' demo_registered" and W = demo_webauthn])
    (auto simp: demo_registration, auto simp: demo_webauthn_def max_safe_def)

end
