(* ===== verification/Did.thy ===== *)
theory Did
  imports Http Bytes
begin

text \<open>
  Decentralised identifiers: \<open>did/DIDService.ts\<close> and \<open>routes/did.ts\<close>. \<open>ethers.isAddress\<close> and \<open>keccak256\<close> are
  parameters (\<open>solidityPackedKeccak256\<close> of three strings hashes their concatenation); the answer of the registry
  contract is an argument. Proved are the round trip between addresses and identifiers, what the commitment route
  accepts and returns, that it needs no signature, and that neither direction of the promised one-to-one mapping holds.
\<close>

section \<open>Identifiers\<close>

definition to_did :: "(string \<Rightarrow> bool) \<Rightarrow> string \<Rightarrow> string \<Rightarrow> string result" where
  "to_did is_addr network a =
     (if \<not> is_addr a then throw (''Invalid address: '' @ a)
      else Inr (''did:ethr:'' @ network @ '':'' @ to_lower a))"

definition nth_part :: "string list \<Rightarrow> nat \<Rightarrow> string option" where
  "nth_part ps i = (if i < length ps then Some (ps ! i) else None)"

definition from_did :: "(string \<Rightarrow> bool) \<Rightarrow> string \<Rightarrow> string result" where
  "from_did is_addr did =
     (let parts = split_on (CHR '':'') did
      in if nth_part parts 0 \<noteq> Some ''did'' \<or> nth_part parts 1 \<noteq> Some ''ethr''
         then throw (''Unsupported DID method: '' @ did)
         else (case (if length parts = 4 then nth_part parts 3 else nth_part parts 2) of
                 None \<Rightarrow> throw (''Invalid address in DID: '' @ did)
               | Some a \<Rightarrow> if is_addr a then Inr a else throw (''Invalid address in DID: '' @ did)))"

text \<open>The document; the block of the last change is fetched, with an error read as \<open>0\<close>, and not used.\<close>

definition did_document :: "string \<Rightarrow> string \<Rightarrow> json" where
  "did_document did a =
     JObj [(''@context'', JArr [JStr ''https://www.w3.org/ns/did/v1'',
                               JStr ''https://w3id.org/security/suites/secp256k1-2019/v1'']),
           (''id'', JStr did),
           (''verificationMethod'', JArr [JObj [
              (''id'', JStr (did @ ''#controller'')), (''type'', JStr ''EcdsaSecp256k1RecoveryMethod2020''),
              (''controller'', JStr did), (''blockchainAccountId'', JStr (''eip155:1:'' @ a))]]),
           (''authentication'', JArr [JStr (did @ ''#controller'')]),
           (''assertionMethod'', JArr [JStr (did @ ''#controller'')])]"

definition resolve_did :: "(string \<Rightarrow> bool) \<Rightarrow> nat result \<Rightarrow> string \<Rightarrow> json result" where
  "resolve_did is_addr changed did =
     bind_result (from_did is_addr did)
       (\<lambda>a. let lastChanged = (case changed of Inl e \<Rightarrow> 0 | Inr n \<Rightarrow> n) in Inr (did_document did a))"

section \<open>Commitments\<close>

definition derive_identity_commitment :: "(string \<Rightarrow> string) \<Rightarrow> string \<Rightarrow> string \<Rightarrow> string \<Rightarrow> string" where
  "derive_identity_commitment kec did country salt = kec (did @ country @ salt)"

record verified_credential =
  issuerDID :: "json option"
  subjectDID :: "json option"
  vc_countryCode :: "json option"
  issuanceDate :: "json option"
  expirationDate :: "json option"
  isValid :: bool

text \<open>\<open>payload.vc?.credentialSubject?.countryCode\<close>\<close>

definition optional_member :: "string \<Rightarrow> json option \<Rightarrow> json option" where
  "optional_member k v = (if nullish v then None else json_get k (the v))"

definition verify_credential :: "string \<Rightarrow> verified_credential result" where
  "verify_credential jwt =
     (case split_on (CHR ''.'') jwt of
        h # p # sig # rest \<Rightarrow>
          if h = [] \<or> p = [] \<or> sig = [] then throw ''Invalid JWT format''
          else (case json_parse (from_base64 p) of
                  None \<Rightarrow> throw ''SyntaxError''
                | Some JNull \<Rightarrow> throw ''TypeError''
                | Some j \<Rightarrow> Inr
                    \<lparr>issuerDID = json_get ''iss'' j, subjectDID = json_get ''sub'' j,
                     vc_countryCode = optional_member ''countryCode'' (optional_member ''credentialSubject'' (json_get ''vc'' j)),
                     issuanceDate = json_get ''iat'' j, expirationDate = json_get ''exp'' j, isValid = True\<rparr>)
      | _ \<Rightarrow> throw ''Invalid JWT format'')"

section \<open>The routes\<close>

definition resolve_schema :: "string \<Rightarrow> bool" where
  "resolve_schema did =
     (case split_on (CHR '':'') did of
        [m, e, n, a] \<Rightarrow> m = ''did'' \<and> e = ''ethr'' \<and> n \<noteq> [] \<and> list_all (\<lambda>c. is_lower c \<or> is_digit c) n \<and>
          take 2 a = ''0x'' \<and> length a = 42 \<and> list_all is_hex (drop 2 a)
      | _ \<Rightarrow> False)"

text \<open>\<open>issues\<close> are the schema's complaints about rejected data.\<close>

definition resolve_route ::
  "(string \<Rightarrow> bool) \<Rightarrow> nat result \<Rightarrow> (string \<Rightarrow> issue list) \<Rightarrow> string \<Rightarrow> response result" where
  "resolve_route is_addr changed issues raw =
     fst (validate_request (\<lambda>d. if resolve_schema d then Inr d else Inl (issues d))
       (\<lambda>did u. (bind_result (resolve_did is_addr changed did) (\<lambda>d. Inr (json_res 200 d)), u)) raw ())"

record vc_request =
  vc_jwt :: string
  vc_country :: string
  vc_salt :: string

definition vc_schema :: "vc_request \<Rightarrow> vc_request option" where
  "vc_schema r =
     (if 10 \<le> length (vc_jwt r) \<and> length (vc_country r) = 2 \<and> 16 \<le> length (vc_salt r)
      then Some (r\<lparr>vc_country := to_upper (vc_country r)\<rparr>) else None)"

definition commitment_handler :: "(string \<Rightarrow> string) \<Rightarrow> vc_request \<Rightarrow> response result" where
  "commitment_handler kec r =
     bind_result (verify_credential (vc_jwt r)) (\<lambda>vc.
       if \<not> isValid vc then Inr (json_res 400 (error_json ''Invalid verifiable credential''))
       else if vc_countryCode vc \<noteq> Some (JStr (vc_country r))
       then Inr (json_res 400 (error_json ''Credential country mismatch''))
       else (case subjectDID vc of
               Some (JStr did) \<Rightarrow>
                 Inr (json_res 200 (JObj [(''commitment'',
                   JStr (derive_identity_commitment kec did (vc_country r) (vc_salt r)))]))
             | _ \<Rightarrow> throw ''invalid string value''))"

definition commitment_route ::
  "(string \<Rightarrow> string) \<Rightarrow> (vc_request \<Rightarrow> issue list) \<Rightarrow> vc_request \<Rightarrow> response result" where
  "commitment_route kec issues raw =
     fst (validate_request (\<lambda>r. case vc_schema r of None \<Rightarrow> Inl (issues r) | Some x \<Rightarrow> Inr x)
       (\<lambda>r u. (commitment_handler kec r, u)) raw ())"

section \<open>Properties\<close>

text \<open>An identifier gives back the address it was made from, in lower case, for every network name without a colon.\<close>

theorem did_roundtrip:
  assumes "to_did is_addr network a = Inr did" "CHR '':'' \<notin> set network"
    and "\<And>a. is_addr a \<Longrightarrow> is_addr (to_lower a)" "\<And>a. is_addr a \<Longrightarrow> CHR '':'' \<notin> set a"
  shows "from_did is_addr did = Inr (to_lower a)"
proof -
  have a: "is_addr a" and did: "did = ''did'' @ CHR '':'' # ''ethr'' @ CHR '':'' # network @ CHR '':'' # to_lower a"
    using assms(1) by (simp_all add: to_did_def throw_def split: if_splits)
  have "split_on (CHR '':'') did = [''did'', ''ethr'', network, to_lower a]"
    unfolding did using assms(2) assms(4) [OF assms(3) [OF a]] by (simp add: split_on_append split_on_no_sep)
  with assms(3) [OF a] show ?thesis by (simp add: from_did_def nth_part_def Let_def)
qed

text \<open>The commitment route returns a commitment exactly for a credential of three parts whose payload names a
  subject and the requested country; it is the hash of subject, country and salt.\<close>

theorem commitment_outcome:
  "(\<exists>c. commitment_route kec issues raw = Inr (json_res 200 (JObj [(''commitment'', JStr c)]))) \<longleftrightarrow>
   (\<exists>r h p sig rest j did.
      vc_schema raw = Some r \<and> split_on (CHR ''.'') (vc_jwt r) = h # p # sig # rest \<and> h \<noteq> [] \<and> p \<noteq> [] \<and> sig \<noteq> [] \<and>
      json_parse (from_base64 p) = Some j \<and> json_get ''sub'' j = Some (JStr did) \<and>
      optional_member ''countryCode'' (optional_member ''credentialSubject'' (json_get ''vc'' j)) = Some (JStr (vc_country r)) \<and>
      commitment_route kec issues raw =
        Inr (json_res 200 (JObj [(''commitment'', JStr (kec (did @ vc_country r @ vc_salt r)))])))"
  (is "?l \<longleftrightarrow> ?r")
proof
  assume ?r
  then show ?l by blast
next
  assume ?l
  then show ?r
    by (auto simp: commitment_route_def validate_request_def commitment_handler_def issues_json_def verify_credential_def derive_identity_commitment_def throw_def json_res_def error_json_def
        split: option.splits list.splits if_splits json.splits)
qed

text \<open>No signature is needed: whatever the first and the third part of the token are, the route returns the
  commitment for the subject and country that the caller put into the payload.\<close>

theorem commitment_unsigned:
  assumes "h \<noteq> []" "sig \<noteq> []" "CHR ''.'' \<notin> set h" "CHR ''.'' \<notin> set sig"
    and "length cc = 2" "16 \<le> length salt" "to_upper cc = cc"
  shows "commitment_route kec issues
      \<lparr>vc_jwt = h @ CHR ''.'' # to_base64url (stringify (JObj [(''sub'', JStr did),
          (''vc'', JObj [(''credentialSubject'', JObj [(''countryCode'', JStr cc)])])])) @ CHR ''.'' # sig,
       vc_country = cc, vc_salt = salt\<rparr> =
    Inr (json_res 200 (JObj [(''commitment'', JStr (kec (did @ cc @ salt)))]))"
proof -
  let ?j = "JObj [(''sub'', JStr did), (''vc'', JObj [(''credentialSubject'', JObj [(''countryCode'', JStr cc)])])]"
  let ?p = "to_base64url (stringify ?j)"
  have "10 \<le> length (stringify ?j)" by (simp add: stringify_def json_quote_def)
  then have p: "CHR ''.'' \<notin> set ?p" "10 \<le> length ?p"
    using length_base64url [of "stringify ?j"] by (simp_all add: base64url_no_dot)
  have "split_on (CHR ''.'') (h @ CHR ''.'' # ?p @ CHR ''.'' # sig) = [h, ?p, sig]"
    using assms p by (simp add: split_on_append split_on_no_sep)
  moreover have "?p \<noteq> []" using p by auto
  moreover have "json_parse (stringify ?j) = Some ?j" by (rule json_roundtrip(1)) simp
  ultimately show ?thesis
    using assms p by (simp add: commitment_route_def validate_request_def commitment_handler_def vc_schema_def verify_credential_def optional_member_def nullish_def
        derive_identity_commitment_def)
qed

text \<open>The commitment is no one-to-one image of the identifier: one identifier has a different commitment for every
  salt, and moving the boundary between the parts gives a different identifier with the same commitment.\<close>

theorem commitment_not_one_to_one:
  assumes "\<And>x y. kec x = kec y \<Longrightarrow> x = y"
  shows "inj (derive_identity_commitment kec did cc) \<and>
    derive_identity_commitment kec did cc (c1 # c2 # salt) = derive_identity_commitment kec (did @ cc) [c1, c2] salt"
  by (auto simp: derive_identity_commitment_def inj_def dest: assms)

section \<open>Witnesses\<close>

lemma did_roundtrip_witness:
  "from_did (\<lambda>a. a \<in> {''0xAB12'', ''0xab12''}) ''did:ethr:sepolia:0xab12'' = Inr (to_lower ''0xAB12'')"
proof (rule did_roundtrip [where network = "''sepolia''"])
  have low: "to_lower ''0xAB12'' = ''0xab12''" "to_lower ''0xab12'' = ''0xab12''" by code_simp+
  show "to_did (\<lambda>a. a \<in> {''0xAB12'', ''0xab12''}) ''sepolia'' ''0xAB12'' = Inr ''did:ethr:sepolia:0xab12''"
    by (simp add: to_did_def low)
  show "a \<in> {''0xAB12'', ''0xab12''} \<Longrightarrow> to_lower a \<in> {''0xAB12'', ''0xab12''}" for a by (auto simp: low)
qed auto

lemma commitment_unsigned_witness:
  "commitment_route (\<lambda>x. x) (\<lambda>_. [])
      \<lparr>vc_jwt = ''x'' @ CHR ''.'' # to_base64url (stringify (JObj [(''sub'', JStr ''did:ethr:0x1''),
          (''vc'', JObj [(''credentialSubject'', JObj [(''countryCode'', JStr ''GB'')])])])) @ CHR ''.'' # ''y'',
       vc_country = ''GB'', vc_salt = ''0123456789abcdef''\<rparr> =
    Inr (json_res 200 (JObj [(''commitment'', JStr ((\<lambda>x. x) (''did:ethr:0x1'' @ ''GB'' @ ''0123456789abcdef'')))]))"
  by (rule commitment_unsigned) (simp_all, code_simp)

lemma commitment_not_one_to_one_witness:
  "inj (derive_identity_commitment (\<lambda>x. x) ''did:a'' ''GB'') \<and>
    derive_identity_commitment (\<lambda>x. x) ''did:a'' ''GB'' (CHR ''F'' # CHR ''R'' # ''salt'') =
      derive_identity_commitment (\<lambda>x. x) (''did:a'' @ ''GB'') [CHR ''F'', CHR ''R''] ''salt''"
  by (rule commitment_not_one_to_one)

end
