(* ===== verification/Documents.thy ===== *)
theory Documents
  imports Http Bytes "HOL-Library.List_Lexorder" "HOL-Library.Char_ord"
begin

text \<open>
  Documents on IPFS: \<open>ipfs/IPFSService.ts\<close>, \<open>ipfs/MultiPinService.ts\<close> and \<open>routes/ipfs.ts\<close>. Helia with its
  block store is a parameter, the record \<open>helia\<close>; the locale \<open>helia_store\<close> states that a file that was added can
  be read, chunk by chunk, and stays readable. \<open>helia_mem\<close> is a content-addressed store in memory that satisfies
  it. The locale \<open>document_store\<close> is what the services promise their clients (the audit log, the receipts, the
  gateway manifest, the certificates); both services are instances. The network (\<open>fetch\<close>), SHA-256 and HMAC are
  parameters as well.
\<close>

section \<open>The contract of a document store\<close>

locale document_store =
  fixes put :: "string \<Rightarrow> string \<Rightarrow> 's \<Rightarrow> string result \<times> 's"
    and get :: "string \<Rightarrow> 's \<Rightarrow> string result"
  assumes put_get: "put f c s = (Inr k, s') \<Longrightarrow> get k s' = Inr c"
    and put_keeps: "put f c s = (r, s') \<Longrightarrow> get k s = Inr d \<Longrightarrow> get k s' = Inr d"
begin

primrec put_all :: "(string \<times> string) list \<Rightarrow> 's \<Rightarrow> 's" where
  "put_all [] s = s"
| "put_all (d # ds) s = put_all ds (snd (put (fst d) (snd d) s))"

lemma get_after: "get k s = Inr d \<Longrightarrow> get k (put_all ds s) = Inr d"
  by (induction ds arbitrary: s) (auto intro: put_keeps prod.collapse [symmetric])

lemma put_all_get: "put f c s = (Inr k, s') \<Longrightarrow> get k (put_all ds s') = Inr c"
  by (intro get_after put_get)

text \<open>Two documents under one identifier are the same document.\<close>

lemma put_same_id:
  "put f c s = (Inr k, s') \<Longrightarrow> put g d (put_all ds s') = (Inr k, t) \<Longrightarrow> c = d"
  using put_keeps put_get put_all_get by (metis sum.inject(2))

end

section \<open>Helia\<close>

record 'b helia =
  h_add :: "string \<Rightarrow> string \<Rightarrow> 'b \<Rightarrow> string \<times> 'b"
  h_cat :: "string \<Rightarrow> 'b \<Rightarrow> string list result"

locale helia_store =
  fixes H :: "'b helia"
  assumes add_cat: "h_add H f c b = (k, b') \<Longrightarrow> \<exists>chunks. h_cat H k b' = Inr chunks \<and> concat chunks = c"
    and add_keeps: "h_add H f c b = (k, b') \<Longrightarrow> h_cat H k' b = Inr chunks \<Longrightarrow>
      \<exists>chunks'. h_cat H k' b' = Inr chunks' \<and> concat chunks' = concat chunks"

text \<open>A content-addressed store: the identifier spells the content, the blocks are those that were added.\<close>

definition helia_mem :: "string list helia" where
  "helia_mem =
     \<lparr>h_add = (\<lambda>f c b. (''b'' @ to_hex c, c # b)),
      h_cat = (\<lambda>k b. case find (\<lambda>c. k = ''b'' @ to_hex c) b of
                       None \<Rightarrow> throw ''block not found'' | Some c \<Rightarrow> Inr [take 4 c, drop 4 c])\<rparr>"

lemma find_holds: "find P xs = Some x \<Longrightarrow> P x"
  by (auto simp: find_Some_iff)

interpretation helia_mem: helia_store helia_mem
proof
  fix f c b k b'
  assume "h_add helia_mem f c b = (k, b')"
  then show "\<exists>chunks. h_cat helia_mem k b' = Inr chunks \<and> concat chunks = c"
    by (auto simp: helia_mem_def)
next
  fix f c b k b' k' chunks
  assume "h_add helia_mem f c b = (k, b')" "h_cat helia_mem k' b = Inr chunks"
  then obtain d where d: "find (\<lambda>c. k' = ''b'' @ to_hex c) b = Some d" "chunks = [take 4 d, drop 4 d]" "b' = c # b"
    by (auto simp: helia_mem_def throw_def split: option.splits)
  have k': "k' = ''b'' @ to_hex d" using d(1) by (rule find_holds)
  show "\<exists>chunks'. h_cat helia_mem k' b' = Inr chunks' \<and> concat chunks' = concat chunks"
  proof (cases "k' = ''b'' @ to_hex c")
    case True
    then show ?thesis using d k' by (simp add: helia_mem_def to_hex_inj)
  next
    case False
    then show ?thesis using d by (simp add: helia_mem_def)
  qed
qed

section \<open>Reading chunks into one buffer\<close>

text \<open>\<open>result.set(chunk, offset)\<close>\<close>

definition buffer_set :: "string \<Rightarrow> nat \<Rightarrow> string \<Rightarrow> string" where
  "buffer_set chunk offset buf = take offset buf @ chunk @ drop (offset + length chunk) buf"

fun copy_chunks :: "string list \<Rightarrow> nat \<Rightarrow> string \<Rightarrow> string" where
  "copy_chunks [] offset buf = buf"
| "copy_chunks (c # cs) offset buf = copy_chunks cs (offset + length c) (buffer_set c offset buf)"

definition join_chunks :: "string list \<Rightarrow> string" where
  "join_chunks cs =
     (let total = foldl (\<lambda>sum c. sum + length c) 0 cs in copy_chunks cs 0 (replicate total (CHR 0x00)))"

lemma foldl_length: "foldl (\<lambda>sum c. sum + length c) n cs = n + length (concat cs)"
  by (induction cs arbitrary: n) simp_all

lemma copy_chunks_take:
  "length buf = offset + length (concat cs) \<Longrightarrow> copy_chunks cs offset buf = take offset buf @ concat cs"
proof (induction cs arbitrary: offset buf)
  case (Cons c cs)
  have "length (buffer_set c offset buf) = (offset + length c) + length (concat cs)"
    "take (offset + length c) (buffer_set c offset buf) = take offset buf @ c"
    using Cons.prems by (simp_all add: buffer_set_def min_def)
  then show ?case using Cons.IH [of "buffer_set c offset buf" "offset + length c"] by simp
qed simp

lemma join_chunks_concat: "join_chunks cs = concat cs"
  by (simp add: join_chunks_def Let_def foldl_length copy_chunks_take)

section \<open>IPFSService\<close>

text \<open>The state is the file system over the block store, \<open>None\<close> before \<open>init\<close>.\<close>

definition ipfs_init :: "'b \<Rightarrow> 'b option \<Rightarrow> 'b option" where
  "ipfs_init blockstore s = Some blockstore"

definition pin_document :: "'b helia \<Rightarrow> string \<Rightarrow> string \<Rightarrow> 'b option \<Rightarrow> string result \<times> 'b option" where
  "pin_document H filename content s =
     (case s of
        None \<Rightarrow> (throw ''IPFSService not initialised'', s)
      | Some b \<Rightarrow> (case h_add H filename content b of (cid, b') \<Rightarrow> (Inr cid, Some b')))"

definition get_document :: "'b helia \<Rightarrow> string \<Rightarrow> 'b option \<Rightarrow> string result" where
  "get_document H cid s =
     (case s of
        None \<Rightarrow> throw ''IPFSService not initialised''
      | Some b \<Rightarrow> bind_result (h_cat H cid b) (\<lambda>chunks. Inr (join_chunks chunks)))"

text \<open>\<open>stored.every((byte, i) => byte === content[i])\<close>\<close>

fun every_equal :: "string \<Rightarrow> string \<Rightarrow> bool" where
  "every_equal [] content = True"
| "every_equal (x # xs) (y # ys) = (x = y \<and> every_equal xs ys)"
| "every_equal (x # xs) [] = False"

definition verify_document :: "'b helia \<Rightarrow> string \<Rightarrow> string \<Rightarrow> 'b option \<Rightarrow> bool" where
  "verify_document H cid content s =
     (case get_document H cid s of
        Inl e \<Rightarrow> False
      | Inr stored \<Rightarrow> if length stored \<noteq> length content then False else every_equal stored content)"

lemma every_equal_iff: "length xs = length ys \<Longrightarrow> every_equal xs ys \<longleftrightarrow> xs = ys"
  by (induction xs ys rule: every_equal.induct) auto

lemma verify_document_iff: "verify_document H cid content s \<longleftrightarrow> get_document H cid s = Inr content"
  by (auto simp: verify_document_def every_equal_iff split: sum.splits)

context helia_store
begin

lemma ipfs_put_get: "pin_document H f c s = (Inr k, s') \<Longrightarrow> get_document H k s' = Inr c"
  using add_cat by (fastforce simp: pin_document_def get_document_def throw_def join_chunks_concat
      split: option.splits prod.splits)

lemma ipfs_put_keeps: "pin_document H f c s = (r, s') \<Longrightarrow> get_document H k s = Inr d \<Longrightarrow> get_document H k s' = Inr d"
  using add_keeps by (fastforce simp: pin_document_def get_document_def throw_def join_chunks_concat bind_result_Inr_iff
      split: option.splits prod.splits)

lemma ipfs_document_store: "document_store (pin_document H) (get_document H)"
  by unfold_locales (blast intro: ipfs_put_get ipfs_put_keeps)+

end

sublocale helia_store \<subseteq> ipfs: document_store "pin_document H" "get_document H"
  by (rule ipfs_document_store)

section \<open>The routes\<close>

text \<open>What multer accepts: the file's type is one of the allowed ones; another file is dropped.\<close>

definition allowed_types :: "string list" where
  "allowed_types = [''application/pdf'', ''text/plain'', ''text/markdown'']"

definition file_filter :: "(string \<times> string) option \<Rightarrow> (string \<times> string) option" where
  "file_filter file = (case file of Some (mime, buf) \<Rightarrow> if mime \<in> set allowed_types then Some (mime, buf) else None | None \<Rightarrow> None)"

definition pin_route ::
  "'b helia \<Rightarrow> int \<Rightarrow> string option \<Rightarrow> (string \<times> string) option \<Rightarrow> 'b option \<Rightarrow> response \<times> 'b option" where
  "pin_route H now policy upload s =
     (case policy of
        None \<Rightarrow> (json_res 400 (error_json ''policyId is required''), s)
      | Some p \<Rightarrow>
          if p = [] then (json_res 400 (error_json ''policyId is required''), s)
          else (case file_filter upload of
                  None \<Rightarrow> (json_res 400 (error_json ''file is required (PDF or text, max 10 MB)''), s)
                | Some (mime, buf) \<Rightarrow>
                    (case pin_document H (p @ ''-'' @ int_str now @ ''.'' @ (if mime = ''application/pdf'' then ''pdf'' else ''txt''))
                            buf s of
                       (Inl e, s') \<Rightarrow> (json_res 500 (error_json ''Failed to pin document''), s')
                     | (Inr cid, s') \<Rightarrow> (json_res 201 (JObj [(''cid'', JStr cid), (''policyId'', JStr p)]), s'))))"

text \<open>A document is sent as bytes, with its content type.\<close>

definition is_pdf :: "string \<Rightarrow> bool" where
  "is_pdf content = (take 2 (map code content) = [0x25, 0x50])"

definition document_route :: "'b helia \<Rightarrow> string \<Rightarrow> 'b option \<Rightarrow> response \<times> (string \<times> string) list" where
  "document_route H cid s =
     (if cid = [] then (json_res 400 (error_json ''Invalid CID''), [])
      else (case get_document H cid s of
              Inl e \<Rightarrow> (json_res 404 (error_json ''Document not found''), [])
            | Inr content \<Rightarrow>
                (text_res 200 content,
                 [(''Content-Type'', if is_pdf content then ''application/pdf'' else ''text/plain; charset=utf-8''),
                  (''Cache-Control'', ''public, max-age=31536000, immutable'')])))"

definition verify_route :: "'b helia \<Rightarrow> string \<Rightarrow> string option \<Rightarrow> 'b option \<Rightarrow> response" where
  "verify_route H cid hexContent s =
     (case hexContent of
        None \<Rightarrow> json_res 400 (error_json ''cid param and content query are required'')
      | Some hx \<Rightarrow>
          if cid = [] then json_res 400 (error_json ''cid param and content query are required'')
          else json_res 200 (JObj [(''cid'', JStr cid), (''valid'', JBool (verify_document H cid (from_hex hx) s))]))"

text \<open>A document uploaded through the route can be fetched by the returned identifier and verified against its own
  content, whatever is pinned in between.\<close>

theorem document_roundtrip:
  assumes "helia_store H" "pin_document H f content s = (Inr cid, s')" "cid \<noteq> []"
  shows "fst (document_route H cid (document_store.put_all (pin_document H) ds s')) = text_res 200 content \<and>
    verify_route H cid (Some (to_hex content)) (document_store.put_all (pin_document H) ds s') =
      json_res 200 (JObj [(''cid'', JStr cid), (''valid'', JBool True)])"
proof -
  have "get_document H cid (document_store.put_all (pin_document H) ds s') = Inr content"
    by (rule document_store.put_all_get [OF helia_store.ipfs_document_store [OF assms(1)] assms(2)])
  with assms(3) show ?thesis by (simp add: document_route_def verify_route_def verify_document_iff)
qed

text \<open>The verification route compares what its decoder made of the query: content followed by anything that is not
  hexadecimal still verifies as the document.\<close>

theorem verify_ignores_garbage:
  assumes "get_document H cid s = Inr content" "cid \<noteq> []" "\<not> is_hex g"
  shows "verify_route H cid (Some (to_hex content @ g # tail)) s =
    json_res 200 (JObj [(''cid'', JStr cid), (''valid'', JBool True)])"
proof -
  have "from_hex (g # tail) = []" using assms(3) by (cases tail) simp_all
  then have "from_hex (to_hex content @ g # tail) = content" by simp
  with assms(1,2) show ?thesis by (simp add: verify_route_def verify_document_iff)
qed

lemma document_roundtrip_witness:
  "fst (document_route helia_mem (''b'' @ to_hex ''doc'')
      (document_store.put_all (pin_document helia_mem) [(''b.txt'', ''other'')] (Some [''doc'']))) = text_res 200 ''doc'' \<and>
   verify_route helia_mem (''b'' @ to_hex ''doc'') (Some (to_hex ''doc''))
      (document_store.put_all (pin_document helia_mem) [(''b.txt'', ''other'')] (Some [''doc''])) =
    json_res 200 (JObj [(''cid'', JStr (''b'' @ to_hex ''doc'')), (''valid'', JBool True)])"
  by (rule document_roundtrip [OF helia_mem.helia_store_axioms, where f = "''a.txt''" and s = "Some []"])
    (simp_all add: pin_document_def helia_mem_def)

lemma verify_ignores_garbage_witness:
  "verify_route helia_mem (''b'' @ to_hex ''doc'') (Some (to_hex ''doc'' @ CHR ''z'' # ''zz'')) (Some [''doc'']) =
    json_res 200 (JObj [(''cid'', JStr (''b'' @ to_hex ''doc'')), (''valid'', JBool True)])"
  by (rule verify_ignores_garbage)
    (simp_all add: get_document_def helia_mem_def join_chunks_concat is_hex_def is_digit_def code_def)

end
