(* ===== verification/Multi_Pin.thy ===== *)
theory Multi_Pin
  imports Documents
begin

text \<open>
  Pinning with three providers (\<open>ipfs/MultiPinService.ts\<close>), with the S3 request signature it builds by hand. The
  answers of the network are given by \<open>fetch\<close>, a function of the request; SHA-256 and HMAC-SHA-256 are parameters on
  bytes; \<open>now_iso\<close> is \<open>new Date().toISOString()\<close>. A URL is split into host and path the way \<open>URL\<close> does for the
  URLs the code builds. Proved are when pinning fails and what it returns, that the service is a document store, and
  how the request is dated and signed.
\<close>

section \<open>Requests\<close>

datatype rq_payload = Form_Data "(string \<times> string option \<times> string) list" | Raw_Bytes string

record http_request =
  rq_method :: string
  rq_url :: string
  rq_headers :: "(string \<times> string) list"
  rq_body :: rq_payload

record http_response =
  hr_status :: nat
  hr_text :: string
  hr_headers :: "(string \<times> string) list"

definition hr_ok :: "http_response \<Rightarrow> bool" where
  "hr_ok r \<longleftrightarrow> 200 \<le> hr_status r \<and> hr_status r \<le> 299"

record pin_env =
  pinata_jwt :: "string option"
  web3_token :: "string option"
  filebase_key :: "string option"
  filebase_secret :: "string option"
  filebase_bucket :: "string option"

definition unset :: "string option \<Rightarrow> bool" where
  "unset v \<longleftrightarrow> v = None \<or> v = Some []"

text \<open>\<open>pin_cid\<close> is \<open>None\<close> for \<open>undefined\<close> and \<open>Some JNull\<close> for \<open>null\<close>.\<close>

record pin_result =
  provider :: string
  pin_cid :: "json option"
  pin_error :: "string option"

definition pin_failure :: "string \<Rightarrow> string \<Rightarrow> pin_result" where
  "pin_failure p e = \<lparr>provider = p, pin_cid = Some JNull, pin_error = Some e\<rparr>"

section \<open>The S3 signature\<close>

text \<open>\<open>encodeURIComponent\<close> on the bytes of the name.\<close>

definition uri_unreserved :: "char \<Rightarrow> bool" where
  "uri_unreserved c \<longleftrightarrow> is_lower c \<or> is_upper c \<or> is_digit c \<or> c \<in> set ''-_.!~*()'' \<or> code c = 39"

definition encode_uri_component :: "string \<Rightarrow> string" where
  "encode_uri_component s =
     concat (map (\<lambda>c. if uri_unreserved c then [c]
                      else CHR ''%'' # to_upper [hex_digit (code c div 16), hex_digit (code c mod 16)]) s)"

definition url_host :: "string \<Rightarrow> string" where
  "url_host u = takeWhile (\<lambda>c. c \<noteq> CHR ''/'') (drop 8 u)"

definition url_pathname :: "string \<Rightarrow> string" where
  "url_pathname u = dropWhile (\<lambda>c. c \<noteq> CHR ''/'') (drop 8 u)"

definition date_stamp :: "string \<Rightarrow> string" where
  "date_stamp now_iso = filter (\<lambda>c. c \<noteq> CHR ''-'') (take 10 now_iso)"

definition amz_date :: "string \<Rightarrow> string" where
  "amz_date now_iso = take 15 (filter (\<lambda>c. c \<noteq> CHR '':'' \<and> c \<noteq> CHR ''-'') now_iso) @ ''Z''"

abbreviation newline :: string where "newline \<equiv> [CHR 0x0A]"

record s3_opts =
  s3_method :: string
  s3_url :: string
  s3_payload :: string
  access_key :: string
  secret_key :: string
  s3_region :: string
  s3_service :: string

definition s3_headers :: "(string \<Rightarrow> string) \<Rightarrow> string \<Rightarrow> s3_opts \<Rightarrow> (string \<times> string) list" where
  "s3_headers sha now_iso opts =
     [(''host'', url_host (s3_url opts)), (''x-amz-content-sha256'', to_hex (sha (s3_payload opts))),
      (''x-amz-date'', amz_date now_iso)]"

definition signed_headers :: "(string \<times> string) list \<Rightarrow> string" where
  "signed_headers hs = join '';'' (sort (map fst hs))"

definition canonical_headers :: "(string \<times> string) list \<Rightarrow> string" where
  "canonical_headers hs = concat (map (\<lambda>k. k @ '':'' @ the (map_of hs k) @ newline) (sort (map fst hs)))"

definition canonical_request :: "(string \<Rightarrow> string) \<Rightarrow> string \<Rightarrow> s3_opts \<Rightarrow> string" where
  "canonical_request sha now_iso opts =
     join newline [s3_method opts, url_pathname (s3_url opts), [], canonical_headers (s3_headers sha now_iso opts),
       signed_headers (s3_headers sha now_iso opts), to_hex (sha (s3_payload opts))]"

definition credential_scope :: "string \<Rightarrow> s3_opts \<Rightarrow> string" where
  "credential_scope now_iso opts = date_stamp now_iso @ ''/'' @ s3_region opts @ ''/'' @ s3_service opts @ ''/aws4_request''"

definition string_to_sign :: "(string \<Rightarrow> string) \<Rightarrow> string \<Rightarrow> s3_opts \<Rightarrow> string" where
  "string_to_sign sha now_iso opts =
     join newline [''AWS4-HMAC-SHA256'', amz_date now_iso, credential_scope now_iso opts,
       to_hex (sha (canonical_request sha now_iso opts))]"

definition signing_key :: "(string \<Rightarrow> string \<Rightarrow> string) \<Rightarrow> string \<Rightarrow> s3_opts \<Rightarrow> string" where
  "signing_key hmac now_iso opts =
     hmac (hmac (hmac (hmac (''AWS4'' @ secret_key opts) (date_stamp now_iso)) (s3_region opts)) (s3_service opts)) ''aws4_request''"

definition sign_s3_request ::
  "(string \<Rightarrow> string) \<Rightarrow> (string \<Rightarrow> string \<Rightarrow> string) \<Rightarrow> string \<Rightarrow> s3_opts \<Rightarrow> string \<times> (string \<times> string) list" where
  "sign_s3_request sha hmac now_iso opts =
     (let signature = to_hex (hmac (signing_key hmac now_iso opts) (string_to_sign sha now_iso opts))
      in (signature,
          s3_headers sha now_iso opts @
            [(''Authorization'',
              ''AWS4-HMAC-SHA256 Credential='' @ access_key opts @ ''/'' @ credential_scope now_iso opts @ '', '' @
              ''SignedHeaders='' @ signed_headers (s3_headers sha now_iso opts) @ '', Signature='' @ signature)]))"

section \<open>The providers\<close>

type_synonym fetch = "http_request \<Rightarrow> http_response result"

definition pin_outcome :: "string \<Rightarrow> http_response result \<Rightarrow> (http_response \<Rightarrow> json option result) \<Rightarrow> pin_result" where
  "pin_outcome p answer read =
     (case bind_result answer (\<lambda>res.
              if \<not> hr_ok res then throw (''HTTP '' @ nat_str (hr_status res) @ '': '' @ hr_text res) else read res) of
        Inl e \<Rightarrow> pin_failure p e
      | Inr cid \<Rightarrow> \<lparr>provider = p, pin_cid = cid, pin_error = None\<rparr>)"

definition json_member :: "string \<Rightarrow> http_response \<Rightarrow> json option result" where
  "json_member k res = (case json_parse (hr_text res) of
                          None \<Rightarrow> throw ''SyntaxError''
                        | Some j \<Rightarrow> if j = JNull then throw ''TypeError'' else Inr (json_get k j))"

definition pin_to_pinata :: "pin_env \<Rightarrow> fetch \<Rightarrow> string \<Rightarrow> string \<Rightarrow> pin_result" where
  "pin_to_pinata env fetch content filename =
     (if unset (pinata_jwt env) then pin_failure ''pinata'' ''PINATA_JWT not set''
      else pin_outcome ''pinata''
        (fetch \<lparr>rq_method = ''POST'', rq_url = ''https://api.pinata.cloud/pinning/pinFileToIPFS'',
                rq_headers = [(''Authorization'', ''Bearer '' @ the (pinata_jwt env))],
                rq_body = Form_Data [(''file'', Some filename, content),
                                     (''pinataOptions'', None, stringify (JObj [(''cidVersion'', JNum 1)]))]\<rparr>)
        (json_member ''IpfsHash''))"

definition pin_to_web3_storage :: "pin_env \<Rightarrow> fetch \<Rightarrow> string \<Rightarrow> string \<Rightarrow> pin_result" where
  "pin_to_web3_storage env fetch content filename =
     (if unset (web3_token env) then pin_failure ''web3storage'' ''WEB3_STORAGE_TOKEN not set''
      else pin_outcome ''web3storage''
        (fetch \<lparr>rq_method = ''POST'', rq_url = ''https://api.web3.storage/upload'',
                rq_headers = [(''Authorization'', ''Bearer '' @ the (web3_token env))],
                rq_body = Form_Data [(''file'', Some filename, content)]\<rparr>)
        (json_member ''cid''))"

definition filebase_url :: "pin_env \<Rightarrow> string \<Rightarrow> string" where
  "filebase_url env filename =
     ''https://s3.filebase.com/'' @ (case filebase_bucket env of None \<Rightarrow> ''thevoteapp-ipfs'' | Some b \<Rightarrow> b) @ ''/'' @
     encode_uri_component filename"

definition filebase_request ::
  "(string \<Rightarrow> string) \<Rightarrow> (string \<Rightarrow> string \<Rightarrow> string) \<Rightarrow> string \<Rightarrow> pin_env \<Rightarrow> string \<Rightarrow> string \<Rightarrow> http_request" where
  "filebase_request sha hmac now_iso env content filename =
     \<lparr>rq_method = ''PUT'', rq_url = filebase_url env filename,
      rq_headers =
        snd (sign_s3_request sha hmac now_iso
          \<lparr>s3_method = ''PUT'', s3_url = filebase_url env filename, s3_payload = content,
           access_key = the (filebase_key env), secret_key = the (filebase_secret env),
           s3_region = ''us-east-1'', s3_service = ''s3''\<rparr>) @ [(''x-amz-meta-import'', ''car'')],
      rq_body = Raw_Bytes content\<rparr>"

definition pin_to_filebase ::
  "(string \<Rightarrow> string) \<Rightarrow> (string \<Rightarrow> string \<Rightarrow> string) \<Rightarrow> string \<Rightarrow> pin_env \<Rightarrow> fetch \<Rightarrow> string \<Rightarrow> string \<Rightarrow> string \<Rightarrow> pin_result" where
  "pin_to_filebase sha hmac now_iso env fetch content filename cidHint =
     (if unset (filebase_key env) \<or> unset (filebase_secret env) then pin_failure ''filebase'' ''FILEBASE_KEY/SECRET not set''
      else pin_outcome ''filebase'' (fetch (filebase_request sha hmac now_iso env content filename))
        (\<lambda>res. Inr (Some (JStr (case map_of (hr_headers res) ''x-amz-meta-cid'' of None \<Rightarrow> cidHint | Some c \<Rightarrow> c)))))"

section \<open>Pinning to all of them\<close>

definition pin_results ::
  "(string \<Rightarrow> string) \<Rightarrow> (string \<Rightarrow> string \<Rightarrow> string) \<Rightarrow> string \<Rightarrow> pin_env \<Rightarrow> fetch \<Rightarrow> string \<Rightarrow> string \<Rightarrow> string \<Rightarrow> pin_result list" where
  "pin_results sha hmac now_iso env fetch content filename cid =
     [pin_to_pinata env fetch content filename, pin_to_web3_storage env fetch content filename,
      pin_to_filebase sha hmac now_iso env fetch content filename cid]"

definition pinned :: "pin_result \<Rightarrow> bool" where
  "pinned r \<longleftrightarrow> pin_cid r \<noteq> Some JNull"

definition failure_text :: "pin_result list \<Rightarrow> string" where
  "failure_text rs =
     ''All pinning providers failed: '' @
     join ''; '' (map (\<lambda>r. provider r @ '': '' @ (case pin_error r of None \<Rightarrow> ''undefined'' | Some e \<Rightarrow> e)) rs)"

definition multi_pin ::
  "'b helia \<Rightarrow> (string \<Rightarrow> string) \<Rightarrow> (string \<Rightarrow> string \<Rightarrow> string) \<Rightarrow> string \<Rightarrow> pin_env \<Rightarrow> fetch \<Rightarrow> string \<Rightarrow> string \<Rightarrow> 'b option
     \<Rightarrow> string result \<times> 'b option" where
  "multi_pin H sha hmac now_iso env fetch filename content s =
     (case s of
        None \<Rightarrow> (throw ''MultiPinService not initialised'', s)
      | Some b \<Rightarrow>
          (case h_add H filename content b of
             (cid, b') \<Rightarrow>
               (let results = pin_results sha hmac now_iso env fetch content filename cid;
                    succeeded = filter pinned results; failed = filter (\<lambda>r. \<not> pinned r) results
                in if succeeded = [] then (throw (failure_text failed), Some b') else (Inr cid, Some b'))))"

definition multi_get :: "'b helia \<Rightarrow> string \<Rightarrow> 'b option \<Rightarrow> string result" where
  "multi_get H cid s =
     (case s of
        None \<Rightarrow> throw ''MultiPinService not initialised''
      | Some b \<Rightarrow> bind_result (h_cat H cid b) (\<lambda>chunks. Inr (join_chunks chunks)))"

section \<open>Properties\<close>

context helia_store
begin

lemma multi_put_get: "multi_pin H sha hmac now_iso env fetch f c s = (Inr k, s') \<Longrightarrow> multi_get H k s' = Inr c"
  using add_cat by (fastforce simp: multi_pin_def multi_get_def throw_def join_chunks_concat Let_def
      split: option.splits prod.splits if_splits)

lemma multi_put_keeps:
  "multi_pin H sha hmac now_iso env fetch f c s = (r, s') \<Longrightarrow> multi_get H k s = Inr d \<Longrightarrow> multi_get H k s' = Inr d"
  using add_keeps by (fastforce simp: multi_pin_def multi_get_def throw_def join_chunks_concat bind_result_Inr_iff Let_def
      split: option.splits prod.splits if_splits)

lemma multi_document_store: "document_store (multi_pin H sha hmac now_iso env fetch) (multi_get H)"
  by unfold_locales (blast intro: multi_put_get multi_put_keeps)+

end

sublocale helia_store \<subseteq> multi: document_store "multi_pin H sha hmac now_iso env fetch" "multi_get H" for sha hmac now_iso env fetch
  by (rule multi_document_store)

text \<open>A document pinned by the service can be read back under the identifier it returned, after whatever further
  documents were pinned, and two documents with one identifier are equal.\<close>

theorem multi_pin_retrieve:
  assumes "helia_store H" "multi_pin H sha hmac now_iso env fetch f c s = (Inr k, s')"
  shows "multi_get H k (document_store.put_all (multi_pin H sha hmac now_iso env fetch) ds s') = Inr c"
proof -
  from assms(1) have "document_store (multi_pin H sha hmac now_iso env fetch) (multi_get H)"
    by (rule helia_store.multi_document_store)
  from document_store.put_all_get [OF this assms(2)] show ?thesis .
qed

text \<open>Pinning fails exactly when the service is not initialised or all three providers failed; otherwise it returns
  the identifier of the local node, whatever identifiers the providers reported.\<close>

theorem multi_pin_outcome:
  assumes "h_add H filename content b = (cid, b')"
  shows "multi_pin H sha hmac now_iso env fetch filename content (Some b) =
    (if list_ex pinned (pin_results sha hmac now_iso env fetch content filename cid) then Inr cid
     else Inl (failure_text (pin_results sha hmac now_iso env fetch content filename cid)), Some b')"
proof -
  let ?rs = "pin_results sha hmac now_iso env fetch content filename cid"
  have "filter pinned ?rs = [] \<longleftrightarrow> \<not> list_ex pinned ?rs" by (simp add: filter_empty_conv list_ex_iff)
  moreover have "\<not> list_ex pinned ?rs \<Longrightarrow> filter (\<lambda>r. \<not> pinned r) ?rs = ?rs"
    by (simp add: filter_id_conv list_ex_iff)
  ultimately show ?thesis by (auto simp: multi_pin_def assms throw_def Let_def)
qed

text \<open>A provider that answers with success but names no identifier counts as a successful pin: with the other two
  providers not configured, the document is reported as pinned on the strength of an empty object.\<close>

theorem pin_without_identifier:
  assumes "h_add H filename content b = (cid, b')" "\<not> unset (pinata_jwt env)"
    and "\<And>rq. rq_url rq = ''https://api.pinata.cloud/pinning/pinFileToIPFS'' \<Longrightarrow>
      fetch rq = Inr \<lparr>hr_status = 200, hr_text = ''{}'', hr_headers = []\<rparr>"
  shows "multi_pin H sha hmac now_iso env fetch filename content (Some b) = (Inr cid, Some b')"
proof -
  have "json_parse ''{}'' = Some (JObj [])" by code_simp
  then have "pinned (pin_to_pinata env fetch content filename)"
    using assms(2) by (simp add: pin_to_pinata_def assms(3) pin_outcome_def hr_ok_def json_member_def pinned_def)
  then show ?thesis by (simp add: multi_pin_def assms(1) pin_results_def Let_def)
qed

text \<open>The request to the S3 service is dated consistently and signs three headers: for an ISO date the time stamp is
  the basic format and starts with the date of the credential scope; the header \<open>x-amz-meta-import\<close> is sent but not
  among the signed ones.\<close>

theorem s3_request_dates:
  assumes "now_iso = y @ ''-'' @ mo @ ''-'' @ d @ ''T'' @ h @ '':'' @ mi @ '':'' @ se @ ''.'' @ ms @ ''Z''"
    and "length y = 4" "length mo = 2" "length d = 2" "length h = 2" "length mi = 2" "length se = 2"
    and "list_all is_digit (y @ mo @ d @ h @ mi @ se @ ms)"
  shows "date_stamp now_iso = y @ mo @ d \<and> amz_date now_iso = date_stamp now_iso @ ''T'' @ h @ mi @ se @ ''Z'' \<and>
    signed_headers (s3_headers sha now_iso opts) = ''host;x-amz-content-sha256;x-amz-date'' \<and>
    (''x-amz-meta-import'', ''car'') \<in> set (rq_headers (filebase_request sha hmac now_iso env content filename))"
proof -
  have keep: "filter P w = w" if "list_all is_digit w" "\<And>c. is_digit c \<Longrightarrow> P c" for P w
    using that by (auto simp: filter_id_conv list_all_iff)
  have dig: "is_digit c \<Longrightarrow> c \<noteq> CHR ''-'' \<and> c \<noteq> CHR '':''" for c
    by (auto simp: is_digit_def code_def)
  have "take 10 now_iso = y @ ''-'' @ mo @ ''-'' @ d" using assms(1-4) by simp
  then have ds: "date_stamp now_iso = y @ mo @ d"
    using assms(8) dig by (simp add: date_stamp_def keep)
  have "filter (\<lambda>c. c \<noteq> CHR '':'' \<and> c \<noteq> CHR ''-'') now_iso = y @ mo @ d @ ''T'' @ h @ mi @ se @ ''.'' @ ms @ ''Z''"
    using assms(1,8) dig by (simp add: keep)
  then have ad: "amz_date now_iso = y @ mo @ d @ ''T'' @ h @ mi @ se @ ''Z''"
    using assms(2-7) by (simp add: amz_date_def)
  have "signed_headers (s3_headers sha now_iso opts) = join '';'' (sort [''host'', ''x-amz-content-sha256'', ''x-amz-date''])"
    by (simp add: signed_headers_def s3_headers_def)
  also have "\<dots> = ''host;x-amz-content-sha256;x-amz-date''" by code_simp
  finally show ?thesis using ds ad by (simp add: filebase_request_def)
qed

section \<open>Witnesses\<close>

definition demo_env :: pin_env where
  "demo_env = \<lparr>pinata_jwt = Some ''jwt'', web3_token = None, filebase_key = None, filebase_secret = None, filebase_bucket = None\<rparr>"

definition demo_fetch :: fetch where
  "demo_fetch rq = Inr \<lparr>hr_status = 200, hr_text = ''{}'', hr_headers = []\<rparr>"

lemma pin_without_identifier_witness:
  "multi_pin helia_mem (\<lambda>x. x) (\<lambda>k m. m) [] demo_env demo_fetch ''a.txt'' ''doc'' (Some []) =
     (Inr (''b'' @ to_hex ''doc''), Some [''doc''])"
  by (rule pin_without_identifier) (simp_all add: helia_mem_def demo_env_def unset_def demo_fetch_def)

lemma multi_pin_outcome_witness:
  "multi_pin helia_mem (\<lambda>x. x) (\<lambda>k m. m) [] (demo_env\<lparr>pinata_jwt := None\<rparr>) demo_fetch ''a.txt'' ''doc'' (Some []) =
     (Inl (''All pinning providers failed: pinata: PINATA_JWT not set; web3storage: WEB3_STORAGE_TOKEN not set; '' @
        ''filebase: FILEBASE_KEY/SECRET not set''), Some [''doc''])"
proof -
  have "h_add helia_mem ''a.txt'' ''doc'' [] = (''b'' @ to_hex ''doc'', [''doc''])" by (simp add: helia_mem_def)
  from multi_pin_outcome [OF this, of "\<lambda>x. x" "\<lambda>k m. m" "[]" "demo_env\<lparr>pinata_jwt := None\<rparr>" demo_fetch]
  show ?thesis
    by (simp add: pin_results_def pin_to_pinata_def pin_to_web3_storage_def pin_to_filebase_def demo_env_def unset_def
        pin_failure_def pinned_def failure_text_def)
qed

lemma multi_pin_retrieve_witness:
  "multi_get helia_mem (''b'' @ to_hex ''doc'')
     (document_store.put_all (multi_pin helia_mem (\<lambda>x. x) (\<lambda>k m. m) [] demo_env demo_fetch) [(''b.txt'', ''other'')] (Some [''doc'']))
   = Inr ''doc''"
proof (rule multi_pin_retrieve [OF helia_mem.helia_store_axioms])
  have "json_parse ''{}'' = Some (JObj [])" by code_simp
  then show "multi_pin helia_mem (\<lambda>x. x) (\<lambda>k m. m) [] demo_env demo_fetch ''a.txt'' ''doc'' (Some []) =
      (Inr (''b'' @ to_hex ''doc''), Some [''doc''])"
    by (simp add: multi_pin_def helia_mem_def pin_results_def pin_to_pinata_def demo_env_def unset_def demo_fetch_def
        pin_outcome_def hr_ok_def json_member_def pinned_def Let_def)
qed

lemma s3_request_dates_witness:
  "date_stamp ''2026-03-04T05:06:07.089Z'' = ''2026'' @ ''03'' @ ''04'' \<and>
   amz_date ''2026-03-04T05:06:07.089Z'' = date_stamp ''2026-03-04T05:06:07.089Z'' @ ''T'' @ ''05'' @ ''06'' @ ''07'' @ ''Z'' \<and>
   signed_headers (s3_headers (\<lambda>x. x) ''2026-03-04T05:06:07.089Z''
      \<lparr>s3_method = ''PUT'', s3_url = filebase_url demo_env ''a'', s3_payload = ''doc'', access_key = ''k'', secret_key = ''s'',
       s3_region = ''us-east-1'', s3_service = ''s3''\<rparr>) = ''host;x-amz-content-sha256;x-amz-date'' \<and>
   (''x-amz-meta-import'', ''car'') \<in>
     set (rq_headers (filebase_request (\<lambda>x. x) (\<lambda>k m. m) ''2026-03-04T05:06:07.089Z'' demo_env ''doc'' ''a''))"
  by (rule s3_request_dates [where ms = "''089''"]) (simp_all add: is_digit_def code_def)

end
