(* ===== verification/Audit_Log.thy ===== *)
theory Audit_Log
  imports Documents
begin

text \<open>
  Signed documents: the audit log (\<open>services/AuditLogService.ts\<close>, \<open>routes/audit.ts\<close>, the contract
  \<open>contracts/AuditLog.sol\<close>) and the gateway manifest (\<open>gateway/GatewayManifest.ts\<close>). The wallet of ethers is a
  parameter, the record \<open>wallet\<close>; documents go through \<open>IPFSService\<close>. The service's answers from the contract are the
  contract's entries. Proved are that what was recorded verifies, ever after, what a successful verification says and
  what it leaves open, and that the pages of the log list every entry once.
\<close>

section \<open>Signatures\<close>

record wallet =
  w_address :: string
  w_sign :: "string \<Rightarrow> string"
  w_recover :: "string \<Rightarrow> string \<Rightarrow> string result"
  w_hash :: "string \<Rightarrow> string"

text \<open>The members of a parsed value besides \<open>signature\<close>: \<open>const { signature, ...rest } = value\<close>.\<close>

definition rest_members :: "json \<Rightarrow> (string \<times> json) list" where
  "rest_members j =
     (case j of
        JObj kvs \<Rightarrow> filter (\<lambda>kv. fst kv \<noteq> ''signature'') kvs
      | JArr vs \<Rightarrow> zip (map nat_str [0..<length vs]) vs
      | JStr s \<Rightarrow> zip (map nat_str [0..<length s]) (map (\<lambda>c. JStr [c]) s)
      | _ \<Rightarrow> [])"

definition same_address :: "string \<Rightarrow> string \<Rightarrow> bool" where
  "same_address a b \<longleftrightarrow> to_lower a = to_lower b"

text \<open>A document with its signature added at the end, and the check of one.\<close>

definition sign_members :: "wallet \<Rightarrow> (string \<times> json) list \<Rightarrow> json" where
  "sign_members W kvs = JObj (kvs @ [(''signature'', JStr (w_sign W (w_hash W (stringify2 (JObj kvs)))))])"

section \<open>The contract\<close>

record log_entry =
  le_actor :: string
  le_action :: string
  le_cid :: string
  le_time :: nat

type_synonym audit_chain = "log_entry list"

definition add_entry :: "bool \<Rightarrow> string \<Rightarrow> nat \<Rightarrow> string \<Rightarrow> string \<Rightarrow> audit_chain \<Rightarrow> audit_chain result" where
  "add_entry auditor sender now action cid es =
     (if \<not> auditor then throw ''AccessControlUnauthorizedAccount''
      else Inr (es @ [\<lparr>le_actor = sender, le_action = action, le_cid = cid, le_time = now\<rparr>]))"

definition get_entry :: "int \<Rightarrow> audit_chain \<Rightarrow> log_entry result" where
  "get_entry eid es =
     (if eid < 0 then throw ''value out-of-bounds''
      else if nat eid < length es then Inr (es ! nat eid) else throw ''Entry not found'')"

definition entry_count :: "audit_chain \<Rightarrow> nat" where
  "entry_count es = length es"

section \<open>AuditLogService\<close>

definition audit_members :: "string \<Rightarrow> string \<Rightarrow> (string \<times> json) list \<Rightarrow> string \<Rightarrow> (string \<times> json) list" where
  "audit_members action actor payload stamp =
     [(''action'', JStr action), (''actor'', JStr actor), (''payload'', JObj payload), (''timestamp'', JStr stamp)]"

record audit_call =
  ac_action :: string
  ac_actor :: string
  ac_payload :: "(string \<times> json) list"
  ac_stamp :: string
  ac_ms :: int
  ac_block_time :: nat

text \<open>\<open>auditor\<close> says whether the wallet holds the role of the contract.\<close>

definition record_action ::
  "'b helia \<Rightarrow> wallet \<Rightarrow> bool \<Rightarrow> audit_call \<Rightarrow> audit_chain \<times> 'b option \<Rightarrow> string result \<times> audit_chain \<times> 'b option" where
  "record_action H W auditor q st =
     (case st of (es, s) \<Rightarrow>
        (let entry = sign_members W (audit_members (ac_action q) (ac_actor q) (ac_payload q) (ac_stamp q))
         in case pin_document H (''audit-'' @ ac_action q @ ''-'' @ int_str (ac_ms q) @ ''.json'') (stringify2 entry) s of
              (Inl e, s') \<Rightarrow> (Inl e, es, s')
            | (Inr cid, s') \<Rightarrow>
                (case add_entry auditor (w_address W) (ac_block_time q) (ac_action q) cid es of
                   Inl e \<Rightarrow> (Inl e, es, s')
                 | Inr es' \<Rightarrow> (Inr cid, es', s'))))"

definition check_signature :: "wallet \<Rightarrow> json \<Rightarrow> string \<Rightarrow> bool" where
  "check_signature W j signer =
     (case (case json_get ''signature'' j of
              Some (JStr sg) \<Rightarrow> w_recover W (w_hash W (stringify2 (JObj (rest_members j)))) sg
            | v \<Rightarrow> if nullish v then w_recover W (w_hash W (stringify2 (JObj (rest_members j)))) []
                   else throw ''invalid signature'') of
        Inl e \<Rightarrow> False
      | Inr a \<Rightarrow> same_address a signer)"

record verified_entry =
  ve_entry :: json
  ve_valid :: bool
  ve_cid :: string

definition read_entry :: "'b helia \<Rightarrow> wallet \<Rightarrow> string \<Rightarrow> string \<Rightarrow> 'b option \<Rightarrow> verified_entry result" where
  "read_entry H W signer cid s =
     bind_result (get_document H cid s) (\<lambda>raw.
       case json_parse raw of
         None \<Rightarrow> throw ''SyntaxError''
       | Some j \<Rightarrow>
           if j = JNull then throw ''TypeError''
           else Inr \<lparr>ve_entry = j, ve_valid = check_signature W j signer, ve_cid = cid\<rparr>)"

definition verify_entry ::
  "'b helia \<Rightarrow> wallet \<Rightarrow> int \<Rightarrow> audit_chain \<Rightarrow> 'b option \<Rightarrow> verified_entry result" where
  "verify_entry H W eid es s = bind_result (get_entry eid es) (\<lambda>e. read_entry H W (le_actor e) (le_cid e) s)"

section \<open>The routes\<close>

text \<open>\<open>parseInt(s)\<close> without a radix: a prefix \<open>0x\<close> selects base 16.\<close>

definition parse_magnitude :: "string \<Rightarrow> js_num" where
  "parse_magnitude s =
     (if take 2 s = ''0x'' \<or> take 2 s = ''0X''
      then (let ds = takeWhile is_hex (drop 2 s)
            in if ds = [] then None else Some (int (foldl (\<lambda>a c. 16 * a + hex_val c) 0 ds)))
      else parse_digits s)"

definition parse_int_any :: "string \<Rightarrow> js_num" where
  "parse_int_any s =
     (case dropWhile is_space s of
        [] \<Rightarrow> None
      | c # t \<Rightarrow>
          if c = CHR ''-'' then map_option uminus (parse_magnitude t)
          else if c = CHR ''+'' then parse_magnitude t
          else parse_magnitude (c # t))"

text \<open>\<open>Math.max\<close> and \<open>Math.min\<close> with a constant, \<open>NaN\<close> staying \<open>NaN\<close>.\<close>

definition page_number :: "string option \<Rightarrow> js_num" where
  "page_number q = map_option (max 1) (parse_int_any (case q of None \<Rightarrow> ''1'' | Some s \<Rightarrow> s))"

definition page_limit :: "string option \<Rightarrow> js_num" where
  "page_limit q = map_option (min 50) (parse_int_any (case q of None \<Rightarrow> ''20'' | Some s \<Rightarrow> s))"

text \<open>\<open>Array.from({ length: end - start }, (_, i) => start + i).reverse()\<close>\<close>

definition page_ids :: "nat \<Rightarrow> js_num \<Rightarrow> js_num \<Rightarrow> int list" where
  "page_ids count page limit =
     (case (page, limit) of
        (Some p, Some l) \<Rightarrow>
          (let start = max 0 (int count - p * l); stop = max 0 (int count - (p - 1) * l)
           in rev (map (\<lambda>i. start + int i) [0..<nat (stop - start)]))
      | _ \<Rightarrow> [])"

definition entry_json :: "int \<Rightarrow> log_entry \<Rightarrow> json" where
  "entry_json eid e =
     JObj [(''id'', JNum eid), (''actor'', JStr (le_actor e)), (''action'', JStr (le_action e)), (''cid'', JStr (le_cid e)),
           (''timestamp'', JNum (int (le_time e)))]"

definition num_json :: "js_num \<Rightarrow> json" where
  "num_json n = (case n of None \<Rightarrow> JNull | Some i \<Rightarrow> JNum i)"

fun entries_json :: "int list \<Rightarrow> audit_chain \<Rightarrow> json list result" where
  "entries_json [] es = Inr []"
| "entries_json (i # ids) es =
     bind_result (get_entry i es) (\<lambda>e. bind_result (entries_json ids es) (\<lambda>js. Inr (entry_json i e # js)))"

text \<open>\<open>es\<close> is the answer of the contract, an error when the node cannot be reached.\<close>

definition audit_list_route :: "audit_chain result \<Rightarrow> string option \<Rightarrow> string option \<Rightarrow> response" where
  "audit_list_route chain page limit =
     (case bind_result chain (\<lambda>es.
             bind_result (entries_json (page_ids (entry_count es) (page_number page) (page_limit limit)) es)
               (\<lambda>js. Inr (JObj [(''total'', JNum (int (entry_count es))), (''page'', num_json (page_number page)),
                                (''limit'', num_json (page_limit limit)), (''entries'', JArr js)]))) of
        Inl e \<Rightarrow> json_res 500 (error_json e)
      | Inr j \<Rightarrow> json_res 200 j)"

definition audit_verify_route :: "'b helia \<Rightarrow> wallet \<Rightarrow> audit_chain result \<Rightarrow> string \<Rightarrow> 'b option \<Rightarrow> response" where
  "audit_verify_route H W chain eid s =
     (case parse_int_any eid of
        None \<Rightarrow> json_res 400 (error_json ''Invalid ID'')
      | Some i \<Rightarrow>
          (case bind_result chain (\<lambda>es. verify_entry H W i es s) of
             Inl e \<Rightarrow> json_res 404 (error_json e)
           | Inr v \<Rightarrow> json_res 200 (JObj [(''entry'', ve_entry v), (''valid'', JBool (ve_valid v)), (''cid'', JStr (ve_cid v))])))"

section \<open>The gateway manifest\<close>

definition manifest_members :: "string \<Rightarrow> string \<Rightarrow> (string \<times> string) list \<Rightarrow> string \<Rightarrow> (string \<times> json) list" where
  "manifest_members api ws ledgers stamp =
     [(''version'', JNum 1), (''endpoints'', JObj [(''api'', JStr api), (''ws'', JStr ws)]),
      (''chains'', JObj (map (\<lambda>(k, a). (k, JStr a)) ledgers)), (''publishedAt'', JStr stamp)]"

definition publish_manifest ::
  "'b helia \<Rightarrow> wallet \<Rightarrow> string \<Rightarrow> string \<Rightarrow> (string \<times> string) list \<Rightarrow> string \<Rightarrow> 'b option \<Rightarrow> string result \<times> 'b option" where
  "publish_manifest H W api ws ledgers stamp s =
     pin_document H ''gateway-manifest.json'' (stringify2 (sign_members W (manifest_members api ws ledgers stamp))) s"

definition verify_manifest :: "wallet \<Rightarrow> json \<Rightarrow> string \<Rightarrow> bool" where
  "verify_manifest W j expected =
     (if \<not> js_truthy (json_get ''signature'' j) then False else check_signature W j expected)"

section \<open>Properties\<close>

text \<open>The law of a wallet: a message signed by it is recovered to its address.\<close>

definition wallet_ok :: "wallet \<Rightarrow> bool" where
  "wallet_ok W \<longleftrightarrow> (\<forall>h. w_recover W h (w_sign W h) = Inr (w_address W))"

lemma signed_verifies:
  assumes "wallet_ok W" "\<And>v. (''signature'', v) \<notin> set kvs"
  shows "check_signature W (sign_members W kvs) (w_address W)"
proof -
  have "filter (\<lambda>kv. fst kv \<noteq> ''signature'') kvs = kvs"
    unfolding filter_id_conv using assms(2) by (auto intro: ccontr)
  then have "rest_members (sign_members W kvs) = kvs" by (simp add: rest_members_def sign_members_def)
  moreover have "json_get ''signature'' (sign_members W kvs) = Some (JStr (w_sign W (w_hash W (stringify2 (JObj kvs)))))"
    by (simp add: sign_members_def)
  moreover have "w_recover W h (w_sign W h) = Inr (w_address W)" for h using assms(1) by (simp add: wallet_ok_def)
  ultimately show ?thesis by (simp only: check_signature_def option.case json.case sum.case same_address_def)
qed

lemma signed_roundtrip:
  "list_all (\<lambda>kv. json_plain (snd kv)) kvs \<Longrightarrow>
     json_parse (stringify2 (sign_members W kvs)) = Some (sign_members W kvs)"
  by (rule json_roundtrip(2)) (simp add: sign_members_def)

text \<open>A sequence of recorded actions.\<close>

fun record_all ::
  "'b helia \<Rightarrow> wallet \<Rightarrow> bool \<Rightarrow> audit_call list \<Rightarrow> audit_chain \<times> 'b option \<Rightarrow> audit_chain \<times> 'b option" where
  "record_all H W auditor [] st = st"
| "record_all H W auditor (q # qs) st = record_all H W auditor qs (snd (record_action H W auditor q st))"

lemma get_entry_append: "get_entry i es = Inr e \<Longrightarrow> get_entry i (es @ fs) = Inr e"
  by (auto simp: get_entry_def throw_def nth_append split: if_splits)

lemma record_action_keeps:
  assumes H: "helia_store H" and r: "record_action H W auditor q (es, s) = (r, es', s')"
    and e: "get_entry i es = Inr e" and d: "get_document H (le_cid e) s = Inr c"
  shows "get_entry i es' = Inr e \<and> get_document H (le_cid e) s' = Inr c"
proof -
  let ?j = "sign_members W (audit_members (ac_action q) (ac_actor q) (ac_payload q) (ac_stamp q))"
  obtain r1 s1 where p: "pin_document H (''audit-'' @ ac_action q @ ''-'' @ int_str (ac_ms q) @ ''.json'') (stringify2 ?j) s = (r1, s1)"
    by fastforce
  have "get_document H (le_cid e) s1 = Inr c" by (rule helia_store.ipfs_put_keeps [OF H p d])
  with r p e show ?thesis
    by (auto simp: record_action_def Let_def add_entry_def throw_def get_entry_append split: sum.splits if_splits)
qed

lemma record_all_keeps:
  assumes H: "helia_store H" and "get_entry i es = Inr e" "get_document H (le_cid e) s = Inr c"
  shows "get_entry i (fst (record_all H W auditor qs (es, s))) = Inr e \<and>
    get_document H (le_cid e) (snd (record_all H W auditor qs (es, s))) = Inr c"
  using assms(2,3)
proof (induction qs arbitrary: es s)
  case (Cons q qs)
  obtain r es' s' where r: "record_action H W auditor q (es, s) = (r, es', s')" by (rule prod_cases3)
  with record_action_keeps [OF H r Cons.prems] Cons.IH show ?case by simp
qed simp

lemma recorded_verifies:
  assumes "helia_store H" "wallet_ok W" "list_all (\<lambda>kv. json_plain (snd kv)) (ac_payload q)"
    and "record_action H W auditor q (es, s) = (Inr cid, st)"
  shows "verify_entry H W (int (length es)) (fst (record_all H W auditor qs st)) (snd (record_all H W auditor qs st)) =
    Inr \<lparr>ve_entry = sign_members W (audit_members (ac_action q) (ac_actor q) (ac_payload q) (ac_stamp q)),
         ve_valid = True, ve_cid = cid\<rparr>"
proof -
  let ?kvs = "audit_members (ac_action q) (ac_actor q) (ac_payload q) (ac_stamp q)"
  obtain es' s' where st: "st = (es', s')" by fastforce
  obtain e where p: "pin_document H (''audit-'' @ ac_action q @ ''-'' @ int_str (ac_ms q) @ ''.json'')
      (stringify2 (sign_members W ?kvs)) s = (Inr cid, s')"
    and e: "es' = es @ [e]" "le_cid e = cid" "le_actor e = w_address W"
    using assms(4) unfolding st
    by (auto simp: record_action_def Let_def add_entry_def throw_def split: prod.splits sum.splits if_splits)
  have doc: "get_document H (le_cid e) s' = Inr (stringify2 (sign_members W ?kvs))"
    unfolding e(2) by (rule helia_store.ipfs_put_get [OF assms(1) p])
  have ent: "get_entry (int (length es)) es' = Inr e" by (simp add: get_entry_def e(1))
  have "json_parse (stringify2 (sign_members W ?kvs)) = Some (sign_members W ?kvs)"
    using assms(3) by (intro signed_roundtrip) (simp add: audit_members_def)
  moreover have "check_signature W (sign_members W ?kvs) (w_address W)"
    by (rule signed_verifies [OF assms(2)]) (simp add: audit_members_def)
  moreover have "sign_members W ?kvs \<noteq> JNull" by (simp add: sign_members_def)
  ultimately show ?thesis
    using record_all_keeps [OF assms(1) ent doc, of W auditor qs]
    by (simp add: st verify_entry_def read_entry_def e(2,3))
qed

text \<open>An action that was recorded verifies: reading its entry from the chain and its document from IPFS gives back
  the signed entry, valid, under the identifier that recording returned, whatever actions were recorded afterwards.\<close>

theorem audit_roundtrip:
  assumes "helia_store H" "wallet_ok W" "list_all (\<lambda>kv. json_plain (snd kv)) (ac_payload q)"
    and "record_action H W auditor q (es, s) = (Inr cid, st)"
  shows "verify_entry H W (int (length es)) (fst (record_all H W auditor qs st)) (snd (record_all H W auditor qs st)) =
    Inr \<lparr>ve_entry = sign_members W (audit_members (ac_action q) (ac_actor q) (ac_payload q) (ac_stamp q)),
         ve_valid = True, ve_cid = cid\<rparr>"
  by (rule recorded_verifies [OF assms])

text \<open>A manifest that was published verifies against the publisher's address after its round trip through IPFS, and
  a manifest verifies against an address only when its signature recovers to it over the other members.\<close>

theorem manifest_verifies:
  assumes "helia_store H" "wallet_ok W" "publish_manifest H W api ws ledgers stamp s = (Inr cid, s')"
    and "\<And>h. w_sign W h \<noteq> []"
  shows "bind_result (get_document H cid s') (\<lambda>raw. Inr (map_option (\<lambda>j. verify_manifest W j (w_address W)) (json_parse raw)))
      = Inr (Some True) \<and>
    (verify_manifest W j a \<longrightarrow> (\<exists>sg b. json_get ''signature'' j = Some (JStr sg) \<and>
      w_recover W (w_hash W (stringify2 (JObj (rest_members j)))) sg = Inr b \<and> to_lower b = to_lower a))"
proof
  let ?kvs = "manifest_members api ws ledgers stamp"
  have "get_document H cid s' = Inr (stringify2 (sign_members W ?kvs))"
    by (rule helia_store.ipfs_put_get [OF assms(1) assms(3) [unfolded publish_manifest_def]])
  moreover have "json_parse (stringify2 (sign_members W ?kvs)) = Some (sign_members W ?kvs)"
    by (rule signed_roundtrip) (auto simp: manifest_members_def list_all_iff max_safe_def)
  moreover have "check_signature W (sign_members W ?kvs) (w_address W)"
    by (rule signed_verifies [OF assms(2)]) (simp add: manifest_members_def)
  ultimately show "bind_result (get_document H cid s')
      (\<lambda>raw. Inr (map_option (\<lambda>j. verify_manifest W j (w_address W)) (json_parse raw))) = Inr (Some True)"
    using assms(4) by (simp add: verify_manifest_def) (simp add: sign_members_def js_truthy_def)
  show "verify_manifest W j a \<longrightarrow> (\<exists>sg b. json_get ''signature'' j = Some (JStr sg) \<and>
      w_recover W (w_hash W (stringify2 (JObj (rest_members j)))) sg = Inr b \<and> to_lower b = to_lower a)"
    by (auto simp: verify_manifest_def check_signature_def same_address_def js_truthy_def nullish_def throw_def
        split: option.splits json.splits sum.splits if_splits)
qed

text \<open>Verifying an entry compares the signature with the account that wrote to the chain and nothing else: neither
  the action nor the actor that the document names has to agree with the entry on the chain.\<close>

theorem audit_verify_ignores_action:
  assumes "verify_entry H W i es s = Inr v" "i < int (length es)" "0 \<le> i"
  shows "verify_entry H W i (es[nat i := (es ! nat i)\<lparr>le_action := other\<rparr>]) s = Inr v"
  using assms by (simp add: verify_entry_def get_entry_def nat_less_iff)

text \<open>The pages of the log, one after the other, list every entry exactly once, the newest first, for every page size
  from 1 to 50.\<close>

theorem audit_pages:
  assumes "0 < l" "l \<le> 50" "count \<le> n * l"
  shows "concat (map (\<lambda>p. page_ids count (Some (int p)) (Some (int l))) [1..<n + 1]) = rev (map int [0..<count])"
proof -
  have page: "page_ids count (Some (int p)) (Some (int l)) = rev (map int [count - p * l..<count - (p - 1) * l])" if "0 < p" for p
  proof -
    have "max 0 (int count - int p * int l) = int (count - p * l)"
      "max 0 (int count - (int p - 1) * int l) = int (count - (p - 1) * l)"
      using that by (simp_all add: of_nat_diff max_def zdiff_int_split algebra_simps nat_le_iff int_ops(6))
    moreover have "map (\<lambda>i. int b + int i) [0..<nat (int a - int b)] = map int [b..<a]" for a b
    proof (cases "b \<le> a")
      case True
      have "map (\<lambda>i. int b + int i) [0..<nat (int a - int b)] = map int (map (\<lambda>i. i + b) [0..<a - b])"
        by (simp add: nat_minus_as_int add.commute comp_def)
      also have "\<dots> = map int [b..<a]" using True by (simp only: map_add_upt) simp
      finally show ?thesis .
    qed simp
    ultimately show ?thesis by (simp add: page_ids_def Let_def)
  qed
  have "concat (map (\<lambda>p. page_ids count (Some (int p)) (Some (int l))) [1..<k + 1]) = rev (map int [count - k * l..<count])" for k
  proof (induction k)
    case (Suc k)
    have "[count - Suc k * l..<count] = [count - Suc k * l..<count - k * l] @ [count - k * l..<count]"
      using upt_add_eq_append [of "count - Suc k * l" "count - k * l" "count - (count - k * l)"] by simp
    with Suc page [of "Suc k"] show ?case by simp
  qed simp
  from this [of n] assms(3) show ?thesis by simp
qed

section \<open>Witnesses\<close>

definition demo_wallet :: wallet where
  "demo_wallet = \<lparr>w_address = ''0xA'', w_sign = (\<lambda>h. ''sig:'' @ h), w_recover = (\<lambda>h sg. if sg = ''sig:'' @ h then Inr ''0xa'' else throw ''bad''),
     w_hash = (\<lambda>t. t)\<rparr>"

definition demo_wallet_ok :: wallet where
  "demo_wallet_ok = demo_wallet\<lparr>w_recover := (\<lambda>h sg. if sg = ''sig:'' @ h then Inr ''0xA'' else throw ''bad'')\<rparr>"

abbreviation demo_call :: audit_call where
  "demo_call \<equiv> \<lparr>ac_action = ''policy_created'', ac_actor = ''0xA'', ac_payload = [(''id'', JStr ''p1'')],
     ac_stamp = ''2026-01-01T00:00:00.000Z'', ac_ms = 5, ac_block_time = 6\<rparr>"

definition demo_recorded :: "audit_chain \<times> string list option" where
  "demo_recorded = snd (record_action helia_mem demo_wallet_ok True demo_call ([], Some []))"

definition demo_cid :: string where
  "demo_cid = ''b'' @ to_hex (stringify2 (sign_members demo_wallet_ok
     (audit_members ''policy_created'' ''0xA'' [(''id'', JStr ''p1'')] ''2026-01-01T00:00:00.000Z'')))"

lemma demo_record: "record_action helia_mem demo_wallet_ok True demo_call ([], Some []) = (Inr demo_cid, demo_recorded)"
  by (simp add: demo_recorded_def record_action_def pin_document_def helia_mem_def add_entry_def demo_cid_def Let_def)

lemma demo_wallet_law: "wallet_ok demo_wallet_ok"
  by (simp add: wallet_ok_def demo_wallet_ok_def demo_wallet_def)

lemma audit_roundtrip_witness:
  "verify_entry helia_mem demo_wallet_ok 0 (fst (record_all helia_mem demo_wallet_ok True [demo_call] demo_recorded))
      (snd (record_all helia_mem demo_wallet_ok True [demo_call] demo_recorded)) =
    Inr \<lparr>ve_entry = sign_members demo_wallet_ok
           (audit_members ''policy_created'' ''0xA'' [(''id'', JStr ''p1'')] ''2026-01-01T00:00:00.000Z''),
         ve_valid = True, ve_cid = demo_cid\<rparr>"
  using audit_roundtrip [OF helia_mem.helia_store_axioms demo_wallet_law _ demo_record, of "[demo_call]"] by simp

lemma audit_pages_witness:
  "concat (map (\<lambda>p. page_ids 5 (Some (int p)) (Some (int 2))) [1..<3 + 1]) = rev (map int [0..<5])"
  by (rule audit_pages) simp_all

lemma audit_verify_ignores_action_witness:
  "verify_entry helia_mem demo_wallet_ok 0
      ((fst demo_recorded)[nat 0 := (fst demo_recorded ! nat 0)\<lparr>le_action := ''contract_paused''\<rparr>]) (snd demo_recorded) =
    Inr \<lparr>ve_entry = sign_members demo_wallet_ok
           (audit_members ''policy_created'' ''0xA'' [(''id'', JStr ''p1'')] ''2026-01-01T00:00:00.000Z''),
         ve_valid = True, ve_cid = demo_cid\<rparr>"
proof (rule audit_verify_ignores_action)
  show "verify_entry helia_mem demo_wallet_ok 0 (fst demo_recorded) (snd demo_recorded) =
    Inr \<lparr>ve_entry = sign_members demo_wallet_ok
           (audit_members ''policy_created'' ''0xA'' [(''id'', JStr ''p1'')] ''2026-01-01T00:00:00.000Z''),
         ve_valid = True, ve_cid = demo_cid\<rparr>"
    using recorded_verifies [OF helia_mem.helia_store_axioms demo_wallet_law _ demo_record, of "[]"] by simp
  show "0 < int (length (fst demo_recorded))"
    by (simp add: demo_recorded_def record_action_def pin_document_def helia_mem_def add_entry_def Let_def)
qed simp

lemma manifest_verifies_witness:
  "bind_result (get_document helia_mem (''b'' @ to_hex (stringify2 (sign_members demo_wallet_ok (manifest_members ''a'' ''w'' [] ''t''))))
      (snd (publish_manifest helia_mem demo_wallet_ok ''a'' ''w'' [] ''t'' (Some []))))
      (\<lambda>raw. Inr (map_option (\<lambda>j. verify_manifest demo_wallet_ok j (w_address demo_wallet_ok)) (json_parse raw))) = Inr (Some True)"
proof -
  have "publish_manifest helia_mem demo_wallet_ok ''a'' ''w'' [] ''t'' (Some []) =
      (Inr (''b'' @ to_hex (stringify2 (sign_members demo_wallet_ok (manifest_members ''a'' ''w'' [] ''t'')))),
       snd (publish_manifest helia_mem demo_wallet_ok ''a'' ''w'' [] ''t'' (Some [])))"
    by (simp add: publish_manifest_def pin_document_def helia_mem_def)
  moreover have "w_sign demo_wallet_ok h \<noteq> []" for h by (simp add: demo_wallet_ok_def demo_wallet_def)
  ultimately show ?thesis by (rule manifest_verifies [THEN conjunct1, OF helia_mem.helia_store_axioms demo_wallet_law])
qed

end
