(* ===== verification/Country.thy ===== *)
theory Country
  imports Http "HOL-Library.AList" "HOL-Library.Monad_Syntax" "HOL-Library.Multiset"
begin

text \<open>
  The country configurations: \<open>countries/schema.ts\<close>, \<open>countries/index.ts\<close>, \<open>routes/country.ts\<close> and the listing
  routes of \<open>routes/policy.ts\<close>. The directory is a list of file names with their contents in the order of
  \<open>readdirSync\<close>; the URL check of zod and the collation of \<open>localeCompare\<close> are parameters. Proved are that what the
  API serves passes the schema again unchanged, which configuration a code finds, which policies are listed and
  found, and what one broken file does.
\<close>

section \<open>The schema\<close>

record vote_option =
  vo_id :: string
  vo_label :: string
  vo_description :: string

record policy_config =
  pc_id :: string
  pc_title :: string
  pc_description :: string
  pc_category :: string
  pc_document :: "string option"
  pc_deadline :: string
  pc_options :: "vote_option list"

record branding =
  b_primary :: string
  b_secondary :: string
  b_surface :: string
  b_on_primary :: string
  b_dark_status :: bool
  b_portal_name :: string
  b_portal_url :: string
  b_logo_alt :: string
  b_flag_colors :: "string list"
  b_font :: "string option"

record country =
  c_code :: string
  c_alpha3 :: string
  c_name :: string
  c_native :: string
  c_language :: string
  c_languages :: "string list"
  c_rtl :: bool
  c_scheme :: string
  c_flag :: string
  c_region :: string
  c_branding :: branding
  c_policies :: "policy_config list"

text \<open>\<open>z.string()\<close>, \<open>z.boolean()\<close>, \<open>z.string().optional()\<close> and \<open>z.array(s)\<close> as members of an object.\<close>

fun str_of :: "json \<Rightarrow> string option" where
  "str_of (JStr s) = Some s"
| "str_of _ = None"

fun bool_of :: "json \<Rightarrow> bool option" where
  "bool_of (JBool b) = Some b"
| "bool_of _ = None"

fun list_of :: "(json \<Rightarrow> 'a option) \<Rightarrow> json \<Rightarrow> 'a list option" where
  "list_of f (JArr vs) = those (map f vs)"
| "list_of f _ = None"

definition member_as :: "(json \<Rightarrow> 'a option) \<Rightarrow> string \<Rightarrow> json \<Rightarrow> 'a option" where
  "member_as f k j = Option.bind (json_get k j) f"

definition optional_as :: "(json \<Rightarrow> 'a option) \<Rightarrow> string \<Rightarrow> json \<Rightarrow> 'a option option" where
  "optional_as f k j = (case json_get k j of None \<Rightarrow> Some None | Some v \<Rightarrow> map_option Some (f v))"

definition refined :: "('a \<Rightarrow> bool) \<Rightarrow> (json \<Rightarrow> 'a option) \<Rightarrow> json \<Rightarrow> 'a option" where
  "refined P f j = Option.bind (f j) (\<lambda>x. if P x then Some x else None)"

definition hex_colour :: "string \<Rightarrow> bool" where
  "hex_colour s \<longleftrightarrow> length s = 7 \<and> hd s = CHR ''#'' \<and> list_all is_hex (tl s)"

definition CATEGORIES :: "string list" where
  "CATEGORIES = [''healthcare'', ''education'', ''economy'', ''environment'', ''defence'', ''infrastructure'', ''justice'', ''other'']"

definition REGIONS :: "string list" where
  "REGIONS = [''africa'', ''americas'', ''asia'', ''europe'', ''middle-east'', ''oceania'']"

definition vote_option_schema :: "json \<Rightarrow> vote_option option" where
  "vote_option_schema j = do {
     i \<leftarrow> member_as str_of ''id'' j;
     l \<leftarrow> member_as str_of ''label'' j;
     d \<leftarrow> member_as str_of ''description'' j;
     Some \<lparr>vo_id = i, vo_label = l, vo_description = d\<rparr> }"

definition policy_schema :: "json \<Rightarrow> policy_config option" where
  "policy_schema j = do {
     i \<leftarrow> member_as str_of ''id'' j;
     t \<leftarrow> member_as str_of ''title'' j;
     d \<leftarrow> member_as str_of ''description'' j;
     k \<leftarrow> member_as (refined (\<lambda>s. s \<in> set CATEGORIES) str_of) ''category'' j;
     c \<leftarrow> optional_as str_of ''documentIpfsCID'' j;
     e \<leftarrow> member_as str_of ''votingDeadlineISO'' j;
     os \<leftarrow> member_as (list_of vote_option_schema) ''options'' j;
     Some \<lparr>pc_id = i, pc_title = t, pc_description = d, pc_category = k, pc_document = c, pc_deadline = e, pc_options = os\<rparr> }"

definition branding_schema :: "(string \<Rightarrow> bool) \<Rightarrow> json \<Rightarrow> branding option" where
  "branding_schema is_url j = do {
     p \<leftarrow> member_as (refined hex_colour str_of) ''primaryColor'' j;
     s \<leftarrow> member_as (refined hex_colour str_of) ''secondaryColor'' j;
     f \<leftarrow> member_as (refined hex_colour str_of) ''surfaceColor'' j;
     t \<leftarrow> member_as (refined hex_colour str_of) ''onPrimaryColor'' j;
     d \<leftarrow> member_as bool_of ''darkStatusBar'' j;
     n \<leftarrow> member_as str_of ''governmentPortalName'' j;
     u \<leftarrow> member_as (refined is_url str_of) ''governmentPortalURL'' j;
     a \<leftarrow> member_as str_of ''governmentLogoAlt'' j;
     cs \<leftarrow> member_as (list_of str_of) ''flagColors'' j;
     h \<leftarrow> optional_as str_of ''headerFontFamily'' j;
     Some \<lparr>b_primary = p, b_secondary = s, b_surface = f, b_on_primary = t, b_dark_status = d, b_portal_name = n,
           b_portal_url = u, b_logo_alt = a, b_flag_colors = cs, b_font = h\<rparr> }"

text \<open>\<open>length(n).toUpperCase()\<close>: the length is checked, then the text is mapped to upper case.\<close>

definition upper_of_length :: "nat \<Rightarrow> json \<Rightarrow> string option" where
  "upper_of_length n j = map_option to_upper (refined (\<lambda>s. length s = n) str_of j)"

definition country_schema :: "(string \<Rightarrow> bool) \<Rightarrow> json \<Rightarrow> country option" where
  "country_schema is_url j = do {
     c \<leftarrow> member_as (upper_of_length 2) ''code'' j;
     a \<leftarrow> member_as (upper_of_length 3) ''alpha3'' j;
     n \<leftarrow> member_as str_of ''name'' j;
     m \<leftarrow> member_as str_of ''nativeName'' j;
     l \<leftarrow> member_as (refined (\<lambda>s. length s = 2) str_of) ''language'' j;
     ls \<leftarrow> member_as (list_of str_of) ''languages'' j;
     r \<leftarrow> member_as bool_of ''rtl'' j;
     s \<leftarrow> member_as str_of ''identityScheme'' j;
     f \<leftarrow> member_as str_of ''flagEmoji'' j;
     g \<leftarrow> member_as (refined (\<lambda>s. s \<in> set REGIONS) str_of) ''region'' j;
     b \<leftarrow> member_as (branding_schema is_url) ''branding'' j;
     ps \<leftarrow> member_as (list_of policy_schema) ''policies'' j;
     Some \<lparr>c_code = c, c_alpha3 = a, c_name = n, c_native = m, c_language = l, c_languages = ls, c_rtl = r, c_scheme = s,
           c_flag = f, c_region = g, c_branding = b, c_policies = ps\<rparr> }"

text \<open>What \<open>res.json\<close> writes for a parsed value: the keys in the order of the schema, absent ones left out.\<close>

definition optional_json :: "string \<Rightarrow> string option \<Rightarrow> (string \<times> json) list" where
  "optional_json k v = (case v of None \<Rightarrow> [] | Some s \<Rightarrow> [(k, JStr s)])"

definition vote_option_json :: "vote_option \<Rightarrow> json" where
  "vote_option_json x = JObj [(''id'', JStr (vo_id x)), (''label'', JStr (vo_label x)), (''description'', JStr (vo_description x))]"

definition policy_members :: "policy_config \<Rightarrow> (string \<times> json) list" where
  "policy_members p =
     [(''id'', JStr (pc_id p)), (''title'', JStr (pc_title p)), (''description'', JStr (pc_description p)),
      (''category'', JStr (pc_category p))] @ optional_json ''documentIpfsCID'' (pc_document p) @
     [(''votingDeadlineISO'', JStr (pc_deadline p)), (''options'', JArr (map vote_option_json (pc_options p)))]"

definition branding_json :: "branding \<Rightarrow> json" where
  "branding_json b = JObj
     ([(''primaryColor'', JStr (b_primary b)), (''secondaryColor'', JStr (b_secondary b)), (''surfaceColor'', JStr (b_surface b)),
       (''onPrimaryColor'', JStr (b_on_primary b)), (''darkStatusBar'', JBool (b_dark_status b)),
       (''governmentPortalName'', JStr (b_portal_name b)), (''governmentPortalURL'', JStr (b_portal_url b)),
       (''governmentLogoAlt'', JStr (b_logo_alt b)), (''flagColors'', JArr (map JStr (b_flag_colors b)))] @
      optional_json ''headerFontFamily'' (b_font b))"

definition country_json :: "country \<Rightarrow> json" where
  "country_json c = JObj
     [(''code'', JStr (c_code c)), (''alpha3'', JStr (c_alpha3 c)), (''name'', JStr (c_name c)), (''nativeName'', JStr (c_native c)),
      (''language'', JStr (c_language c)), (''languages'', JArr (map JStr (c_languages c))), (''rtl'', JBool (c_rtl c)),
      (''identityScheme'', JStr (c_scheme c)), (''flagEmoji'', JStr (c_flag c)), (''region'', JStr (c_region c)),
      (''branding'', branding_json (c_branding c)), (''policies'', JArr (map (\<lambda>p. JObj (policy_members p)) (c_policies c)))]"

section \<open>The loader\<close>

type_synonym country_map = "(string \<times> country) list"

text \<open>
  The loop over the files, on the map that is already the cache: an invalid configuration is skipped, a file that
  is not JSON ends the loop with an exception and leaves what was loaded so far.
\<close>

fun load_files :: "(string \<Rightarrow> bool) \<Rightarrow> (string \<times> string) list \<Rightarrow> country_map \<Rightarrow> unit result \<times> country_map" where
  "load_files is_url [] m = (Inr (), m)"
| "load_files is_url ((f, s) # fs) m =
     (case json_parse s of
        None \<Rightarrow> (throw ''SyntaxError'', m)
      | Some raw \<Rightarrow>
          (case country_schema is_url raw of
             None \<Rightarrow> load_files is_url fs m
           | Some c \<Rightarrow> load_files is_url fs (AList.update (to_upper (c_code c)) c m)))"

definition config_file :: "string \<Rightarrow> bool" where
  "config_file f \<longleftrightarrow> suffix ''.json'' f \<and> f \<noteq> ''schema.json''"

definition load_all ::
  "(string \<Rightarrow> bool) \<Rightarrow> (string \<times> string) list \<Rightarrow> country_map option \<Rightarrow> country_map result \<times> country_map option" where
  "load_all is_url dir cache =
     (case cache of
        Some m \<Rightarrow> (Inr m, cache)
      | None \<Rightarrow>
          (case load_files is_url (filter (\<lambda>f. config_file (fst f)) dir) [] of
             (Inl e, m) \<Rightarrow> (Inl e, Some m)
           | (Inr _, m) \<Rightarrow> (Inr m, Some m)))"

definition get_country :: "string \<Rightarrow> country_map \<Rightarrow> country option" where
  "get_country cc m = map_of m (to_upper cc)"

text \<open>\<open>Array.prototype.sort\<close> with a comparison function: a stable sort.\<close>

fun insort_cmp :: "('a \<Rightarrow> 'a \<Rightarrow> int) \<Rightarrow> 'a \<Rightarrow> 'a list \<Rightarrow> 'a list" where
  "insort_cmp cmp x [] = [x]"
| "insort_cmp cmp x (y # ys) = (if cmp x y \<le> 0 then x # y # ys else y # insort_cmp cmp x ys)"

definition sort_cmp :: "('a \<Rightarrow> 'a \<Rightarrow> int) \<Rightarrow> 'a list \<Rightarrow> 'a list" where
  "sort_cmp cmp xs = foldr (insort_cmp cmp) xs []"

definition get_all_countries :: "(string \<Rightarrow> string \<Rightarrow> int) \<Rightarrow> country_map \<Rightarrow> country list" where
  "get_all_countries collate m = sort_cmp (\<lambda>a b. collate (c_name a) (c_name b)) (map snd m)"

definition get_countries_by_region :: "(string \<Rightarrow> string \<Rightarrow> int) \<Rightarrow> string \<Rightarrow> country_map \<Rightarrow> country list" where
  "get_countries_by_region collate g m = filter (\<lambda>c. c_region c = g) (get_all_countries collate m)"

section \<open>The routes\<close>

text \<open>A route runs on the loaded map; an exception of the loader goes to the error handler.\<close>

definition with_countries ::
  "(string \<Rightarrow> bool) \<Rightarrow> (string \<times> string) list \<Rightarrow> (country_map \<Rightarrow> response) \<Rightarrow> country_map option \<Rightarrow> response \<times> country_map option" where
  "with_countries is_url dir h cache =
     (case load_all is_url dir cache of (r, cache') \<Rightarrow> (finish (bind_result r (\<lambda>m. Inr (h m))), cache'))"

definition countries_handler :: "(string \<Rightarrow> string \<Rightarrow> int) \<Rightarrow> country_map \<Rightarrow> response" where
  "countries_handler collate m = json_res 200 (JArr (map country_json (get_all_countries collate m)))"

definition country_handler :: "string \<Rightarrow> country_map \<Rightarrow> response" where
  "country_handler cc m =
     (case get_country cc m of
        None \<Rightarrow> json_res 404 (error_json ''Country not found'')
      | Some c \<Rightarrow> json_res 200 (country_json c))"

text \<open>\<open>allPolicies()\<close>: every policy with the code of its country.\<close>

definition all_policies :: "(string \<Rightarrow> string \<Rightarrow> int) \<Rightarrow> country_map \<Rightarrow> (policy_config \<times> string) list" where
  "all_policies collate m = concat (map (\<lambda>c. map (\<lambda>p. (p, c_code c)) (c_policies c)) (get_all_countries collate m))"

definition listed_policy_json :: "policy_config \<times> string \<Rightarrow> json" where
  "listed_policy_json = (\<lambda>(p, cc). JObj (policy_members p @ [(''countryCode'', JStr cc)]))"

text \<open>The query parameter is \<open>None\<close> when it is absent or no text; the empty text counts as absent.\<close>

definition policies_handler :: "(string \<Rightarrow> string \<Rightarrow> int) \<Rightarrow> string option \<Rightarrow> country_map \<Rightarrow> response" where
  "policies_handler collate q m =
     json_res 200 (JArr (map listed_policy_json
       (case map_option to_upper q of
          None \<Rightarrow> all_policies collate m
        | Some cc \<Rightarrow> if cc = [] then all_policies collate m
                     else filter (\<lambda>pc. snd pc = cc) (all_policies collate m))))"

definition policy_handler :: "(string \<Rightarrow> string \<Rightarrow> int) \<Rightarrow> string \<Rightarrow> country_map \<Rightarrow> response" where
  "policy_handler collate pid m =
     (case find (\<lambda>pc. pc_id (fst pc) = pid) (all_policies collate m) of
        None \<Rightarrow> json_res 404 (error_json ''Policy not found'')
      | Some pc \<Rightarrow> json_res 200 (listed_policy_json pc))"

section \<open>The schema accepts what the API serves\<close>

lemma those_map_comp: "(\<And>x. x \<in> set xs \<Longrightarrow> f (g x) = Some x) \<Longrightarrow> those (map (f \<circ> g) xs) = Some xs"
  by (induction xs) auto

lemma those_SomeD: "those ys = Some xs \<Longrightarrow> x \<in> set xs \<Longrightarrow> Some x \<in> set ys"
  by (induction ys arbitrary: xs) (auto split: option.splits)

lemma list_of_members:
  assumes "list_of f j = Some xs" "x \<in> set xs"
  obtains v where "f v = Some x"
  using assms by (cases j) (auto dest!: those_SomeD)

lemma member_as_JObj: "member_as f k (JObj kvs) = Option.bind (map_of (rev kvs) k) f"
  by (simp add: member_as_def)

lemma optional_as_JObj:
  "optional_as f k (JObj kvs) = (case map_of (rev kvs) k of None \<Rightarrow> Some None | Some v \<Rightarrow> map_option Some (f v))"
  by (simp add: optional_as_def)

lemmas schema_simps = member_as_JObj optional_as_JObj refined_def upper_of_length_def optional_json_def

definition policy_wf :: "policy_config \<Rightarrow> bool" where
  "policy_wf p \<longleftrightarrow> pc_category p \<in> set CATEGORIES"

definition branding_wf :: "(string \<Rightarrow> bool) \<Rightarrow> branding \<Rightarrow> bool" where
  "branding_wf is_url b \<longleftrightarrow>
     hex_colour (b_primary b) \<and> hex_colour (b_secondary b) \<and> hex_colour (b_surface b) \<and> hex_colour (b_on_primary b) \<and>
     is_url (b_portal_url b)"

definition country_wf :: "(string \<Rightarrow> bool) \<Rightarrow> country \<Rightarrow> bool" where
  "country_wf is_url c \<longleftrightarrow>
     length (c_code c) = 2 \<and> to_upper (c_code c) = c_code c \<and> length (c_alpha3 c) = 3 \<and> to_upper (c_alpha3 c) = c_alpha3 c \<and>
     length (c_language c) = 2 \<and> c_region c \<in> set REGIONS \<and> branding_wf is_url (c_branding c) \<and>
     list_all policy_wf (c_policies c)"

lemma vote_option_schema_json: "vote_option_schema (vote_option_json x) = Some x"
  by (simp add: vote_option_schema_def vote_option_json_def schema_simps)

lemma policy_schema_json: "policy_wf p \<Longrightarrow> policy_schema (JObj (policy_members p)) = Some p"
  by (cases "pc_document p")
    (simp_all add: policy_wf_def policy_schema_def policy_members_def schema_simps those_map_comp vote_option_schema_json)

lemma branding_schema_json: "branding_wf u b \<Longrightarrow> branding_schema u (branding_json b) = Some b"
  by (cases "b_font b") (simp_all add: branding_wf_def branding_schema_def branding_json_def schema_simps those_map_comp)

lemma country_schema_json: "country_wf u c \<Longrightarrow> country_schema u (country_json c) = Some c"
  by (simp add: country_wf_def country_schema_def country_json_def schema_simps those_map_comp policy_schema_json
      branding_schema_json list_all_iff)

lemma policy_schema_wf: "policy_schema j = Some p \<Longrightarrow> policy_wf p"
  by (auto simp: policy_schema_def policy_wf_def member_as_def refined_def bind_eq_Some_conv split: if_splits)

lemma branding_schema_wf: "branding_schema u j = Some b \<Longrightarrow> branding_wf u b"
  by (auto simp: branding_schema_def branding_wf_def member_as_def refined_def bind_eq_Some_conv split: if_splits)

lemma upper_of_lengthD: "upper_of_length n j = Some s \<Longrightarrow> length s = n \<and> to_upper s = s"
  by (auto simp: upper_of_length_def refined_def bind_eq_Some_conv split: if_splits)

lemma country_schema_wf: 
  assumes "country_schema u j = Some c"
  shows "country_wf u c"
proof -
  have "list_all policy_wf ps" if "list_of policy_schema v = Some ps" for v ps
    using that by (auto simp: list_all_iff elim!: list_of_members intro: policy_schema_wf)
  with assms show ?thesis
    by (auto simp: country_schema_def country_wf_def member_as_def bind_eq_Some_conv dest!: upper_of_lengthD branding_schema_wf)
       (auto simp: refined_def bind_eq_Some_conv split: if_splits)
qed

lemma country_json_plain: "json_plain (country_json c)"
proof -
  have p: "json_plain (JObj (policy_members p))" for p
    by (auto simp: policy_members_def optional_json_def vote_option_json_def list_all_iff split: option.splits)
  have b: "json_plain (branding_json b)" for b
    by (auto simp: branding_json_def optional_json_def list_all_iff split: option.splits)
  show ?thesis using p b by (simp add: country_json_def list_all_iff del: json_plain.simps(4)) (simp add: list_all_iff)
qed

section \<open>What is loaded\<close>

definition map_ok :: "(string \<Rightarrow> bool) \<Rightarrow> country_map \<Rightarrow> bool" where
  "map_ok u m \<longleftrightarrow> distinct (map fst m) \<and> (\<forall>(k, c) \<in> set m. k = c_code c \<and> country_wf u c)"

definition cache_ok :: "(string \<Rightarrow> bool) \<Rightarrow> country_map option \<Rightarrow> bool" where
  "cache_ok u cache \<longleftrightarrow> (case cache of None \<Rightarrow> True | Some m \<Rightarrow> map_ok u m)"

lemma set_update_subset: "set (AList.update k v m) \<subseteq> insert (k, v) (set m)"
  by (induction m) auto

lemma map_ok_update:
  assumes "map_ok u m" "country_schema u raw = Some c"
  shows "map_ok u (AList.update (to_upper (c_code c)) c m)"
proof -
  have w: "country_wf u c" by (rule country_schema_wf [OF assms(2)])
  then have k: "to_upper (c_code c) = c_code c" by (simp add: country_wf_def)
  have "k = c_code d \<and> country_wf u d" if "(k, d) \<in> set (AList.update (c_code c) c m)" for k d
    using that set_update_subset [of "c_code c" c m] assms(1) w by (fastforce simp: map_ok_def)
  moreover have "distinct (map fst (AList.update (c_code c) c m))"
    using assms(1) by (simp add: map_ok_def distinct_update)
  ultimately show ?thesis unfolding map_ok_def k by auto
qed

lemma load_files_ok: "map_ok u m \<Longrightarrow> load_files u fs m = (r, m') \<Longrightarrow> map_ok u m'"
  by (induction u fs m rule: load_files.induct) (auto split: option.splits simp: throw_def intro: map_ok_update)

lemma load_all_ok:
  assumes "cache_ok u cache" "load_all u dir cache = (r, cache')"
  shows "cache_ok u cache'" "r = Inr m \<Longrightarrow> map_ok u m"
proof -
  have "map_ok u []" by (simp add: map_ok_def)
  then show "cache_ok u cache'" "r = Inr m \<Longrightarrow> map_ok u m"
    using assms by (auto simp: cache_ok_def load_all_def split: option.splits prod.splits sum.splits dest: load_files_ok)
qed

lemma with_countries_cases:
  assumes "cache_ok u cache" "with_countries u dir h cache = (r, cache')"
  obtains (served) m where "map_ok u m" "r = h m" | (failed) e where "r = error_handler e"
proof -
  obtain x c where l: "load_all u dir cache = (x, c)" by (cases "load_all u dir cache")
  with assms(2) have r: "r = finish (bind_result x (\<lambda>m. Inr (h m)))" by (simp add: with_countries_def)
  show ?thesis
  proof (cases x)
    case (Inl e)
    with r show ?thesis by (intro failed) simp
  next
    case (Inr m)
    with r l load_all_ok(2) [OF assms(1)] show ?thesis by (intro served [of m]) simp_all
  qed
qed

lemma with_countries_keeps:
  "cache_ok u cache \<Longrightarrow> with_countries u dir h cache = (r, cache') \<Longrightarrow> cache_ok u cache'"
  using load_all_ok(1) by (fastforce simp: with_countries_def split: prod.splits)

lemma error_handler_fails: "status (error_handler e) \<noteq> 200"
  using sanitize_error_status [of e] by (auto simp: error_handler_def)

lemma get_country_ok: "map_ok u m \<Longrightarrow> get_country cc m = Some c \<Longrightarrow> country_wf u c \<and> c_code c = to_upper cc"
  by (auto simp: map_ok_def get_country_def dest!: map_of_SomeD)

lemma get_country_None: "map_ok u m \<Longrightarrow> get_country cc m = None \<longleftrightarrow> to_upper cc \<notin> c_code ` snd ` set m"
  by (force simp: map_ok_def get_country_def map_of_eq_None_iff)


section \<open>Which file wins\<close>

definition valid_configs :: "(string \<Rightarrow> bool) \<Rightarrow> (string \<times> string) list \<Rightarrow> country list" where
  "valid_configs u fs = List.map_filter (\<lambda>(f, s). Option.bind (json_parse s) (country_schema u)) fs"

lemma load_files_map_of:
  "load_files u fs m = (Inr x, m') \<Longrightarrow>
     map_of m' = map_of (rev (map (\<lambda>c. (to_upper (c_code c), c)) (valid_configs u fs)) @ m)"
proof (induction u fs m rule: load_files.induct)
  case (2 u f s fs m)
  show ?case
  proof (cases "json_parse s")
    case None
    with 2 show ?thesis by (simp add: throw_def)
  next
    case (Some raw)
    with 2 show ?thesis
      by (cases "country_schema u raw") (auto simp: valid_configs_def map_filter_simps update_conv' map_add_def fun_eq_iff split: option.splits)
  qed
qed (simp add: valid_configs_def map_filter_simps)

text \<open>Once the directory has been read without an exception, a code finds the configuration of the last valid file
  with that code, whatever the case of its letters, and nothing when there is none.\<close>

theorem country_lookup:
  assumes "load_all u dir None = (Inr m, cache)"
  shows "get_country cc m =
    map_of (rev (map (\<lambda>c. (c_code c, c)) (valid_configs u (filter (\<lambda>f. config_file (fst f)) dir)))) (to_upper cc)"
proof -
  let ?fs = "filter (\<lambda>f. config_file (fst f)) dir"
  have "\<exists>j. country_schema u j = Some c" if "c \<in> set (valid_configs u ?fs)" for c
    using that by (auto simp: valid_configs_def map_filter_def bind_eq_Some_conv split: prod.splits) (metis option.sel)
  then have "to_upper (c_code c) = c_code c" if "c \<in> set (valid_configs u ?fs)" for c
    using that country_schema_wf unfolding country_wf_def by blast
  then have eq: "map (\<lambda>c. (to_upper (c_code c), c)) (valid_configs u ?fs) = map (\<lambda>c. (c_code c, c)) (valid_configs u ?fs)"
    by simp
  from assms have "load_files u ?fs [] = (Inr (), m)"
    by (auto simp: load_all_def split: prod.splits sum.splits)
  from load_files_map_of [OF this] show ?thesis by (simp add: get_country_def eq)
qed

section \<open>The policies\<close>

lemma mset_insort_cmp: "mset (insort_cmp f x xs) = add_mset x (mset xs)"
  by (induction xs) auto

lemma mset_sort_cmp [simp]: "mset (sort_cmp f xs) = mset xs"
  by (induction xs) (simp_all add: sort_cmp_def mset_insort_cmp)

lemma set_sort_cmp [simp]: "set (sort_cmp f xs) = set xs"
  by (metis mset_sort_cmp set_mset_mset)

lemma set_all_countries: "set (get_all_countries collate m) = snd ` set m"
  by (simp add: get_all_countries_def)

lemma distinct_codes: 
  assumes "map_ok u m"
  shows "distinct (map c_code (get_all_countries collate m))"
proof -
  have "map (c_code \<circ> snd) m = map fst m" using assms by (auto simp: map_ok_def)
  then have "distinct (map c_code (map snd m))" using assms unfolding map_map by (metis map_ok_def)
  moreover have "mset (map c_code (get_all_countries collate m)) = mset (map c_code (map snd m))"
    by (simp add: get_all_countries_def del: map_map)
  ultimately show ?thesis using mset_eq_imp_distinct_iff by blast
qed

lemma filter_by_code:
  assumes "distinct (map c_code cs)"
  shows "filter (\<lambda>pc. snd pc = cc) (concat (map (\<lambda>c. map (\<lambda>p. (p, c_code c)) (c_policies c)) cs)) =
    (case find (\<lambda>c. c_code c = cc) cs of None \<Rightarrow> [] | Some c \<Rightarrow> map (\<lambda>p. (p, cc)) (c_policies c))"
  using assms
proof (induction cs)
  case (Cons c cs)
  show ?case
  proof (cases "c_code c = cc")
    case True
    with Cons.prems have "find (\<lambda>c. c_code c = cc) cs = None" unfolding find_None_iff by (metis distinct.simps(2) imageI list.set_map list.simps(9))
    with Cons True show ?thesis by (simp add: filter_map comp_def)
  next
    case False
    with Cons show ?thesis by (simp add: filter_map comp_def)
  qed
qed simp

lemma find_by_code:
  assumes "map_ok u m"
  shows "find (\<lambda>c. c_code c = to_upper cc) (get_all_countries collate m) = get_country cc m"
proof (cases "get_country cc m")
  case None
  with get_country_None [OF assms, of cc] show ?thesis by (force simp: find_None_iff set_all_countries)
next
  case (Some c)
  then have c: "c \<in> set (get_all_countries collate m)" "c_code c = to_upper cc"
    using get_country_ok [OF assms Some] by (force simp: set_all_countries get_country_def dest: map_of_SomeD)+
  then obtain d where d: "find (\<lambda>c. c_code c = to_upper cc) (get_all_countries collate m) = Some d"
    by (cases "find (\<lambda>c. c_code c = to_upper cc) (get_all_countries collate m)") (auto simp: find_None_iff)
  then have "d \<in> set (get_all_countries collate m)" "c_code d = to_upper cc" by (auto simp: find_Some_iff)
  with c distinct_codes [OF assms, of collate] have "d = c" by (metis distinct_map inj_onD)
  with d Some show ?thesis by simp
qed

text \<open>The list of policies for a country code holds exactly the policies of the configuration that code finds, in the
  order of the file, and none when there is no such country.\<close>

theorem policies_of_country:
  assumes "map_ok u m" "cc \<noteq> []"
  shows "policies_handler collate (Some cc) m =
    json_res 200 (JArr (case get_country cc m of
      None \<Rightarrow> []
    | Some c \<Rightarrow> map (\<lambda>p. JObj (policy_members p @ [(''countryCode'', JStr (to_upper cc))])) (c_policies c)))"
proof -
  have "to_upper cc \<noteq> []" using assms(2) by (simp add: to_upper_def)
  then show ?thesis
    by (simp add: policies_handler_def all_policies_def filter_by_code [OF distinct_codes [OF assms(1)]] find_by_code [OF assms(1)]
        listed_policy_json_def comp_def split: option.splits)
qed

lemma policy_found:
  assumes "distinct (map (\<lambda>pc. pc_id (fst pc)) (all_policies collate m))" "(p, cc) \<in> set (all_policies collate m)"
  shows "policy_handler collate (pc_id p) m = json_res 200 (listed_policy_json (p, cc))"
proof -
  obtain q where q: "find (\<lambda>pc. pc_id (fst pc) = pc_id p) (all_policies collate m) = Some q"
    using assms(2) by (cases "find (\<lambda>pc. pc_id (fst pc) = pc_id p) (all_policies collate m)") (auto simp: find_None_iff)
  then have "q \<in> set (all_policies collate m)" "pc_id (fst q) = pc_id p" by (auto simp: find_Some_iff)
  with assms have "q = (p, cc)" unfolding distinct_map by (metis fst_conv inj_onD)
  with q show ?thesis by (simp add: policy_handler_def)
qed

section \<open>A broken file\<close>

lemma load_files_broken:
  "\<forall>fs \<in> set good. json_parse (snd fs) \<noteq> None \<Longrightarrow> json_parse s = None \<Longrightarrow>
     load_files u (good @ (f, s) # rest) m = (throw ''SyntaxError'', snd (load_files u good m))"
  by (induction good arbitrary: m) (auto split: option.splits prod.splits)

text \<open>A configuration file that is no JSON fails the first request, whatever it asks, and from then on the files
  behind it are missing: the cache holds what the files before it gave, and every later request is answered from it.\<close>

theorem broken_file:
  assumes "filter (\<lambda>f. config_file (fst f)) dir = good @ (f, s) # rest"
    and "\<forall>fs \<in> set good. json_parse (snd fs) \<noteq> None" "json_parse s = None"
  shows "with_countries u dir h None =
      (json_res 500 (error_json ''An unexpected error occurred.''), Some (snd (load_files u good []))) \<and>
    with_countries u dir h' (Some (snd (load_files u good []))) =
      (h' (snd (load_files u good [])), Some (snd (load_files u good [])))"
proof -
  have "load_all u dir None = (throw ''SyntaxError'', Some (snd (load_files u good [])))"
    by (simp add: load_all_def assms(1) load_files_broken [OF assms(2,3)] throw_def)
  moreover have "error_handler ''SyntaxError'' = json_res 500 (error_json ''An unexpected error occurred.'')"
    by code_simp
  ultimately show ?thesis by (simp add: with_countries_def load_all_def throw_def)
qed

section \<open>Witnesses\<close>

definition demo_branding :: branding where
  "demo_branding = \<lparr>b_primary = ''#1D70B8'', b_secondary = ''#0B0C0C'', b_surface = ''#F3F2F1'', b_on_primary = ''#FFFFFF'',
     b_dark_status = False, b_portal_name = ''GOV.UK'', b_portal_url = ''https://www.gov.uk'', b_logo_alt = ''GOV.UK'',
     b_flag_colors = [''#012169''], b_font = None\<rparr>"

definition demo_policy :: policy_config where
  "demo_policy = \<lparr>pc_id = ''gb-nhs-reform-2026'', pc_title = ''NHS Reform Act 2026'', pc_description = [], pc_category = ''healthcare'',
     pc_document = Some [], pc_deadline = ''2026-12-31T23:59:59Z'',
     pc_options = [\<lparr>vo_id = ''support'', vo_label = ''option.support'', vo_description = ''option.support.desc''\<rparr>]\<rparr>"

definition demo_country :: country where
  "demo_country = \<lparr>c_code = ''GB'', c_alpha3 = ''GBR'', c_name = ''United Kingdom'', c_native = ''United Kingdom'', c_language = ''en'',
     c_languages = [''en''], c_rtl = False, c_scheme = ''gov-uk-verify'', c_flag = [], c_region = ''europe'',
     c_branding = demo_branding, c_policies = [demo_policy]\<rparr>"

definition demo_dir :: "(string \<times> string) list" where
  "demo_dir = [(''gb.json'', stringify (country_json demo_country)), (''index.ts'', []), (''zz.json'', ''{'')]"

lemma demo_country_wf: "country_wf (\<lambda>_. True) demo_country"
  by (simp add: country_wf_def demo_country_def demo_branding_def demo_policy_def branding_wf_def policy_wf_def hex_colour_def
      is_hex_def is_digit_def code_def to_upper_def upper_char_def is_lower_def CATEGORIES_def REGIONS_def)

lemma demo_map_ok: "map_ok (\<lambda>_. True) [(''GB'', demo_country)]"
  using demo_country_wf by (simp add: map_ok_def demo_country_def)

lemma gb_upper: "to_upper ''gb'' = ''GB''" "to_upper ''GB'' = ''GB''"
  by code_simp+

lemma demo_code: "c_code demo_country = ''GB''"
  by (simp add: demo_country_def)


theorem country_lookup_witness:
  "\<exists>m. load_all (\<lambda>_. True) [(''gb.json'', stringify (country_json demo_country))] None = (Inr m, Some m) \<and>
       get_country ''gb'' m = Some demo_country"
proof -
  let ?dir = "[(''gb.json'', stringify (country_json demo_country))]"
  have f: "filter (\<lambda>f. config_file (fst f)) ?dir = ?dir" by (simp add: config_file_def suffix_def)
  have s: "Option.bind (json_parse (stringify (country_json demo_country))) (country_schema (\<lambda>_. True)) = Some demo_country"
    by (simp add: json_roundtrip [OF country_json_plain] country_schema_json [OF demo_country_wf])
  then have l: "load_all (\<lambda>_. True) ?dir None = (Inr [(to_upper (c_code demo_country), demo_country)], Some [(to_upper (c_code demo_country), demo_country)])"
    unfolding load_all_def f by (simp add: json_roundtrip [OF country_json_plain])
  show ?thesis
    using l country_lookup [OF l, of "''gb''"] unfolding f
    by (simp add: valid_configs_def map_filter_simps s gb_upper demo_code)
qed

theorem policies_of_country_witness:
  "policies_handler (\<lambda>a b. 0) (Some ''gb'') [(''GB'', demo_country)] =
     json_res 200 (JArr [JObj (policy_members demo_policy @ [(''countryCode'', JStr ''GB'')])])"
  using policies_of_country [OF demo_map_ok, of "''gb''" "\<lambda>a b. 0"]
  by (simp add: get_country_def gb_upper demo_country_def)

theorem broken_file_witness:
  "fst (with_countries (\<lambda>_. True) [(''aa.json'', ''{''), (''gb.json'', stringify (country_json demo_country))] (country_handler ''GB'') (Some [])) =
     json_res 404 (error_json ''Country not found'')"
proof -
  have p: "json_parse ''{'' = None" by code_simp
  have "filter (\<lambda>f. config_file (fst f)) [(''aa.json'', ''{''), (''gb.json'', stringify (country_json demo_country))] =
    [] @ (''aa.json'', ''{'') # [(''gb.json'', stringify (country_json demo_country))]"
    by (simp add: config_file_def suffix_def)
  from broken_file [OF this _ p, of "\<lambda>_. True" "country_handler ''GB''" "country_handler ''GB''"] show ?thesis
    by (simp add: country_handler_def get_country_def)
qed

end
