(* ===== verification/Notification.thy ===== *)
theory Notification
  imports Http Redis_Store Bytes
begin

text \<open>
  Push notifications: \<open>services/NotificationService.ts\<close>, \<open>routes/notifications.ts\<close> and the erasure endpoint of
  \<open>middleware/privacy.ts\<close>. Firebase is a parameter: \<open>messaging\<close> takes the message and returns one answer per token,
  or throws. The routes do not wait for the service, so a request is its answer, the effect on Redis and the outcome
  of the promise that nobody awaits. The set of users of a country and the records of the users are two structures
  in Redis; the invariant \<open>notif_ok\<close> says they agree, every operation keeps it, and a broadcast rests on it.
\<close>

section \<open>Model\<close>

record token_record =
  tr_token :: string
  tr_platform :: string
  tr_country :: string

definition record_json :: "token_record \<Rightarrow> json" where
  "record_json t = JObj [(''token'', JStr (tr_token t)), (''platform'', JStr (tr_platform t)), (''countryCode'', JStr (tr_country t))]"

definition TK :: "string \<Rightarrow> string" where "TK u = ''notif:token:'' @ u"
definition NK :: "string \<Rightarrow> string" where "NK cc = ''notif:country:'' @ cc"

text \<open>A stored record: absent, or the parsed value; reading a member of \<open>null\<close> throws.\<close>

definition stored_record :: "'r redis \<Rightarrow> string \<Rightarrow> 'r \<Rightarrow> json option result" where
  "stored_record R u s =
     (case r_get R (TK u) s of
        None \<Rightarrow> Inr None
      | Some raw \<Rightarrow>
          if raw = [] then Inr None
          else (case json_parse raw of
                  None \<Rightarrow> throw ''SyntaxError''
                | Some j \<Rightarrow> if j = JNull then throw ''TypeError'' else Inr (Some j)))"

text \<open>The two halves of a registration: what was read before, and the writes.\<close>

definition register_write :: "'r redis \<Rightarrow> string \<Rightarrow> token_record \<Rightarrow> json option \<Rightarrow> 'r \<Rightarrow> 'r" where
  "register_write R u t old s =
     (let s1 = (case old of
                  None \<Rightarrow> s
                | Some j \<Rightarrow> if json_get ''countryCode'' j = Some (JStr (tr_country t)) then s
                            else r_srem R (NK (template (json_get ''countryCode'' j))) u s)
      in r_sadd R (NK (tr_country t)) u (r_set R (TK u) (stringify (record_json t)) s1))"

definition register_token :: "'r redis \<Rightarrow> string \<Rightarrow> token_record \<Rightarrow> 'r \<Rightarrow> unit result \<times> 'r" where
  "register_token R u t s =
     (case stored_record R u s of
        Inl e \<Rightarrow> (Inl e, s)
      | Inr old \<Rightarrow> (Inr (), register_write R u t old s))"

definition unregister_token :: "'r redis \<Rightarrow> string \<Rightarrow> 'r \<Rightarrow> unit result \<times> 'r" where
  "unregister_token R u s =
     (case stored_record R u s of
        Inl e \<Rightarrow> (Inl e, s)
      | Inr None \<Rightarrow> (Inr (), r_del R (TK u) s)
      | Inr (Some j) \<Rightarrow> (Inr (), r_del R (TK u) (r_srem R (NK (template (json_get ''countryCode'' j))) u s)))"

text \<open>
  A message for Firebase and its answer: per token nothing for success, or the code of the error. The recipients
  are the users of the set whose record exists; a member \<open>userId\<close> inside a record would shadow the user's.
\<close>

record multicast =
  m_tokens :: "json option list"
  m_title :: string
  m_body :: string
  m_event :: string
  m_policy :: string

type_synonym messaging = "multicast \<Rightarrow> string option list result"

record recipient =
  rp_user :: string
  rp_token :: "json option"
  rp_country :: string

definition recipient_of :: "string \<Rightarrow> json \<Rightarrow> recipient" where
  "recipient_of u j =
     \<lparr>rp_user = (case json_get ''userId'' j of None \<Rightarrow> u | v \<Rightarrow> template v), rp_token = json_get ''token'' j,
      rp_country = template (json_get ''countryCode'' j)\<rparr>"

definition read_recipient :: "'r redis \<Rightarrow> 'r \<Rightarrow> string \<Rightarrow> recipient option result" where
  "read_recipient R s u =
     (case r_get R (TK u) s of
        None \<Rightarrow> Inr None
      | Some raw \<Rightarrow>
          if raw = [] then Inr None
          else (case json_parse raw of None \<Rightarrow> throw ''SyntaxError'' | Some j \<Rightarrow> Inr (Some (recipient_of u j))))"

fun recipients_of :: "'r redis \<Rightarrow> 'r \<Rightarrow> string list \<Rightarrow> recipient list result" where
  "recipients_of R s [] = Inr []"
| "recipients_of R s (u # us) =
     bind_result (read_recipient R s u) (\<lambda>r. bind_result (recipients_of R s us) (\<lambda>rs.
       Inr (case r of None \<Rightarrow> rs | Some x \<Rightarrow> x # rs)))"

definition STALE :: string where
  "STALE = ''messaging/registration-token-not-registered''"

text \<open>
  The removals, answer by answer; a stale answer without a recipient would throw, which the surrounding \<open>catch\<close>
  takes, and ends the loop.
\<close>

fun remove_stale :: "'r redis \<Rightarrow> string option list \<Rightarrow> recipient list \<Rightarrow> 'r \<Rightarrow> 'r" where
  "remove_stale R [] rs s = s"
| "remove_stale R (a # as) [] s = (if a = Some STALE then s else remove_stale R as [] s)"
| "remove_stale R (a # as) (r # rs) s =
     remove_stale R as rs
       (if a = Some STALE then r_srem R (NK (rp_country r)) (rp_user r) (r_del R (TK (rp_user r)) s) else s)"

text \<open>Returns the message that was handed to Firebase, if any.\<close>

definition notif_broadcast ::
  "'r redis \<Rightarrow> messaging \<Rightarrow> string \<Rightarrow> string \<Rightarrow> string \<Rightarrow> string \<Rightarrow> string \<Rightarrow> 'r \<Rightarrow> multicast option result \<times> 'r" where
  "notif_broadcast R send cc title txt event policy s =
     (case recipients_of R s (r_smembers R (NK cc) s) of
        Inl e \<Rightarrow> (Inl e, s)
      | Inr rs \<Rightarrow>
          if rs = [] then (Inr None, s)
          else (let m = \<lparr>m_tokens = map rp_token rs, m_title = title, m_body = txt, m_event = event, m_policy = policy\<rparr>
                in (Inr (Some m), case send m of Inl e \<Rightarrow> s | Inr as \<Rightarrow> remove_stale R as rs s)))"

definition notify_policy_opened where
  "notify_policy_opened R send policy title cc s =
     notif_broadcast R send cc ''Voting is now open'' title ''policy_opened'' policy s"

definition notify_deadline_24h where
  "notify_deadline_24h R send policy title cc s =
     notif_broadcast R send cc ''Last chance to vote'' (''Voting closes in 24 hours: '' @ title) ''deadline_24h'' policy s"

definition notify_results_published where
  "notify_results_published R send policy title cc s =
     notif_broadcast R send cc ''Results are in'' title ''results_published'' policy s"

section \<open>The routes\<close>

record register_body =
  rb_user :: string
  rb_token :: string
  rb_platform :: string
  rb_country :: string

definition register_schema :: "register_body \<Rightarrow> bool" where
  "register_schema b \<longleftrightarrow>
     rb_user b \<noteq> [] \<and> rb_token b \<noteq> [] \<and> rb_platform b \<in> {''android'', ''ios''} \<and> length (rb_country b) = 2"

text \<open>A request that starts a promise without awaiting it: the answer, and what becomes of the promise.\<close>

record answered =
  answer :: response
  promise :: "unit result"

definition notif_register_route ::
  "'r redis \<Rightarrow> ('raw \<Rightarrow> json + register_body) \<Rightarrow> 'raw \<Rightarrow> 'r \<Rightarrow> answered \<times> 'r" where
  "notif_register_route R safe_parse raw s =
     (case safe_parse raw of
        Inl e \<Rightarrow> (\<lparr>answer = json_res 400 (JObj [(''error'', e)]), promise = Inr ()\<rparr>, s)
      | Inr b \<Rightarrow>
          (case register_token R (rb_user b)
                  \<lparr>tr_token = rb_token b, tr_platform = rb_platform b, tr_country = to_upper (rb_country b)\<rparr> s of
             (p, s') \<Rightarrow> (\<lparr>answer = json_res 201 (JObj [(''registered'', JBool True)]), promise = p\<rparr>, s')))"

definition notif_unregister_route :: "'r redis \<Rightarrow> string \<Rightarrow> 'r \<Rightarrow> answered \<times> 'r" where
  "notif_unregister_route R u s =
     (case unregister_token R u s of
        (p, s') \<Rightarrow> (\<lparr>answer = \<lparr>status = 204, body = Empty_body\<rparr>, promise = p\<rparr>, s'))"

text \<open>The erasure endpoint of the privacy router, the manifest that names it, and the check of a token's age.\<close>

definition erase_user_route :: "string \<Rightarrow> 'r \<Rightarrow> response \<times> 'r" where
  "erase_user_route u s = (\<lparr>status = 204, body = Empty_body\<rparr>, s)"

definition privacy_manifest :: json where
  "privacy_manifest = JObj
     [(''version'', JStr ''1''), (''controller'', JStr ''TheVoteApp contributors''), (''contact'', JStr ''privacy@thevoteapp.org''),
      (''dataCategories'', JArr
        [JObj [(''category'', JStr ''device_token''), (''purpose'', JStr ''push_notifications''), (''retention'', JStr ''90_days''),
               (''legalBasis'', JStr ''consent''), (''deletable'', JBool True)],
         JObj [(''category'', JStr ''vote_nullifier''), (''purpose'', JStr ''double_vote_prevention''), (''retention'', JStr ''permanent''),
               (''legalBasis'', JStr ''legitimate_interest''), (''deletable'', JBool False),
               (''note'', JStr (''Nullifiers are one-way hashes '' @ [CHR 0xE2, CHR 0x80, CHR 0x94] @ '' no PII derivable''))]]),
      (''rights'', JArr [JStr ''access'', JStr ''erasure'', JStr ''portability'', JStr ''objection'']),
      (''erasureEndpoint'', JStr ''/api/v1/user/:userId'')]"

definition is_token_expired :: "int \<Rightarrow> int \<Rightarrow> bool" where
  "is_token_expired now registered \<longleftrightarrow> 90 * 24 * 60 * 60 * 1000 < now - registered"

section \<open>The records and the sets agree\<close>

text \<open>What a user is registered with; the abstraction of the store.\<close>

definition registered :: "'r redis \<Rightarrow> 'r \<Rightarrow> string \<Rightarrow> token_record option \<Rightarrow> bool" where
  "registered R s u v \<longleftrightarrow> r_get R (TK u) s = map_option (stringify \<circ> record_json) v"

definition notif_ok :: "'r redis \<Rightarrow> (string \<Rightarrow> token_record option) \<Rightarrow> 'r \<Rightarrow> bool" where
  "notif_ok R f s \<longleftrightarrow>
     (\<forall>u. registered R s u (f u)) \<and>
     (\<forall>cc u. r_sismember R (NK cc) u s \<longleftrightarrow> map_option tr_country (f u) = Some cc)"

lemma keys_apart [simp]: "TK u \<noteq> NK cc" "NK cc \<noteq> TK u" "TK u = TK v \<longleftrightarrow> u = v" "NK cc = NK dd \<longleftrightarrow> cc = dd"
  by (simp_all add: TK_def NK_def)

lemma record_parse [simp]: "json_parse (stringify (record_json t)) = Some (record_json t)"
  by (rule json_roundtrip(1)) (simp add: record_json_def)

lemma json_parse_Nil: "json_parse [] = None"
  by code_simp

lemma record_text_not_Nil [simp]: "stringify (record_json t) \<noteq> []"
  using record_parse [of t] by (metis json_parse_Nil option.distinct(1))

lemma record_get [simp]:
  "json_get ''countryCode'' (record_json t) = Some (JStr (tr_country t))" "json_get ''token'' (record_json t) = Some (JStr (tr_token t))"
  "json_get ''userId'' (record_json t) = None" "record_json t \<noteq> JNull"
  by (simp_all add: record_json_def)

lemma stored_record_ok: "notif_ok R f s \<Longrightarrow> stored_record R u s = Inr (map_option record_json (f u))"
  by (cases "f u") (auto simp: notif_ok_def registered_def stored_record_def dest!: spec [of _ u])

lemma template_str [simp]: "template (Some (JStr c)) = c"
  by (simp add: template_def)

lemma register_write_ok:
  assumes R: "redis_store R" and ok: "notif_ok R f s"
  shows "notif_ok R (f(u := Some t)) (register_write R u t (map_option record_json (f u)) s)"
  using ok
  by (cases "f u") (auto simp: notif_ok_def registered_def register_write_def redis_laws [OF R] Let_def)

lemma register_token_ok:
  assumes R: "redis_store R" and ok: "notif_ok R f s" and r: "register_token R u t s = (p, s')"
  shows "p = Inr () \<and> notif_ok R (f(u := Some t)) s'"
  using r register_write_ok [OF R ok] by (auto simp: register_token_def stored_record_ok [OF ok])

lemma unregister_token_ok:
  assumes R: "redis_store R" and ok: "notif_ok R f s" and r: "unregister_token R u s = (p, s')"
  shows "p = Inr () \<and> notif_ok R (f(u := None)) s'"
  using r ok
  by (cases "f u") (auto simp: unregister_token_def stored_record_ok [OF ok] notif_ok_def registered_def redis_laws [OF R])

section \<open>Broadcasts\<close>

definition recipient_for :: "string \<Rightarrow> token_record \<Rightarrow> recipient" where
  "recipient_for u t = \<lparr>rp_user = u, rp_token = Some (JStr (tr_token t)), rp_country = tr_country t\<rparr>"

lemma recipient_for_simps [simp]:
  "rp_user (recipient_for u t) = u" "rp_token (recipient_for u t) = Some (JStr (tr_token t))"
  "rp_country (recipient_for u t) = tr_country t"
  by (simp_all add: recipient_for_def)

lemma recipients_of_ok:
  assumes "notif_ok R f s" "\<forall>u \<in> set us. f u \<noteq> None"
  shows "recipients_of R s us = Inr (map (\<lambda>u. recipient_for u (the (f u))) us)"
  using assms(2)
proof (induction us)
  case (Cons u us)
  then obtain t where t: "f u = Some t" by auto
  then have "r_get R (TK u) s = Some (stringify (record_json t))" 
    using assms(1) by (auto simp: notif_ok_def registered_def dest!: spec [of _ u])
  then have "read_recipient R s u = Inr (Some (recipient_for u t))"
    by (simp add: read_recipient_def recipient_of_def recipient_for_def)
  with Cons t show ?case by simp
qed simp

definition without :: "string set \<Rightarrow> (string \<Rightarrow> token_record option) \<Rightarrow> string \<Rightarrow> token_record option" where
  "without U f u = (if u \<in> U then None else f u)"

definition stale_among :: "string option list \<Rightarrow> string list \<Rightarrow> string set" where
  "stale_among as us = {u. (Some STALE, u) \<in> set (zip as us)}"

lemma forget_ok:
  assumes R: "redis_store R" and ok: "notif_ok R f s" and t: "f u = Some t"
  shows "notif_ok R (f(u := None)) (r_srem R (NK (tr_country t)) u (r_del R (TK u) s))"
  using ok t by (auto simp: notif_ok_def registered_def redis_laws [OF R])

lemma remove_stale_ok:
  assumes R: "redis_store R"
  shows "notif_ok R f s \<Longrightarrow> \<forall>u \<in> set us. f u \<noteq> None \<Longrightarrow> distinct us \<Longrightarrow>
    notif_ok R (without (stale_among as us) f) (remove_stale R as (map (\<lambda>u. recipient_for u (the (f u))) us) s)"
proof (induction as arbitrary: us f s)
  case Nil
  have "without {} f = f" by (simp add: without_def fun_eq_iff)
  with Nil show ?case by (simp add: stale_among_def)
next
  case (Cons a as)
  show ?case
  proof (cases us)
    case Nil
    have "without {} f = f" by (simp add: without_def fun_eq_iff)
    with Cons.IH [of f s "[]"] Cons.prems Nil show ?thesis by (simp add: stale_among_def)
  next
    case (Cons u vs)
    then obtain t where t: "f u = Some t" using Cons.prems by auto
    show ?thesis
    proof (cases "a = Some STALE")
      case False
      then have "stale_among (a # as) us = stale_among as vs" by (auto simp: stale_among_def Cons)
      with Cons.IH [of f s vs] Cons.prems False Cons show ?thesis by simp
    next
      case True
      obtain g where g: "g = f(u := None)" by blast
      have "u \<notin> set vs" using Cons.prems(3) Cons by simp
      then have eq: "map (\<lambda>v. recipient_for v (the (f v))) vs = map (\<lambda>v. recipient_for v (the (g v))) vs" and
        some: "\<forall>v \<in> set vs. g v \<noteq> None" using Cons.prems(2) Cons by (auto simp: g)
      have "without (stale_among (a # as) us) f = without (stale_among as vs) g"
        by (auto simp: without_def stale_among_def Cons True fun_eq_iff g)
      moreover have "remove_stale R (a # as) (map (\<lambda>u. recipient_for u (the (f u))) us) s =
        remove_stale R as (map (\<lambda>v. recipient_for v (the (f v))) vs) (r_srem R (NK (tr_country t)) u (r_del R (TK u) s))"
        by (simp add: Cons True t)
      moreover have "notif_ok R g (r_srem R (NK (tr_country t)) u (r_del R (TK u) s))"
        unfolding g by (rule forget_ok [OF R Cons.prems(1) t])
      ultimately show ?thesis
        using Cons.IH [OF _ some] Cons.prems(3) Cons unfolding eq by simp
    qed
  qed
qed

definition users_in :: "string \<Rightarrow> (string \<Rightarrow> token_record option) \<Rightarrow> string set" where
  "users_in cc f = {u. map_option tr_country (f u) = Some cc}"

definition device_of :: "(string \<Rightarrow> token_record option) \<Rightarrow> string \<Rightarrow> json option" where
  "device_of f u = Some (JStr (tr_token (the (f u))))"

text \<open>The answers to a message for the users \<open>us\<close>, in their order: those found stale are forgotten.\<close>

definition after_answers :: "string option list result \<Rightarrow> string list \<Rightarrow> (string \<Rightarrow> token_record option) \<Rightarrow> string \<Rightarrow> token_record option" where
  "after_answers a us f = (case a of Inl e \<Rightarrow> f | Inr as \<Rightarrow> without (stale_among as us) f)"

lemma members_ok:
  assumes R: "redis_store R" and ok: "notif_ok R f s"
  shows "set (r_smembers R (NK cc) s) = users_in cc f" "distinct (r_smembers R (NK cc) s)"
  using ok by (auto simp: redis_laws [OF R] notif_ok_def users_in_def)

lemma broadcast_ok:
  assumes R: "redis_store R" and ok: "notif_ok R f s"
    and r: "notif_broadcast R send cc title txt event policy s = (r, s')"
  obtains us where "distinct us" "set us = users_in cc f"
    "r = (if us = [] then Inr None
          else Inr (Some \<lparr>m_tokens = map (device_of f) us, m_title = title, m_body = txt, m_event = event, m_policy = policy\<rparr>))"
    "notif_ok R (if us = [] then f
       else after_answers (send \<lparr>m_tokens = map (device_of f) us, m_title = title, m_body = txt, m_event = event, m_policy = policy\<rparr>) us f) s'"
proof -
  let ?us = "r_smembers R (NK cc) s"
  let ?rs = "map (\<lambda>u. recipient_for u (the (f u))) ?us"
  note us = members_ok [OF R ok, of cc]
  then have some: "\<forall>u \<in> set ?us. f u \<noteq> None" by (auto simp: users_in_def)
  have tok: "rp_token \<circ> (\<lambda>u. recipient_for u (the (f u))) = device_of f"
    by (simp add: device_of_def fun_eq_iff)
  note rec = recipients_of_ok [OF ok some]
  note rem = remove_stale_ok [OF R ok some us(2)]
  show ?thesis
  proof (rule that [OF us(2) us(1)])
    show "r = (if ?us = [] then Inr None
          else Inr (Some \<lparr>m_tokens = map (device_of f) ?us, m_title = title, m_body = txt, m_event = event, m_policy = policy\<rparr>))"
      using r unfolding notif_broadcast_def rec by (auto simp: Let_def tok split: if_splits sum.splits)
    show "notif_ok R (if ?us = [] then f
       else after_answers (send \<lparr>m_tokens = map (device_of f) ?us, m_title = title, m_body = txt, m_event = event, m_policy = policy\<rparr>) ?us f) s'"
      using r ok rem unfolding notif_broadcast_def rec by (auto simp: Let_def tok after_answers_def split: if_splits sum.splits)
  qed
qed

section \<open>Properties\<close>

datatype notif_request =
    Register_Token string token_record
  | Unregister_Token string
  | Policy_Opened string string string
  | Deadline_24h string string string
  | Results_Published string string string

definition notif_step :: "'r redis \<Rightarrow> messaging \<Rightarrow> notif_request \<Rightarrow> 'r \<Rightarrow> unit result \<times> 'r" where
  "notif_step R send q s =
     (case q of
        Register_Token u t \<Rightarrow> register_token R u t s
      | Unregister_Token u \<Rightarrow> unregister_token R u s
      | Policy_Opened p t cc \<Rightarrow> map_prod (\<lambda>r. bind_result r (\<lambda>_. Inr ())) (\<lambda>x. x) (notify_policy_opened R send p t cc s)
      | Deadline_24h p t cc \<Rightarrow> map_prod (\<lambda>r. bind_result r (\<lambda>_. Inr ())) (\<lambda>x. x) (notify_deadline_24h R send p t cc s)
      | Results_Published p t cc \<Rightarrow> map_prod (\<lambda>r. bind_result r (\<lambda>_. Inr ())) (\<lambda>x. x) (notify_results_published R send p t cc s))"

fun notif_run :: "'r redis \<Rightarrow> (notif_request \<times> messaging) list \<Rightarrow> 'r \<Rightarrow> unit result list \<times> 'r" where
  "notif_run R [] s = ([], s)"
| "notif_run R ((q, send) # qs) s =
     (case notif_step R send q s of (p, s') \<Rightarrow> (case notif_run R qs s' of (ps, t) \<Rightarrow> (p # ps, t)))"

lemmas notify_defs = notify_policy_opened_def notify_deadline_24h_def notify_results_published_def

lemma notif_broadcast_step:
  assumes "redis_store R" "notif_ok R f s"
  shows "\<exists>f'. notif_ok R f' (snd (notif_broadcast R send cc title txt event policy s)) \<and>
    bind_result (fst (notif_broadcast R send cc title txt event policy s)) (\<lambda>_. Inr ()) = Inr ()"
proof -
  obtain r s' where r: "notif_broadcast R send cc title txt event policy s = (r, s')" by fastforce
  show ?thesis unfolding r by (rule broadcast_ok [OF assms r]) (auto split: if_splits)
qed

lemma notif_step_ok:
  assumes "redis_store R" "notif_ok R f s" "notif_step R send q s = (p, s')"
  shows "p = Inr () \<and> (\<exists>f'. notif_ok R f' s')"
proof (cases q)
  case (Register_Token u t)
  with assms(3) register_token_ok [OF assms(1,2), of u t p s'] show ?thesis by (simp add: notif_step_def) blast
next
  case (Unregister_Token u)
  with assms(3) unregister_token_ok [OF assms(1,2), of u p s'] show ?thesis by (simp add: notif_step_def) blast
next
  case (Policy_Opened x y cc)
  with assms(3) notif_broadcast_step [OF assms(1,2), of send cc "''Voting is now open''" y "''policy_opened''" x]
  show ?thesis by (auto simp: notif_step_def notify_defs map_prod_def split: prod.splits)
next
  case (Deadline_24h x y cc)
  with assms(3) notif_broadcast_step [OF assms(1,2), of send cc "''Last chance to vote''" "''Voting closes in 24 hours: '' @ y" "''deadline_24h''" x]
  show ?thesis by (auto simp: notif_step_def notify_defs map_prod_def split: prod.splits)
next
  case (Results_Published x y cc)
  with assms(3) notif_broadcast_step [OF assms(1,2), of send cc "''Results are in''" y "''results_published''" x]
  show ?thesis by (auto simp: notif_step_def notify_defs map_prod_def split: prod.splits)
qed


text \<open>A notification for a country goes to every device registered there, one token per user and to nobody else, with
  nothing but the policy in it; afterwards exactly the users whose token Firebase calls stale are forgotten.\<close>

theorem notify_reaches:
  assumes "redis_store R" "notif_ok R f s" "users_in cc f \<noteq> {}"
    and "notify_policy_opened R send policy title cc s = (r, s')"
  shows "\<exists>us m. distinct us \<and> set us = users_in cc f \<and> r = Inr (Some m) \<and>
    m = \<lparr>m_tokens = map (device_of f) us, m_title = ''Voting is now open'', m_body = title, m_event = ''policy_opened'',
         m_policy = policy\<rparr> \<and>
    notif_ok R (after_answers (send m) us f) s'"
proof (rule broadcast_ok [OF assms(1,2) assms(4) [unfolded notify_policy_opened_def]])
  fix us
  let ?m = "\<lparr>m_tokens = map (device_of f) us, m_title = ''Voting is now open'', m_body = title, m_event = ''policy_opened'',
         m_policy = policy\<rparr>"
  assume us: "distinct us" "set us = users_in cc f" "r = (if us = [] then Inr None else Inr (Some ?m))"
    "notif_ok R (if us = [] then f else after_answers (send ?m) us f) s'"
  moreover from us(2) assms(3) have "us \<noteq> []" by auto
  ultimately show ?thesis by (intro exI [of _ us] exI [of _ ?m]) simp
qed

text \<open>An erasure request deletes nothing: the endpoint that the privacy manifest names answers 204, and the next
  notification still goes to the user's device.\<close>

theorem erasure_keeps_token:
  assumes "redis_store R" "notif_ok R f s" "f u = Some t" "erase_user_route u s = (res, s')"
    and "notify_policy_opened R send policy title (tr_country t) s' = (r, s'')"
  shows "status res = 204 \<and> (\<exists>m. r = Inr (Some m) \<and> Some (JStr (tr_token t)) \<in> set (m_tokens m))"
proof -
  have s: "s' = s" "status res = 204" using assms(4) by (auto simp: erase_user_route_def)
  have u: "u \<in> users_in (tr_country t) f" using assms(3) by (simp add: users_in_def)
  obtain us where "set us = users_in (tr_country t) f" "us \<noteq> [] \<Longrightarrow> \<exists>m. r = Inr (Some m) \<and> m_tokens m = map (device_of f) us"
    by (rule broadcast_ok [OF assms(1,2) assms(5) [unfolded notify_policy_opened_def s]]) auto
  moreover have "device_of f u = Some (JStr (tr_token t))" using assms(3) by (simp add: device_of_def)
  ultimately show ?thesis using u s(2) by (force simp: image_iff)
qed

text \<open>Two registrations of one user that interleave leave him in the sets of both countries: no state of the records
  explains the store any more.\<close>

theorem register_token_race:
  assumes "redis_store R" "notif_ok R f s" "f u = None" "tr_country t1 \<noteq> tr_country t2"
    and "stored_record R u s = Inr old1" "stored_record R u s = Inr old2"
  shows "\<nexists>g. notif_ok R g (register_write R u t2 old2 (register_write R u t1 old1 s))"
proof -
  let ?s = "register_write R u t2 old2 (register_write R u t1 old1 s)"
  have "old1 = None" "old2 = None" using assms(5,6) stored_record_ok [OF assms(2), of u] assms(3) by simp_all
  then have "r_sismember R (NK (tr_country t1)) u ?s" "r_sismember R (NK (tr_country t2)) u ?s"
    by (simp_all add: register_write_def Let_def redis_laws [OF assms(1)])
  with assms(4) show ?thesis unfolding notif_ok_def by (metis option.inject)
qed

text \<open>Firebase rejects a message for more than 500 tokens, and the service never splits one: a country with more
  registered devices gets no notification at all.\<close>

theorem notify_too_many:
  assumes "redis_store R" "notif_ok R f s" "finite (users_in cc f)" "500 < card (users_in cc f)"
    and limit: "\<And>m. 500 < length (m_tokens m) \<Longrightarrow> \<exists>e. send m = Inl e"
    and "notify_policy_opened R send policy title cc s = (r, s')"
  shows "\<exists>m e. r = Inr (Some m) \<and> send m = Inl e"
proof -
  obtain us where us: "distinct us" "set us = users_in cc f"
    "us \<noteq> [] \<Longrightarrow> \<exists>m. r = Inr (Some m) \<and> m_tokens m = map (device_of f) us"
    by (rule broadcast_ok [OF assms(1,2) assms(6) [unfolded notify_policy_opened_def]]) auto
  then have "500 < length us" using assms(4) distinct_card by metis
  with us(3) limit show ?thesis by (metis length_0_conv length_map not_less_zero)
qed

section \<open>Witnesses\<close>

definition demo_token :: token_record where
  "demo_token = \<lparr>tr_token = ''tok'', tr_platform = ''ios'', tr_country = ''GB''\<rparr>"

definition demo_notified :: mem where
  "demo_notified = snd (register_token redis_mem ''u'' demo_token mem_empty)"

lemma empty_notif_ok: "notif_ok redis_mem (\<lambda>_. None) mem_empty"
  by (simp add: notif_ok_def registered_def mem_defs)

lemma demo_notif_ok: "notif_ok redis_mem [''u'' \<mapsto> demo_token] demo_notified"
proof -
  obtain p s' where r: "register_token redis_mem ''u'' demo_token mem_empty = (p, s')" by fastforce
  from register_token_ok [OF mem.redis_store_axioms empty_notif_ok r] show ?thesis by (simp add: demo_notified_def r)
qed

lemma demo_users_in: "users_in ''GB'' [''u'' \<mapsto> demo_token] = {''u''}"
  by (auto simp: users_in_def demo_token_def split: if_splits)

abbreviation all_stale :: messaging where
  "all_stale \<equiv> (\<lambda>m. Inr (map (\<lambda>_. Some STALE) (m_tokens m)))"


theorem notify_reaches_witness:
  "\<exists>m. fst (notify_policy_opened redis_mem all_stale ''p'' ''t'' ''GB'' demo_notified) = Inr (Some m) \<and>
       m_tokens m = [Some (JStr ''tok'')]"
proof -
  obtain r s' where r: "notify_policy_opened redis_mem all_stale ''p'' ''t'' ''GB'' demo_notified = (r, s')" by fastforce
  from notify_reaches [OF mem.redis_store_axioms demo_notif_ok _ r] obtain us m where
    us: "distinct us" "set us = {''u''}" and m: "r = Inr (Some m)" "m_tokens m = map (device_of [''u'' \<mapsto> demo_token]) us"
    by (auto simp: demo_users_in)
  then have "us = [''u'']" by (cases us rule: remdups_adj.cases) auto
  with r m show ?thesis by (simp add: device_of_def demo_token_def)
qed

theorem erasure_keeps_token_witness:
  "\<exists>m. fst (notify_policy_opened redis_mem all_stale ''p'' ''t'' ''GB'' (snd (erase_user_route ''u'' demo_notified))) = Inr (Some m) \<and>
       Some (JStr ''tok'') \<in> set (m_tokens m)"
proof -
  have t: "[''u'' \<mapsto> demo_token] ''u'' = Some demo_token" by simp
  show ?thesis
    using erasure_keeps_token [OF mem.redis_store_axioms demo_notif_ok t, of "fst (erase_user_route ''u'' demo_notified)"
        "snd (erase_user_route ''u'' demo_notified)" all_stale "''p''" "''t''"
        "fst (notify_policy_opened redis_mem all_stale ''p'' ''t'' ''GB'' (snd (erase_user_route ''u'' demo_notified)))"
        "snd (notify_policy_opened redis_mem all_stale ''p'' ''t'' ''GB'' (snd (erase_user_route ''u'' demo_notified)))"]
    by (simp add: demo_token_def)
qed

theorem register_token_race_witness:
  "\<nexists>g. notif_ok redis_mem g
     (register_write redis_mem ''u'' (demo_token\<lparr>tr_country := ''FR''\<rparr>) None (register_write redis_mem ''u'' demo_token None mem_empty))"
proof -
  have "stored_record redis_mem ''u'' mem_empty = Inr None" using stored_record_ok [OF empty_notif_ok] by simp
  then show ?thesis
    by (intro register_token_race [OF mem.redis_store_axioms empty_notif_ok]) (simp_all add: demo_token_def)
qed

primrec demo_crowd :: "nat \<Rightarrow> mem" where
  "demo_crowd 0 = mem_empty"
| "demo_crowd (Suc n) = snd (register_token redis_mem (nat_str n) demo_token (demo_crowd n))"

definition crowd :: "nat \<Rightarrow> string \<Rightarrow> token_record option" where
  "crowd n u = (if u \<in> nat_str ` {..<n} then Some demo_token else None)"

lemma demo_crowd_ok: "notif_ok redis_mem (crowd n) (demo_crowd n)"
proof (induction n)
  case 0
  have "crowd 0 = (\<lambda>_. None)" by (simp add: crowd_def fun_eq_iff)
  with empty_notif_ok show ?case by simp
next
  case (Suc n)
  obtain p s' where r: "register_token redis_mem (nat_str n) demo_token (demo_crowd n) = (p, s')" by fastforce
  have "crowd (Suc n) = (crowd n)(nat_str n := Some demo_token)"
    by (auto simp: crowd_def fun_eq_iff less_Suc_eq)
  with register_token_ok [OF mem.redis_store_axioms Suc r] r show ?case by (simp del: fun_upd_apply)
qed

theorem notify_too_many_witness:
  "\<exists>m e. fst (notify_policy_opened redis_mem (\<lambda>m. if 500 < length (m_tokens m) then throw ''messaging/invalid-argument'' else Inr [])
            ''p'' ''t'' ''GB'' (demo_crowd 501)) = Inr (Some m)"
proof -
  let ?send = "\<lambda>m. if 500 < length (m_tokens m) then throw ''messaging/invalid-argument'' else Inr []"
  obtain r s' where r: "notify_policy_opened redis_mem ?send ''p'' ''t'' ''GB'' (demo_crowd 501) = (r, s')" by fastforce
  have u: "users_in ''GB'' (crowd 501) = nat_str ` {..<501}" by (auto simp: users_in_def crowd_def demo_token_def split: if_splits)
  have "inj nat_str" by (simp add: inj_def nat_str_inj)
  then have "card (nat_str ` {..<501}) = 501" by (simp add: card_image inj_on_subset)
  with u have "finite (users_in ''GB'' (crowd 501))" "500 < card (users_in ''GB'' (crowd 501))" by simp_all
  from notify_too_many [OF mem.redis_store_axioms demo_crowd_ok this _ r] r show ?thesis by (auto simp: throw_def)
qed

end
