(* ===== verification/App.thy ===== *)
theory App
  imports Http "HOL-Library.Multiset"
begin

text \<open>
  The wiring of the server: which handler Express finds for a request (\<open>app.ts\<close> with the paths the routers of
  \<open>routes/\<close> declare), and the small routers that need nothing else (\<open>routes/health.ts\<close>, \<open>routes/wellKnown.ts\<close>).
  Express matches literals whatever the case of their letters, ignores one final slash, and answers a request that no
  route matches with an HTML page of its own, whose text is a parameter. The handlers are an argument of \<open>serve\<close>, so
  that a client can be put in front of any of them.
\<close>

section \<open>Routing\<close>

datatype http_method = HTTP_GET | HTTP_POST | HTTP_DELETE

datatype seg = Lit string | Param

definition segments :: "string \<Rightarrow> string list" where
  "segments url =
     (let ws = tl (split_on (CHR ''/'') (takeWhile (\<lambda>c. c \<noteq> CHR ''?'') url))
      in if ws \<noteq> [] \<and> last ws = [] then butlast ws else ws)"

definition query_of :: "string \<Rightarrow> string" where
  "query_of url = drop 1 (dropWhile (\<lambda>c. c \<noteq> CHR ''?'') url)"

fun seg_match :: "seg list \<Rightarrow> string list \<Rightarrow> bool" where
  "seg_match [] ws = (ws = [])"
| "seg_match (p # ps) [] = False"
| "seg_match (Lit l # ps) (w # ws) = (to_lower w = l \<and> seg_match ps ws)"
| "seg_match (Param # ps) (w # ws) = (w \<noteq> [] \<and> seg_match ps ws)"

fun params_of :: "seg list \<Rightarrow> string list \<Rightarrow> string list" where
  "params_of (Param # ps) (w # ws) = w # params_of ps ws"
| "params_of (Lit l # ps) (w # ws) = params_of ps ws"
| "params_of ps ws = []"

text \<open>The handlers by name: the mount path with the path inside the router.\<close>

definition lits :: "string list \<Rightarrow> seg list" where "lits = map Lit"

abbreviation api :: "string \<Rightarrow> seg list" where "api r \<equiv> lits [''api'', ''v1'', r]"

type_synonym route = "http_method \<times> seg list \<times> string"

text \<open>In the order of the calls of \<open>app.use\<close>.\<close>

definition ROUTES :: "route list" where
  "ROUTES =
     [(HTTP_GET, lits [''metrics''], ''metrics''),
      (HTTP_GET, lits [''docs''], ''docs''), (HTTP_GET, lits [''docs'', ''openapi.json''], ''openapi''),
      (HTTP_GET, lits [''health''], ''health''),
      (HTTP_GET, api ''countries'', ''countries''), (HTTP_GET, api ''countries'' @ [Param], ''country''),
      (HTTP_GET, api ''policy'', ''policies''), (HTTP_GET, api ''policy'' @ [Param], ''policy''),
      (HTTP_GET, api ''policy'' @ [Param, Lit ''results''], ''policy results''),
      (HTTP_POST, api ''vote'' @ [Lit ''qr''], ''qr vote''),
      (HTTP_POST, api ''vote'', ''vote''), (HTTP_POST, api ''vote'' @ [Lit ''submit''], ''vote''),
      (HTTP_GET, api ''vote'' @ [Lit ''verify''], ''vote verify''), (HTTP_GET, api ''vote'' @ [Lit ''results'', Param], ''vote results''),
      (HTTP_GET, api ''vote'' @ [Lit ''receipt'', Param], ''vote receipt''),
      (HTTP_GET, api ''health'' @ [Lit ''deep''], ''health deep''),
      (HTTP_GET, lits [''.well-known'', ''security.txt''], ''security.txt''),
      (HTTP_GET, api ''did'' @ [Lit ''resolve''], ''did resolve''), (HTTP_POST, api ''did'' @ [Lit ''commitment''], ''did commitment''),
      (HTTP_POST, api ''fido2'' @ lits [''register'', ''options''], ''fido2 register options''),
      (HTTP_POST, api ''fido2'' @ lits [''register'', ''verify''], ''fido2 register verify''),
      (HTTP_POST, api ''fido2'' @ lits [''authenticate'', ''options''], ''fido2 authenticate options''),
      (HTTP_POST, api ''fido2'' @ lits [''authenticate'', ''verify''], ''fido2 authenticate verify''),
      (HTTP_POST, api ''sms'' @ [Lit ''inbound''], ''sms''), (HTTP_POST, api ''ussd'', ''ussd''),
      (HTTP_GET, api ''governance'' @ [Lit ''proposals''], ''proposals''),
      (HTTP_GET, api ''governance'' @ [Lit ''proposals'', Param], ''proposal''),
      (HTTP_POST, api ''governance'' @ [Lit ''proposals'', Param, Lit ''vote''], ''proposal vote''),
      (HTTP_POST, api ''governance'' @ [Lit ''proposals''], ''propose''),
      (HTTP_GET, api ''audit'', ''audit''), (HTTP_GET, api ''audit'' @ [Param, Lit ''verify''], ''audit verify''),
      (HTTP_POST, api ''notifications'' @ [Lit ''register''], ''notification register''),
      (HTTP_DELETE, api ''notifications'' @ [Lit ''register'', Param], ''notification unregister''),
      (HTTP_POST, api ''ipfs'' @ [Lit ''pin''], ''ipfs pin''), (HTTP_GET, api ''ipfs'' @ [Param], ''ipfs document''),
      (HTTP_GET, api ''ipfs'' @ [Param, Lit ''verify''], ''ipfs verify''),
      (HTTP_POST, api ''identity'' @ [Lit ''verify''], ''identity verify''),
      (HTTP_GET, api ''identity'' @ [Lit ''adapters''], ''identity adapters''),
      (HTTP_POST, api ''identity'' @ [Lit ''register''], ''identity register''),
      (HTTP_GET, api ''htally'' @ [Param, Lit ''ciphertexts''], ''htally ciphertexts''),
      (HTTP_GET, api ''htally'' @ [Param, Lit ''results''], ''htally results'')]"

definition find_route :: "http_method \<Rightarrow> string \<Rightarrow> route option" where
  "find_route m url = find (\<lambda>(m', ps, h). m' = m \<and> seg_match ps (segments url)) ROUTES"

type_synonym 's handlers = "string \<Rightarrow> string list \<Rightarrow> string \<Rightarrow> string \<Rightarrow> 's \<Rightarrow> response \<times> 's"

text \<open>\<open>page\<close> is the rest of the HTML page of Express behind its first line.\<close>

definition not_found :: "(http_method \<Rightarrow> string \<Rightarrow> string) \<Rightarrow> http_method \<Rightarrow> string \<Rightarrow> response" where
  "not_found page m url = text_res 404 (''<!DOCTYPE html>'' @ page m url)"

definition serve ::
  "'s handlers \<Rightarrow> (http_method \<Rightarrow> string \<Rightarrow> string) \<Rightarrow> http_method \<Rightarrow> string \<Rightarrow> string \<Rightarrow> 's \<Rightarrow> response \<times> 's" where
  "serve H page m url raw s =
     (case find_route m url of
        None \<Rightarrow> (not_found page m url, s)
      | Some (_, ps, h) \<Rightarrow> H h (params_of ps (segments url)) (query_of url) raw s)"

section \<open>The small routers\<close>

text \<open>A version that is not set is left out of the answer.\<close>

definition health_route :: "string option \<Rightarrow> response" where
  "health_route version =
     json_res 200 (JObj ((''status'', JStr ''ok'') # (case version of None \<Rightarrow> [] | Some v \<Rightarrow> [(''version'', JStr v)])))"

text \<open>\<open>expires\<close> is the date one year on, as an ISO string.\<close>

definition security_route :: "string \<Rightarrow> response" where
  "security_route expires =
     text_res 200 (join [CHR 0x0A]
       [''Contact: mailto:security@thevoteapp.org'',
        ''Contact: https://immunefi.com/bounty/thevoteapp'',
        ''Expires: '' @ expires,
        ''Acknowledgments: https://github.com/TheVoteApp/the-vote-app/blob/main/docs/hall-of-fame.md'',
        ''Preferred-Languages: en'',
        ''Canonical: https://api.thevoteapp.org/.well-known/security.txt'',
        ''Policy: https://github.com/TheVoteApp/the-vote-app/blob/main/.github/SECURITY.md'',
        ''Hiring: https://github.com/TheVoteApp/the-vote-app/blob/main/.github/CONTRIBUTING.md''] @ [CHR 0x0A])"

section \<open>What is served\<close>

definition plain_segment :: "string \<Rightarrow> bool" where
  "plain_segment w \<longleftrightarrow> w \<noteq> [] \<and> CHR ''/'' \<notin> set w \<and> CHR ''?'' \<notin> set w"

lemma takeWhile_no_query: "CHR ''?'' \<notin> set a \<Longrightarrow> takeWhile (\<lambda>c. c \<noteq> CHR ''?'') (a @ b) = a @ takeWhile (\<lambda>c. c \<noteq> CHR ''?'') b"
  by (auto simp: takeWhile_append)

lemma takeWhile_no_query_end: "CHR ''?'' \<notin> set a \<Longrightarrow> takeWhile (\<lambda>c. c \<noteq> CHR ''?'') a = a"
  by (auto simp: takeWhile_eq_all_conv)

lemma split_on_plain: "plain_segment w \<Longrightarrow> split_on (CHR ''/'') (w @ CHR ''/'' # b) = w # split_on (CHR ''/'') b"
  by (simp add: plain_segment_def split_on_append)

lemma segments_under:
  assumes "plain_segment w" "pre = ''/api/v1/'' @ r @ ''/''" "plain_segment r"
  shows "segments (pre @ w) = [''api'', ''v1'', r, w]"
    "segments (pre @ w @ ''/options'') = [''api'', ''v1'', r, w, ''options'']"
  using assms by (simp_all add: segments_def takeWhile_no_query takeWhile_no_query_end plain_segment_def Let_def split_on_append split_on_no_sep)

lemma to_lower_words [simp]:
  "to_lower ''api'' = ''api''" "to_lower ''v1'' = ''v1''" "to_lower ''policy'' = ''policy''" "to_lower ''options'' = ''options''"
  "to_lower ''user'' = ''user''" "to_lower ''certification'' = ''certification''"
  "to_lower ''vote'' = ''vote''" "to_lower ''receipt'' = ''receipt''" "to_lower ''results'' = ''results''"
  by code_simp+

lemma no_options_route:
  assumes "plain_segment w"
  shows "find_route HTTP_GET (''/api/v1/policy/'' @ w @ ''/options'') = None"
  using segments_under(2) [OF assms, of "''/api/v1/policy/''" "''policy''"]
  by (simp add: find_route_def ROUTES_def lits_def plain_segment_def)

text \<open>The endpoints that the web client, the admin pages and the privacy manifest name and the server does not have:
  the options of a policy, the list \<open>/country\<close>, the governance proposals under \<open>/dao\<close>, the creation of a policy, the
  erasure of a user and the issue of a certificate all fall through to Express's 404 page.\<close>

theorem dead_endpoints:
  assumes "plain_segment w"
  shows "find_route HTTP_GET (''/api/v1/policy/'' @ w @ ''/options'') = None \<and>
    find_route HTTP_GET ''/api/v1/country'' = None \<and>
    find_route HTTP_GET ''/api/v1/dao/proposals'' = None \<and>
    find_route HTTP_POST ''/api/v1/policy'' = None \<and>
    find_route HTTP_DELETE (''/api/v1/user/'' @ w) = None \<and>
    find_route HTTP_POST (''/api/v1/certification/'' @ w) = None"
proof -
  have r: "plain_segment ''user''" "plain_segment ''certification''"
    by (simp_all add: plain_segment_def)
  have "find_route HTTP_GET (''/api/v1/policy/'' @ w @ ''/options'') = None"
    by (rule no_options_route [OF assms])
  moreover have "find_route HTTP_DELETE (''/api/v1/user/'' @ w) = None"
    using segments_under(1) [OF assms _ r(1), of "''/api/v1/user/''"] by (simp add: find_route_def ROUTES_def lits_def)
  moreover have "find_route HTTP_POST (''/api/v1/certification/'' @ w) = None"
    using segments_under(1) [OF assms _ r(2), of "''/api/v1/certification/''"] by (simp add: find_route_def ROUTES_def lits_def)
  moreover have "find_route HTTP_GET ''/api/v1/country'' = None" "find_route HTTP_GET ''/api/v1/dao/proposals'' = None"
    "find_route HTTP_POST ''/api/v1/policy'' = None"
    by code_simp+
  ultimately show ?thesis by blast
qed

theorem dead_endpoints_witness:
  "find_route HTTP_GET ''/api/v1/policy/gb-nhs-reform-2026/options'' = None \<and>
   find_route HTTP_GET ''/api/v1/policy/gb-nhs-reform-2026'' \<noteq> None"
proof -
  have "find_route HTTP_GET ''/api/v1/policy/gb-nhs-reform-2026/options'' = None"
    using dead_endpoints [of "''gb-nhs-reform-2026''"] by (simp add: plain_segment_def)
  moreover have "find_route HTTP_GET ''/api/v1/policy/gb-nhs-reform-2026'' \<noteq> None" by code_simp
  ultimately show ?thesis by blast
qed

end
