(* ===== verification/Web_Client.thy ===== *)
theory Web_Client
  imports App Country Vote Fido2
begin

text \<open>
  The web client: the voting page (\<open>app/vote/VoteClientPage.tsx\<close>), the hardware wallet
  (\<open>app/vote/HardwareWalletSigner.ts\<close>), the receipt page (\<open>app/verify/page.tsx\<close>), the admin dashboard
  (\<open>app/admin/page.tsx\<close>), the policy form (\<open>app/admin/policies/page.tsx\<close>), the proposals
  (\<open>app/admin/dao/page.tsx\<close>) and the audit page's loaders (\<open>app/audit/page.tsx\<close>). A page's state is a record, what
  a click does is a function of it, and the browser (WebAuthn, the random source, the clock, the wallet on the USB
  port) is a parameter. The pages talk to the server of theory \<open>App\<close> through \<open>fetch\<close>; markup is not modelled.
\<close>

section \<open>Talking to the server\<close>

type_synonym 's fetch_fn = "http_method \<Rightarrow> string \<Rightarrow> string \<Rightarrow> 's \<Rightarrow> response result \<times> 's"

definition body_text :: "response \<Rightarrow> string" where
  "body_text r = (case body r of Text t \<Rightarrow> t | Json j \<Rightarrow> stringify j | Empty_body \<Rightarrow> [])"

definition res_ok :: "response \<Rightarrow> bool" where
  "res_ok r \<longleftrightarrow> 200 \<le> status r \<and> status r \<le> 299"

text \<open>\<open>await res.json()\<close>\<close>

definition read_json :: "response \<Rightarrow> json result" where
  "read_json r = (case json_parse (body_text r) of None \<Rightarrow> throw ''SyntaxError'' | Some j \<Rightarrow> Inr j)"

definition fetch_json :: "'s fetch_fn \<Rightarrow> http_method \<Rightarrow> string \<Rightarrow> string \<Rightarrow> 's \<Rightarrow> json result \<times> 's" where
  "fetch_json fetch m url raw s = map_prod (\<lambda>r. bind_result r read_json) (\<lambda>x. x) (fetch m url raw s)"

text \<open>A server that is always reached.\<close>

definition online :: "'s handlers \<Rightarrow> (http_method \<Rightarrow> string \<Rightarrow> string) \<Rightarrow> 's fetch_fn" where
  "online H page m url raw s = map_prod Inr (\<lambda>x. x) (serve H page m url raw s)"

section \<open>The hardware wallet\<close>

record vote_payload =
  vp_policy :: "json option"
  vp_option :: "json option"
  vp_nullifier :: string
  vp_country :: string
  vp_timestamp :: int

text \<open>A member that is \<open>undefined\<close> is left out of the text.\<close>

definition opt_member :: "string \<Rightarrow> json option \<Rightarrow> (string \<times> json) list" where
  "opt_member k v = (case v of None \<Rightarrow> [] | Some j \<Rightarrow> [(k, j)])"

definition payload_json :: "vote_payload \<Rightarrow> json" where
  "payload_json p = JObj
     (opt_member ''policyId'' (vp_policy p) @ opt_member ''optionId'' (vp_option p) @
      [(''nullifier'', JStr (vp_nullifier p)), (''countryCode'', JStr (vp_country p)),
       (''timestamp'', JNum (vp_timestamp p))])"

definition typed_field :: "string \<Rightarrow> string \<Rightarrow> json" where
  "typed_field n t = JObj [(''name'', JStr n), (''type'', JStr t)]"

definition EIP712_DOMAIN :: json where
  "EIP712_DOMAIN = JObj [(''name'', JStr ''TheVoteApp''), (''version'', JStr ''1''), (''chainId'', JNum 1)]"

definition EIP712_VOTE :: json where
  "EIP712_VOTE = JArr
     [typed_field ''policyId'' ''string'', typed_field ''optionId'' ''string'', typed_field ''nullifier'' ''bytes32'',
      typed_field ''countryCode'' ''string'', typed_field ''timestamp'' ''uint256'']"

record device =
  d_create :: "string option result"
  d_address :: "string result"
  d_sign :: "json \<Rightarrow> (string \<times> string \<times> nat) result"

record hw_signer =
  hw_transport :: bool
  hw_app :: bool
  hw_address :: string

definition new_signer :: hw_signer where
  "new_signer = \<lparr>hw_transport = False, hw_app = False, hw_address = []\<rparr>"

definition hw_connect :: "device \<Rightarrow> hw_signer \<Rightarrow> (string \<times> string) result \<times> hw_signer" where
  "hw_connect D h =
     (case d_create D of
        Inl e \<Rightarrow> (Inl e, h)
      | Inr model \<Rightarrow>
          (let h1 = h\<lparr>hw_transport := True, hw_app := True\<rparr>
           in case d_address D of
                Inl e \<Rightarrow> (Inl e, h1)
              | Inr a \<Rightarrow> (Inr (a, case model of None \<Rightarrow> ''Ledger'' | Some m \<Rightarrow> m), h1\<lparr>hw_address := a\<rparr>)))"

text \<open>\<open>n.toString(16)\<close>\<close>

fun nat_hex :: "nat \<Rightarrow> string" where
  "nat_hex n = (if n < 16 then [hex_digit n] else nat_hex (n div 16) @ [hex_digit (n mod 16)])"

declare nat_hex.simps [simp del]

definition rsv_signature :: "string \<Rightarrow> string \<Rightarrow> nat \<Rightarrow> string" where
  "rsv_signature r s v =
     ''0x'' @ pad_start 64 (CHR ''0'') r @ pad_start 64 (CHR ''0'') s @ pad_start 2 (CHR ''0'') (nat_hex (v + 27))"

definition typed_data :: "vote_payload \<Rightarrow> json" where
  "typed_data p = JObj
     [(''domain'', EIP712_DOMAIN), (''types'', JObj [(''Vote'', EIP712_VOTE)]), (''primaryType'', JStr ''Vote''),
      (''message'', payload_json p)]"

record signed_vote =
  sv_address :: string
  sv_signature :: string
  sv_payload :: vote_payload

definition hw_sign_vote :: "device \<Rightarrow> vote_payload \<Rightarrow> hw_signer \<Rightarrow> signed_vote result" where
  "hw_sign_vote D p h =
     (if \<not> hw_app h then throw (''Not connected '' @ [CHR 0xE2, CHR 0x80, CHR 0x94] @ '' call connect() first'')
      else bind_result (d_sign D (typed_data p)) (\<lambda>(r, s, v).
             Inr \<lparr>sv_address = hw_address h, sv_signature = rsv_signature r s v, sv_payload = p\<rparr>))"

definition hw_disconnect :: "hw_signer \<Rightarrow> hw_signer" where
  "hw_disconnect h = \<lparr>hw_transport = False, hw_app = False, hw_address = []\<rparr>"

definition DERIVATION :: string where
  "DERIVATION = (let q = [CHR 0x27] in ''44'' @ q @ ''/60'' @ q @ ''/0'' @ q @ ''/0/0'')"

text \<open>Trezor: \<open>connect\<close> answers with a failure's error or with address and signature.\<close>

definition sign_with_trezor ::
  "unit result \<Rightarrow> (json \<Rightarrow> (string + string \<times> string) result) \<Rightarrow> vote_payload \<Rightarrow> signed_vote result" where
  "sign_with_trezor init connect p =
     bind_result init (\<lambda>_.
     bind_result (connect (JObj
         [(''path'', JStr (''m/'' @ DERIVATION)), (''data'', JObj
            [(''types'', JObj
               [(''EIP712Domain'', JArr [typed_field ''name'' ''string'', typed_field ''version'' ''string'', typed_field ''chainId'' ''uint256'']),
                (''Vote'', EIP712_VOTE)]),
             (''primaryType'', JStr ''Vote''), (''domain'', EIP712_DOMAIN), (''message'', payload_json p)]),
          (''metamask_v4_compat'', JBool True)])) (\<lambda>answer.
       case answer of
         Inl e \<Rightarrow> throw e
       | Inr (a, sg) \<Rightarrow> Inr \<lparr>sv_address = a, sv_signature = sg, sv_payload = p\<rparr>))"

section \<open>The voting page\<close>

datatype phase =
    P_country | P_policies | P_options | P_authenticating | P_hw_connecting | P_hw_awaiting | P_submitting
  | P_confirmed | P_error

record vote_page =
  phase :: phase
  country_code :: string
  policies :: json
  selected_policy :: "json option"
  options :: json
  selected_option :: "json option"
  receipt :: "json option"
  page_error :: string
  hw_device :: string
  signer :: "hw_signer option"
  vote_user :: "string option"

definition page_start :: "string option \<Rightarrow> vote_page" where
  "page_start user =
     \<lparr>phase = P_country, country_code = [], policies = JArr [], selected_policy = None, options = JArr [], selected_option = Some (JStr []),
      receipt = None, page_error = [], hw_device = [], signer = None, vote_user = user\<rparr>"

definition PAGE_COUNTRIES :: "(string \<times> string) list" where
  "PAGE_COUNTRIES =
     [(''GB'', ''United Kingdom''), (''US'', ''United States''), (''FR'', ''France''), (''DE'', ''Germany''), (''IN'', ''India''),
      (''JP'', ''Japan''), (''AU'', ''Australia''), (''CA'', ''Canada''), (''BR'', ''Brazil''), (''ZA'', ''South Africa'')]"

definition page_fail :: "string \<Rightarrow> vote_page \<Rightarrow> vote_page" where
  "page_fail e w = w\<lparr>page_error := e, phase := P_error\<rparr>"

definition load_policies :: "'s fetch_fn \<Rightarrow> string \<Rightarrow> vote_page \<Rightarrow> 's \<Rightarrow> vote_page \<times> 's" where
  "load_policies fetch cc w s =
     (let w1 = w\<lparr>country_code := cc, phase := P_policies\<rparr>
      in case fetch_json fetch HTTP_GET (''/api/v1/policy?countryCode='' @ cc @ ''&status=open'') [] s of
           (Inl e, s') \<Rightarrow> (page_fail ''Failed to load policies.'' w1, s')
         | (Inr j, s') \<Rightarrow> (w1\<lparr>policies := j\<rparr>, s'))"

definition select_policy :: "'s fetch_fn \<Rightarrow> json \<Rightarrow> vote_page \<Rightarrow> 's \<Rightarrow> vote_page \<times> 's" where
  "select_policy fetch p w s =
     (let w1 = w\<lparr>selected_policy := Some p\<rparr>
      in case fetch_json fetch HTTP_GET (''/api/v1/policy/'' @ template (json_get ''id'' p) @ ''/options'') [] s of
           (Inl e, s') \<Rightarrow> (page_fail ''Failed to load vote options.'' w1, s')
         | (Inr j, s') \<Rightarrow> (w1\<lparr>options := j, phase := P_options\<rparr>, s'))"

text \<open>The browser at one click: the WebAuthn dialogue, 32 random bytes, the clock, a fresh UUID and the device.\<close>

record browser =
  br_authenticate :: "json \<Rightarrow> json result"
  br_random :: string
  br_now :: int
  br_uuid :: string
  br_device :: device
  br_usb :: bool
  br_date :: "json option \<Rightarrow> string"

definition get_or_create_user :: "browser \<Rightarrow> vote_page \<Rightarrow> string \<times> vote_page" where
  "get_or_create_user B w =
     (case vote_user w of
        Some u \<Rightarrow> if u = [] then (br_uuid B, w\<lparr>vote_user := Some (br_uuid B)\<rparr>) else (u, w)
      | None \<Rightarrow> (br_uuid B, w\<lparr>vote_user := Some (br_uuid B)\<rparr>))"

definition login :: "'s fetch_fn \<Rightarrow> browser \<Rightarrow> string \<Rightarrow> 's \<Rightarrow> unit result \<times> 's" where
  "login fetch B u s =
     (case fetch_json fetch HTTP_POST ''/api/v1/fido2/authenticate/options'' (stringify (JObj [(''userId'', JStr u)])) s of
        (r, s1) \<Rightarrow>
          (case bind_result r (br_authenticate B) of
             Inl e \<Rightarrow> (Inl e, s1)
           | Inr assertion \<Rightarrow>
               (case fetch HTTP_POST ''/api/v1/fido2/authenticate/verify'' (stringify (JObj [(''userId'', JStr u), (''response'', assertion)])) s1 of
                  (r2, s2) \<Rightarrow>
                    (bind_result r2 (\<lambda>res. if res_ok res then Inr () else throw ''Authentication failed''), s2))))"

definition empty_proof :: json where
  "empty_proof = JObj [(''pi_a'', JArr []), (''pi_b'', JArr []), (''pi_c'', JArr []), (''publicSignals'', JArr [])]"

definition vote_body :: "json option \<Rightarrow> json option \<Rightarrow> string \<Rightarrow> string \<Rightarrow> (string \<times> json) list \<Rightarrow> int \<Rightarrow> json" where
  "vote_body policy opt nullifier signature extra stamp = JObj
     (opt_member ''policyId'' policy @ opt_member ''optionId'' opt @
      [(''voterNullifier'', JStr nullifier), (''zkProof'', empty_proof), (''signature'', JStr signature)] @
      extra @ [(''timestamp'', JNum stamp)])"

text \<open>\<open>voteData.receipt ?? voteData\<close>\<close>

definition receipt_of :: "json \<Rightarrow> json result" where
  "receipt_of j =
     (if j = JNull then throw ''TypeError''
      else Inr (if nullish (json_get ''receipt'' j) then j else the (json_get ''receipt'' j)))"

definition post_vote :: "'s fetch_fn \<Rightarrow> json \<Rightarrow> vote_page \<Rightarrow> 's \<Rightarrow> vote_page \<times> 's" where
  "post_vote fetch b w s =
     (case fetch_json fetch HTTP_POST ''/api/v1/vote/submit'' (stringify b) s of
        (r, s') \<Rightarrow>
          (case bind_result r receipt_of of
             Inl e \<Rightarrow> (page_fail e w, s')
           | Inr j \<Rightarrow> (w\<lparr>receipt := Some j, phase := P_confirmed\<rparr>, s')))"

definition page_submit :: "'s fetch_fn \<Rightarrow> browser \<Rightarrow> vote_page \<Rightarrow> 's \<Rightarrow> vote_page \<times> 's" where
  "page_submit fetch B w s =
     (case selected_policy w of
        None \<Rightarrow> (w, s)
      | Some p \<Rightarrow>
          if \<not> js_truthy (selected_option w) then (w, s)
          else (case get_or_create_user B w of
                  (u, w1) \<Rightarrow>
                    (case login fetch B u s of
                       (Inl e, s1) \<Rightarrow> (page_fail e w1, s1)
                     | (Inr _, s1) \<Rightarrow>
                         post_vote fetch
                           (vote_body (json_get ''id'' p) (selected_option w) (hex_str (br_random B)) [] [] (br_now B)) w1 s1)))"

definition the_signer :: "vote_page \<Rightarrow> hw_signer" where
  "the_signer w = (case signer w of None \<Rightarrow> new_signer | Some h \<Rightarrow> h)"

definition page_submit_hw :: "'s fetch_fn \<Rightarrow> browser \<Rightarrow> vote_page \<Rightarrow> 's \<Rightarrow> vote_page \<times> 's" where
  "page_submit_hw fetch B w s =
     (case selected_policy w of
        None \<Rightarrow> (w, s)
      | Some p \<Rightarrow>
          if \<not> js_truthy (selected_option w) then (w, s)
          else (case hw_connect (br_device B) (the_signer w) of
                  (Inl e, h) \<Rightarrow> (page_fail e w\<lparr>signer := Some (hw_disconnect h)\<rparr>, s)
                | (Inr (address, model), h) \<Rightarrow>
                    (let w1 = w\<lparr>signer := Some (hw_disconnect h), hw_device := model\<rparr>;
                         nullifier = hex_str (br_random B);
                         payload = \<lparr>vp_policy = json_get ''id'' p, vp_option = selected_option w, vp_nullifier = nullifier,
                                    vp_country = country_code w, vp_timestamp = br_now B\<rparr>
                     in case hw_sign_vote (br_device B) payload h of
                          Inl e \<Rightarrow> (page_fail e w1, s)
                        | Inr sv \<Rightarrow>
                            post_vote fetch
                              (vote_body (vp_policy payload) (vp_option payload) nullifier (sv_signature sv)
                                 [(''signerAddress'', JStr address)] (vp_timestamp payload)) w1 s)))"

section \<open>What the page shows\<close>

datatype click =
    Country_Button string
  | Policy_Card json
  | Option_Radio json
  | Submit_Button
  | Hardware_Button
  | Start_Again

text \<open>The text, values, cards, radio buttons and buttons on the page. A card shows a policy's title, description and closing date.\<close>

datatype widget =
    Label string
  | Value "json option"
  | Row string "json option"
  | Card click "json option" "json option" string
  | Radio bool click "json option"
  | Button bool click string

definition elements :: "json \<Rightarrow> json list" where
  "elements j = (case j of JArr vs \<Rightarrow> vs | _ \<Rightarrow> [])"

text \<open>An object is no child React can render; \<open>undefined\<close> renders nothing.\<close>

fun renders :: "json \<Rightarrow> bool" where
  "renders (JObj ms) = False"
| "renders (JArr vs) = list_all renders vs"
| "renders j = True"

definition child_ok :: "string \<Rightarrow> json \<Rightarrow> bool" where
  "child_ok k p = (case json_get k p of None \<Rightarrow> True | Some v \<Rightarrow> renders v)"

text \<open>\<open>x.length === 0\<close> for \<open>x\<close> not null.\<close>

definition length_zero :: "json \<Rightarrow> bool" where
  "length_zero x =
     (case x of JArr vs \<Rightarrow> vs = [] | JStr t \<Rightarrow> t = [] | JObj ms \<Rightarrow> json_get ''length'' x = Some (JNum 0) | _ \<Rightarrow> False)"

definition show_list :: "(json \<Rightarrow> bool) \<Rightarrow> (json \<Rightarrow> widget) \<Rightarrow> json \<Rightarrow> widget list option" where
  "show_list ok f j =
     (case j of JArr vs \<Rightarrow> if list_all (\<lambda>v. v \<noteq> JNull \<and> ok v) vs then Some (map f vs) else None | _ \<Rightarrow> None)"

definition show_policies :: "(json option \<Rightarrow> string) \<Rightarrow> vote_page \<Rightarrow> widget list option" where
  "show_policies date w =
     map_option (\<lambda>us. Label (''Open policies '' @ [CHR 0xE2, CHR 0x80, CHR 0x94] @ '' '' @ country_code w) # us)
       (if length_zero (policies w) then Some [Label ''No open policies at this time.'']
        else show_list (\<lambda>p. child_ok ''title'' p \<and> child_ok ''description'' p)
               (\<lambda>p. Card (Policy_Card p) (json_get ''title'' p) (json_get ''description'' p)
                      (''Closes: '' @ date (json_get ''closesAt'' p))) (policies w))"

definition show_options :: "bool \<Rightarrow> vote_page \<Rightarrow> json \<Rightarrow> widget list option" where
  "show_options usb w p =
     (let enabled = js_truthy (selected_option w)
      in if child_ok ''title'' p \<and> child_ok ''description'' p
         then map_option
                (\<lambda>us. [Value (json_get ''title'' p), Value (json_get ''description'' p)] @ us @
                      [Button enabled Submit_Button ''Submit Vote (Passkey / Security Key)''] @
                      (if usb then [Button enabled Hardware_Button ''Sign with Hardware Wallet (Ledger / Trezor)''] else []))
                (show_list (child_ok ''label'')
                   (\<lambda>x. Radio (selected_option w = json_get ''id'' x) (Option_Radio x) (json_get ''label'' x)) (options w))
         else None)"

definition show_receipt :: "json \<Rightarrow> widget list option" where
  "show_receipt j =
     (if child_ok ''transactionHash'' j \<and> child_ok ''blockNumber'' j \<and> child_ok ''nullifier'' j
      then Some [Label ''Vote confirmed on-chain'', Row ''Transaction'' (json_get ''transactionHash'' j),
                 Row ''Block'' (json_get ''blockNumber'' j), Row ''Nullifier'' (json_get ''nullifier'' j)]
      else None)"

definition dots :: "string \<Rightarrow> string" where
  "dots t = t @ [CHR 0xE2, CHR 0x80, CHR 0xA6]"

text \<open>What is rendered, \<open>None\<close> when rendering throws.\<close>

definition page_view :: "browser \<Rightarrow> vote_page \<Rightarrow> widget list option" where
  "page_view B w =
     (case phase w of
        P_country \<Rightarrow> Some (Label ''Select your country'' # map (\<lambda>(cc, n). Button True (Country_Button cc) n) PAGE_COUNTRIES)
      | P_policies \<Rightarrow> show_policies (br_date B) w
      | P_options \<Rightarrow>
          if js_truthy (selected_policy w) then show_options (br_usb B) w (the (selected_policy w)) else Some []
      | P_authenticating \<Rightarrow> Some [Label (dots ''Waiting for security key or passkey'')]
      | P_hw_connecting \<Rightarrow>
          Some [Label (dots (''Connecting to hardware wallet '' @ [CHR 0xE2, CHR 0x80, CHR 0x94] @
                  '' select your device in the browser prompt''))]
      | P_hw_awaiting \<Rightarrow>
          Some [Label (dots (''Review and confirm your vote on '' @
                  (if hw_device w = [] then ''your hardware wallet'' else hw_device w)))]
      | P_submitting \<Rightarrow> Some [Label (dots ''Recording vote on blockchain'')]
      | P_confirmed \<Rightarrow> if js_truthy (receipt w) then show_receipt (the (receipt w)) else Some []
      | P_error \<Rightarrow> Some [Label (page_error w), Button True Start_Again ''Start again''])"

section \<open>A click\<close>

fun pressable :: "widget \<Rightarrow> click option" where
  "pressable (Card c t d e) = Some c"
| "pressable (Radio b c l) = Some c"
| "pressable (Button True c l) = Some c"
| "pressable x = None"

fun press :: "'s fetch_fn \<Rightarrow> browser \<Rightarrow> click \<Rightarrow> vote_page \<Rightarrow> 's \<Rightarrow> vote_page \<times> 's" where
  "press fetch B (Country_Button cc) w s = load_policies fetch cc w s"
| "press fetch B (Policy_Card p) w s = select_policy fetch p w s"
| "press fetch B (Option_Radio x) w s = (w\<lparr>selected_option := json_get ''id'' x\<rparr>, s)"
| "press fetch B Submit_Button w s = page_submit fetch B w s"
| "press fetch B Hardware_Button w s = page_submit_hw fetch B w s"
| "press fetch B Start_Again w s = (w\<lparr>phase := P_country, page_error := []\<rparr>, s)"

inductive page_step :: "'s fetch_fn \<Rightarrow> browser \<Rightarrow> click \<Rightarrow> vote_page \<times> 's \<Rightarrow> vote_page \<times> 's \<Rightarrow> bool" for fetch B where
  Press: "page_view B w = Some ui \<Longrightarrow> Some c \<in> pressable ` set ui \<Longrightarrow> page_step fetch B c (w, s) (press fetch B c w s)"

inductive_cases page_stepE: "page_step fetch B c (w, s) st'"

text \<open>Which phase shows which control.\<close>

fun offered :: "click \<Rightarrow> vote_page \<Rightarrow> bool" where
  "offered (Country_Button cc) w = (phase w = P_country \<and> cc \<in> fst ` set PAGE_COUNTRIES)"
| "offered (Policy_Card p) w = (phase w = P_policies \<and> p \<in> set (elements (policies w)))"
| "offered (Option_Radio x) w = (phase w = P_options \<and> x \<in> set (elements (options w)))"
| "offered Submit_Button w = (phase w = P_options \<and> js_truthy (selected_option w))"
| "offered Hardware_Button w = (phase w = P_options \<and> js_truthy (selected_option w))"
| "offered Start_Again w = (phase w = P_error)"

lemma show_list_pressable:
  "show_list ok f j = Some us \<Longrightarrow> x \<in> set us \<Longrightarrow> \<exists>v \<in> set (elements j). x = f v"
  by (auto simp: show_list_def elements_def split: json.splits if_splits)

lemma pressable_offered:
  assumes "page_view B w = Some ui" "Some c \<in> pressable ` set ui"
  shows "offered c w"
proof (cases "phase w")
  case P_policies
  with assms show ?thesis
    by (auto simp: page_view_def show_policies_def split: if_splits dest!: show_list_pressable)
next
  case P_options
  with assms show ?thesis
    by (cases "js_truthy (selected_option w)")
      (auto simp: page_view_def show_options_def Let_def split: if_splits; drule (1) show_list_pressable; auto)+
qed (use assms in \<open>auto simp: page_view_def show_receipt_def rev_image_eqI split: if_splits\<close>)

section \<open>The other pages\<close>

text \<open>The receipt page. \<open>None\<close> in \<open>vr_shown\<close> is ``Transaction not found''; a found receipt shows the members of the answer.\<close>

record verify_page =
  vr_shown :: "json option option"
  vr_error :: string

definition verify_receipt :: "'s fetch_fn \<Rightarrow> string \<Rightarrow> verify_page \<Rightarrow> 's \<Rightarrow> verify_page \<times> 's" where
  "verify_receipt fetch tx w s =
     (if \<not> hex_of_length 64 tx then (w\<lparr>vr_error := ''Enter a valid 0x-prefixed 32-byte transaction hash.''\<rparr>, s)
      else (case fetch HTTP_GET (''/api/v1/vote/receipt/'' @ tx) [] s of
              (Inl e, s') \<Rightarrow> (\<lparr>vr_shown = None, vr_error = e\<rparr>, s')
            | (Inr res, s') \<Rightarrow>
                if status res = 404 then (\<lparr>vr_shown = Some None, vr_error = []\<rparr>, s')
                else if \<not> res_ok res then (\<lparr>vr_shown = None, vr_error = ''Server error '' @ nat_str (status res)\<rparr>, s')
                else (case read_json res of
                        Inl e \<Rightarrow> (\<lparr>vr_shown = None, vr_error = e\<rparr>, s')
                      | Inr j \<Rightarrow> (\<lparr>vr_shown = Some (Some j), vr_error = []\<rparr>, s'))))"

text \<open>The admin dashboard: three counts, all zero when one of the two requests fails.\<close>

record dashboard =
  policy_count :: nat
  open_count :: nat
  country_count :: nat

definition is_open :: "json \<Rightarrow> bool" where
  "is_open p \<longleftrightarrow> json_get ''status'' p = Some (JStr ''open'')"

definition fetch_stats :: "'s fetch_fn \<Rightarrow> 's \<Rightarrow> dashboard \<times> 's" where
  "fetch_stats fetch s =
     (case fetch_json fetch HTTP_GET ''/api/v1/policy'' [] s of
        (r1, s1) \<Rightarrow>
          (case fetch_json fetch HTTP_GET ''/api/v1/country'' [] s1 of
             (r2, s2) \<Rightarrow>
               (case bind_result r1 (\<lambda>ps. bind_result r2 (\<lambda>cs. Inr (ps, cs))) of
                  Inl e \<Rightarrow> (\<lparr>policy_count = 0, open_count = 0, country_count = 0\<rparr>, s2)
                | Inr (ps, cs) \<Rightarrow>
                    (\<lparr>policy_count = length (elements ps), open_count = length (filter is_open (elements ps)),
                      country_count = length (elements cs)\<rparr>, s2))))"

text \<open>The form for a new policy; \<open>multipart\<close> is the form data with the file and the id.\<close>

record policy_form =
  pf_title :: string
  pf_description :: string
  pf_country :: string
  pf_closes :: string
  pf_file :: "string option"

datatype form_result = Form_Error string | Form_Success string | Form_Thrown string

definition policy_body :: "string \<Rightarrow> policy_form \<Rightarrow> json option \<Rightarrow> json" where
  "policy_body pid f cid = JObj
     ([(''id'', JStr pid), (''title'', JStr (pf_title f)), (''description'', JStr (pf_description f)),
       (''countryCode'', JStr (to_upper (pf_country f))), (''closesAt'', JStr (pf_closes f))] @ opt_member ''documentCid'' cid)"

definition pin_file :: "'s fetch_fn \<Rightarrow> (string \<Rightarrow> string \<Rightarrow> string) \<Rightarrow> string \<Rightarrow> string option \<Rightarrow> 's \<Rightarrow> (form_result + json option) \<times> 's" where
  "pin_file fetch multipart pid content s =
     (case content of
        None \<Rightarrow> (Inr None, s)
      | Some c \<Rightarrow>
          (case fetch HTTP_POST ''/api/v1/ipfs/pin'' (multipart c pid) s of
             (Inl e, s') \<Rightarrow> (Inl (Form_Thrown e), s')
           | (Inr res, s') \<Rightarrow>
               if \<not> res_ok res then (Inl (Form_Error ''IPFS upload failed''), s')
               else (case read_json res of
                       Inl e \<Rightarrow> (Inl (Form_Thrown e), s')
                     | Inr j \<Rightarrow> if j = JNull then (Inl (Form_Thrown ''TypeError''), s') else (Inr (json_get ''cid'' j), s'))))"

definition create_policy :: "'s fetch_fn \<Rightarrow> (string \<Rightarrow> string \<Rightarrow> string) \<Rightarrow> int \<Rightarrow> policy_form \<Rightarrow> 's \<Rightarrow> form_result \<times> 's" where
  "create_policy fetch multipart ms f s =
     (case pin_file fetch multipart (''pol-'' @ int_str ms) (pf_file f) s of
        (Inl r, s1) \<Rightarrow> (r, s1)
      | (Inr cid, s1) \<Rightarrow>
          (case fetch HTTP_POST ''/api/v1/policy'' (stringify (policy_body (''pol-'' @ int_str ms) f cid)) s1 of
             (Inl e, s2) \<Rightarrow> (Form_Thrown e, s2)
           | (Inr res, s2) \<Rightarrow>
               if \<not> res_ok res then (Form_Error ''Failed to create policy'', s2)
               else (Form_Success (''Policy created'' @
                       (if js_truthy cid then '' '' @ [CHR 0xE2, CHR 0x80, CHR 0x94] @ '' IPFS CID: '' @ template cid else [])), s2)))"

text \<open>The governance page's proposals, and the audit page's loaders and percentages.\<close>

definition fetch_proposals :: "'s fetch_fn \<Rightarrow> 's \<Rightarrow> json list \<times> 's" where
  "fetch_proposals fetch s =
     map_prod (\<lambda>r. case r of Inl e \<Rightarrow> [] | Inr j \<Rightarrow> elements j) (\<lambda>x. x) (fetch_json fetch HTTP_GET ''/api/v1/dao/proposals'' [] s)"

definition audit_policies :: "'s fetch_fn \<Rightarrow> 's \<Rightarrow> json \<times> 's" where
  "audit_policies fetch s =
     (case fetch HTTP_GET ''/api/v1/policy'' [] s of
        (r, s') \<Rightarrow>
          (case bind_result r (\<lambda>res. if res_ok res then read_json res else Inr (JArr [])) of Inl e \<Rightarrow> JArr [] | Inr j \<Rightarrow> j, s'))"

definition audit_tally :: "'s fetch_fn \<Rightarrow> string \<Rightarrow> 's \<Rightarrow> json option \<times> 's" where
  "audit_tally fetch pid s =
     (case fetch HTTP_GET (''/api/v1/policy/'' @ pid @ ''/results'') [] s of
        (r, s') \<Rightarrow>
          (case bind_result r (\<lambda>res. if res_ok res then read_json res else throw ''not ok'') of
             Inl e \<Rightarrow> None
           | Inr j \<Rightarrow> if nullish (json_get ''tally'' j) then None else json_get ''tally'' j, s'))"

text \<open>\<open>total > 0 ? Math.round((count / total) * 100) : 0\<close>, for exact quotients.\<close>

definition bar_percent :: "nat \<Rightarrow> nat \<Rightarrow> nat" where
  "bar_percent k n = (if 0 < n then (200 * k + n) div (2 * n) else 0)"

section \<open>The server's end of a vote\<close>

text \<open>\<open>voteSchema\<close> on the parsed body; a number that is no safe integer is rejected.\<close>

fun int_of :: "json \<Rightarrow> int option" where
  "int_of (JNum i) = Some i"
| "int_of _ = None"

definition zk_proof_of :: "json \<Rightarrow> zk_proof option" where
  "zk_proof_of j = do {
     a \<leftarrow> member_as (list_of str_of) ''pi_a'' j;
     b \<leftarrow> member_as (list_of (list_of str_of)) ''pi_b'' j;
     c \<leftarrow> member_as (list_of str_of) ''pi_c'' j;
     ps \<leftarrow> member_as (list_of str_of) ''publicSignals'' j;
     Some \<lparr>pi_a = a, pi_b = b, pi_c = c, public_signals = ps\<rparr> }"

definition vote_request_of :: "json \<Rightarrow> vote_request option" where
  "vote_request_of j = do {
     p \<leftarrow> member_as str_of ''policyId'' j;
     x \<leftarrow> member_as str_of ''optionId'' j;
     n \<leftarrow> member_as str_of ''voterNullifier'' j;
     z \<leftarrow> member_as zk_proof_of ''zkProof'' j;
     g \<leftarrow> member_as str_of ''signature'' j;
     t \<leftarrow> member_as int_of ''timestamp'' j;
     let r = \<lparr>vr_policy = p, vr_option = x, vr_nullifier = n, vr_proof = z, vr_signature = g, vr_timestamp = t\<rparr>
     in if vote_schema r then Some r else None }"

text \<open>
  \<open>express.json()\<close> in front of the route; \<open>iss\<close> are the issues zod reports for a rejected body. The state is what
  the other routes use and the ledger's.
\<close>

definition vote_endpoint ::
  "(json \<Rightarrow> issue list) \<Rightarrow> 'k crypto \<Rightarrow> 'c send \<Rightarrow> int \<Rightarrow> int \<Rightarrow> string \<Rightarrow> 'o \<times> 'c \<Rightarrow> response \<times> 'o \<times> 'c" where
  "vote_endpoint iss X send t t' raw s =
     (case json_parse raw of
        None \<Rightarrow> (error_handler ''SyntaxError'', s)
      | Some j \<Rightarrow>
          (case vote_route (\<lambda>j. case vote_request_of j of None \<Rightarrow> Inl (iss j) | Some r \<Rightarrow> Inr r) X send t t' j (snd s) of
             (res, c) \<Rightarrow> (res, (fst s, c))))"

section \<open>A vote the client sends is never valid\<close>

lemma html_no_json: "json_parse (CHR ''<'' # t) = None"
  by (simp add: json_parse_def parse_fuel_def skip_ws_def json_ws_def code_def literal_def parse_number_def parse_unsigned_def
      int_digits_def is_digit_def)

lemma dead_fetch:
  "find_route m url = None \<Longrightarrow> fetch_json (online H page) m url raw s = (throw ''SyntaxError'', s)"
  by (simp add: fetch_json_def online_def serve_def not_found_def read_json_def body_text_def text_res_def html_no_json throw_def)

lemma vote_served:
  "serve H page HTTP_POST ''/api/v1/vote/submit'' raw s = H ''vote'' [] [] raw s"
proof -
  have "find_route HTTP_POST ''/api/v1/vote/submit'' = Some (HTTP_POST, api ''vote'' @ [Lit ''submit''], ''vote'')" by code_simp
  moreover have "params_of (api ''vote'' @ [Lit ''submit'']) (segments ''/api/v1/vote/submit'') = []" by code_simp
  moreover have "query_of ''/api/v1/vote/submit'' = []" by code_simp
  ultimately show ?thesis by (simp add: serve_def)
qed

lemma empty_proof_invalid:
  assumes "''zkProof'' \<notin> fst ` set extra"
  shows "vote_request_of (vote_body policy opt nullifier signature extra stamp) = None"
proof -
  have "json_get ''zkProof'' (vote_body policy opt nullifier signature extra stamp) = Some empty_proof"
  proof -
    have "map_of (rev extra) ''zkProof'' = None" using assms by (simp add: map_of_eq_None_iff)
    then show ?thesis by (simp add: vote_body_def map_add_def)
  qed
  then have z: "member_as zk_proof_of ''zkProof'' (vote_body policy opt nullifier signature extra stamp) =
      Some \<lparr>pi_a = [], pi_b = [], pi_c = [], public_signals = []\<rparr>"
    by (simp add: member_as_def zk_proof_of_def empty_proof_def)
  show ?thesis
    unfolding vote_request_of_def z by (auto simp: vote_schema_def Let_def split: Option.bind_splits)
qed

lemma issues_plain: "json_plain (issues_json is)"
  by (simp add: issues_json_def list_all_iff)

lemma issues_get: "json_get ''receipt'' (issues_json is) = None" "json_get ''transactionHash'' (issues_json is) = None"
  by (simp_all add: issues_json_def)

lemma vote_endpoint_rejects:
  assumes "json_plain b" "vote_request_of b = None"
  shows "vote_endpoint iss X send t t' (stringify b) s = (json_res 400 (issues_json (iss b)), s)"
  using assms
  by (simp add: vote_endpoint_def json_roundtrip vote_route_def validate_request_def)

lemma post_vote_confirms:
  assumes vote: "H ''vote'' = (\<lambda>ps q raw. vote_endpoint iss X send t t' raw)"
    and b: "json_plain b" "vote_request_of b = None"
  shows "post_vote (online H page) b w s = (w\<lparr>receipt := Some (issues_json (iss b)), phase := P_confirmed\<rparr>, s)"
proof -
  have "issues_json (iss b) \<noteq> JNull" by (simp add: issues_json_def)
  then show ?thesis
    by (simp add: post_vote_def fetch_json_def online_def vote_served vote vote_endpoint_rejects [OF b] read_json_def body_text_def
        json_res_def json_roundtrip [OF issues_plain] receipt_of_def issues_get nullish_def)
qed

lemma vote_body_plain:
  assumes "\<And>j. policy = Some j \<Longrightarrow> json_plain j" "\<And>j. opt = Some j \<Longrightarrow> json_plain j" "list_all (\<lambda>kv. json_plain (snd kv)) extra" "nat \<bar>stamp\<bar> \<le> max_safe"
  shows "json_plain (vote_body policy opt nullifier signature extra stamp)"
  using assms by (cases policy; cases opt) (auto simp: vote_body_def empty_proof_def opt_member_def)

lemma json_get_plain: "json_plain p \<Longrightarrow> json_get k p = Some j \<Longrightarrow> json_plain j"
  by (cases p) (fastforce simp: list_all_iff dest!: map_of_SomeD)+

text \<open>A vote submitted with a passkey is refused by the server, since the page sends an empty proof, and shown as
  confirmed: after a successful login the page ends in the phase ``confirmed'' with a receipt that has no transaction,
  and the ledger is the one before.\<close>

theorem web_confirms_rejected_vote:
  assumes "H ''vote'' = (\<lambda>ps q raw. vote_endpoint iss X send t t' raw)"
    and "selected_policy w = Some p" "json_plain p" "js_truthy (selected_option w)" "selected_option w = Some x" "json_plain x"
    and "nat \<bar>br_now B\<bar> \<le> max_safe"
    and "login (online H page) B (fst (get_or_create_user B w)) s = (Inr (), s1)"
    and "page_submit (online H page) B w s = (w', s2)"
  shows "phase w' = P_confirmed \<and> s2 = s1 \<and> (\<exists>j. receipt w' = Some j \<and> json_get ''transactionHash'' j = None)"
proof -
  let ?b = "vote_body (json_get ''id'' p) (selected_option w) (hex_str (br_random B)) [] [] (br_now B)"
  obtain u w1 where u: "get_or_create_user B w = (u, w1)" by fastforce
  have "json_plain ?b" by (rule vote_body_plain) (auto simp: assms(5) intro: json_get_plain [OF assms(3)] assms(6,7))
  moreover have "vote_request_of ?b = None" by (rule empty_proof_invalid) simp
  ultimately show ?thesis
    using assms(2,4,8,9) post_vote_confirms [of H iss X send t t', OF assms(1)] by (auto simp: page_submit_def u issues_get)
qed

text \<open>The same with a hardware wallet, whatever it signs.\<close>

lemma web_confirms_rejected_hardware_vote:
  assumes "H ''vote'' = (\<lambda>ps q raw. vote_endpoint iss X send t t' raw)"
    and "selected_policy w = Some p" "json_plain p" "js_truthy (selected_option w)" "selected_option w = Some x" "json_plain x"
    and "nat \<bar>br_now B\<bar> \<le> max_safe"
    and "d_create (br_device B) = Inr model" "d_address (br_device B) = Inr a" "\<And>j. \<exists>x. d_sign (br_device B) j = Inr x"
    and "page_submit_hw (online H page) B w s = (w', s2)"
  shows "phase w' = P_confirmed \<and> s2 = s \<and> (\<exists>j. receipt w' = Some j \<and> json_get ''transactionHash'' j = None)"
proof -
  let ?b = "\<lambda>sg. vote_body (json_get ''id'' p) (selected_option w) (hex_str (br_random B)) sg [(''signerAddress'', JStr a)] (br_now B)"
  have "json_plain (?b sg)" for sg by (rule vote_body_plain) (auto simp: assms(5) intro: json_get_plain [OF assms(3)] assms(6,7))
  moreover have "vote_request_of (?b sg) = None" for sg by (rule empty_proof_invalid) simp
  ultimately have post: "post_vote (online H page) (?b sg) w1 s =
      (w1\<lparr>receipt := Some (issues_json (iss (?b sg))), phase := P_confirmed\<rparr>, s)" for sg w1
    by (rule post_vote_confirms [of H iss X send t t', OF assms(1)])
  define payload where "payload = \<lparr>vp_policy = json_get ''id'' p, vp_option = selected_option w,
    vp_nullifier = hex_str (br_random B), vp_country = country_code w, vp_timestamp = br_now B\<rparr>"
  obtain r0 s0 v0 where "d_sign (br_device B) (typed_data payload) = Inr (r0, s0, v0)" using assms(10) by (metis prod_cases3)
  with assms(2,4,8,9,11) show ?thesis
    by (auto simp: page_submit_hw_def hw_connect_def hw_sign_vote_def Let_def post issues_get simp flip: payload_def)
       (auto simp: payload_def post issues_get)
qed

section \<open>The page never gets to a vote\<close>

inductive page_reach :: "'s fetch_fn \<Rightarrow> vote_page \<times> 's \<Rightarrow> bool" for fetch where
  Open: "page_reach fetch (page_start user, s)"
| Click: "page_reach fetch st \<Longrightarrow> page_step fetch B c st st' \<Longrightarrow> page_reach fetch st'"

lemma policies_served:
  "serve H page HTTP_GET (''/api/v1/policy?countryCode='' @ cc @ ''&status=open'') raw s =
     H ''policies'' [] (''countryCode='' @ cc @ ''&status=open'') raw s"
proof -
  have "segments (''/api/v1/policy?countryCode='' @ cc @ ''&status=open'') = [''api'', ''v1'', ''policy'']"
    by (simp add: segments_def)
  then show ?thesis by (simp add: serve_def find_route_def ROUTES_def lits_def query_of_def)
qed

lemma listed_policy_plain: "json_plain (listed_policy_json pc)"
proof -
  obtain p cc where pc: "pc = (p, cc)" by fastforce
  have "list_all (\<lambda>kv. json_plain (snd kv)) (policy_members p)"
    by (auto simp: policy_members_def optional_json_def vote_option_json_def list_all_iff split: option.splits)
  then show ?thesis by (simp add: pc listed_policy_json_def)
qed

lemma listed_policy_id: "json_get ''id'' (listed_policy_json pc) = Some (JStr (pc_id (fst pc)))"
  by (cases pc) (auto simp: listed_policy_json_def policy_members_def optional_json_def split: option.splits)

definition sees_policies :: "(policy_config \<times> string) list \<Rightarrow> vote_page \<Rightarrow> bool" where
  "sees_policies all w \<longleftrightarrow> set (elements (policies w)) \<subseteq> listed_policy_json ` set all"

definition page_stuck :: "(policy_config \<times> string) list \<Rightarrow> vote_page \<Rightarrow> bool" where
  "page_stuck all w \<longleftrightarrow> phase w \<in> {P_country, P_policies, P_error} \<and> receipt w = None \<and> sees_policies all w"

lemma policies_handler_shape:
  "\<exists>ls. policies_handler collate q m = json_res 200 (JArr (map listed_policy_json ls)) \<and> set ls \<subseteq> set (all_policies collate m)"
  by (cases q) (auto simp: policies_handler_def split: if_splits intro!: exI)

lemma load_policies_stuck:
  assumes H: "\<And>ps q raw s. \<exists>cc. fst (H ''policies'' ps q raw s) = policies_handler collate cc m"
    and "page_stuck (all_policies collate m) w" "load_policies (online H page) cc w s = (w', s')"
  shows "page_stuck (all_policies collate m) w'"
proof -
  let ?q = "''countryCode='' @ cc @ ''&status=open''"
  obtain r s1 where h: "H ''policies'' [] ?q [] s = (r, s1)" by fastforce
  with H [of "[]" ?q "[]" s] policies_handler_shape obtain ls where
    ls: "r = json_res 200 (JArr (map listed_policy_json ls))" "set ls \<subseteq> set (all_policies collate m)" by (metis fst_conv)
  have "json_plain (JArr (map listed_policy_json ls))" by (simp add: list_all_iff listed_policy_plain)
  then have "json_parse (stringify (JArr (map listed_policy_json ls))) = Some (JArr (map listed_policy_json ls))"
    by (rule json_roundtrip)
  with h ls have "fetch_json (online H page) HTTP_GET (''/api/v1/policy?countryCode='' @ cc @ ''&status=open'') [] s =
      (Inr (JArr (map listed_policy_json ls)), s1)"
    using policies_served [of H page cc "[]" s]
    by (simp add: fetch_json_def online_def read_json_def body_text_def json_res_def)
  then have "w' = w\<lparr>country_code := cc, phase := P_policies, policies := JArr (map listed_policy_json ls)\<rparr>"
    using assms(3) unfolding load_policies_def Let_def by simp
  with assms(2) image_mono [OF ls(2)] show ?thesis
    by (simp add: page_stuck_def sees_policies_def elements_def)
qed

lemma select_policy_stuck:
  assumes "plain_segment (pc_id (fst pc))" "p = listed_policy_json pc" "page_stuck all w"
    and "select_policy (online H page) p w s = (w', s')"
  shows "page_stuck all w'"
proof -
  have "find_route HTTP_GET (''/api/v1/policy/'' @ template (json_get ''id'' p) @ ''/options'') = None"
    using no_options_route [OF assms(1)] by (simp add: assms(2) listed_policy_id template_def)
  then have "fetch_json (online H page) HTTP_GET (''/api/v1/policy/'' @ template (json_get ''id'' p) @ ''/options'') [] s =
      (throw ''SyntaxError'', s)" by (rule dead_fetch)
  with assms(3,4) show ?thesis
    by (auto simp: select_policy_def page_stuck_def sees_policies_def page_fail_def throw_def)
qed


section \<open>The admin pages\<close>

text \<open>The dashboard shows zeros, the governance page no proposals and the form no success, whatever the server
  holds: their requests go to endpoints it does not have.\<close>

theorem admin_pages_empty:
  "fst (fetch_stats (online H page) s) = \<lparr>policy_count = 0, open_count = 0, country_count = 0\<rparr> \<and>
   fst (fetch_proposals (online H page) s) = [] \<and>
   (\<nexists>t. fst (create_policy (online H page) multipart ms f s) = Form_Success t)"
proof (intro conjI)
  have dead: "find_route HTTP_GET ''/api/v1/country'' = None" "find_route HTTP_GET ''/api/v1/dao/proposals'' = None"
    "find_route HTTP_POST ''/api/v1/policy'' = None" by code_simp+
  show "fst (fetch_stats (online H page) s) = \<lparr>policy_count = 0, open_count = 0, country_count = 0\<rparr>"
    by (cases "fst (fetch_json (online H page) HTTP_GET ''/api/v1/policy'' [] s)")
      (auto simp: fetch_stats_def dead_fetch [OF dead(1)] throw_def split: prod.splits)
  show "fst (fetch_proposals (online H page) s) = []"
    by (simp add: fetch_proposals_def dead_fetch [OF dead(2)] throw_def)
  have "online H page HTTP_POST ''/api/v1/policy'' raw s1 = (Inr (not_found page HTTP_POST ''/api/v1/policy''), s1)" for raw s1
    by (simp add: online_def serve_def dead(3))
  moreover have "\<not> res_ok (not_found page HTTP_POST ''/api/v1/policy'')" by (simp add: res_ok_def not_found_def)
  moreover have "fst (pin_file fetch multipart pid fl s) \<noteq> Inl (Form_Success t)" for fetch :: "'a fetch_fn" and pid fl t
    by (auto simp: pin_file_def split: option.splits prod.splits sum.splits if_splits)
  ultimately show "\<nexists>t. fst (create_policy (online H page) multipart ms f s) = Form_Success t"
    by (auto simp: create_policy_def split: prod.splits sum.splits) (metis fst_conv)
qed

section \<open>The receipt page\<close>

lemma receipt_served:
  assumes "hex_of_length 64 tx"
  shows "serve H page HTTP_GET (''/api/v1/vote/receipt/'' @ tx) raw s = H ''vote receipt'' [tx] [] raw s"
proof -
  have tx: "plain_segment tx"
  proof -
    have hex: "c \<noteq> CHR ''/'' \<and> c \<noteq> CHR ''?''" if "is_hex c" for c using that by (auto simp: is_hex_def is_digit_def code_def)
    have "take 2 tx = ''0x''" using assms by (simp add: hex_of_length_def starts_with_def numeral_2_eq_2)
    then obtain t where t: "tx = ''0x'' @ t" by (metis append_take_drop_id)
    with assms have "list_all is_hex t" by (simp add: hex_of_length_def)
    with hex have "CHR ''/'' \<notin> set t" "CHR ''?'' \<notin> set t" by (auto simp: list_all_iff)
    with t show ?thesis by (simp add: plain_segment_def)
  qed
  have "segments (''/api/v1/vote/receipt/'' @ tx) = [''api'', ''v1'', ''vote'', ''receipt'', tx]"
    using tx by (simp add: segments_def takeWhile_no_query takeWhile_no_query_end plain_segment_def split_on_append split_on_no_sep Let_def)
  moreover have "query_of (''/api/v1/vote/receipt/'' @ tx) = []" 
  proof -
    have "CHR ''?'' \<notin> set (''/api/v1/vote/receipt/'' @ tx)" using tx by (simp add: plain_segment_def)
    then have "dropWhile (\<lambda>c. c \<noteq> CHR ''?'') (''/api/v1/vote/receipt/'' @ tx) = []" unfolding dropWhile_eq_Nil_conv by blast
    then show ?thesis by (simp only: query_of_def drop_Nil)
  qed
  moreover have "tx \<noteq> []" using tx by (simp add: plain_segment_def)
  ultimately show ?thesis by (simp add: serve_def find_route_def ROUTES_def lits_def)
qed

text \<open>What the receipt page gets for a transaction the node knows.\<close>

definition node_receipt_json :: "chain_receipt \<Rightarrow> json" where
  "node_receipt_json r = JObj [(''transactionHash'', JStr (cr_hash r)), (''blockNumber'', JNum (cr_block r)),
     (''status'', JStr (if cr_status r = 1 then ''success'' else ''reverted''))]"

lemma verify_shows:
  assumes "H ''vote receipt'' = (\<lambda>ps q raw s. (receipt_route lookup (hd ps), s))"
    and "hex_of_length 64 tx" "lookup tx = Inr (Some r)" "nat \<bar>cr_block r\<bar> \<le> max_safe"
  shows "fst (verify_receipt (online H page) tx w s) = \<lparr>vr_shown = Some (Some (node_receipt_json r)), vr_error = []\<rparr>"
proof -
  have "json_parse (stringify (node_receipt_json r)) = Some (node_receipt_json r)"
    by (rule json_roundtrip) (simp add: node_receipt_json_def assms(4))
  then have "read_json (json_res 200 (node_receipt_json r)) = Inr (node_receipt_json r)" by (simp add: read_json_def body_text_def)
  moreover have "receipt_route lookup tx = json_res 200 (node_receipt_json r)"
    by (simp add: receipt_route_def assms(2,3) node_receipt_json_def)
  then have "online H page HTTP_GET (''/api/v1/vote/receipt/'' @ tx) [] s = (Inr (json_res 200 (node_receipt_json r)), s)"
    unfolding online_def receipt_served [OF assms(2)] assms(1) by simp
  ultimately show ?thesis
    unfolding verify_receipt_def by (simp only: assms(2)) (simp add: res_ok_def)
qed

text \<open>The receipt page confirms any transaction the node knows, reverted or no vote at all, and shows none of its data
  under the names it reads.\<close>

theorem verify_confirms_any:
  assumes "H ''vote receipt'' = (\<lambda>ps q raw s. (receipt_route lookup (hd ps), s))"
    and "hex_of_length 64 tx" "lookup tx = Inr (Some r)" "nat \<bar>cr_block r\<bar> \<le> max_safe"
  shows "\<exists>j. vr_shown (fst (verify_receipt (online H page) tx w s)) = Some (Some j) \<and>
    json_get ''txHash'' j = None \<and> json_get ''policyId'' j = None \<and> json_get ''nullifier'' j = None"
  using verify_shows [where H = H and lookup = lookup and w = w, OF assms] by (simp add: node_receipt_json_def)

section \<open>The signature of the wallet\<close>

lemma nat_hex_digits: "list_all is_hex (nat_hex n)"
proof (induction n rule: nat_hex.induct)
  case (1 n)
  then show ?case by (cases "n < 16") (simp_all add: nat_hex.simps [of n] is_hex_digit)
qed

text \<open>With numbers of at most 64 digits and a one-byte \<open>v\<close> below 229 the signature has the form the server's schema
  asks for, and its last byte is \<open>v + 27\<close>: a wallet that already counts from 27, as Ledger's does, gives 54 or 55.\<close>

theorem hardware_signature_form:
  assumes "length r \<le> 64" "list_all is_hex r" "length t \<le> 64" "list_all is_hex t" "v < 229"
  shows "hex_of_length 130 (rsv_signature r t v) \<and> from_hex (drop 130 (rsv_signature r t v)) = [char_of (v + 27)]"
proof -
  have zero: "is_hex (CHR ''0'')" by (simp add: is_hex_def is_digit_def code_def)
  have v: "pad_start 2 (CHR ''0'') (nat_hex (v + 27)) = [hex_digit ((v + 27) div 16), hex_digit ((v + 27) mod 16)]"
    using assms(5) by (simp add: nat_hex.simps [of "v + 27"] nat_hex.simps [of "(v + 27) div 16"] pad_start_def)
  have d: "(v + 27) div 16 < 16" "(v + 27) mod 16 < 16" using assms(5) by auto
  let ?a = "pad_start 64 (CHR ''0'') r @ pad_start 64 (CHR ''0'') t"
  have len: "length ?a = 128" using assms(1,3) by (simp add: length_pad_start)
  have "list_all is_hex ?a" using assms(2,4) zero by (auto simp: pad_start_def list_all_iff)
  moreover have sig: "rsv_signature r t v = ''0x'' @ ?a @ [hex_digit ((v + 27) div 16), hex_digit ((v + 27) mod 16)]"
    by (simp add: rsv_signature_def v)
  ultimately have "hex_of_length 130 (rsv_signature r t v)"
    unfolding hex_of_length_def sig starts_with_def using len d by (simp add: is_hex_digit)
  moreover have "drop 130 (rsv_signature r t v) = [hex_digit ((v + 27) div 16), hex_digit ((v + 27) mod 16)]"
    unfolding sig using len by simp
  moreover have "16 * ((v + 27) div 16) + (v + 27) mod 16 = v + 27" by simp
  ultimately show ?thesis using d by (simp add: hex_digit_ok is_hex_digit)
qed

section \<open>Witnesses\<close>

definition demo_pages :: "unit handlers" where
  "demo_pages h ps q raw s =
     (if h = ''policies'' then policies_handler (\<lambda>a b. 0) None [(''GB'', demo_country)] else json_res 200 (JObj []), s)"

abbreviation no_page :: "http_method \<Rightarrow> string \<Rightarrow> string" where
  "no_page \<equiv> (\<lambda>m url. [])"

definition idle_browser :: browser where
  "idle_browser = \<lparr>br_authenticate = Inr, br_random = replicate 32 (CHR ''r''), br_now = 1000, br_uuid = ''u'',
     br_device = \<lparr>d_create = Inr None, d_address = Inr ''0xa'', d_sign = (\<lambda>j. Inr (''1'', ''2'', 0))\<rparr>,
     br_usb = True, br_date = (\<lambda>d. [])\<rparr>"


definition demo_votes :: "(unit \<times> unit) handlers" where
  "demo_votes h ps q raw =
     (if h = ''vote'' then vote_endpoint (\<lambda>j. []) demo_crypto (\<lambda>i h n p c. (Inr None, c)) 1000 1000 raw
      else Pair (json_res 200 (JObj [])))"

definition demo_page :: vote_page where
  "demo_page = (page_start (Some ''u''))\<lparr>phase := P_options, selected_policy := Some (JObj [(''id'', JStr ''p'')]), selected_option := Some (JStr ''support'')\<rparr>"

theorem web_confirms_rejected_vote_witness:
  "phase (fst (page_submit (online demo_votes no_page) idle_browser demo_page ((), ()))) = P_confirmed"
proof -
  let ?f = "online demo_votes no_page"
  have r: "find_route HTTP_POST ''/api/v1/fido2/authenticate/options'' =
      Some (HTTP_POST, api ''fido2'' @ lits [''authenticate'', ''options''], ''fido2 authenticate options'')"
    "find_route HTTP_POST ''/api/v1/fido2/authenticate/verify'' =
      Some (HTTP_POST, api ''fido2'' @ lits [''authenticate'', ''verify''], ''fido2 authenticate verify'')"
    by code_simp+
  have "json_parse (stringify (JObj [])) = Some (JObj [])" by (rule json_roundtrip) simp
  then have "login ?f idle_browser ''u'' ((), ()) = (Inr (), ((), ()))"
    by (simp add: login_def fetch_json_def online_def serve_def r demo_votes_def idle_browser_def read_json_def body_text_def res_ok_def)
  then have l: "login ?f idle_browser (fst (get_or_create_user idle_browser demo_page)) ((), ()) = (Inr (), ((), ()))"
    by (simp add: get_or_create_user_def demo_page_def page_start_def)
  note w = prod.collapse [symmetric, of "page_submit ?f idle_browser demo_page ((), ())"]
  have h: "demo_votes ''vote'' = (\<lambda>ps q raw. vote_endpoint (\<lambda>j. []) demo_crypto (\<lambda>i h n p c. (Inr None, c)) 1000 1000 raw)"
    by (simp add: demo_votes_def fun_eq_iff)
  show ?thesis
    using web_confirms_rejected_vote [OF h _ _ _ _ _ _ l w, of "JObj [(''id'', JStr ''p'')]" "JStr ''support''"]
    by (simp add: demo_page_def idle_browser_def max_safe_def js_truthy_def)
qed

theorem verify_confirms_any_witness:
  "\<exists>j. vr_shown (fst (verify_receipt (online (\<lambda>h ps q raw s. (receipt_route
          (\<lambda>t. Inr (Some \<lparr>cr_hash = t, cr_block = 7, cr_status = 0\<rparr>)) (hd ps), s)) no_page)
          (''0x'' @ replicate 64 (CHR ''a'')) \<lparr>vr_shown = None, vr_error = []\<rparr> ())) = Some (Some j)"
proof -
  let ?lookup = "\<lambda>t. Inr (Some \<lparr>cr_hash = t, cr_block = 7, cr_status = 0\<rparr>)"
  let ?H = "(\<lambda>h ps q raw s. (receipt_route ?lookup (hd ps), s)) :: unit handlers"
  define tx where "tx = ''0x'' @ replicate 64 (CHR ''a'')"
  have "hex_of_length 64 tx"
    by (simp add: tx_def hex_of_length_def starts_with_def list_all_iff is_hex_def code_def)
  from verify_confirms_any [where H = ?H and lookup = ?lookup and page = no_page and s = "()" and
      w = "\<lparr>vr_shown = None, vr_error = []\<rparr>" and r = "\<lparr>cr_hash = tx, cr_block = 7, cr_status = 0\<rparr>", OF _ this]
  show ?thesis unfolding tx_def [symmetric] by (auto simp: max_safe_def)
qed

theorem hardware_signature_form_witness:
  "hex_of_length 130 (rsv_signature ''1'' ''2'' 27) \<and> from_hex (drop 130 (rsv_signature ''1'' ''2'' 27)) = [char_of (54 :: nat)]"
proof -
  have "is_hex (CHR ''1'')" "is_hex (CHR ''2'')" by (simp_all add: is_hex_def is_digit_def code_def)
  with hardware_signature_form [of "''1''" "''2''" 27] show ?thesis by simp
qed

end
