(* ===== verification/Governance.thy ===== *)
theory Governance
  imports Vote
begin

text \<open>
  DAO governance: \<open>routes/governance.ts\<close>. The Governor contract (OpenZeppelin's, configured by \<open>VoteGovernor.sol\<close>) is a
  parameter, the record \<open>governor\<close>; the locale \<open>governor_contract\<close> states what it promises of \<open>castVote\<close>: an account
  votes once per proposal. The routes send every transaction from the one relay account of the server, whatever client
  asked for it. Proved are what the lists show, that only the first vote for a proposal is ever accepted, and that
  nobody is asked who he is before a proposal is sent.
\<close>

section \<open>The contract\<close>

record proposal_event =
  pe_id :: nat
  pe_proposer :: string
  pe_start :: nat
  pe_end :: nat
  pe_description :: string

text \<open>A transaction answers with its hash; a view may fail.\<close>

record 'g governor =
  g_events :: "'g \<Rightarrow> proposal_event list result"
  g_state :: "'g \<Rightarrow> nat \<Rightarrow> nat result"
  g_votes :: "'g \<Rightarrow> nat \<Rightarrow> (nat \<times> nat \<times> nat) result"
  g_deadline :: "'g \<Rightarrow> nat \<Rightarrow> nat result"
  g_snapshot :: "'g \<Rightarrow> nat \<Rightarrow> nat result"
  g_has_voted :: "'g \<Rightarrow> nat \<Rightarrow> string \<Rightarrow> bool"
  g_cast :: "string \<Rightarrow> nat \<Rightarrow> nat \<Rightarrow> 'g \<Rightarrow> string result \<times> 'g"
  g_propose :: "string \<Rightarrow> string list \<Rightarrow> int list \<Rightarrow> string list \<Rightarrow> string \<Rightarrow> 'g \<Rightarrow> string result \<times> 'g"

locale governor_contract =
  fixes G :: "'g governor"
  assumes cast_ok: "g_cast G a p v s = (Inr h, s') \<Longrightarrow>
      \<not> g_has_voted G s p a \<and> (\<forall>q b. g_has_voted G s' q b \<longleftrightarrow> (q = p \<and> b = a) \<or> g_has_voted G s q b)"
    and cast_fails: "g_cast G a p v s = (Inl e, s') \<Longrightarrow> s' = s"
    and propose_votes: "g_propose G a ts vs cs d s = (r, s') \<Longrightarrow> g_has_voted G s' q b = g_has_voted G s q b"

section \<open>The routes\<close>

definition PROPOSAL_STATES :: "string list" where
  "PROPOSAL_STATES = [''Pending'', ''Active'', ''Canceled'', ''Defeated'', ''Succeeded'', ''Queued'', ''Expired'', ''Executed'']"

definition state_name :: "nat \<Rightarrow> string" where
  "state_name n = (if n < length PROPOSAL_STATES then PROPOSAL_STATES ! n else ''Unknown'')"

definition votes_json :: "nat \<times> nat \<times> nat \<Rightarrow> json" where
  "votes_json = (\<lambda>(against, for, abstain).
     JObj [(''for'', JStr (nat_str for)), (''against'', JStr (nat_str against)), (''abstain'', JStr (nat_str abstain))])"

text \<open>\<open>p.catch(() => d)\<close>\<close>

definition or_else :: "'a result \<Rightarrow> 'a \<Rightarrow> 'a" where
  "or_else r d = (case r of Inl e \<Rightarrow> d | Inr x \<Rightarrow> x)"

definition proposal_json :: "'g governor \<Rightarrow> 'g \<Rightarrow> proposal_event \<Rightarrow> json" where
  "proposal_json G s e = JObj
     [(''proposalId'', JStr (nat_str (pe_id e))), (''proposer'', JStr (pe_proposer e)),
      (''description'', JStr (pe_description e)), (''state'', JStr (state_name (or_else (g_state G s (pe_id e)) 0))),
      (''voteStart'', JNum (int (pe_start e))), (''voteEnd'', JNum (int (or_else (g_deadline G s (pe_id e)) 0))),
      (''votes'', votes_json (or_else (g_votes G s (pe_id e)) (0, 0, 0)))]"

definition proposals_route :: "'g governor \<Rightarrow> 'g \<Rightarrow> response" where
  "proposals_route G s =
     (case g_events G s of
        Inl e \<Rightarrow> json_res 500 (error_json ''Failed to fetch proposals'')
      | Inr es \<Rightarrow> json_res 200 (JObj [(''proposals'', JArr (map (proposal_json G s) es))]))"

text \<open>\<open>BigInt(proposalId)\<close> as an unsigned argument of a call.\<close>

definition proposal_number :: "string \<Rightarrow> nat result" where
  "proposal_number pid = bind_result (big_int pid) to_uint"

definition proposal_route :: "'g governor \<Rightarrow> string \<Rightarrow> 'g \<Rightarrow> response" where
  "proposal_route G pid s =
     (case bind_result (proposal_number pid) (\<lambda>n.
             bind_result (g_state G s n) (\<lambda>st.
             bind_result (g_votes G s n) (\<lambda>vs.
             bind_result (g_deadline G s n) (\<lambda>dl.
             bind_result (g_snapshot G s n) (\<lambda>sn.
               Inr (JObj [(''proposalId'', JStr pid), (''state'', JStr (state_name st)), (''snapshot'', JNum (int sn)),
                          (''deadline'', JNum (int dl)), (''votes'', votes_json vs)])))))) of
        Inl e \<Rightarrow> json_res 404 (error_json ''Proposal not found'')
      | Inr j \<Rightarrow> json_res 200 j)"

text \<open>The schema: \<open>support\<close> is 0, 1 or 2. \<open>relay\<close> is the account of the server's key, \<open>None\<close> when none is configured.\<close>

definition cast_body :: "json \<Rightarrow> nat option" where
  "cast_body j = (case json_get ''support'' j of Some (JNum i) \<Rightarrow> if i = 0 \<or> i = 1 \<or> i = 2 then Some (nat i) else None | _ \<Rightarrow> None)"

definition relay_account :: "string option \<Rightarrow> string result" where
  "relay_account relay = (case relay of None \<Rightarrow> throw ''invalid private key'' | Some a \<Rightarrow> Inr a)"

definition send_vote :: "'g governor \<Rightarrow> string option \<Rightarrow> string \<Rightarrow> nat \<Rightarrow> 'g \<Rightarrow> string result \<times> 'g" where
  "send_vote G relay pid v s =
     (case bind_result (relay_account relay) (\<lambda>a. bind_result (proposal_number pid) (\<lambda>n. Inr (a, n))) of
        Inl e \<Rightarrow> (Inl e, s)
      | Inr (a, n) \<Rightarrow> g_cast G a n v s)"

definition proposal_vote_route :: "'g governor \<Rightarrow> string option \<Rightarrow> string \<Rightarrow> json \<Rightarrow> 'g \<Rightarrow> response \<times> 'g" where
  "proposal_vote_route G relay pid raw s =
     (case cast_body raw of
        None \<Rightarrow> (json_res 400 (error_json ''support must be 0 (against), 1 (for), or 2 (abstain)''), s)
      | Some v \<Rightarrow>
          (case send_vote G relay pid v s of
             (Inl e, s') \<Rightarrow> (json_res 500 (error_json e), s')
           | (Inr h, s') \<Rightarrow> (json_res 200 (JObj [(''txHash'', JStr h)]), s')))"

record propose_body =
  pb_targets :: "string list"
  pb_values :: "string list"
  pb_calldatas :: "string list"
  pb_description :: string

definition propose_schema :: "propose_body \<Rightarrow> bool" where
  "propose_schema b \<longleftrightarrow> 10 \<le> length (pb_description b) \<and> length (pb_description b) \<le> 4096"

text \<open>\<open>ethers.getBytes(c)\<close> on a hexadecimal string.\<close>

definition get_bytes :: "string \<Rightarrow> string result" where
  "get_bytes c =
     (if starts_with c ''0x'' \<and> even (length c) \<and> list_all is_hex (drop 2 c) then Inr (hex_bytes c) else throw ''invalid BytesLike value'')"

definition send_proposal :: "'g governor \<Rightarrow> string option \<Rightarrow> propose_body \<Rightarrow> 'g \<Rightarrow> string result \<times> 'g" where
  "send_proposal G relay b s =
     (case bind_result (relay_account relay) (\<lambda>a.
           bind_result (map_result big_int (pb_values b)) (\<lambda>vs.
           bind_result (map_result get_bytes (pb_calldatas b)) (\<lambda>cs. Inr (a, vs, cs)))) of
        Inl e \<Rightarrow> (Inl e, s)
      | Inr (a, vs, cs) \<Rightarrow> g_propose G a (pb_targets b) vs cs (pb_description b) s)"

definition propose_route ::
  "'g governor \<Rightarrow> string option \<Rightarrow> ('raw \<Rightarrow> json + propose_body) \<Rightarrow> 'raw \<Rightarrow> 'g \<Rightarrow> response \<times> 'g" where
  "propose_route G relay safe_parse raw s =
     (case safe_parse raw of
        Inl d \<Rightarrow> (json_res 400 (JObj [(''error'', JStr ''Invalid proposal''), (''details'', d)]), s)
      | Inr b \<Rightarrow>
          (case send_proposal G relay b s of
             (Inl e, s') \<Rightarrow> (json_res 500 (error_json e), s')
           | (Inr h, s') \<Rightarrow> (json_res 201 (JObj [(''txHash'', JStr h)]), s')))"

section \<open>One vote per proposal, for everybody together\<close>

text \<open>What a request submits: the number of the proposal it voted on, when the answer is a success.\<close>

datatype gov_request = Gov_Vote string json | Gov_Propose propose_body

definition gov_handle :: "'g governor \<Rightarrow> string option \<Rightarrow> gov_request \<Rightarrow> 'g \<Rightarrow> (nat \<times> nat) option \<times> 'g" where
  "gov_handle G relay q s =
     (case q of
        Gov_Vote pid raw \<Rightarrow>
          (case proposal_vote_route G relay pid raw s of
             (res, s') \<Rightarrow>
               (if status res = 200
                then case (proposal_number pid, cast_body raw) of (Inr n, Some v) \<Rightarrow> Some (n, v) | _ \<Rightarrow> None else None, s'))
      | Gov_Propose b \<Rightarrow> (None, snd (propose_route G relay (\<lambda>b. Inr b) b s)))"

definition gov_spent :: "'g governor \<Rightarrow> string option \<Rightarrow> 'g \<Rightarrow> string set" where
  "gov_spent G relay s = {nat_str n | n. \<exists>a. relay = Some a \<and> g_has_voted G s n a}"

context governor_contract
begin

lemma send_vote_cases:
  assumes "send_vote G relay pid v s = (r, s')"
  obtains (failed) e where "r = Inl e" "s' = s"
  | (sent) h a n where "r = Inr h" "relay = Some a" "proposal_number pid = Inr n" "g_cast G a n v s = (Inr h, s')"
  using assms cast_fails
  by (cases r) (auto simp: send_vote_def relay_account_def throw_def bind_result_def split: option.splits sum.splits)

lemma propose_keeps: "g_has_voted G (snd (propose_route G relay sp raw s)) q b = g_has_voted G s q b"
  using propose_votes
  by (auto simp: propose_route_def send_proposal_def bind_result_def split: sum.splits prod.splits)

lemma gov_channel: "vote_channel (gov_handle G relay) (gov_spent G relay) (\<lambda>v. nat_str (fst v))"
proof
  fix q s s'
  assume h: "gov_handle G relay q s = (None, s')"
  show "gov_spent G relay s' = gov_spent G relay s"
  proof (cases q)
    case (Gov_Propose b)
    then have "g_has_voted G s' n a = g_has_voted G s n a" for n a using h by (auto simp: gov_handle_def propose_keeps)
    then show ?thesis by (simp add: gov_spent_def)
  next
    case (Gov_Vote pid raw)
    have "s' = s"
    proof (cases "cast_body raw")
      case None
      with h Gov_Vote show ?thesis by (simp add: gov_handle_def proposal_vote_route_def)
    next
      case (Some v)
      obtain r t where r: "send_vote G relay pid v s = (r, t)" by fastforce
      from r show ?thesis
        by (cases rule: send_vote_cases) (use h Gov_Vote Some r in \<open>auto simp: gov_handle_def proposal_vote_route_def\<close>)
    qed
    then show ?thesis by simp
  qed
next
  fix q s v s'
  assume h: "gov_handle G relay q s = (Some v, s')"
  then obtain pid raw where q: "q = Gov_Vote pid raw" by (cases q) (auto simp: gov_handle_def)
  from h q obtain w where w: "cast_body raw = Some w"
    by (auto simp: gov_handle_def proposal_vote_route_def split: option.splits)
  obtain r t where r: "send_vote G relay pid w s = (r, t)" by fastforce
  from r show "nat_str (fst v) \<notin> gov_spent G relay s \<and> gov_spent G relay s' = insert (nat_str (fst v)) (gov_spent G relay s)"
  proof (cases rule: send_vote_cases)
    case (failed e)
    with h q w r show ?thesis by (simp add: gov_handle_def proposal_vote_route_def)
  next
    case (sent x a n)
    with h q w r have v: "v = (n, w)" "s' = t" by (auto simp: gov_handle_def proposal_vote_route_def)
    note ok = cast_ok [OF sent(4)]
    have "gov_spent G relay t = insert (nat_str n) (gov_spent G relay s)"
      using ok sent(2) by (auto simp: gov_spent_def)
    moreover have "nat_str n \<notin> gov_spent G relay s" using ok sent(2) by (auto simp: gov_spent_def nat_str_inj)
    ultimately show ?thesis using v by simp
  qed
qed

end

text \<open>C37: whoever asks, and however often, the routes get at most one vote per proposal accepted: all of them are sent
  from the relay account, so after the first one every other voter is refused.\<close>

theorem governance_one_vote:
  assumes "governor_contract G" "run_channel (gov_handle G relay) qs s = (vs, t)"
  shows "distinct (map fst vs) \<and> (\<forall>a. relay = Some a \<longrightarrow> (\<forall>n \<in> fst ` set vs. g_has_voted G t n a \<and> \<not> g_has_voted G s n a))"
proof -
  note run = vote_channel.run_once [OF governor_contract.gov_channel [OF assms(1)] assms(2)]
  then have "distinct (map (nat_str \<circ> fst) vs)" by (simp add: comp_def)
  then have d: "distinct (map fst vs)" by (metis distinct_map map_map)
  have "g_has_voted G t n a \<and> \<not> g_has_voted G s n a" if "relay = Some a" "n \<in> fst ` set vs" for a n
  proof -
    have "nat_str n \<in> (\<lambda>v. nat_str (fst v)) ` set vs" using that(2) by auto
    with run have "nat_str n \<in> gov_spent G relay t" "nat_str n \<notin> gov_spent G relay s" by blast+
    with that(1) show ?thesis by (auto simp: gov_spent_def nat_str_inj)
  qed
  with d show ?thesis by blast
qed

lemma governance_second_vote:
  assumes "governor_contract G" "g_has_voted G s n a" "proposal_number pid = Inr n" "cast_body raw = Some v"
  shows "status (fst (proposal_vote_route G (Some a) pid raw s)) = 500"
proof -
  obtain r s' where r: "g_cast G a n v s = (r, s')" by fastforce
  have "\<exists>e. r = Inl e"
    using governor_contract.cast_ok [OF assms(1), of a n v s] assms(2) r by (cases r) auto
  with r assms(3,4) show ?thesis by (auto simp: proposal_vote_route_def send_vote_def relay_account_def)
qed

section \<open>A governor in memory\<close>

text \<open>An instance for the witnesses, which counts the way \<open>GovernorCountingSimple\<close> is documented to.\<close>

record gov_mem =
  gm_events :: "proposal_event list"
  gm_votes :: "(nat \<times> string \<times> nat) list"

definition gm_count :: "gov_mem \<Rightarrow> nat \<Rightarrow> nat \<Rightarrow> nat" where
  "gm_count s p v = length (filter (\<lambda>(q, a, w). q = p \<and> w = v) (gm_votes s))"

definition mem_governor :: "gov_mem governor" where
  "mem_governor =
     \<lparr>g_events = (\<lambda>s. Inr (gm_events s)),
      g_state = (\<lambda>s p. if p \<in> pe_id ` set (gm_events s) then Inr 1 else throw ''GovernorNonexistentProposal''),
      g_votes = (\<lambda>s p. Inr (gm_count s p 0, gm_count s p 1, gm_count s p 2)),
      g_deadline = (\<lambda>s p. Inr 100), g_snapshot = (\<lambda>s p. Inr 10),
      g_has_voted = (\<lambda>s p a. \<exists>v. (p, a, v) \<in> set (gm_votes s)),
      g_cast = (\<lambda>a p v s. if \<exists>w \<in> set (gm_votes s). fst w = p \<and> fst (snd w) = a then (throw ''GovernorAlreadyCastVote'', s)
                          else (Inr ''tx'', s\<lparr>gm_votes := (p, a, v) # gm_votes s\<rparr>)),
      g_propose = (\<lambda>a ts vs cs d s. (Inr ''tx'', s\<lparr>gm_events := gm_events s @
          [\<lparr>pe_id = length (gm_events s), pe_proposer = a, pe_start = 10, pe_end = 100, pe_description = d\<rparr>]\<rparr>))\<rparr>"

interpretation mem_governor: governor_contract mem_governor
  by unfold_locales (auto simp: mem_governor_def throw_def split: if_splits)

interpretation governance: vote_channel "gov_handle mem_governor relay" "gov_spent mem_governor relay" "\<lambda>v. nat_str (fst v)" for relay
  by (rule mem_governor.gov_channel)

definition gov_demo :: gov_mem where
  "gov_demo = \<lparr>gm_events = [\<lparr>pe_id = 7, pe_proposer = ''p'', pe_start = 10, pe_end = 100, pe_description = ''d''\<rparr>], gm_votes = []\<rparr>"

theorem governance_one_vote_witness:
  "distinct (map fst (fst (run_channel (gov_handle mem_governor (Some ''relay''))
     [Gov_Vote ''7'' (JObj [(''support'', JNum 1)]), Gov_Vote ''7'' (JObj [(''support'', JNum 0)])] gov_demo)))"
  using governance_one_vote [OF mem_governor.governor_contract_axioms] by (metis prod.collapse)

end
