(* ===== verification/Certification.thy ===== *)
theory Certification
  imports Tally Multi_Pin
begin

text \<open>
  Result certificates: \<open>services/CertificationService.ts\<close> and \<open>routes/certification.ts\<close>. A certificate is a PDF; the
  model has the drawing commands of the service in their order, and pdfkit, which turns them into bytes, is a
  parameter, as are the ECDSA signature of Node's \<open>crypto\<close> and the locale's digit grouping. Documents are pinned by
  theory \<open>Multi_Pin\<close>, the numbers come from theory \<open>Tally\<close>. Proved are that an issued certificate verifies ever
  after, what it says of its poll, and what the service does not check.
\<close>

section \<open>The document\<close>

datatype pdf_op =
    Font_Size nat
  | Font string
  | Fill_Color string
  | Pdf_Text string "(string \<times> string) list"
  | Move_Down nat
  | Divider nat nat string
  | Pdf_End

record certificate =
  ct_poll :: string
  ct_title :: string
  ct_country :: string
  ct_tx :: string
  ct_root :: string
  ct_tally :: tally
  ct_issued :: string

text \<open>\<open>moveDown(n)\<close> counts tenths of a line.\<close>

definition pdf_row :: "string \<Rightarrow> string \<Rightarrow> pdf_op list" where
  "pdf_row label value =
     [Font_Size 11, Font ''Helvetica-Bold'', Pdf_Text (label @ '': '') [(''continued'', ''true'')], Font ''Helvetica'',
      Pdf_Text value [], Move_Down 3]"

text \<open>\<open>((count / total) * 100).toFixed(1)\<close>, for exact quotients.\<close>

definition percent_tenths :: "int \<Rightarrow> int \<Rightarrow> int" where
  "percent_tenths k n = (2000 * k + n) div (2 * n)"

definition percent_text :: "int \<Rightarrow> int \<Rightarrow> string" where
  "percent_text k n = int_str (percent_tenths k n div 10) @ ''.'' @ int_str (percent_tenths k n mod 10)"

definition pdf_result_row :: "(int \<Rightarrow> string) \<Rightarrow> string \<Rightarrow> int \<Rightarrow> int \<Rightarrow> string \<Rightarrow> pdf_op list" where
  "pdf_result_row grp label k n color =
     [Font_Size 11, Font ''Helvetica-Bold'', Fill_Color color, Pdf_Text (label @ '': '') [(''continued'', ''true'')],
      Font ''Helvetica'', Fill_Color ''#000000'', Pdf_Text (grp k @ ''  ('' @ percent_text k n @ ''%)'') [], Move_Down 3]"

definition build_pdf :: "(int \<Rightarrow> string) \<Rightarrow> certificate \<Rightarrow> pdf_op list" where
  "build_pdf grp c =
     (let t = ct_tally c; n = max (total t) 1
      in [Font_Size 22, Font ''Helvetica-Bold'', Pdf_Text ''ELECTION RESULT CERTIFICATE'' [(''align'', ''center'')], Move_Down 5,
          Font_Size 12, Font ''Helvetica'', Fill_Color ''#555555'',
          Pdf_Text (''TheVoteApp '' @ [CHR 0xC2, CHR 0xB7] @ '' Blockchain-Secured Democratic Voting'') [(''align'', ''center'')],
          Fill_Color ''#000000'', Move_Down 15, Divider 60 535 ''#cccccc'', Move_Down 10] @
         pdf_row ''Policy'' (ct_title c) @ pdf_row ''Poll ID'' (ct_poll c) @ pdf_row ''Country'' (ct_country c) @
         pdf_row ''Status'' (if finalized t then ''Finalised'' else ''Open'') @ pdf_row ''Issued At'' (ct_issued c) @
         [Move_Down 10, Font_Size 14, Font ''Helvetica-Bold'', Pdf_Text ''Election Results'' [], Move_Down 5] @
         pdf_result_row grp ''Support'' (support t) n ''#00703c'' @ pdf_result_row grp ''Oppose'' (oppose t) n ''#d4351c'' @
         pdf_result_row grp ''Abstain'' (abstain t) n ''#f47738'' @ pdf_row ''Total Votes'' (grp (total t)) @
         [Move_Down 10, Font_Size 14, Font ''Helvetica-Bold'', Pdf_Text ''On-Chain Provenance'' [], Move_Down 5,
          Font_Size 9, Font ''Helvetica''] @
         pdf_row ''Transaction'' (ct_tx c) @ pdf_row ''Merkle Root'' (ct_root c) @
         [Move_Down 10, Font_Size 10, Font ''Helvetica'', Fill_Color ''#555555'',
          Pdf_Text (''This certificate can be independently verified by querying the on-chain '' @
            ''VoteLedger contract with the Poll ID above. The cryptographic hash of this '' @
            ''document is recorded on IPFS. Any alteration will invalidate the ECDSA signature.'') [(''align'', ''justify'')],
          Fill_Color ''#000000'', Pdf_End])"

section \<open>The service\<close>

text \<open>\<open>signer\<close> signs with the key of the environment, which may be malformed; \<open>check\<close> verifies a signature.\<close>

record cert_env =
  signing_key_pem :: "string option"
  public_key_pem :: "string option"
  signer :: "string \<Rightarrow> string \<Rightarrow> string result"
  check :: "string \<Rightarrow> string \<Rightarrow> string \<Rightarrow> bool result"
  render :: "pdf_op list \<Rightarrow> string result"
  grouping :: "int \<Rightarrow> string"

definition sign_pdf :: "cert_env \<Rightarrow> string \<Rightarrow> string result" where
  "sign_pdf E pdf =
     (if unset (signing_key_pem E) then Inr (''0x'' @ to_hex ''dev-signature'')
      else signer E (the (signing_key_pem E)) pdf)"

record cert_result =
  cr_cid :: string
  cr_signature :: string
  cr_issued :: string

text \<open>The request's texts, the clock, and the pinning service as a function.\<close>

record cert_request =
  cq_poll :: string
  cq_title :: string
  cq_country :: string
  cq_tx :: string
  cq_root :: string
  cq_now :: int
  cq_later :: int
  cq_iso :: string
  cq_ms :: int

type_synonym 's pinner = "string \<Rightarrow> string \<Rightarrow> 's \<Rightarrow> string result \<times> 's"

definition certify ::
  "cert_env \<Rightarrow> (string \<Rightarrow> string) \<Rightarrow> rpc \<Rightarrow> 's pinner \<Rightarrow> cert_request \<Rightarrow> tally_cache \<times> 's \<Rightarrow> cert_result result \<times> tally_cache \<times> 's" where
  "certify E h c pin q st =
     (case get_tally h (cq_now q) (cq_later q) c (cq_poll q) (fst st) of
        (Inl e, m) \<Rightarrow> (Inl e, m, snd st)
      | (Inr t, m) \<Rightarrow>
          (case bind_result (render E (build_pdf (grouping E)
                   \<lparr>ct_poll = cq_poll q, ct_title = cq_title q, ct_country = cq_country q, ct_tx = cq_tx q, ct_root = cq_root q,
                    ct_tally = t, ct_issued = cq_iso q\<rparr>))
                  (\<lambda>pdf. bind_result (sign_pdf E pdf) (\<lambda>sg. Inr (pdf, sg))) of
             Inl e \<Rightarrow> (Inl e, m, snd st)
           | Inr (pdf, sg) \<Rightarrow>
               (case pin (''certificate-'' @ cq_poll q @ ''-'' @ int_str (cq_ms q) @ ''.pdf'') pdf (snd st) of
                  (Inl e, s) \<Rightarrow> (Inl e, m, s)
                | (Inr cid, s) \<Rightarrow> (Inr \<lparr>cr_cid = cid, cr_signature = sg, cr_issued = cq_iso q\<rparr>, m, s))))"

section \<open>The routes\<close>

definition certify_schema :: "cert_request \<Rightarrow> bool" where
  "certify_schema q \<longleftrightarrow>
     cq_title q \<noteq> [] \<and> length (cq_title q) \<le> 200 \<and> length (cq_country q) = 2 \<and> cq_tx q \<noteq> [] \<and> cq_root q \<noteq> []"

definition certify_route ::
  "cert_env \<Rightarrow> (string \<Rightarrow> string) \<Rightarrow> rpc \<Rightarrow> 's pinner \<Rightarrow> json + cert_request \<Rightarrow> tally_cache \<times> 's \<Rightarrow> response \<times> tally_cache \<times> 's" where
  "certify_route E h c pin parsed st =
     (case parsed of
        Inl d \<Rightarrow> (json_res 400 (JObj [(''error'', JStr ''Invalid request''), (''details'', d)]), st)
      | Inr q \<Rightarrow>
          (case certify E h c pin q st of
             (Inl e, st') \<Rightarrow> (json_res 500 (error_json e), st')
           | (Inr r, st') \<Rightarrow>
               (json_res 201 (JObj
                  [(''cid'', JStr (cr_cid r)), (''signature'', JStr (cr_signature r)), (''issuedAt'', JStr (cr_issued r)),
                   (''ipfsUrl'', JStr (''https://ipfs.io/ipfs/'' @ cr_cid r))]), st')))"

definition cert_verify_route ::
  "cert_env \<Rightarrow> (string \<Rightarrow> 's \<Rightarrow> string result) \<Rightarrow> string option \<Rightarrow> string option \<Rightarrow> 's \<Rightarrow> response" where
  "cert_verify_route E get cid sg s =
     (if unset cid \<or> unset sg then json_res 400 (error_json ''cid and signature query params required'')
      else (case bind_result (get (the cid) s) (\<lambda>pdf.
                   if unset (public_key_pem E)
                   then Inr (JObj [(''valid'', JBool True), (''note'', JStr ''Signature verification skipped in dev mode'')])
                   else bind_result (check E (the (public_key_pem E)) pdf (the sg))
                          (\<lambda>v. Inr (JObj [(''valid'', JBool v), (''cid'', JStr (the cid))]))) of
              Inl e \<Rightarrow> json_res 400 (JObj [(''valid'', JBool False), (''error'', JStr e)])
            | Inr j \<Rightarrow> json_res 200 j))"

section \<open>Properties\<close>

text \<open>The law of the signature: what the private key signed, the public key verifies.\<close>

definition keys_match :: "cert_env \<Rightarrow> bool" where
  "keys_match E \<longleftrightarrow>
     (\<exists>priv pub. signing_key_pem E = Some priv \<and> public_key_pem E = Some pub \<and> priv \<noteq> [] \<and> pub \<noteq> [] \<and>
        (\<forall>pdf sg. signer E priv pdf = Inr sg \<longrightarrow> sg \<noteq> [] \<and> check E pub pdf sg = Inr True))"

lemma certifyD:
  assumes "certify E h c pin q (m, s) = (Inr r, m', s')"
  obtains t pdf where "get_tally h (cq_now q) (cq_later q) c (cq_poll q) m = (Inr t, m')"
    "render E (build_pdf (grouping E)
       \<lparr>ct_poll = cq_poll q, ct_title = cq_title q, ct_country = cq_country q, ct_tx = cq_tx q, ct_root = cq_root q,
        ct_tally = t, ct_issued = cq_iso q\<rparr>) = Inr pdf"
    "sign_pdf E pdf = Inr (cr_signature r)"
    "pin (''certificate-'' @ cq_poll q @ ''-'' @ int_str (cq_ms q) @ ''.pdf'') pdf s = (Inr (cr_cid r), s')"
  using assms
  by (auto simp: certify_def bind_result_Inr_iff split: prod.splits sum.splits)

text \<open>A certificate that was issued verifies: with matching keys the verification route answers ``valid'' for its
  identifier and signature, after whatever further documents were pinned.\<close>

theorem certificate_verifies:
  assumes "helia_store H" "keys_match E" "pin = multi_pin H sha hmac now_iso env fetch"
    and "certify E h c pin q (m, s) = (Inr r, m', s')" "cr_cid r \<noteq> []"
  shows "cert_verify_route E (multi_get H) (Some (cr_cid r)) (Some (cr_signature r)) (document_store.put_all pin ds s') =
    json_res 200 (JObj [(''valid'', JBool True), (''cid'', JStr (cr_cid r))])"
proof (rule certifyD [OF assms(4)])
  fix t pdf
  assume sg: "sign_pdf E pdf = Inr (cr_signature r)"
    and pin: "pin (''certificate-'' @ cq_poll q @ ''-'' @ int_str (cq_ms q) @ ''.pdf'') pdf s = (Inr (cr_cid r), s')"
  have ds: "document_store pin (multi_get H)"
    unfolding assms(3) by (rule helia_store.multi_document_store [OF assms(1)])
  from assms(2) obtain priv pub where k: "signing_key_pem E = Some priv" "public_key_pem E = Some pub" "priv \<noteq> []" "pub \<noteq> []"
    "\<forall>pdf sg. signer E priv pdf = Inr sg \<longrightarrow> sg \<noteq> [] \<and> check E pub pdf sg = Inr True" by (auto simp: keys_match_def)
  with sg have "cr_signature r \<noteq> [] \<and> check E pub pdf (cr_signature r) = Inr True" by (simp add: sign_pdf_def unset_def)
  with k assms(5) document_store.put_all_get [OF ds pin] show ?thesis
    by (simp add: cert_verify_route_def unset_def)
qed

text \<open>Without a public key every signature verifies: whatever was pinned under the identifier and whatever text is
  given as its signature, the route answers ``valid''.\<close>

theorem dev_mode_accepts_any:
  assumes "unset (public_key_pem E)" "get cid s = Inr pdf" "cid \<noteq> []" "sg \<noteq> []"
  shows "cert_verify_route E get (Some cid) (Some sg) s =
    json_res 200 (JObj [(''valid'', JBool True), (''note'', JStr ''Signature verification skipped in dev mode'')])"
  using assms by (simp add: cert_verify_route_def unset_def)

text \<open>A certificate is issued for a poll that is still open, with whatever title, transaction and Merkle root the
  caller names: when the tally can be read and the signature made, only pinning can stop it.\<close>

theorem certificate_unchecked:
  assumes "get_tally h (cq_now q) (cq_later q) c (cq_poll q) m = (Inr t, m')" "\<not> finalized t"
    and "\<And>ops. \<exists>pdf sg. render E ops = Inr pdf \<and> sign_pdf E pdf = Inr sg" "\<And>f d. \<exists>cid s'. pin f d s = (Inr cid, s')"
  shows "\<exists>r st pdf. certify E h c pin q (m, s) = (Inr r, st) \<and> sign_pdf E pdf = Inr (cr_signature r) \<and>
    render E (build_pdf (grouping E)
       \<lparr>ct_poll = cq_poll q, ct_title = cq_title q, ct_country = cq_country q, ct_tx = cq_tx q, ct_root = cq_root q,
        ct_tally = t, ct_issued = cq_iso q\<rparr>) = Inr pdf"
proof -
  let ?c = "\<lparr>ct_poll = cq_poll q, ct_title = cq_title q, ct_country = cq_country q, ct_tx = cq_tx q, ct_root = cq_root q,
        ct_tally = t, ct_issued = cq_iso q\<rparr>"
  obtain pdf sg where p: "render E (build_pdf (grouping E) ?c) = Inr pdf" "sign_pdf E pdf = Inr sg" using assms(3) by blast
  obtain cid s' where "pin (''certificate-'' @ cq_poll q @ ''-'' @ int_str (cq_ms q) @ ''.pdf'') pdf s = (Inr cid, s')"
    using assms(4) by blast
  with p assms(1) show ?thesis by (auto simp: certify_def)
qed

text \<open>The three shares of a certificate never exceed the total by more than rounding.\<close>

lemma percent_bounds:
  assumes "0 \<le> k" "k \<le> n" "0 < n"
  shows "0 \<le> percent_tenths k n" "percent_tenths k n \<le> 1000"
proof -
  show "0 \<le> percent_tenths k n" using assms by (simp add: percent_tenths_def pos_imp_zdiv_nonneg_iff)
  have "percent_tenths k n \<le> (2001 * n) div (2 * n)"
    unfolding percent_tenths_def by (rule zdiv_mono1) (use assms in auto)
  also have "(2001 * n) div (2 * n) = 2001 div 2" using assms(3) by (intro div_mult_mult2) simp
  finally show "percent_tenths k n \<le> 1000" by simp
qed

section \<open>Witnesses\<close>

definition demo_cert_env :: cert_env where
  "demo_cert_env = \<lparr>signing_key_pem = Some ''priv'', public_key_pem = Some ''pub'', signer = (\<lambda>k d. Inr ''sig''),
     check = (\<lambda>k d sg. Inr (sg = ''sig'')), render = (\<lambda>ops. Inr ''pdf''), grouping = int_str\<rparr>"

definition demo_cert_request :: cert_request where
  "demo_cert_request = \<lparr>cq_poll = ''p'', cq_title = ''t'', cq_country = ''GB'', cq_tx = ''0x'', cq_root = ''0x'', cq_now = 0, cq_later = 0,
     cq_iso = ''2026'', cq_ms = 0\<rparr>"

definition open_rpc :: rpc where
  "open_rpc = \<lparr>votes_of = (\<lambda>h. Inr []), finals_of = (\<lambda>_. Inr 0)\<rparr>"

abbreviation demo_pin :: "string list option pinner" where
  "demo_pin \<equiv> multi_pin helia_mem (\<lambda>x. x) (\<lambda>k m. m) [] demo_env demo_fetch"

lemma demo_pin_ok: "demo_pin f c (Some b) = (Inr (''b'' @ to_hex c), Some (c # b))"
proof -
  have "json_parse ''{}'' = Some (JObj [])" by code_simp
  then show ?thesis
    by (simp add: multi_pin_def helia_mem_def pin_results_def pin_to_pinata_def demo_env_def unset_def demo_fetch_def
        pin_outcome_def hr_ok_def json_member_def pinned_def Let_def)
qed

lemma open_tally: "\<exists>t m. get_tally (\<lambda>x. x) 0 0 open_rpc ''p'' Map.empty = (Inr t, m) \<and> \<not> finalized t"
  by (simp add: get_tally_def Let_def compute_tally_def bind_result_def open_rpc_def empty_tally_def)

theorem certificate_verifies_witness:
  "cert_verify_route demo_cert_env (multi_get helia_mem) (Some (''b'' @ to_hex ''pdf'')) (Some ''sig'') (Some [''pdf'']) =
     json_res 200 (JObj [(''valid'', JBool True), (''cid'', JStr (''b'' @ to_hex ''pdf''))])"
proof -
  have keys: "keys_match demo_cert_env" by (simp add: keys_match_def demo_cert_env_def)
  obtain t m where t: "get_tally (\<lambda>x. x) 0 0 open_rpc ''p'' Map.empty = (Inr t, m)" using open_tally by blast
  then have c: "certify demo_cert_env (\<lambda>x. x) open_rpc demo_pin demo_cert_request (Map.empty, Some []) =
      (Inr \<lparr>cr_cid = ''b'' @ to_hex ''pdf'', cr_signature = ''sig'', cr_issued = ''2026''\<rparr>, m, Some [''pdf''])"
    by (simp add: certify_def demo_cert_request_def demo_cert_env_def sign_pdf_def unset_def demo_pin_ok)
  have ds: "document_store demo_pin (multi_get helia_mem)"
    by (rule helia_store.multi_document_store [OF helia_mem.helia_store_axioms])
  show ?thesis
    using certificate_verifies [OF helia_mem.helia_store_axioms keys refl c, of "[]"]
    by (simp add: document_store.put_all.simps [OF ds])
qed

theorem dev_mode_accepts_any_witness:
  "cert_verify_route (demo_cert_env\<lparr>public_key_pem := None\<rparr>) (multi_get helia_mem) (Some (''b'' @ to_hex ''doc'')) (Some ''forged'')
     (Some [''doc'']) =
   json_res 200 (JObj [(''valid'', JBool True), (''note'', JStr ''Signature verification skipped in dev mode'')])"
  by (rule dev_mode_accepts_any [where pdf = "''doc''"])
    (simp_all add: unset_def multi_get_def helia_mem_def join_chunks_concat)

theorem certificate_unchecked_witness:
  "\<exists>r st. certify demo_cert_env (\<lambda>x. x) open_rpc (\<lambda>f d s. (Inr ''b'', s)) (demo_cert_request\<lparr>cq_tx := ''made up''\<rparr>) (Map.empty, ()) =
     (Inr r, st)"
proof -
  let ?q = "demo_cert_request\<lparr>cq_tx := ''made up''\<rparr>"
  obtain t m where t: "get_tally (\<lambda>x. x) (cq_now ?q) (cq_later ?q) open_rpc (cq_poll ?q) Map.empty = (Inr t, m)" "\<not> finalized t"
    using open_tally by (auto simp: demo_cert_request_def)
  show ?thesis
    using certificate_unchecked [OF t, of demo_cert_env "\<lambda>f d s. (Inr ''b'', s)" "()"]
    by (auto simp: demo_cert_env_def sign_pdf_def unset_def)
qed

end
