(* ===== verification/Auditor_Cli.thy ===== *)
theory Auditor_Cli
  imports Tally "HOL-Library.AList"
begin

text \<open>
  The auditor's command line tool (\<open>cli/src/index.ts\<close>; its command \<open>decrypt-receipt\<close> is in theory \<open>Receipt\<close>). The
  node is a parameter, the colours of the output are left out. \<open>audit-policy\<close> counts votes by itself: it is proved to
  agree with the tally of the backend, except in the total it prints, which counts repeated nullifiers.
\<close>

datatype cli_output = Cli_Failed string | Cli_Lines "string list"

section \<open>verify-receipt and check-nullifier\<close>

record cast_log =
  cl_tx :: string
  cl_event :: vote_event

text \<open>\<open>find_receipt\<close> gives the block of a transaction, \<open>logs_in\<close> the \<open>VoteCast\<close> events of one block.\<close>

definition verify_receipt_command ::
  "(string \<Rightarrow> int option result) \<Rightarrow> (int \<Rightarrow> cast_log list result) \<Rightarrow> string \<Rightarrow> cli_output" where
  "verify_receipt_command find_receipt logs_in tx =
     (case find_receipt tx of
        Inl e \<Rightarrow> Cli_Failed e
      | Inr None \<Rightarrow> Cli_Failed ''Transaction not found.''
      | Inr (Some bn) \<Rightarrow>
          (case logs_in bn of
             Inl e \<Rightarrow> Cli_Failed e
           | Inr logs \<Rightarrow>
               (case find (\<lambda>l. to_lower (cl_tx l) = to_lower tx) logs of
                  None \<Rightarrow> Cli_Lines [''Transaction found but no VoteCast event '' @ [CHR 0xE2, CHR 0x80, CHR 0x94] @ '' may not be a vote TX.'']
                | Some l \<Rightarrow>
                    Cli_Lines [''Vote confirmed on-chain'', [], ''Transaction: '' @ tx, ''Block:       '' @ int_str bn,
                       ''Policy hash: '' @ ev_policy (cl_event l), ''Nullifier:   '' @ ev_nullifier (cl_event l),
                       ''Option:      '' @ ev_option (cl_event l)])))"

definition check_nullifier_command :: "(string \<Rightarrow> bool result) \<Rightarrow> string \<Rightarrow> cli_output" where
  "check_nullifier_command used n =
     (case used n of
        Inl e \<Rightarrow> Cli_Failed e
      | Inr True \<Rightarrow> Cli_Lines [''Nullifier has been used '' @ [CHR 0xE2, CHR 0x80, CHR 0x94] @ '' vote already cast.'']
      | Inr False \<Rightarrow>
          Cli_Lines [''Nullifier is unused '' @ [CHR 0xE2, CHR 0x80, CHR 0x94] @ '' no vote recorded for this identity/policy pair.''])"

section \<open>audit-policy\<close>

text \<open>
  The tally is an object literal, so an option named like a property of \<open>Object.prototype\<close> finds that property: adding
  one to it gives text. Assigning text to \<open>__proto__\<close> has no effect.
\<close>

datatype cli_count = Votes nat | Junk string

type_synonym cli_tally = "(string \<times> cli_count) list"

definition cli_add :: "string \<Rightarrow> cli_tally \<Rightarrow> cli_tally" where
  "cli_add opt t =
     (case obj_get t opt of
        Undefined \<Rightarrow> AList.update opt (Votes 1) t
      | Own (Votes n) \<Rightarrow> AList.update opt (Votes (n + 1)) t
      | Own (Junk s) \<Rightarrow> AList.update opt (Junk (s @ ''1'')) t
      | Inherited s \<Rightarrow> if opt = ''__proto__'' then t else AList.update opt (Junk (s @ ''1'')) t)"

fun cli_loop :: "vote_event list \<Rightarrow> string set \<Rightarrow> cli_tally \<Rightarrow> cli_tally" where
  "cli_loop [] seen t = t"
| "cli_loop (e # es) seen t =
     (if ev_nullifier e \<in> seen then cli_loop es seen t
      else cli_loop es (insert (ev_nullifier e) seen) (cli_add (ev_option e) t))"

text \<open>\<open>Object.entries\<close>: array indices first, in numerical order, then the other keys as they were added.\<close>

definition array_index :: "string \<Rightarrow> bool" where
  "array_index k \<longleftrightarrow> k \<noteq> [] \<and> list_all is_digit k \<and> nat_str (digits_val k) = k \<and> digits_val k < 2 ^ 32 - 1"

definition object_entries :: "(string \<times> 'a) list \<Rightarrow> (string \<times> 'a) list" where
  "object_entries t =
     sort_key (\<lambda>kv. digits_val (fst kv)) (filter (\<lambda>kv. array_index (fst kv)) t) @ filter (\<lambda>kv. \<not> array_index (fst kv)) t"

text \<open>\<open>Math.round((count / events.length) * 100)\<close>, for exact quotients; \<open>NaN\<close> for text.\<close>

definition cli_line :: "nat \<Rightarrow> string \<times> cli_count \<Rightarrow> string" where
  "cli_line n = (\<lambda>(opt, c).
     ''  '' @ pad_end 20 (CHR '' '') opt @ '' '' @
     (case c of
        Votes k \<Rightarrow> nat_str k @ '' ('' @ nat_str ((200 * k + n) div (2 * n)) @ ''%)''
      | Junk s \<Rightarrow> s @ '' (NaN%)''))"

definition audit_policy_command ::
  "(string \<Rightarrow> string) \<Rightarrow> rpc \<Rightarrow> (string \<Rightarrow> string result) \<Rightarrow> string \<Rightarrow> string \<Rightarrow> cli_output" where
  "audit_policy_command id_hash c document ipfs pid =
     (case votes_of c (id_hash pid) of
        Inl e \<Rightarrow> Cli_Failed e
      | Inr events \<Rightarrow>
          Cli_Lines
            ([[], ''Policy: '' @ pid, ''Total votes: '' @ nat_str (length events)] @
             map (cli_line (length events)) (object_entries (cli_loop events {} [])) @
             (case document (id_hash pid) of
                Inl e \<Rightarrow> []
              | Inr cid \<Rightarrow> if cid = [] then [] else [[], ''Document CID: '' @ cid, ''Document URL: '' @ ipfs @ cid])))"

section \<open>Agreement with the backend\<close>

definition cli_votes :: "string \<Rightarrow> cli_tally \<Rightarrow> int" where
  "cli_votes opt t = (case map_of t opt of Some (Votes n) \<Rightarrow> int n | _ \<Rightarrow> 0)"

definition counts_well :: "string \<Rightarrow> cli_tally \<Rightarrow> bool" where
  "counts_well opt t \<longleftrightarrow> (\<forall>s. map_of t opt \<noteq> Some (Junk s))"

lemma cli_add_other: "opt \<noteq> x \<Longrightarrow> map_of (cli_add x t) opt = map_of t opt"
  by (auto simp: cli_add_def update_conv' split: slot.splits cli_count.splits)

lemma cli_add_same:
  assumes "map_of object_prototype opt = None" "counts_well opt t"
  shows "counts_well opt (cli_add opt t) \<and> cli_votes opt (cli_add opt t) = cli_votes opt t + 1"
  using assms
  by (auto simp: cli_add_def counts_well_def cli_votes_def obj_get_def update_conv' split: option.splits cli_count.splits)

lemma cli_loop_votes:
  assumes "map_of object_prototype opt = None" "counts_well opt t"
  shows "cli_votes opt (cli_loop es seen t) = cli_votes opt t + votes_for opt (first_votes seen es)"
  using assms(2)
proof (induction es arbitrary: seen t)
  case Nil
  then show ?case by (simp add: votes_for_def)
next
  case (Cons e es)
  show ?case
  proof (cases "ev_nullifier e \<in> seen")
    case True
    with Cons show ?thesis by simp
  next
    case False
    show ?thesis
    proof (cases "ev_option e = opt")
      case True
      with False Cons cli_add_same [OF assms(1) Cons.prems] show ?thesis by (simp add: votes_for_def)
    next
      case other: False
      then have "counts_well opt (cli_add (ev_option e) t)" "cli_votes opt (cli_add (ev_option e) t) = cli_votes opt t"
        using Cons.prems by (simp_all add: counts_well_def cli_votes_def cli_add_other)
      with False other Cons.IH show ?thesis by (simp add: votes_for_def)
    qed
  qed
qed

lemma length_first_votes_le: "length (first_votes seen es) \<le> length es"
  by (induction es arbitrary: seen) (auto intro: le_SucI)

lemma first_votes_all: "length (first_votes seen es) = length es \<longleftrightarrow> distinct (map ev_nullifier es) \<and> ev_nullifier ` set es \<inter> seen = {}"
proof (induction es arbitrary: seen)
  case (Cons e es)
  show ?case
  proof (cases "ev_nullifier e \<in> seen")
    case True
    have "length (first_votes seen es) \<noteq> Suc (length es)" using length_first_votes_le [of seen es] by simp
    with True show ?thesis by simp
  next
    case False
    with Cons.IH [of "insert (ev_nullifier e) seen"] show ?thesis by auto
  qed
qed simp

text \<open>The auditor's tool and the backend count alike from one log: for every option the tally knows, the tool shows the
  backend's number. The totals agree exactly when no nullifier is repeated in the log.\<close>

theorem cli_agrees_with_tally:
  assumes "compute_tally h c pid = Inr t" "votes_of c (h pid) = Inr es"
  shows "cli_votes ''option-support'' (cli_loop es {} []) = support t \<and>
    cli_votes ''option-oppose'' (cli_loop es {} []) = oppose t \<and>
    cli_votes ''option-abstain'' (cli_loop es {} []) = abstain t \<and>
    (int (length es) = total t \<longleftrightarrow> distinct (map ev_nullifier es))"
proof -
  have none: "map_of object_prototype ''option-support'' = None" "map_of object_prototype ''option-oppose'' = None"
    "map_of object_prototype ''option-abstain'' = None" by (simp_all add: object_prototype_def)
  have well: "counts_well opt []" for opt by (simp add: counts_well_def)
  obtain n where t: "t = (tally_loop es {} (empty_tally pid))\<lparr>finalized := 0 < (n :: nat)\<rparr>"
    using assms by (auto simp: compute_tally_def bind_result_Inr_iff)
  have "int (length es) = total t \<longleftrightarrow> distinct (map ev_nullifier es)"
    using first_votes_all [of "{}" es] by (auto simp: t tally_loop_simps empty_tally_def)
  then show ?thesis
    by (simp add: cli_loop_votes [OF none(1) well] cli_loop_votes [OF none(2) well] cli_loop_votes [OF none(3) well]
        t tally_loop_simps empty_tally_def) (simp add: cli_votes_def)
qed

theorem cli_agrees_with_tally_witness:
  "cli_votes ''option-support'' (cli_loop [demo_event ''a'' ''option-support'' 7, demo_event ''a'' ''option-oppose'' 8] {} []) = 1"
proof -
  let ?es = "[demo_event ''a'' ''option-support'' 7, demo_event ''a'' ''option-oppose'' 8]"
  let ?t = "(tally_loop ?es {} (empty_tally ''p''))\<lparr>finalized := 0 < (1 :: nat)\<rparr>"
  have "compute_tally (\<lambda>x. x) (demo_rpc ?es) ''p'' = Inr ?t"
    by (simp add: compute_tally_def bind_result_def demo_rpc_def demo_event_def)
  moreover have "votes_of (demo_rpc ?es) ''p'' = Inr ?es" by (simp add: demo_rpc_def demo_event_def)
  ultimately have "cli_votes ''option-support'' (cli_loop ?es {} []) = support ?t"
    using cli_agrees_with_tally [of "\<lambda>x. x" "demo_rpc ?es" "''p''" ?t ?es] by blast
  also have "support ?t = 1" by (simp add: count_vote_simps empty_tally_def demo_event_def)
  finally show ?thesis .
qed

text \<open>A receipt is confirmed only when its transaction emitted a vote in its block, and shows that vote.\<close>

lemma verify_receipt_sound:
  assumes "verify_receipt_command find_receipt logs_in tx = Cli_Lines (''Vote confirmed on-chain'' # ls)"
  shows "\<exists>bn logs l. find_receipt tx = Inr (Some bn) \<and> logs_in bn = Inr logs \<and> l \<in> set logs \<and>
    to_lower (cl_tx l) = to_lower tx \<and> ''Nullifier:   '' @ ev_nullifier (cl_event l) \<in> set ls"
  using assms
  by (auto simp: verify_receipt_command_def find_Some_iff split: sum.splits option.splits) (metis nth_mem)

end
