(* ===== verification/Chain_Events.thy ===== *)
theory Chain_Events
  imports Ledger Live_Tally Auditor_Cli
begin

text \<open>
  The logs between the ledger contract and its readers. The contract logs an event under the Keccak hash of the
  signature it declares; the tally service, the live tally and the auditor's tool ask the node for the hash of the
  signature \<^emph>\<open>they\<close> declare (\<open>abi\<close> in \<open>TallyService.ts\<close>, \<open>ABI\<close> in \<open>LiveTallyService.ts\<close>, \<open>VOTE_LEDGER_ABI\<close> in
  \<open>cli/src/index.ts\<close>). Their signatures of \<open>VoteCast\<close> and \<open>PolicyFinalized\<close> are none of the contract's: no vote that
  the ledger of theory \<open>Ledger\<close> records ever reaches them.
\<close>

section \<open>Logs\<close>

record raw_log =
  topic0 :: string
  topics :: "string list"
  lg_data :: string
  lg_block :: int

text \<open>The events of \<open>VoteLedger.sol\<close>, with those of the OpenZeppelin contracts it extends.\<close>

definition LEDGER_EVENTS :: "string list" where
  "LEDGER_EVENTS =
     [''PollCreated(bytes32,bytes2,uint64)'', ''VoteCast(bytes32,bytes32,bytes32)'', ''PollFinalised(bytes32,uint256)'',
      ''OwnershipTransferred(address,address)'', ''Paused(address)'', ''Unpaused(address)'', ''Upgraded(address)'',
      ''Initialized(uint64)'']"

definition READER_VOTE_CAST :: string where
  "READER_VOTE_CAST = ''VoteCast(bytes32,bytes32,string,uint256)''"

definition READER_FINALIZED :: string where
  "READER_FINALIZED = ''PolicyFinalized(bytes32)''"

text \<open>The logs of the votes of a ledger; \<open>block_of\<close> gives the block of the nth.\<close>

definition vote_logs :: "(string \<Rightarrow> string) \<Rightarrow> (nat \<Rightarrow> int) \<Rightarrow> ledger \<Rightarrow> raw_log list" where
  "vote_logs keccak block_of st =
     map (\<lambda>(i, c). \<lparr>topic0 = keccak ''VoteCast(bytes32,bytes32,bytes32)'', topics = [vc_poll c, vc_nullifier c], lg_data = vc_option c,
                    lg_block = block_of i\<rparr>)
       (enumerate 0 (casts st))"

text \<open>What a node answers to a query, and what the client library makes of it; \<open>decode\<close> reads an event's arguments.\<close>

definition query_logs :: "(string \<Rightarrow> string) \<Rightarrow> string \<Rightarrow> string option \<Rightarrow> raw_log list \<Rightarrow> raw_log list" where
  "query_logs keccak signature policy logs =
     filter (\<lambda>l. topic0 l = keccak signature \<and> (case policy of None \<Rightarrow> True | Some p \<Rightarrow> topics l \<noteq> [] \<and> hd (topics l) = p)) logs"

definition node_rpc :: "(string \<Rightarrow> string) \<Rightarrow> (raw_log \<Rightarrow> vote_event) \<Rightarrow> raw_log list \<Rightarrow> rpc" where
  "node_rpc keccak decode logs =
     \<lparr>votes_of = (\<lambda>p. Inr (map decode (query_logs keccak READER_VOTE_CAST (Some p) logs))),
      finals_of = (\<lambda>p. Inr (length (query_logs keccak READER_FINALIZED (Some p) logs)))\<rparr>"

text \<open>The past events of \<open>catchUp\<close>, and the subscription of \<open>start\<close>: the events of the logs as they come.\<close>

definition node_past :: "(string \<Rightarrow> string) \<Rightarrow> (raw_log \<Rightarrow> vote_event) \<Rightarrow> raw_log list \<Rightarrow> int \<Rightarrow> vote_event list result" where
  "node_past keccak decode logs from_block =
     Inr (map decode (filter (\<lambda>l. from_block \<le> lg_block l) (query_logs keccak READER_VOTE_CAST None logs)))"

fun deliver :: "(string \<Rightarrow> string) \<Rightarrow> (raw_log \<Rightarrow> vote_event) \<Rightarrow> raw_log list \<Rightarrow> live \<Rightarrow> live_update list \<times> live" where
  "deliver keccak decode [] st = ([], st)"
| "deliver keccak decode (l # ls) st =
     (let r = (if topic0 l = keccak READER_VOTE_CAST then on_vote_cast (decode l) st
               else if topic0 l = keccak READER_FINALIZED then on_policy_finalized (hd (topics l)) st
               else (None, st))
      in case deliver keccak decode ls (snd r) of
           (us, st') \<Rightarrow> ((case fst r of None \<Rightarrow> us | Some u \<Rightarrow> u # us), st'))"

section \<open>Nothing arrives\<close>

text \<open>The hash tells the readers' signatures from the contract's.\<close>

definition tells_apart :: "(string \<Rightarrow> string) \<Rightarrow> bool" where
  "tells_apart keccak \<longleftrightarrow> keccak READER_VOTE_CAST \<notin> keccak ` set LEDGER_EVENTS \<and> keccak READER_FINALIZED \<notin> keccak ` set LEDGER_EVENTS"

definition ledger_logs :: "(string \<Rightarrow> string) \<Rightarrow> raw_log list \<Rightarrow> bool" where
  "ledger_logs keccak logs \<longleftrightarrow> (\<forall>l \<in> set logs. topic0 l \<in> keccak ` set LEDGER_EVENTS)"

lemma query_none:
  assumes "tells_apart keccak" "ledger_logs keccak logs" "signature \<in> {READER_VOTE_CAST, READER_FINALIZED}"
  shows "query_logs keccak signature p logs = []"
proof -
  have "topic0 l \<noteq> keccak signature" if "l \<in> set logs" for l
    using assms that unfolding tells_apart_def ledger_logs_def by (metis insert_iff singletonD)
  then show ?thesis by (simp add: query_logs_def filter_empty_conv)
qed

lemma vote_logs_ledger: "ledger_logs keccak (vote_logs keccak block_of st)"
  by (auto simp: ledger_logs_def vote_logs_def LEDGER_EVENTS_def)

lemma deliver_none:
  assumes "tells_apart keccak"
  shows "ledger_logs keccak logs \<Longrightarrow> deliver keccak decode logs st = ([], st)"
proof (induction logs)
  case (Cons l ls)
  then have "topic0 l \<in> keccak ` set LEDGER_EVENTS" "ledger_logs keccak ls" by (simp_all add: ledger_logs_def)
  with assms have "topic0 l \<noteq> keccak READER_VOTE_CAST" "topic0 l \<noteq> keccak READER_FINALIZED" "deliver keccak decode ls st = ([], st)"
    using Cons.IH by (auto simp: tells_apart_def)
  then show ?case by simp
qed simp

text \<open>C20: no vote of the ledger is ever counted: whatever votes the contract recorded, and whatever else it logged, the
  tally of every policy is empty, the live tally sends nothing, and the auditor's tool reports no vote.\<close>

theorem ledger_votes_unseen:
  assumes "tells_apart keccak" "ledger_logs keccak others" "set logs = set (vote_logs keccak block_of st @ others)"
  shows "compute_tally keccak (node_rpc keccak decode logs) pid = Inr (empty_tally pid) \<and>
    deliver keccak decode logs live = ([], live) \<and>
    (\<exists>ls. audit_policy_command keccak (node_rpc keccak decode logs) document ipfs pid =
       Cli_Lines ([] # (''Policy: '' @ pid) # ''Total votes: 0'' # ls))"
proof -
  have l: "ledger_logs keccak logs"
    using vote_logs_ledger [of keccak block_of st] assms(2,3) by (simp add: ledger_logs_def ball_Un)
  have q: "query_logs keccak READER_VOTE_CAST p logs = []" "query_logs keccak READER_FINALIZED p logs = []" for p
    by (rule query_none [OF assms(1) l]; simp)+
  have "(empty_tally pid)\<lparr>finalized := False\<rparr> = empty_tally pid" by (simp add: empty_tally_def)
  then have "compute_tally keccak (node_rpc keccak decode logs) pid = Inr (empty_tally pid)"
    by (simp add: compute_tally_def node_rpc_def q)
  moreover have "audit_policy_command keccak (node_rpc keccak decode logs) document ipfs pid =
      Cli_Lines ([] # (''Policy: '' @ pid) # ''Total votes: 0'' #
        (case document (keccak pid) of
           Inl e \<Rightarrow> []
         | Inr cid \<Rightarrow> if cid = [] then [] else [[], ''Document CID: '' @ cid, ''Document URL: '' @ ipfs @ cid]))"
    by (simp add: audit_policy_command_def node_rpc_def q object_entries_def nat_str_zero)
  ultimately show ?thesis using deliver_none [OF assms(1) l] by blast
qed

definition demo_decode :: "raw_log \<Rightarrow> vote_event" where
  "demo_decode l = \<lparr>ev_policy = hd (topics l), ev_nullifier = topics l ! 1, ev_option = lg_data l, ev_block = lg_block l\<rparr>"

definition demo_ledger :: ledger where
  "demo_ledger = (ledger_init ''owner'')\<lparr>casts := [\<lparr>vc_poll = ''p'', vc_nullifier = ''n'', vc_option = ''option-support''\<rparr>]\<rparr>"

theorem ledger_votes_unseen_witness:
  "casts demo_ledger \<noteq> [] \<and>
   compute_tally (\<lambda>x. x) (node_rpc (\<lambda>x. x) demo_decode (vote_logs (\<lambda>x. x) int demo_ledger)) ''p'' = Inr (empty_tally ''p'')"
proof -
  have "tells_apart (\<lambda>x. x)" by (simp add: tells_apart_def READER_VOTE_CAST_def READER_FINALIZED_def LEDGER_EVENTS_def)
  from ledger_votes_unseen [OF this, of "[]" "vote_logs (\<lambda>x. x) int demo_ledger" int demo_ledger] show ?thesis
    by (simp add: ledger_logs_def demo_ledger_def)
qed

end
