(* ===== verification/Health.thy ===== *)
theory Health
  imports Documents
begin

text \<open>
  The deep health check (\<open>routes/healthDeep.ts\<close>) and what a server does without an IPFS node. The server's start
  (\<open>index.ts\<close>) never calls \<open>ipfsService.init()\<close>, so the service's node is \<open>None\<close> as long as it runs; the chain, Redis and
  the heap are parameters, and so are the readings of the clock.
\<close>

section \<open>The check\<close>

record check_result =
  ck_ok :: bool
  ck_latency :: "int option"
  ck_error :: "string option"

definition check_json :: "check_result \<Rightarrow> json" where
  "check_json c = JObj
     ((''ok'', JBool (ck_ok c)) # (case ck_latency c of None \<Rightarrow> [] | Some n \<Rightarrow> [(''latencyMs'', JNum n)]) @
      (case ck_error c of None \<Rightarrow> [] | Some e \<Rightarrow> [(''error'', JStr e)]))"

definition timed_check :: "'a result \<Rightarrow> ('a \<Rightarrow> bool) \<Rightarrow> int \<Rightarrow> check_result" where
  "timed_check r good ms =
     (case r of
        Inl e \<Rightarrow> \<lparr>ck_ok = False, ck_latency = None, ck_error = Some e\<rparr>
      | Inr x \<Rightarrow> \<lparr>ck_ok = good x, ck_latency = Some ms, ck_error = None\<rparr>)"

record probe =
  pr_chain :: "int result"
  pr_redis :: "string result"
  pr_heap :: nat
  pr_ms :: int
  pr_iso :: string
  pr_latency :: "string \<Rightarrow> int"

definition ipfs_check :: "'b helia \<Rightarrow> probe \<Rightarrow> 'b option \<Rightarrow> check_result \<times> 'b option" where
  "ipfs_check H p s =
     (case pin_document H ''health-check.txt'' (''health-check-'' @ int_str (pr_ms p)) s of
        (r, s') \<Rightarrow> (timed_check (bind_result r (\<lambda>cid. get_document H cid s')) (\<lambda>_. True) (pr_latency p ''ipfs''), s'))"

text \<open>\<open>Math.round(heapUsed / 1024 / 1024)\<close>\<close>

definition memory_check :: "nat \<Rightarrow> check_result" where
  "memory_check heap =
     \<lparr>ck_ok = heap < 500 * 1024 * 1024, ck_latency = Some (int ((2 * heap + 1048576) div 2097152)), ck_error = None\<rparr>"

definition health_deep_route :: "'b helia \<Rightarrow> probe \<Rightarrow> 'b option \<Rightarrow> response \<times> 'b option" where
  "health_deep_route H p s =
     (case ipfs_check H p s of
        (ipfs, s') \<Rightarrow>
          (let checks = [(''blockchain'', timed_check (pr_chain p) (\<lambda>_. True) (pr_latency p ''blockchain'')), (''ipfs'', ipfs),
                         (''redis'', timed_check (pr_redis p) (\<lambda>pong. pong = ''PONG'') (pr_latency p ''redis'')),
                         (''memory'', memory_check (pr_heap p))];
               all_ok = list_all (\<lambda>c. ck_ok (snd c)) checks
           in (json_res (if all_ok then 200 else 503)
                 (JObj [(''status'', JStr (if all_ok then ''healthy'' else ''degraded'')), (''timestamp'', JStr (pr_iso p)),
                        (''checks'', JObj (map (\<lambda>(k, c). (k, check_json c)) checks))]), s')))"

section \<open>With a node\<close>

text \<open>With an initialised node the check passes exactly when the chain answers, Redis says PONG and the heap is below
  500 MB: the probe document is always read back.\<close>

theorem health_deep_outcome:
  assumes "helia_store H"
  shows "status (fst (health_deep_route H p (Some b))) =
    (if (\<exists>n. pr_chain p = Inr n) \<and> pr_redis p = Inr ''PONG'' \<and> pr_heap p < 524288000 then 200 else 503)"
proof -
  obtain r s' where pin: "pin_document H ''health-check.txt'' (''health-check-'' @ int_str (pr_ms p)) (Some b) = (r, s')" by fastforce
  then obtain cid where r: "r = Inr cid" by (auto simp: pin_document_def split: prod.splits)
  have "get_document H cid s' = Inr (''health-check-'' @ int_str (pr_ms p))"
    using pin unfolding r by (rule helia_store.ipfs_put_get [OF assms])
  then have "ipfs_check H p (Some b) = (\<lparr>ck_ok = True, ck_latency = Some (pr_latency p ''ipfs''), ck_error = None\<rparr>, s')"
    unfolding ipfs_check_def pin r by (simp add: timed_check_def)
  then show ?thesis
    by (auto simp: health_deep_route_def Let_def timed_check_def memory_check_def split: sum.splits)
qed

section \<open>The server as it is started\<close>

datatype document_request =
    Doc_Pin "(string \<times> string) option" "string option"
  | Doc_Get string
  | Doc_Verify string "string option"
  | Doc_Health probe

fun serve_document :: "'b helia \<Rightarrow> int \<Rightarrow> document_request \<Rightarrow> 'b option \<Rightarrow> response \<times> 'b option" where
  "serve_document H t (Doc_Pin upload policy) s = pin_route H t policy upload s"
| "serve_document H t (Doc_Get cid) s = (fst (document_route H cid s), s)"
| "serve_document H t (Doc_Verify cid hexContent) s = (verify_route H cid hexContent s, s)"
| "serve_document H t (Doc_Health p) s = health_deep_route H p s"

fun serve_documents :: "'b helia \<Rightarrow> (int \<times> document_request) list \<Rightarrow> 'b option \<Rightarrow> response list \<times> 'b option" where
  "serve_documents H [] s = ([], s)"
| "serve_documents H ((t, r) # rs) s =
     (case serve_document H t r s of (x, s') \<Rightarrow> (case serve_documents H rs s' of (xs, s'') \<Rightarrow> (x # xs, s'')))"

lemma pin_without_node: "pin_document H f c None = (throw ''IPFSService not initialised'', None)"
  by (simp add: pin_document_def)

lemma get_without_node: "get_document H cid None = throw ''IPFSService not initialised''"
  by (simp add: get_document_def)

lemmas without_node = pin_without_node get_without_node verify_document_def throw_def

text \<open>What one request is answered without a node: an upload fails, a document is not found, no content is valid, and the
  service is degraded.\<close>

fun refused :: "document_request \<Rightarrow> response \<Rightarrow> bool" where
  "refused (Doc_Pin upload policy) r = (status r \<in> {400, 500})"
| "refused (Doc_Get cid) r = (status r \<in> {400, 404})"
| "refused (Doc_Verify cid hexContent) r =
     (status r = 400 \<or> r = json_res 200 (JObj [(''cid'', JStr cid), (''valid'', JBool False)]))"
| "refused (Doc_Health p) r = (status r = 503)"

lemma serve_without_node: "\<exists>x. serve_document H t r None = (x, None) \<and> refused r x"
  by (cases r)
    (auto simp: pin_route_def document_route_def verify_route_def health_deep_route_def ipfs_check_def timed_check_def Let_def
      without_node json_res_def split: option.splits)

text \<open>The server as \<open>index.ts\<close> starts it, which never calls \<open>init\<close>, stores no document: in any sequence of requests
  every upload is refused, every document is missing, every verification says \<open>false\<close>, and every health check 503.\<close>

theorem server_never_pins:
  "\<exists>rs. serve_documents H reqs None = (rs, None) \<and> list_all2 refused (map snd reqs) rs"
proof (induction reqs)
  case (Cons q reqs)
  obtain t r where q: "q = (t, r)" by fastforce
  obtain x where "serve_document H t r None = (x, None)" "refused r x" using serve_without_node by blast
  with Cons.IH show ?case by (auto simp: q)
qed simp

definition demo_probe :: probe where
  "demo_probe =
     \<lparr>pr_chain = Inr 7, pr_redis = Inr ''PONG'', pr_heap = 1048576, pr_ms = 5, pr_iso = ''now'', pr_latency = (\<lambda>_. 1)\<rparr>"

theorem health_deep_outcome_witness: "status (fst (health_deep_route helia_mem demo_probe (Some []))) = 200"
  using health_deep_outcome [OF helia_mem.helia_store_axioms, of demo_probe "[]"] by (simp add: demo_probe_def)

end
