(* ===== verification/Pause_Guardian.thy ===== *)
theory Pause_Guardian
  imports Ledger
begin

text \<open>
  The multi-signature pause of the ledger, \<open>src/blockchain/contracts/PauseGuardian.sol\<close>. The roles of OpenZeppelin's
  \<open>AccessControl\<close> are two sets of accounts; the contract it pauses is a record of two calls, whose law (the locale
  \<open>pausable_target\<close>) the ledger of theory \<open>Ledger\<close> satisfies. The events are kept in a log, oldest first, which
  determines what was approved, what was executed and whether the target is paused.
\<close>

section \<open>The contract\<close>

record 't pausable =
  tp_pause :: "string \<Rightarrow> 't \<Rightarrow> 't result"
  tp_unpause :: "string \<Rightarrow> 't \<Rightarrow> 't result"

record pause_proposal =
  gp_pause :: bool
  gp_reason :: string
  gp_approvals :: nat
  gp_executed :: bool
  gp_approved :: "string \<Rightarrow> bool"

datatype guardian_event =
    Ev_Granted string
  | Ev_Created nat bool string string
  | Ev_Approved nat string
  | Ev_Executed nat bool

record guardian =
  pg_admins :: "string \<Rightarrow> bool"
  pg_guardians :: "string \<Rightarrow> bool"
  pg_threshold :: nat
  pg_count :: nat
  pg_next :: nat
  pg_proposals :: "nat \<Rightarrow> pause_proposal"
  pg_log :: "guardian_event list"

definition no_proposal :: pause_proposal where
  "no_proposal = \<lparr>gp_pause = False, gp_reason = [], gp_approvals = 0, gp_executed = False, gp_approved = (\<lambda>_. False)\<rparr>"

definition grant :: "string \<Rightarrow> guardian \<Rightarrow> guardian" where
  "grant a g = (if pg_guardians g a then g else g\<lparr>pg_guardians := (pg_guardians g)(a := True), pg_log := pg_log g @ [Ev_Granted a]\<rparr>)"

text \<open>The constructor, called by \<open>deployer\<close>.\<close>

definition guardian_init :: "string \<Rightarrow> string list \<Rightarrow> nat \<Rightarrow> guardian result" where
  "guardian_init deployer guardians threshold =
     (if \<not> (0 < threshold \<and> threshold \<le> length guardians) then throw ''Invalid threshold''
      else Inr (fold grant guardians
             \<lparr>pg_admins = (\<lambda>a. a = deployer), pg_guardians = (\<lambda>_. False), pg_threshold = threshold, pg_count = length guardians,
              pg_next = 0, pg_proposals = (\<lambda>_. no_proposal), pg_log = []\<rparr>))"

definition only_guardian :: "string \<Rightarrow> guardian \<Rightarrow> 'a result \<Rightarrow> 'a result" where
  "only_guardian a g r = (if pg_guardians g a then r else throw ''AccessControlUnauthorizedAccount'')"

definition create_proposal :: "string \<Rightarrow> bool \<Rightarrow> string \<Rightarrow> guardian \<Rightarrow> nat \<times> guardian" where
  "create_proposal a is_pause reason g =
     (let i = pg_next g
      in (i, g\<lparr>pg_next := i + 1,
              pg_proposals := (pg_proposals g)(i := (pg_proposals g i)\<lparr>gp_pause := is_pause, gp_reason := reason\<rparr>),
              pg_log := pg_log g @ [Ev_Created i is_pause a reason]\<rparr>))"

definition approve :: "string \<Rightarrow> nat \<Rightarrow> guardian \<Rightarrow> guardian result" where
  "approve a i g =
     (let p = pg_proposals g i
      in if gp_executed p then throw ''AlreadyExecuted''
         else if gp_approved p a then throw ''AlreadyApproved''
         else Inr (g\<lparr>pg_proposals := (pg_proposals g)(i := p\<lparr>gp_approved := (gp_approved p)(a := True),
                                                           gp_approvals := gp_approvals p + 1\<rparr>),
                     pg_log := pg_log g @ [Ev_Approved i a]\<rparr>))"

definition propose_pause :: "string \<Rightarrow> string \<Rightarrow> guardian \<Rightarrow> guardian result" where
  "propose_pause a reason g =
     only_guardian a g (case create_proposal a True reason g of (i, g') \<Rightarrow> approve a i g')"

definition propose_unpause :: "string \<Rightarrow> string \<Rightarrow> guardian \<Rightarrow> guardian result" where
  "propose_unpause a reason g =
     only_guardian a g (case create_proposal a False reason g of (i, g') \<Rightarrow> approve a i g')"

definition approve_pause :: "string \<Rightarrow> nat \<Rightarrow> guardian \<Rightarrow> guardian result" where
  "approve_pause a i g =
     only_guardian a g (if \<not> gp_pause (pg_proposals g i) then throw ''Not a pause proposal'' else approve a i g)"

definition approve_unpause :: "string \<Rightarrow> nat \<Rightarrow> guardian \<Rightarrow> guardian result" where
  "approve_unpause a i g =
     only_guardian a g (if gp_pause (pg_proposals g i) then throw ''Not an unpause proposal'' else approve a i g)"

definition mark_executed :: "nat \<Rightarrow> bool \<Rightarrow> guardian \<Rightarrow> guardian" where
  "mark_executed i b g =
     g\<lparr>pg_proposals := (pg_proposals g)(i := (pg_proposals g i)\<lparr>gp_executed := True\<rparr>), pg_log := pg_log g @ [Ev_Executed i b]\<rparr>"

text \<open>\<open>self\<close> is the guardian contract's own address, the sender of its call to the target.\<close>

definition execute_pause :: "'t pausable \<Rightarrow> string \<Rightarrow> string \<Rightarrow> nat \<Rightarrow> guardian \<times> 't \<Rightarrow> (guardian \<times> 't) result" where
  "execute_pause T self a i = (\<lambda>(g, t).
     only_guardian a g
       (let p = pg_proposals g i
        in if gp_executed p then throw ''AlreadyExecuted''
           else if \<not> gp_pause p then throw ''Not a pause proposal''
           else if gp_approvals p < pg_threshold g then throw ''ThresholdNotMet''
           else bind_result (tp_pause T self t) (\<lambda>t'. Inr (mark_executed i True g, t'))))"

definition execute_unpause :: "'t pausable \<Rightarrow> string \<Rightarrow> string \<Rightarrow> nat \<Rightarrow> guardian \<times> 't \<Rightarrow> (guardian \<times> 't) result" where
  "execute_unpause T self a i = (\<lambda>(g, t).
     only_guardian a g
       (let p = pg_proposals g i
        in if gp_executed p then throw ''AlreadyExecuted''
           else if gp_pause p then throw ''Not an unpause proposal''
           else if gp_approvals p < pg_threshold g then throw ''ThresholdNotMet''
           else bind_result (tp_unpause T self t) (\<lambda>t'. Inr (mark_executed i False g, t'))))"

definition get_approvals :: "nat \<Rightarrow> guardian \<Rightarrow> nat" where
  "get_approvals i g = gp_approvals (pg_proposals g i)"

definition has_approved :: "nat \<Rightarrow> string \<Rightarrow> guardian \<Rightarrow> bool" where
  "has_approved i a g = gp_approved (pg_proposals g i) a"

text \<open>\<open>grantRole\<close> and \<open>revokeRole\<close> of the guardian role, inherited from \<open>AccessControl\<close>.\<close>

definition grant_role :: "string \<Rightarrow> string \<Rightarrow> guardian \<Rightarrow> guardian result" where
  "grant_role a b g = (if pg_admins g a then Inr (grant b g) else throw ''AccessControlUnauthorizedAccount'')"

definition revoke_role :: "string \<Rightarrow> string \<Rightarrow> guardian \<Rightarrow> guardian result" where
  "revoke_role a b g =
     (if pg_admins g a then Inr (g\<lparr>pg_guardians := (pg_guardians g)(b := False)\<rparr>) else throw ''AccessControlUnauthorizedAccount'')"

datatype guardian_call =
    Propose_Pause string
  | Approve_Pause nat
  | Execute_Pause nat
  | Propose_Unpause string
  | Approve_Unpause nat
  | Execute_Unpause nat
  | Grant_Role string
  | Revoke_Role string

definition keep :: "'t \<Rightarrow> guardian result \<Rightarrow> (guardian \<times> 't) result" where
  "keep t r = bind_result r (\<lambda>g. Inr (g, t))"

fun guardian_exec :: "'t pausable \<Rightarrow> string \<Rightarrow> string \<Rightarrow> guardian_call \<Rightarrow> guardian \<times> 't \<Rightarrow> (guardian \<times> 't) result" where
  "guardian_exec T self a (Propose_Pause reason) (g, t) = keep t (propose_pause a reason g)"
| "guardian_exec T self a (Approve_Pause i) (g, t) = keep t (approve_pause a i g)"
| "guardian_exec T self a (Execute_Pause i) (g, t) = execute_pause T self a i (g, t)"
| "guardian_exec T self a (Propose_Unpause reason) (g, t) = keep t (propose_unpause a reason g)"
| "guardian_exec T self a (Approve_Unpause i) (g, t) = keep t (approve_unpause a i g)"
| "guardian_exec T self a (Execute_Unpause i) (g, t) = execute_unpause T self a i (g, t)"
| "guardian_exec T self a (Grant_Role b) (g, t) = keep t (grant_role a b g)"
| "guardian_exec T self a (Revoke_Role b) (g, t) = keep t (revoke_role a b g)"

text \<open>Transactions to the guardian contract and to its target, which \<open>step\<close> executes; one that reverts changes nothing.\<close>

datatype 'c guarded_tx = To_Guardian string guardian_call | To_Target 'c

fun guarded_step :: "'t pausable \<Rightarrow> string \<Rightarrow> ('c \<Rightarrow> 't \<Rightarrow> 't result) \<Rightarrow> 'c guarded_tx \<Rightarrow> guardian \<times> 't \<Rightarrow> guardian \<times> 't" where
  "guarded_step T self step (To_Guardian a c) s = (case guardian_exec T self a c s of Inl e \<Rightarrow> s | Inr s' \<Rightarrow> s')"
| "guarded_step T self step (To_Target c) (g, t) = (case step c t of Inl e \<Rightarrow> (g, t) | Inr t' \<Rightarrow> (g, t'))"

definition guarded_run :: "'t pausable \<Rightarrow> string \<Rightarrow> ('c \<Rightarrow> 't \<Rightarrow> 't result) \<Rightarrow> 'c guarded_tx list \<Rightarrow> guardian \<times> 't \<Rightarrow> guardian \<times> 't" where
  "guarded_run T self step txs s = fold (guarded_step T self step) txs s"

lemmas guardian_defs =
  propose_pause_def propose_unpause_def approve_pause_def approve_unpause_def execute_pause_def execute_unpause_def
  grant_role_def revoke_role_def grant_def only_guardian_def create_proposal_def approve_def mark_executed_def keep_def throw_def
  Let_def

section \<open>What the log says\<close>

definition approvers :: "nat \<Rightarrow> guardian_event list \<Rightarrow> string set" where
  "approvers i es = {a. Ev_Approved i a \<in> set es}"

definition flag_of :: "guardian_event list \<Rightarrow> bool" where
  "flag_of es = fold (\<lambda>e b. case e of Ev_Executed i p \<Rightarrow> p | _ \<Rightarrow> b) es False"

lemma flag_of_simps [simp]:
  "flag_of [] = False" "flag_of (es @ [Ev_Granted a]) = flag_of es" "flag_of (es @ [Ev_Approved i a]) = flag_of es"
  "flag_of (es @ [Ev_Created i b a r]) = flag_of es"
  "flag_of (es @ [Ev_Created i b a r, Ev_Approved j c]) = flag_of es" "flag_of (es @ [Ev_Executed i b]) = b"
  by (simp_all add: flag_of_def)

lemma finite_approvers: "finite (approvers i es)"
proof -
  have "approvers i es \<subseteq> (\<lambda>e. case e of Ev_Approved j a \<Rightarrow> a | _ \<Rightarrow> []) ` set es"
    by (force simp: approvers_def)
  then show ?thesis by (rule finite_subset) simp
qed

lemma approvers_append [simp]:
  "approvers i (es @ [Ev_Approved j a]) = (if i = j then insert a (approvers i es) else approvers i es)"
  "approvers i (es @ [Ev_Granted a]) = approvers i es"
  "approvers i (es @ [Ev_Created j b a r]) = approvers i es" "approvers i (es @ [Ev_Executed j b]) = approvers i es"
  by (auto simp: approvers_def)

text \<open>A proposal records exactly the approvals of the log; only approved proposals are executed; whoever holds or used the
  role was granted it.\<close>

definition guardian_inv :: "guardian \<Rightarrow> bool" where
  "guardian_inv g \<longleftrightarrow>
     (\<forall>i. {a. gp_approved (pg_proposals g i) a} = approvers i (pg_log g) \<and>
          gp_approvals (pg_proposals g i) = card (approvers i (pg_log g)) \<and>
          (gp_executed (pg_proposals g i) \<longrightarrow> pg_threshold g \<le> card (approvers i (pg_log g)))) \<and>
     (\<forall>i b. Ev_Executed i b \<in> set (pg_log g) \<longrightarrow> gp_executed (pg_proposals g i) \<and> gp_pause (pg_proposals g i) = b) \<and>
     (\<forall>a. pg_guardians g a \<longrightarrow> Ev_Granted a \<in> set (pg_log g)) \<and>
     (\<forall>i a. Ev_Approved i a \<in> set (pg_log g) \<longrightarrow> Ev_Granted a \<in> set (pg_log g))"

lemma guardian_inv_granted: "guardian_inv g \<Longrightarrow> pg_guardians g a \<Longrightarrow> Ev_Granted a \<in> set (pg_log g)"
  by (simp add: guardian_inv_def)

lemma grant_inv: "guardian_inv g \<Longrightarrow> guardian_inv (grant a g)"
  by (auto simp: guardian_inv_def grant_def)

lemma revoke_inv: "guardian_inv g \<Longrightarrow> guardian_inv (g\<lparr>pg_guardians := (pg_guardians g)(b := False)\<rparr>)"
  by (simp add: guardian_inv_def)

lemma create_inv:
  "guardian_inv g \<Longrightarrow> \<not> gp_executed (pg_proposals g (pg_next g)) \<Longrightarrow> guardian_inv (snd (create_proposal a b r g))"
  by (auto simp: guardian_inv_def create_proposal_def Let_def)

lemma approve_inv:
  assumes inv: "guardian_inv g" and "Ev_Granted a \<in> set (pg_log g)" "approve a i g = Inr g'"
  shows "guardian_inv g'"
proof -
  have ap: "{a. gp_approved (pg_proposals g j) a} = approvers j (pg_log g)" for j using inv by (simp add: guardian_inv_def)
  from assms(3) have new: "\<not> gp_approved (pg_proposals g i) a" "\<not> gp_executed (pg_proposals g i)"
    and g': "g' = g\<lparr>pg_proposals := (pg_proposals g)(i := (pg_proposals g i)
        \<lparr>gp_approved := (gp_approved (pg_proposals g i))(a := True), gp_approvals := gp_approvals (pg_proposals g i) + 1\<rparr>),
      pg_log := pg_log g @ [Ev_Approved i a]\<rparr>"
    by (auto simp: approve_def Let_def throw_def split: if_splits)
  have "a \<notin> approvers i (pg_log g)" using new(1) ap [of i] by blast
  then have card: "card (insert a (approvers i (pg_log g))) = card (approvers i (pg_log g)) + 1"
    by (simp add: finite_approvers)
  have "{b. ((gp_approved (pg_proposals g i))(a := True)) b} = insert a (approvers i (pg_log g))"
    unfolding ap [of i, symmetric] by auto
  with inv new(2) card assms(2) show ?thesis
    unfolding g' guardian_inv_def by (auto simp: guardian_inv_def)
qed

lemma propose_inv:
  assumes "guardian_inv g" "pg_guardians g a" "(case create_proposal a b r g of (i, g1) \<Rightarrow> approve a i g1) = Inr g'"
  shows "guardian_inv g'"
proof -
  let ?g = "snd (create_proposal a b r g)"
  have ap: "approve a (pg_next g) ?g = Inr g'" using assms(3) by (simp add: create_proposal_def Let_def)
  then have "\<not> gp_executed (pg_proposals g (pg_next g))"
    by (auto simp: approve_def create_proposal_def Let_def throw_def split: if_splits)
  with assms(1) have "guardian_inv ?g" by (rule create_inv)
  moreover have "Ev_Granted a \<in> set (pg_log ?g)"
    using guardian_inv_granted [OF assms(1,2)] by (simp add: create_proposal_def Let_def)
  ultimately show ?thesis using ap by (rule approve_inv)
qed

lemma mark_executed_inv:
  assumes "guardian_inv g" "\<not> gp_executed (pg_proposals g i)" "gp_pause (pg_proposals g i) = b"
    and "pg_threshold g \<le> gp_approvals (pg_proposals g i)"
  shows "guardian_inv (mark_executed i b g)"
  using assms by (auto simp: guardian_inv_def mark_executed_def)

lemma only_guardian_Inr: "only_guardian a g r = Inr x \<longleftrightarrow> pg_guardians g a \<and> r = Inr x"
  by (simp add: only_guardian_def throw_def)

lemma keep_Inr: "keep t r = Inr (g, t') \<longleftrightarrow> r = Inr g \<and> t' = t"
  by (auto simp: keep_def bind_result_Inr_iff)

lemma guardian_init_inv:
  assumes "guardian_init d gs n = Inr g"
  shows "guardian_inv g \<and> flag_of (pg_log g) = False"
proof -
  have fold: "guardian_inv (fold grant gs h) \<and> flag_of (pg_log (fold grant gs h)) = flag_of (pg_log h)" if "guardian_inv h" for h
    using that
  proof (induction gs arbitrary: h)
    case (Cons a gs)
    from Cons.IH [OF grant_inv [OF Cons.prems, of a]] show ?case by (simp add: grant_def)
  qed simp
  have "guardian_inv \<lparr>pg_admins = x, pg_guardians = (\<lambda>_. False), pg_threshold = n, pg_count = c, pg_next = 0,
      pg_proposals = (\<lambda>_. no_proposal), pg_log = []\<rparr>" for x c
    by (simp add: guardian_inv_def no_proposal_def approvers_def)
  with assms fold show ?thesis by (auto simp: guardian_init_def throw_def split: if_splits)
qed

section \<open>Any pausable target\<close>

locale pausable_target =
  fixes T :: "'t pausable"
    and flag :: "'t \<Rightarrow> bool"
  assumes pause_sets: "tp_pause T a t = Inr t' \<Longrightarrow> flag t'"
    and unpause_clears: "tp_unpause T a t = Inr t' \<Longrightarrow> \<not> flag t'"
begin

text \<open>The target's flag is the one of the log.\<close>

definition guarded :: "guardian \<times> 't \<Rightarrow> bool" where
  "guarded s \<longleftrightarrow> guardian_inv (fst s) \<and> flag (snd s) = flag_of (pg_log (fst s))"

lemma exec_guarded:
  assumes "guarded (g, t)" "guardian_exec T self a c (g, t) = Inr (g', t')"
  shows "guarded (g', t')"
proof -
  have inv: "guardian_inv g" and fl: "flag t = flag_of (pg_log g)" using assms(1) by (simp_all add: guarded_def)
  note granted = guardian_inv_granted [OF inv]
  have log: "flag_of (pg_log h) = flag_of (pg_log g)" if "approve a i g = Inr h" for i h
    using that by (auto simp: approve_def Let_def throw_def split: if_splits)
  have log': "flag_of (pg_log h) = flag_of (pg_log g)" if "(case create_proposal a b r g of (i, g1) \<Rightarrow> approve a i g1) = Inr h" for b r h
    using that by (auto simp: approve_def create_proposal_def Let_def throw_def split: if_splits)
  show ?thesis
  proof (cases c)
    case (Execute_Pause i)
    with assms(2) have "tp_pause T self t = Inr t'" "g' = mark_executed i True g" "\<not> gp_executed (pg_proposals g i)"
      "gp_pause (pg_proposals g i)" "pg_threshold g \<le> gp_approvals (pg_proposals g i)"
      by (auto simp: execute_pause_def only_guardian_Inr Let_def throw_def bind_result_Inr_iff split: if_splits)
    with mark_executed_inv [OF inv] pause_sets show ?thesis by (auto simp: guarded_def mark_executed_def)
  next
    case (Execute_Unpause i)
    with assms(2) have "tp_unpause T self t = Inr t'" "g' = mark_executed i False g" "\<not> gp_executed (pg_proposals g i)"
      "\<not> gp_pause (pg_proposals g i)" "pg_threshold g \<le> gp_approvals (pg_proposals g i)"
      by (auto simp: execute_unpause_def only_guardian_Inr Let_def throw_def bind_result_Inr_iff split: if_splits)
    with mark_executed_inv [OF inv] unpause_clears show ?thesis by (auto simp: guarded_def mark_executed_def)
  next
    case (Grant_Role b)
    with assms(2) have "g' = grant b g" "t' = t" by (auto simp: keep_Inr grant_role_def throw_def split: if_splits)
    with grant_inv [OF inv] fl show ?thesis by (simp add: guarded_def grant_def)
  next
    case (Revoke_Role b)
    with assms(2) revoke_inv [OF inv] fl show ?thesis
      by (auto simp: keep_Inr revoke_role_def throw_def guarded_def split: if_splits)
  qed (use assms(2) fl approve_inv [OF inv granted] propose_inv [OF inv] log log' in
      \<open>auto simp: keep_Inr only_guardian_Inr guarded_def propose_pause_def propose_unpause_def approve_pause_def
        approve_unpause_def throw_def split: if_splits\<close>)
qed

text \<open>Transactions that go to the target directly and leave the flag alone keep it so, under an invariant \<open>P\<close> of the target.\<close>

lemma run_guarded:
  assumes "\<And>c t t'. To_Target c \<in> set txs \<Longrightarrow> P t \<Longrightarrow> step c t = Inr t' \<Longrightarrow> flag t' = flag t \<and> P t'"
    and "\<And>a t t'. P t \<Longrightarrow> tp_pause T a t = Inr t' \<or> tp_unpause T a t = Inr t' \<Longrightarrow> P t'"
    and "guarded s" "P (snd s)"
  shows "guarded (guarded_run T self step txs s) \<and> P (snd (guarded_run T self step txs s))"
  using assms(1,3,4)
proof (induction txs arbitrary: s)
  case (Cons tx txs)
  obtain g t where s: "s = (g, t)" by fastforce
  have step: "guarded (guarded_step T self step tx s) \<and> P (snd (guarded_step T self step tx s))"
  proof (cases tx)
    case (To_Guardian a c)
    have "P t'" if "guardian_exec T self a c (g, t) = Inr (g', t')" for g' t'
      using that assms(2) Cons.prems(3) unfolding s
      by (cases c) (auto simp: keep_Inr execute_pause_def execute_unpause_def only_guardian_Inr Let_def throw_def
          bind_result_Inr_iff split: if_splits)
    with To_Guardian Cons.prems(2,3) exec_guarded show ?thesis unfolding s by (force split: sum.splits)
  next
    case (To_Target c)
    with Cons.prems show ?thesis unfolding s by (auto simp: guarded_def split: sum.splits)
  qed
  have "guarded (guarded_run T self step txs (guarded_step T self step tx s)) \<and>
      P (snd (guarded_run T self step txs (guarded_step T self step tx s)))"
    by (rule Cons.IH) (use Cons.prems(1) step in auto)
  then show ?case by (simp add: guarded_run_def)
qed (simp add: guarded_run_def)

lemma flag_from_quorum:
  assumes "guarded (g, t)" "flag t"
  shows "\<exists>i. Ev_Executed i True \<in> set (pg_log g) \<and> pg_threshold g \<le> card (approvers i (pg_log g)) \<and>
    (\<forall>a \<in> approvers i (pg_log g). Ev_Granted a \<in> set (pg_log g))"
proof -
  have "\<exists>i. Ev_Executed i True \<in> set es" if "flag_of es" for es
    using that by (induction es rule: rev_induct) (auto simp: flag_of_def split: guardian_event.splits)
  with assms obtain i where i: "Ev_Executed i True \<in> set (pg_log g)" by (auto simp: guarded_def)
  with assms(1) have "gp_executed (pg_proposals g i)" by (auto simp: guarded_def guardian_inv_def)
  with assms(1) i show ?thesis unfolding guarded_def guardian_inv_def approvers_def by auto
qed

end

section \<open>The ledger as the target\<close>

definition ledger_pausable :: "ledger pausable" where
  "ledger_pausable =
     \<lparr>tp_pause = (\<lambda>a. pause \<lparr>sender = a, now = 0\<rparr>), tp_unpause = (\<lambda>a. unpause \<lparr>sender = a, now = 0\<rparr>)\<rparr>"

interpretation ledger_guard: pausable_target ledger_pausable paused
  by unfold_locales (auto simp: ledger_pausable_def owner_calls_defs split: if_splits)

abbreviation guard_ledger where
  "guard_ledger k v self \<equiv> guarded_run ledger_pausable self (\<lambda>(en, c). ledger_exec k v en c)"

lemma ledger_pausable_owner:
  "tp_pause ledger_pausable a l = Inr l' \<or> tp_unpause ledger_pausable a l = Inr l' \<Longrightarrow> owner l' = owner l"
  by (auto simp: ledger_pausable_def owner_calls_defs split: if_splits)

lemma ledger_exec_outsider:
  "owner l \<noteq> sender en \<Longrightarrow> ledger_exec k v en c l = Inr l' \<Longrightarrow>
     paused l' = paused l \<and> owner l' = owner l \<and> (\<forall>i. deadline (polls l' i) = deadline (polls l i))"
  by (cases c) (auto simp: ledger_exec_def owner_calls_defs cast_vote_Inr split: if_splits)

lemma outsider_step:
  assumes "\<And>en c. To_Target (en, c) \<in> set txs \<Longrightarrow> sender en \<noteq> self"
    and "To_Target c \<in> set txs" "owner l = self" "(case c of (en, c) \<Rightarrow> ledger_exec k v en c) l = Inr l'"
  shows "paused l' = paused l \<and> owner l' = self \<and> (\<forall>i. deadline (polls l' i) = deadline (polls l i))"
proof -
  obtain en d where c: "c = (en, d)" by fastforce
  with assms(1,2) have "sender en \<noteq> self" by blast
  with ledger_exec_outsider [of l en k v d l'] assms(3,4) c show ?thesis by simp
qed

text \<open>C9: a ledger owned by the guardian contract is paused only by a quorum: whatever transactions anyone sends to either
  contract, roles granted and revoked included, the ledger is paused exactly when the last executed proposal was a pause,
  and then at least \<open>threshold\<close> distinct accounts, each of them made a guardian, approved one that was executed.\<close>

theorem guardian_quorum:
  assumes "guardian_init deployer gs n = Inr g0" "owner l0 = self" "\<not> paused l0"
    and "\<And>en c. To_Target (en, c) \<in> set txs \<Longrightarrow> sender en \<noteq> self"
    and "guard_ledger k v self txs (g0, l0) = (g, l)"
  shows "(paused l \<longleftrightarrow> flag_of (pg_log g)) \<and>
    (paused l \<longrightarrow> (\<exists>i. Ev_Executed i True \<in> set (pg_log g) \<and> pg_threshold g \<le> card (approvers i (pg_log g)) \<and>
       (\<forall>a \<in> approvers i (pg_log g). Ev_Granted a \<in> set (pg_log g))))"
proof -
  have start: "ledger_guard.guarded (g0, l0)"
    using guardian_init_inv [OF assms(1)] assms(3) by (simp add: ledger_guard.guarded_def)
  have out: "paused l' = paused l \<and> owner l' = self"
    if "To_Target c \<in> set txs" "owner l = self" "(case c of (en, c) \<Rightarrow> ledger_exec k v en c) l = Inr l'" for c l l'
    using outsider_step [of txs self c l k v l'] assms(4) that by blast
  have "ledger_guard.guarded (guard_ledger k v self txs (g0, l0))"
    by (rule conjunct1, rule ledger_guard.run_guarded [where P = "\<lambda>l. owner l = self"], erule (2) out)
      (simp_all add: ledger_pausable_owner start assms(2))
  with assms(5) have "ledger_guard.guarded (g, l)" by simp
  with ledger_guard.flag_from_quorum show ?thesis by (auto simp: ledger_guard.guarded_def)
qed

section \<open>A quorum can pause\<close>

text \<open>What a blank proposal becomes after it was created or approved early.\<close>

definition proposal_of :: "bool \<Rightarrow> string \<Rightarrow> string list \<Rightarrow> pause_proposal" where
  "proposal_of b r as = \<lparr>gp_pause = b, gp_reason = r, gp_approvals = length as, gp_executed = False, gp_approved = (\<lambda>a. a \<in> set as)\<rparr>"

lemma approvals_run:
  assumes "pg_proposals g i = proposal_of b r as" "distinct (bs @ as)" "list_all (pg_guardians g) bs"
  shows "\<exists>g'. guarded_run T self step (map (\<lambda>a. To_Guardian a (if b then Approve_Pause i else Approve_Unpause i)) bs) (g, t) = (g', t) \<and>
    pg_proposals g' i = proposal_of b r (rev bs @ as) \<and> pg_guardians g' = pg_guardians g \<and> pg_next g' = pg_next g \<and>
    pg_threshold g' = pg_threshold g"
  using assms
proof (induction bs arbitrary: g as)
  case (Cons c bs)
  let ?c = "if b then Approve_Pause i else Approve_Unpause i"
  let ?p = "(proposal_of b r as)\<lparr>gp_approved := (gp_approved (proposal_of b r as))(c := True),
    gp_approvals := gp_approvals (proposal_of b r as) + 1\<rparr>"
  let ?g = "g\<lparr>pg_proposals := (pg_proposals g)(i := ?p), pg_log := pg_log g @ [Ev_Approved i c]\<rparr>"
  have "?p = proposal_of b r (c # as)" by (auto simp: proposal_of_def fun_eq_iff)
  moreover have "guardian_exec T self c ?c (g, t) = Inr (?g, t)"
    using Cons.prems by (auto simp: guardian_defs proposal_of_def)
  ultimately show ?case
    using Cons.IH [of ?g "c # as"] Cons.prems by (auto simp: guarded_run_def)
qed (simp add: guarded_run_def)

lemma execute_ready:
  assumes "pg_proposals g i = proposal_of True r as" "pg_guardians g a" "pg_threshold g \<le> length as" "tp_pause T self t = Inr t'"
  shows "guardian_exec T self a (Execute_Pause i) (g, t) = Inr (mark_executed i True g, t')"
  using assms by (simp add: guardian_defs proposal_of_def)

lemma propose_ready:
  assumes "pg_proposals g (pg_next g) = proposal_of b0 r0 as" "pg_guardians g a" "a \<notin> set as"
  shows "\<exists>g'. guardian_exec T self a (Propose_Pause r) (g, t) = Inr (g', t) \<and> pg_proposals g' (pg_next g) = proposal_of True r (a # as) \<and>
    pg_guardians g' = pg_guardians g \<and> pg_threshold g' = pg_threshold g"
  using assms by (auto simp: guardian_defs proposal_of_def fun_eq_iff)

lemma blank_proposal: "no_proposal = proposal_of False [] []"
  by (simp add: no_proposal_def proposal_of_def)

lemma guarded_run_simps:
  "guarded_run T self step [] s = s"
  "guarded_run T self step (tx # txs) s = guarded_run T self step txs (guarded_step T self step tx s)"
  "guarded_run T self step (txs @ uxs) s = guarded_run T self step uxs (guarded_run T self step txs s)"
  by (simp_all add: guarded_run_def)


section \<open>Proposals that do not exist\<close>

text \<open>Approvals are accepted for identifiers that no proposal has yet, and a later pause proposal keeps them: guardians
  who only ever approved an unpause let a single other guardian pause the ledger at once.\<close>

theorem guardian_preapproved:
  assumes "pg_proposals g (pg_next g) = no_proposal" "distinct (a # bs)" "list_all (pg_guardians g) (a # bs)"
    and "pg_threshold g \<le> length (a # bs)" "owner l = self" "\<not> paused l"
  shows "paused (snd (guard_ledger k v self
    (map (\<lambda>b. To_Guardian b (Approve_Unpause (pg_next g))) bs @
     [To_Guardian a (Propose_Pause r), To_Guardian a (Execute_Pause (pg_next g))]) (g, l)))"
proof -
  obtain g1 where g1: "guard_ledger k v self (map (\<lambda>b. To_Guardian b (Approve_Unpause (pg_next g))) bs) (g, l) = (g1, l)"
    "pg_proposals g1 (pg_next g) = proposal_of False [] (rev bs)" "pg_guardians g1 = pg_guardians g" "pg_next g1 = pg_next g"
    "pg_threshold g1 = pg_threshold g"
    using approvals_run [of g "pg_next g" False "[]" "[]" bs ledger_pausable self] assms(1-3) by (auto simp: blank_proposal)
  obtain g2 where g2: "guardian_exec ledger_pausable self a (Propose_Pause r) (g1, l) = Inr (g2, l)"
    "pg_proposals g2 (pg_next g) = proposal_of True r (a # rev bs)" "pg_guardians g2 = pg_guardians g" "pg_threshold g2 = pg_threshold g"
    using propose_ready [of g1 False "[]" "rev bs" a ledger_pausable self r l] g1 assms(2,3) by auto
  have "tp_pause ledger_pausable self l = Inr (l\<lparr>paused := True\<rparr>)"
    using assms(5,6) by (simp add: ledger_pausable_def owner_calls_defs)
  from execute_ready [OF g2(2) _ _ this] assms(3,4) g2(3,4) show ?thesis
    by (simp add: guarded_run_simps g1(1) g2(1) del: guardian_exec.simps)
qed

lemma exec_stuck:
  assumes "gp_executed (pg_proposals g (pg_next g))" "guardian_exec T self a c (g, t) = Inr (g', t')"
  shows "pg_next g' = pg_next g \<and> gp_executed (pg_proposals g' (pg_next g'))"
  using assms by (cases c) (auto simp: guardian_defs bind_result_Inr_iff split: if_splits)

lemma run_stuck:
  "gp_executed (pg_proposals (fst s) (pg_next (fst s))) \<Longrightarrow> pg_next (fst (guarded_run T self step txs s)) = pg_next (fst s)"
proof (induction txs arbitrary: s)
  case (Cons tx txs)
  obtain g t where s: "s = (g, t)" by fastforce
  let ?s = "guarded_step T self step tx s"
  have "pg_next (fst ?s) = pg_next g \<and> gp_executed (pg_proposals (fst ?s) (pg_next (fst ?s)))"
  proof (cases tx)
    case (To_Guardian a c)
    have "gp_executed (pg_proposals g (pg_next g))" using Cons.prems by (simp add: s)
    with To_Guardian exec_stuck [of g T self a c t "fst s'" "snd s'" for s'] show ?thesis
      unfolding s by (cases "guardian_exec T self a c (g, t)") (auto simp del: guardian_exec.simps)
  next
    case (To_Target c)
    with Cons.prems show ?thesis unfolding s by (auto split: sum.splits)
  qed
  with Cons.IH [of ?s] show ?case by (auto simp: guarded_run_simps s)
qed (simp add: guarded_run_simps)

text \<open>While the ledger is paused a quorum can execute an unpause that was never proposed; its identifier is then
  spent, every later proposal reverts on it, and the guardian contract never gets another proposal.\<close>

theorem guardian_bricks:
  assumes "pg_proposals g (pg_next g) = no_proposal" "distinct (a # as)" "list_all (pg_guardians g) (a # as)"
    and "pg_threshold g \<le> length (a # as)" "owner l = self" "paused l"
  shows "pg_next (fst (guard_ledger k v self
    (map (\<lambda>b. To_Guardian b (Approve_Unpause (pg_next g))) (a # as) @ To_Guardian a (Execute_Unpause (pg_next g)) # txs) (g, l))) =
    pg_next g"
proof -
  define bs where "bs = a # as"
  let ?ap = "map (\<lambda>b. To_Guardian b (Approve_Unpause (pg_next g))) bs"
  have bs: "distinct bs" "list_all (pg_guardians g) bs" "pg_threshold g \<le> length bs" "pg_guardians g a"
    using assms(2-4) by (simp_all add: bs_def)
  obtain g1 where g1: "guard_ledger k v self ?ap (g, l) = (g1, l)"
    "pg_proposals g1 (pg_next g) = proposal_of False [] (rev bs)" "pg_guardians g1 = pg_guardians g" "pg_next g1 = pg_next g"
    "pg_threshold g1 = pg_threshold g"
    using approvals_run [of g "pg_next g" False "[]" "[]" bs ledger_pausable self] assms(1) bs(1,2) by (auto simp: blank_proposal)
  let ?s = "(mark_executed (pg_next g) False g1, l\<lparr>paused := False\<rparr>)"
  have "guardian_exec ledger_pausable self a (Execute_Unpause (pg_next g)) (g1, l) = Inr ?s"
    using assms(5,6) bs(3,4) g1 by (simp add: guardian_defs proposal_of_def ledger_pausable_def owner_calls_defs)
  then have "guarded_step ledger_pausable self (\<lambda>(en, c). ledger_exec k v en c) (To_Guardian a (Execute_Unpause (pg_next g))) (g1, l) = ?s"
    by (simp del: guardian_exec.simps)
  then have "guard_ledger k v self (?ap @ To_Guardian a (Execute_Unpause (pg_next g)) # txs) (g, l) = guard_ledger k v self txs ?s"
    by (simp only: guarded_run_simps(2,3) g1(1))
  moreover have "pg_next (fst (guard_ledger k v self txs ?s)) = pg_next (fst ?s)"
    by (rule run_stuck) (simp add: mark_executed_def g1(4))
  ultimately show ?thesis unfolding bs_def [symmetric] by (simp only:) (simp add: mark_executed_def g1(4))
qed

text \<open>The guardian can pause only a ledger it owns, and while it owns it nobody can create, finalise or move a poll,
  since the guardian contract has no call for that.\<close>

theorem guardian_owner_dilemma:
  assumes "\<And>en c. To_Target (en, c) \<in> set txs \<Longrightarrow> sender en \<noteq> self" "guard_ledger k v self txs (g0, l0) = (g, l)"
  shows "(owner l0 = self \<longrightarrow> (\<forall>i. deadline (polls l i) = deadline (polls l0 i))) \<and>
    (owner l0 \<noteq> self \<longrightarrow> (\<forall>a i. \<exists>e. guardian_exec ledger_pausable self a (Execute_Pause i) (g0, l0) = Inl e))"
proof -
  have dl: "\<forall>i. deadline (polls (snd (guard_ledger k v self txs s)) i) = deadline (polls (snd s) i)"
    if "owner (snd s) = self" for s
    using assms(1) that
  proof (induction txs arbitrary: s)
    case (Cons tx txs)
    obtain g t where s: "s = (g, t)" by fastforce
    let ?s = "guarded_step ledger_pausable self (\<lambda>(en, c). ledger_exec k v en c) tx s"
    have "owner (snd ?s) = self \<and> (\<forall>i. deadline (polls (snd ?s) i) = deadline (polls t i))"
    proof (cases tx)
      case (To_Guardian a c)
      with Cons.prems(2) show ?thesis unfolding s
        by (cases c) (auto simp: keep_Inr execute_pause_def execute_unpause_def only_guardian_Inr Let_def throw_def
            bind_result_Inr_iff ledger_pausable_def owner_calls_defs split: sum.splits if_splits)
    next
      case (To_Target c)
      with Cons.prems outsider_step [of "tx # txs" self c t k v] show ?thesis unfolding s
        by (cases "(case c of (en, c) \<Rightarrow> ledger_exec k v en c) t") auto
    qed
    moreover have "\<forall>i. deadline (polls (snd (guard_ledger k v self txs ?s)) i) = deadline (polls (snd ?s) i)"
      by (rule Cons.IH) (use Cons.prems(1) calculation in auto)
    ultimately show ?case by (simp add: guarded_run_simps s)
  qed (simp add: guarded_run_simps)
  have "\<exists>e. guardian_exec ledger_pausable self a (Execute_Pause i) (g0, l0) = Inl e" if "owner l0 \<noteq> self" for a i
    using that by (auto simp: guardian_defs ledger_pausable_def owner_calls_defs)
  with dl [of "(g0, l0)"] assms(2) show ?thesis by auto
qed

section \<open>Witnesses\<close>

definition five :: "string list" where
  "five = [''a'', ''b'', ''c'', ''d'', ''e'']"

definition demo_guardian :: guardian where
  "demo_guardian =
     \<lparr>pg_admins = (\<lambda>a. a = ''z''), pg_guardians = (\<lambda>a. a \<in> set five), pg_threshold = 3, pg_count = 5, pg_next = 0,
      pg_proposals = (\<lambda>_. no_proposal), pg_log = map Ev_Granted five\<rparr>"

lemma demo_guardian_init: "guardian_init ''z'' five 3 = Inr demo_guardian"
  by (simp add: guardian_init_def five_def demo_guardian_def grant_def fun_eq_iff)

theorem guardian_quorum_witness:
  "\<not> paused (snd (guard_ledger (\<lambda>x. x) (\<lambda>_. True) ''g''
     [To_Guardian ''a'' (Propose_Pause ''r''), To_Guardian ''a'' (Execute_Pause 0)] (demo_guardian, ledger_init ''g'')))"
proof -
  let ?s = "guard_ledger (\<lambda>x. x) (\<lambda>_. True) ''g'' [To_Guardian ''a'' (Propose_Pause ''r''), To_Guardian ''a'' (Execute_Pause 0)]
    (demo_guardian, ledger_init ''g'')"
  have "pg_log (fst ?s) = map Ev_Granted five @ [Ev_Created 0 True ''a'' ''r'', Ev_Approved 0 ''a'']"
    by (simp add: guarded_run_simps guardian_defs demo_guardian_def five_def no_proposal_def)
  then have "\<not> flag_of (pg_log (fst ?s))" by (simp add: flag_of_def five_def)
  with guardian_quorum [OF demo_guardian_init, of "ledger_init ''g''" "''g''"
      "[To_Guardian ''a'' (Propose_Pause ''r''), To_Guardian ''a'' (Execute_Pause 0)]" "\<lambda>x. x" "\<lambda>_. True" "fst ?s" "snd ?s"]
  show ?thesis by (simp add: ledger_init_def)
qed


theorem guardian_preapproved_witness:
  "paused (snd (guard_ledger (\<lambda>x. x) (\<lambda>_. True) ''g''
     [To_Guardian ''b'' (Approve_Unpause 0), To_Guardian ''c'' (Approve_Unpause 0), To_Guardian ''a'' (Propose_Pause ''r''),
      To_Guardian ''a'' (Execute_Pause 0)] (demo_guardian, ledger_init ''g'')))"
  using guardian_preapproved [of demo_guardian "''a''" "[''b'', ''c'']" "ledger_init ''g''" "''g''" "\<lambda>x. x" "\<lambda>_. True" "''r''"]
  by (simp add: demo_guardian_def five_def ledger_init_def)

theorem guardian_bricks_witness:
  "pg_next (fst (guard_ledger (\<lambda>x. x) (\<lambda>_. True) ''g''
     [To_Guardian ''a'' (Approve_Unpause 0), To_Guardian ''b'' (Approve_Unpause 0), To_Guardian ''c'' (Approve_Unpause 0),
      To_Guardian ''a'' (Execute_Unpause 0), To_Guardian ''a'' (Propose_Pause ''r'')]
     (demo_guardian, (ledger_init ''g'')\<lparr>paused := True\<rparr>))) = 0"
  using guardian_bricks [of demo_guardian "''a''" "[''b'', ''c'']" "(ledger_init ''g'')\<lparr>paused := True\<rparr>" "''g''" "\<lambda>x. x" "\<lambda>_. True"
      "[To_Guardian ''a'' (Propose_Pause ''r'')]"]
  by (simp add: demo_guardian_def five_def ledger_init_def)

theorem guardian_owner_dilemma_witness:
  "\<exists>e. guardian_exec ledger_pausable ''g'' ''a'' (Execute_Pause 0) (demo_guardian, ledger_init ''owner'') = Inl e"
  using guardian_owner_dilemma [of "[]" "''g''" "\<lambda>x. x" "\<lambda>_. True" demo_guardian "ledger_init ''owner''"]
  by (simp add: guarded_run_simps ledger_init_def)

end
