(* ===== verification/Policy_Registry.thy ===== *)
theory Policy_Registry
  imports Ledger
begin

text \<open>
  The registry of published policies, \<open>src/blockchain/contracts/PolicyRegistry.sol\<close>: what a publication fixes forever, and
  what the truncated document hash tells of a document. The owner is OpenZeppelin's; byte strings are strings.
\<close>

section \<open>The contract\<close>

record policy_meta =
  pm_country :: string
  pm_hash :: string
  pm_cid :: string
  pm_created :: nat
  pm_active :: bool

record policy_registry =
  pr_owner :: string
  pr_policies :: "string \<Rightarrow> policy_meta"

definition no_meta :: policy_meta where
  "no_meta = \<lparr>pm_country = zero_bytes 2, pm_hash = zero_bytes 32, pm_cid = [], pm_created = 0, pm_active = False\<rparr>"

definition policy_registry_init :: "string \<Rightarrow> policy_registry" where
  "policy_registry_init initial_owner = \<lparr>pr_owner = initial_owner, pr_policies = (\<lambda>_. no_meta)\<rparr>"

definition registry_only_owner :: "env \<Rightarrow> policy_registry \<Rightarrow> 'a result \<Rightarrow> 'a result" where
  "registry_only_owner en st r = (if sender en = pr_owner st then r else throw ''OwnableUnauthorizedAccount'')"

text \<open>\<open>bytes32(bytes(s))\<close>: the first 32 bytes, filled up with zeros.\<close>

definition bytes32_of :: "string \<Rightarrow> string" where
  "bytes32_of s = take 32 (s @ zero_bytes 32)"

definition uint64_of :: "nat \<Rightarrow> nat" where
  "uint64_of n = n mod 2 ^ 64"

definition publish_policy ::
  "(string \<Rightarrow> string) \<Rightarrow> env \<Rightarrow> string \<Rightarrow> string \<Rightarrow> string \<Rightarrow> policy_registry \<Rightarrow> policy_registry result" where
  "publish_policy keccak en pid cc cid st =
     registry_only_owner en st
       (if pm_created (pr_policies st (keccak pid)) \<noteq> 0 then throw ''PolicyExists''
        else Inr (st\<lparr>pr_policies := (pr_policies st)(keccak pid :=
               \<lparr>pm_country = cc, pm_hash = bytes32_of cid, pm_cid = cid, pm_created = uint64_of (now en), pm_active = True\<rparr>)\<rparr>))"

definition deactivate_policy :: "(string \<Rightarrow> string) \<Rightarrow> env \<Rightarrow> string \<Rightarrow> policy_registry \<Rightarrow> policy_registry result" where
  "deactivate_policy keccak en pid st =
     registry_only_owner en st
       (if pm_created (pr_policies st (keccak pid)) = 0 then throw ''PolicyNotFound''
        else Inr (st\<lparr>pr_policies := (pr_policies st)(keccak pid := (pr_policies st (keccak pid))\<lparr>pm_active := False\<rparr>)\<rparr>))"

definition get_policy :: "(string \<Rightarrow> string) \<Rightarrow> string \<Rightarrow> policy_registry \<Rightarrow> policy_meta" where
  "get_policy keccak pid st = pr_policies st (keccak pid)"

datatype registry_call = Publish string string string | Deactivate string

fun registry_exec :: "(string \<Rightarrow> string) \<Rightarrow> env \<Rightarrow> registry_call \<Rightarrow> policy_registry \<Rightarrow> policy_registry result" where
  "registry_exec k en (Publish pid cc cid) st = publish_policy k en pid cc cid st"
| "registry_exec k en (Deactivate pid) st = deactivate_policy k en pid st"

fun registry_run :: "(string \<Rightarrow> string) \<Rightarrow> (env \<times> registry_call) list \<Rightarrow> policy_registry \<Rightarrow> policy_registry" where
  "registry_run k [] st = st"
| "registry_run k ((en, c) # txs) st =
     (case registry_exec k en c st of Inl e \<Rightarrow> registry_run k txs st | Inr st' \<Rightarrow> registry_run k txs st')"

lemmas policy_registry_defs =
  publish_policy_def deactivate_policy_def registry_only_owner_def throw_def

section \<open>What a publication fixes\<close>

text \<open>A later record of the same policy: everything but the flag is as before, and the flag is never set again.\<close>

definition meta_later :: "policy_meta \<Rightarrow> policy_meta \<Rightarrow> bool" where
  "meta_later m m' \<longleftrightarrow> m' = m\<lparr>pm_active := pm_active m'\<rparr> \<and> (pm_active m' \<longrightarrow> pm_active m)"

lemma meta_later_refl: "meta_later m m"
  by (simp add: meta_later_def)

lemma meta_later_trans: "meta_later a b \<Longrightarrow> meta_later b c \<Longrightarrow> meta_later a c"
  unfolding meta_later_def by (cases a; cases b; cases c) auto

lemma registry_exec_later:
  assumes "registry_exec k en c st = Inr st'" "pm_created (pr_policies st i) \<noteq> 0"
  shows "pr_owner st' = pr_owner st \<and> meta_later (pr_policies st i) (pr_policies st' i)"
  using assms by (cases c) (auto simp: policy_registry_defs meta_later_def split: if_splits)

lemma meta_later_created: "meta_later m m' \<Longrightarrow> pm_created m' = pm_created m"
  by (metis meta_later_def policy_meta.select_convs(4) policy_meta.surjective policy_meta.update_convs(5))

lemma registry_run_later:
  "pm_created (pr_policies st i) \<noteq> 0 \<Longrightarrow> meta_later (pr_policies st i) (pr_policies (registry_run k txs st) i)"
proof (induction txs arbitrary: st)
  case (Cons tx txs)
  obtain en c where tx: "tx = (en, c)" by fastforce
  show ?case
  proof (cases "registry_exec k en c st")
    case (Inl e)
    with Cons show ?thesis by (simp add: tx)
  next
    case (Inr st')
    with registry_exec_later Cons.prems have l: "meta_later (pr_policies st i) (pr_policies st' i)" by blast
    with Cons have "meta_later (pr_policies st' i) (pr_policies (registry_run k txs st') i)" by (simp add: meta_later_created)
    with l have "meta_later (pr_policies st i) (pr_policies (registry_run k txs st') i)" by (rule meta_later_trans)
    then show ?thesis by (simp add: tx Inr)
  qed
qed (simp add: meta_later_refl)

text \<open>A published policy is fixed: after any further transactions of anyone its country, document, hash and date are
  those of the publication, it can only be deactivated, and publishing its identifier again is refused.\<close>

theorem published_forever:
  assumes "publish_policy k en pid cc cid st = Inr st1" "uint64_of (now en) \<noteq> 0"
  shows "\<exists>on. get_policy k pid (registry_run k txs st1) =
      \<lparr>pm_country = cc, pm_hash = bytes32_of cid, pm_cid = cid, pm_created = uint64_of (now en), pm_active = on\<rparr> \<and>
    (\<exists>e. publish_policy k en' pid cc' cid' (registry_run k txs st1) = Inl e)"
proof -
  let ?m = "\<lparr>pm_country = cc, pm_hash = bytes32_of cid, pm_cid = cid, pm_created = uint64_of (now en), pm_active = True\<rparr>"
  have m: "pr_policies st1 (k pid) = ?m" using assms(1) by (auto simp: policy_registry_defs split: if_splits)
  with assms(2) registry_run_later [of st1 "k pid" k txs] have "meta_later ?m (pr_policies (registry_run k txs st1) (k pid))" by simp
  then obtain on where on: "pr_policies (registry_run k txs st1) (k pid) = ?m\<lparr>pm_active := on\<rparr>" by (auto simp: meta_later_def)
  with assms(2) show ?thesis by (simp add: get_policy_def policy_registry_defs)
qed

text \<open>The hash is no hash of the document: it is the beginning of its identifier, so documents whose identifiers agree on
  their first 32 characters have one.\<close>

lemma bytes32_of_long: "length c = 32 \<Longrightarrow> bytes32_of (c @ a) = c"
  by (simp add: bytes32_of_def)

text \<open>Two documents with different identifiers can have the same recorded hash: it is the first 32 characters of the
  identifier, of which a CIDv1 has 59.\<close>

theorem document_hash_collides:
  assumes "length common = 32" "publish_policy k en p cc (common @ a) st = Inr st1"
    and "publish_policy k en q cc (common @ b) st1 = Inr st2" "k p \<noteq> k q"
  shows "pm_hash (get_policy k p st2) = pm_hash (get_policy k q st2) \<and>
    pm_cid (get_policy k p st2) = common @ a \<and> pm_cid (get_policy k q st2) = common @ b"
proof -
  have "st1 = st\<lparr>pr_policies := (pr_policies st)(k p := \<lparr>pm_country = cc, pm_hash = bytes32_of (common @ a), pm_cid = common @ a,
      pm_created = uint64_of (now en), pm_active = True\<rparr>)\<rparr>"
    using assms(2) by (simp add: policy_registry_defs split: if_splits)
  moreover have "st2 = st1\<lparr>pr_policies := (pr_policies st1)(k q := \<lparr>pm_country = cc, pm_hash = bytes32_of (common @ b),
      pm_cid = common @ b, pm_created = uint64_of (now en), pm_active = True\<rparr>)\<rparr>"
    using assms(3) by (simp add: policy_registry_defs split: if_splits)
  ultimately show ?thesis using assms(4) by (simp add: get_policy_def bytes32_of_long [OF assms(1)])
qed

lemma first_publication:
  "\<exists>st1. publish_policy k \<lparr>sender = a, now = t\<rparr> p cc cid (policy_registry_init a) = Inr st1"
  by (simp add: policy_registry_defs policy_registry_init_def no_meta_def)

theorem published_forever_witness:
  "\<exists>st1 on. publish_policy (\<lambda>x. x) \<lparr>sender = ''o'', now = 5\<rparr> ''p'' ''GB'' ''cid'' (policy_registry_init ''o'') = Inr st1 \<and>
     get_policy (\<lambda>x. x) ''p'' (registry_run (\<lambda>x. x) [(\<lparr>sender = ''o'', now = 6\<rparr>, Deactivate ''p'')] st1) =
       \<lparr>pm_country = ''GB'', pm_hash = bytes32_of ''cid'', pm_cid = ''cid'', pm_created = 5, pm_active = on\<rparr>"
proof -
  obtain st1 where st1: "publish_policy (\<lambda>x. x) \<lparr>sender = ''o'', now = 5\<rparr> ''p'' ''GB'' ''cid'' (policy_registry_init ''o'') = Inr st1"
    using first_publication by blast
  have "uint64_of (now \<lparr>sender = ''o'', now = 5\<rparr>) = 5" by (simp add: uint64_of_def)
  with published_forever [OF st1, of "[(\<lparr>sender = ''o'', now = 6\<rparr>, Deactivate ''p'')]"] st1 show ?thesis by auto
qed

theorem document_hash_collides_witness:
  "\<exists>st1 st2. publish_policy (\<lambda>x. x) \<lparr>sender = ''o'', now = 5\<rparr> ''p'' ''GB'' (replicate 32 (CHR ''b'') @ ''x'') (policy_registry_init ''o'') = Inr st1 \<and>
     publish_policy (\<lambda>x. x) \<lparr>sender = ''o'', now = 5\<rparr> ''q'' ''GB'' (replicate 32 (CHR ''b'') @ ''y'') st1 = Inr st2 \<and>
     pm_hash (get_policy (\<lambda>x. x) ''p'' st2) = pm_hash (get_policy (\<lambda>x. x) ''q'' st2)"
proof -
  let ?en = "\<lparr>sender = ''o'', now = 5\<rparr>"
  obtain st1 where st1: "publish_policy (\<lambda>x. x) ?en ''p'' ''GB'' (replicate 32 (CHR ''b'') @ ''x'') (policy_registry_init ''o'') = Inr st1"
    using first_publication by blast
  then have "\<exists>st2. publish_policy (\<lambda>x. x) ?en ''q'' ''GB'' (replicate 32 (CHR ''b'') @ ''y'') st1 = Inr st2"
    by (auto simp: policy_registry_defs policy_registry_init_def no_meta_def)
  then obtain st2 where "publish_policy (\<lambda>x. x) ?en ''q'' ''GB'' (replicate 32 (CHR ''b'') @ ''y'') st1 = Inr st2" by blast
  with document_hash_collides [OF _ st1 this] st1 show ?thesis by auto
qed

end
