(* ===== verification/Voter_Registry.thy ===== *)
theory Voter_Registry
  imports Ledger
begin

text \<open>
  The whole of \<open>src/blockchain/contracts/VoterRegistry.sol\<close> over the operations of theory \<open>Ledger\<close>: initialisation, pausing,
  the count, and any sequence of transactions. The log of \<open>VoterRegistered\<close> events is what the registry must agree with.
\<close>

definition voters_init :: "string \<Rightarrow> registry" where
  "voters_init initial_owner =
     \<lparr>reg_owner = initial_owner, reg_paused = False, commitment_country = (\<lambda>_. zero_bytes 2), commitments = [],
      registrar = (\<lambda>_. zero_bytes 20)\<rparr>"

definition set_voters_paused :: "bool \<Rightarrow> env \<Rightarrow> registry \<Rightarrow> registry result" where
  "set_voters_paused b en st =
     (if sender en \<noteq> reg_owner st then throw ''OwnableUnauthorizedAccount''
      else if reg_paused st = b then throw (if b then ''EnforcedPause'' else ''ExpectedPause'')
      else Inr (st\<lparr>reg_paused := b\<rparr>))"

definition total_voters :: "registry \<Rightarrow> nat" where
  "total_voters st = length (commitments st)"

datatype voters_call = Register string string | Set_Registrar string string | Pause_Voters | Unpause_Voters

fun voters_exec :: "env \<Rightarrow> voters_call \<Rightarrow> registry \<Rightarrow> registry result" where
  "voters_exec en (Register c cc) st = register en c cc st"
| "voters_exec en (Set_Registrar cc r) st = set_country_registrar en cc r st"
| "voters_exec en Pause_Voters st = set_voters_paused True en st"
| "voters_exec en Unpause_Voters st = set_voters_paused False en st"

text \<open>The registrations that succeeded, oldest first, and the state they left.\<close>

fun voters_run :: "(env \<times> voters_call) list \<Rightarrow> registry \<Rightarrow> (string \<times> string \<times> string) list \<times> registry" where
  "voters_run [] st = ([], st)"
| "voters_run ((en, c) # txs) st =
     (case voters_exec en c st of
        Inl e \<Rightarrow> voters_run txs st
      | Inr st' \<Rightarrow>
          (case voters_run txs st' of (log, st'') \<Rightarrow>
             ((case c of Register x cc \<Rightarrow> [(x, cc, sender en)] | _ \<Rightarrow> []) @ log, st'')))"

lemmas voters_defs = register_def set_country_registrar_def set_voters_paused_def throw_def

text \<open>The invariant as long as nobody is the registrar of the country \<open>0x0000\<close>.\<close>

definition voters_inv :: "registry \<Rightarrow> bool" where
  "voters_inv st \<longleftrightarrow>
     distinct (commitments st) \<and> (\<forall>c. c \<in> set (commitments st) \<longleftrightarrow> commitment_country st c \<noteq> zero_bytes 2) \<and>
     zero_bytes 32 \<notin> set (commitments st) \<and> registrar st (zero_bytes 2) = zero_bytes 20"

lemma voters_inv_init: "voters_inv (voters_init a)"
  by (simp add: voters_inv_def voters_init_def)

lemma register_Inr:
  "register en c cc st = Inr st' \<longleftrightarrow>
     \<not> reg_paused st \<and> c \<noteq> zero_bytes 32 \<and> commitment_country st c = zero_bytes 2 \<and>
     registrar st cc \<noteq> zero_bytes 20 \<and> registrar st cc = sender en \<and>
     st' = st\<lparr>commitment_country := (commitment_country st)(c := cc), commitments := commitments st @ [c]\<rparr>"
  by (auto simp: register_def throw_def)

lemma set_registrar_Inr:
  "set_country_registrar en cc r st = Inr st' \<Longrightarrow> st' = st\<lparr>registrar := (registrar st)(cc := r)\<rparr>"
  by (simp add: set_country_registrar_def throw_def split: if_splits)

lemma set_voters_paused_Inr: "set_voters_paused b en st = Inr st' \<Longrightarrow> st' = st\<lparr>reg_paused := b\<rparr>"
  by (simp add: set_voters_paused_def throw_def split: if_splits)

lemma voters_inv_registrar: "voters_inv st \<Longrightarrow> cc \<noteq> zero_bytes 2 \<Longrightarrow> voters_inv (st\<lparr>registrar := (registrar st)(cc := r)\<rparr>)"
  by (simp add: voters_inv_def) blast

lemma voters_inv_paused: "voters_inv st \<Longrightarrow> voters_inv (st\<lparr>reg_paused := b\<rparr>)"
  by (simp add: voters_inv_def) blast

lemma voters_exec_inv:
  assumes "voters_inv st" "voters_exec en c st = Inr st'" "\<forall>r. c \<noteq> Set_Registrar (zero_bytes 2) r"
  shows "voters_inv st'"
proof (cases c)
  case (Register x cc)
  with assms(2) have r: "register en x cc st = Inr st'" by simp
  then have "cc \<noteq> zero_bytes 2" using assms(1) by (auto simp: register_Inr voters_inv_def)
  then show ?thesis using r assms(1) by (auto simp: register_Inr voters_inv_def)
next
  case (Set_Registrar cc r)
  with assms(3) have "cc \<noteq> zero_bytes 2" by blast
  moreover have "st' = st\<lparr>registrar := (registrar st)(cc := r)\<rparr>"
    using assms(2) by (simp add: Set_Registrar set_registrar_Inr)
  ultimately show ?thesis using voters_inv_registrar [OF assms(1)] by simp
next
  case Pause_Voters
  have "st' = st\<lparr>reg_paused := True\<rparr>" using assms(2) by (simp add: Pause_Voters set_voters_paused_Inr)
  then show ?thesis using voters_inv_paused [OF assms(1)] by simp
next
  case Unpause_Voters
  have "st' = st\<lparr>reg_paused := False\<rparr>" using assms(2) by (simp add: Unpause_Voters set_voters_paused_Inr)
  then show ?thesis using voters_inv_paused [OF assms(1)] by simp
qed

lemma voters_exec_log:
  assumes "voters_exec en c st = Inr st'"
  shows "commitments st' = commitments st @ (case c of Register x cc \<Rightarrow> [x] | _ \<Rightarrow> []) \<and>
    commitment_country st' = (case c of Register x cc \<Rightarrow> (commitment_country st)(x := cc) | _ \<Rightarrow> commitment_country st)"
  using assms by (cases c) (auto simp: register_Inr voters_defs split: if_splits)

definition no_zero_registrar :: "(env \<times> voters_call) list \<Rightarrow> bool" where
  "no_zero_registrar txs \<longleftrightarrow> (\<forall>(en, c) \<in> set txs. case c of Set_Registrar cc r \<Rightarrow> cc \<noteq> zero_bytes 2 | _ \<Rightarrow> True)"

text \<open>A registered commitment keeps its country: the log of a run of the invariant's states agrees with the mapping.\<close>

lemma voters_run_log:
  assumes "voters_run txs st = (log, st')" "voters_inv st" "no_zero_registrar txs"
  shows "voters_inv st' \<and> commitments st' = commitments st @ map fst log \<and>
    (\<forall>(c, cc, r) \<in> set log. is_registered st' c cc) \<and>
    (\<forall>c \<in> set (commitments st). commitment_country st' c = commitment_country st c)"
  using assms
proof (induction txs arbitrary: st log)
  case Nil
  then show ?case by simp
next
  case (Cons tx txs)
  obtain en c where tx: "tx = (en, c)" by fastforce
  have safe: "no_zero_registrar txs" "\<forall>r. c \<noteq> Set_Registrar (zero_bytes 2) r"
    using Cons.prems(3) by (auto simp: no_zero_registrar_def tx)
  show ?case
  proof (cases "voters_exec en c st")
    case (Inl e)
    with Cons.prems(1) have "voters_run txs st = (log, st')" by (simp add: tx)
    from Cons.IH [OF this Cons.prems(2) safe(1)] show ?thesis .
  next
    case (Inr st1)
    obtain log1 where run: "voters_run txs st1 = (log1, st')"
      and log: "log = (case c of Register x cc \<Rightarrow> [(x, cc, sender en)] | _ \<Rightarrow> []) @ log1"
      using Cons.prems(1) Inr by (auto simp: tx split: prod.splits)
    have inv1: "voters_inv st1" using voters_exec_inv [OF Cons.prems(2) Inr safe(2)] .
    note IH = Cons.IH [OF run inv1 safe(1)] and step = voters_exec_log [OF Inr]
    show ?thesis
    proof (cases c)
      case (Register x cc)
      have "x \<notin> set (commitments st)"
        using Inr Cons.prems(2) by (auto simp: Register register_Inr voters_inv_def)
      then show ?thesis using IH step by (auto simp: log Register is_registered_def)
    qed (use IH step in \<open>simp_all add: log\<close>)
  qed
qed

section \<open>Properties\<close>

text \<open>
  C22: the registry agrees with its log for every sequence of transactions from a fresh one, as long as no registrar is set for
  the country \<open>0x0000\<close>: the list of commitments is that of the registrations in their order, no commitment occurs twice,
  the zero commitment never does, and each is registered forever for the country it was registered for.
\<close>

theorem voters_audit:
  assumes "voters_run txs (voters_init a) = (log, st)" "no_zero_registrar txs"
  shows "commitments st = map fst log \<and> total_voters st = length log \<and> distinct (commitments st) \<and>
    zero_bytes 32 \<notin> set (commitments st) \<and> (\<forall>(c, cc, r) \<in> set log. is_registered st c cc)"
proof -
  have "commitments st = map fst log" "voters_inv st" "\<forall>(c, cc, r) \<in> set log. is_registered st c cc"
    using voters_run_log [OF assms(1) voters_inv_init assms(2)] by (simp_all add: voters_init_def)
  then show ?thesis by (simp add: voters_inv_def total_voters_def) (metis length_map)
qed

definition demo_voters :: "(env \<times> voters_call) list" where
  "demo_voters =
     [(\<lparr>sender = ''o'', now = 1\<rparr>, Set_Registrar ''GB'' ''r''), (\<lparr>sender = ''r'', now = 2\<rparr>, Register ''c'' ''GB''),
      (\<lparr>sender = ''r'', now = 3\<rparr>, Register ''c'' ''GB'')]"

lemma zero_bytes_differ: "n \<noteq> length s \<Longrightarrow> s \<noteq> zero_bytes n" "n \<noteq> length s \<Longrightarrow> zero_bytes n \<noteq> s"
  by (auto simp: zero_bytes_def)

theorem voters_audit_witness:
  "total_voters (snd (voters_run demo_voters (voters_init ''o''))) = 1"
proof -
  have ne: "''GB'' \<noteq> zero_bytes 2" by (simp add: zero_bytes_def numeral_eq_Suc)
  have "fst (voters_run demo_voters (voters_init ''o'')) = [(''c'', ''GB'', ''r'')]"
    using ne by (simp add: demo_voters_def voters_defs voters_init_def zero_bytes_differ)
  moreover have "no_zero_registrar demo_voters" using ne by (simp add: no_zero_registrar_def demo_voters_def)
  ultimately show ?thesis
    using voters_audit [OF surjective_pairing, of demo_voters "''o''"] by auto
qed

text \<open>
  The country \<open>0x0000\<close> breaks both: an unregistered commitment counts as registered for it, and a registrar of it can put
  the same commitment on the list any number of times.
\<close>

theorem zero_country:
  assumes "sender en = registrar st (zero_bytes 2)" "registrar st (zero_bytes 2) \<noteq> zero_bytes 20" "\<not> reg_paused st"
    and "c \<noteq> zero_bytes 32" "commitment_country st c = zero_bytes 2"
  shows "is_registered st c (zero_bytes 2) \<and>
    commitments (snd (voters_run (replicate n (en, Register c (zero_bytes 2))) st)) = commitments st @ replicate n c"
proof -
  have "commitments (snd (voters_run (replicate n (en, Register c (zero_bytes 2))) st)) = commitments st @ replicate n c"
    using assms
  proof (induction n arbitrary: st)
    case (Suc n)
    let ?st = "st\<lparr>commitments := commitments st @ [c]\<rparr>"
    have "register en c (zero_bytes 2) st = Inr ?st"
      using Suc.prems by (simp add: register_Inr fun_upd_idem)
    moreover have "commitments (snd (voters_run (replicate n (en, Register c (zero_bytes 2))) ?st)) = commitments ?st @ replicate n c"
      using Suc.prems by (intro Suc.IH) simp_all
    ultimately show ?case by (simp add: split_beta)
  qed simp
  then show ?thesis using assms(5) by (simp add: is_registered_def)
qed

theorem zero_country_witness:
  "commitments (snd (voters_run (replicate 2 (\<lparr>sender = ''r'', now = 2\<rparr>, Register ''c'' (zero_bytes 2)))
     ((voters_init ''o'')\<lparr>registrar := (\<lambda>_. ''r'')\<rparr>))) = [''c'', ''c'']"
  using zero_country [of "\<lparr>sender = ''r'', now = 2\<rparr>" "(voters_init ''o'')\<lparr>registrar := (\<lambda>_. ''r'')\<rparr>" "''c''" 2]
  by (simp add: voters_init_def zero_bytes_differ numeral_2_eq_2)

end
