(* ===== verification/Contract_Calls.thy ===== *)
theory Contract_Calls
  imports Ledger
begin

text \<open>
  The ledger as other contracts and the scripts see it: a message call names a function by its signature and passes
  arguments; a function the contract does not have reverts without a reason. Besides the functions of \<open>VoteLedger.sol\<close>
  the table has those it inherits from OpenZeppelin: ownership, and \<open>upgradeToAndCall\<close>, which only the owner may call and
  whose effect is the parameter \<open>upgrade\<close>.
\<close>

section \<open>The table of functions\<close>

datatype abi_value =
    A_Bytes string
  | A_Uint nat
  | A_Str string
  | A_Proof proof_data

definition LEDGER_FUNCTIONS :: "string list" where
  "LEDGER_FUNCTIONS =
     [''createPoll(string,bytes2,uint64)'',
      ''castVote(bytes32,bytes32,bytes32,(uint256[2],uint256[2][2],uint256[2],uint256[]))'',
      ''finalisePoll(bytes32)'', ''getTally(bytes32,bytes32)'', ''getPollMeta(bytes32)'', ''isNullifierSpent(bytes32)'',
      ''pause()'', ''unpause()'', ''initialize(address,address,address)'', ''voterRegistry()'', ''zkVerifier()'', ''nullifierList(uint256)'',
      ''owner()'', ''paused()'', ''transferOwnership(address)'', ''renounceOwnership()'',
      ''upgradeToAndCall(address,bytes)'', ''proxiableUUID()'', ''UPGRADE_INTERFACE_VERSION()'']"

definition transfer_ownership :: "env \<Rightarrow> string \<Rightarrow> ledger \<Rightarrow> ledger result" where
  "transfer_ownership en a l =
     only_owner en l (if a = zero_bytes 20 then throw ''OwnableInvalidOwner'' else Inr (l\<lparr>owner := a\<rparr>))"

text \<open>
  The calls that change the state; \<open>initialize\<close> runs once, in the deployment, and reverts afterwards; the other functions of
  the table read.
\<close>

definition ledger_dispatch ::
  "(string \<Rightarrow> string) \<Rightarrow> (proof_data \<Rightarrow> bool) \<Rightarrow> (ledger \<Rightarrow> ledger) \<Rightarrow> env \<Rightarrow> string \<Rightarrow> abi_value list \<Rightarrow> ledger \<Rightarrow> ledger result" where
  "ledger_dispatch k v upgrade en sig args l =
     (if sig \<notin> set LEDGER_FUNCTIONS then throw []
      else if sig = ''createPoll(string,bytes2,uint64)''
        then (case args of [A_Str p, A_Bytes cc, A_Uint dl] \<Rightarrow> create_poll k en p cc dl l | _ \<Rightarrow> throw [])
      else if sig = ''castVote(bytes32,bytes32,bytes32,(uint256[2],uint256[2][2],uint256[2],uint256[]))''
        then (case args of [A_Bytes i, A_Bytes x, A_Bytes n, A_Proof pf] \<Rightarrow> cast_vote v en i x n pf l | _ \<Rightarrow> throw [])
      else if sig = ''finalisePoll(bytes32)'' then (case args of [A_Bytes i] \<Rightarrow> finalise_poll en i l | _ \<Rightarrow> throw [])
      else if sig = ''pause()'' then pause en l
      else if sig = ''unpause()'' then unpause en l
      else if sig = ''initialize(address,address,address)'' then throw ''InvalidInitialization''
      else if sig = ''transferOwnership(address)'' then (case args of [A_Bytes a] \<Rightarrow> transfer_ownership en a l | _ \<Rightarrow> throw [])
      else if sig = ''renounceOwnership()'' then only_owner en l (Inr (l\<lparr>owner := zero_bytes 20\<rparr>))
      else if sig = ''upgradeToAndCall(address,bytes)'' then only_owner en l (Inr (upgrade l))
      else Inr l)"

lemma dispatch_unknown: "sig \<notin> set LEDGER_FUNCTIONS \<Longrightarrow> ledger_dispatch k v upgrade en sig args l = Inl []"
  by (simp add: ledger_dispatch_def throw_def)

text \<open>A caller that is not the owner can do nothing but vote.\<close>

lemma dispatch_outsider:
  assumes "sender en \<noteq> owner l" "ledger_dispatch k v upgrade en sig args l = Inr l'"
  shows "l' = l \<or> (\<exists>i x n pf. cast_vote v en i x n pf l = Inr l')"
proof (cases "\<exists>i x n pf. cast_vote v en i x n pf l = Inr l'")
  case False
  have owners: "create_poll k en p cc dl l = Inl ''OwnableUnauthorizedAccount''" "finalise_poll en i l = Inl ''OwnableUnauthorizedAccount''"
    "pause en l = Inl ''OwnableUnauthorizedAccount''" "unpause en l = Inl ''OwnableUnauthorizedAccount''"
    "transfer_ownership en a l = Inl ''OwnableUnauthorizedAccount''" "only_owner en l r = Inl ''OwnableUnauthorizedAccount''"
    for p cc dl i a r
    using assms(1) by (simp_all add: owner_calls_defs transfer_ownership_def)
  from assms(2) False show ?thesis
    unfolding ledger_dispatch_def owners by (auto simp: throw_def split: if_splits list.splits abi_value.splits)
qed simp

text \<open>Any sequence of calls; one that reverts changes nothing.\<close>

type_synonym message_call = "env \<times> string \<times> abi_value list"

fun dispatch_run ::
  "(string \<Rightarrow> string) \<Rightarrow> (proof_data \<Rightarrow> bool) \<Rightarrow> (ledger \<Rightarrow> ledger) \<Rightarrow> message_call list \<Rightarrow> ledger \<Rightarrow> ledger" where
  "dispatch_run k v upgrade [] l = l"
| "dispatch_run k v upgrade ((en, sig, args) # cs) l =
     (case ledger_dispatch k v upgrade en sig args l of
        Inl e \<Rightarrow> dispatch_run k v upgrade cs l | Inr l' \<Rightarrow> dispatch_run k v upgrade cs l')"

end
