(* ===== verification/Cross_Chain.thy ===== *)
theory Cross_Chain
  imports Contract_Calls "HOL-Library.Multiset"
begin

text \<open>
  Voting from another chain, \<open>src/blockchain/contracts/L2VoteCaster.sol\<close> and \<open>CrossChainVoteRelay.sol\<close>: the caster on each
  second-layer chain checks a proof and sends a message, the relay on the first layer hands every message of a registered
  caster to the ledger. LayerZero is a parameter: its endpoint quotes a fee and accepts a message, or reverts, and its base
  contracts keep the registered peers; what is sent to the relay stays in flight until a delivery succeeds.
\<close>

section \<open>Messages\<close>

text \<open>\<open>abi.encode\<close> of three \<open>bytes32\<close>, and \<open>abi.encodePacked(uint16(1), uint128(200_000))\<close>.\<close>

definition encode_message :: "string \<Rightarrow> string \<Rightarrow> string \<Rightarrow> string" where
  "encode_message pid opt n = pid @ opt @ n"

definition decode_message :: "string \<Rightarrow> string \<times> string \<times> string" where
  "decode_message m = (take 32 m, take 32 (drop 32 m), take 32 (drop 64 m))"

fun be_bytes :: "nat \<Rightarrow> nat \<Rightarrow> string" where
  "be_bytes 0 n = []"
| "be_bytes (Suc k) n = be_bytes k (n div 256) @ [char_of (n mod 256)]"

definition L2_OPTIONS :: string where
  "L2_OPTIONS = be_bytes 2 1 @ be_bytes 16 200000"

lemma length_be_bytes [simp]: "length (be_bytes k n) = k"
  by (induction k arbitrary: n) simp_all

lemma decode_encode:
  "length pid = 32 \<Longrightarrow> length opt = 32 \<Longrightarrow> length n = 32 \<Longrightarrow> decode_message (encode_message pid opt n) = (pid, opt, n)"
  by (simp add: decode_message_def encode_message_def)

lemma length_encode:
  "length pid = 32 \<Longrightarrow> length opt = 32 \<Longrightarrow> length n = 32 \<Longrightarrow> length (encode_message pid opt n) = 96"
  by (simp add: encode_message_def)

section \<open>The caster\<close>

type_synonym sent_message = "nat \<times> string \<times> string"

record endpoint =
  ep_quote :: "nat \<Rightarrow> string \<Rightarrow> string \<Rightarrow> string \<Rightarrow> nat result"
  ep_send :: "sent_message list \<Rightarrow> nat \<Rightarrow> string \<Rightarrow> string \<Rightarrow> string \<Rightarrow> nat \<Rightarrow> string result"

record caster =
  ca_owner :: string
  ca_verifier :: string
  ca_l1 :: nat
  ca_peers :: "nat \<Rightarrow> string"
  ca_spent :: "string \<Rightarrow> bool"
  ca_out :: "sent_message list"
  ca_log :: "(string \<times> string \<times> string) list"

definition caster_init :: "string \<Rightarrow> nat \<Rightarrow> caster" where
  "caster_init initial_owner l1 =
     \<lparr>ca_owner = initial_owner, ca_verifier = zero_bytes 20, ca_l1 = l1, ca_peers = (\<lambda>_. zero_bytes 32),
      ca_spent = (\<lambda>_. False), ca_out = [], ca_log = []\<rparr>"

definition peer_or_revert :: "(nat \<Rightarrow> string) \<Rightarrow> nat \<Rightarrow> string result" where
  "peer_or_revert peers eid = (if peers eid = zero_bytes 32 then throw ''NoPeer'' else Inr (peers eid))"

definition set_zk_verifier :: "env \<Rightarrow> string \<Rightarrow> caster \<Rightarrow> caster result" where
  "set_zk_verifier en a c = (if sender en = ca_owner c then Inr (c\<lparr>ca_verifier := a\<rparr>) else throw ''OwnableUnauthorizedAccount'')"

definition quote_fee :: "endpoint \<Rightarrow> string \<Rightarrow> caster \<Rightarrow> nat result" where
  "quote_fee E msg c =
     bind_result (peer_or_revert (ca_peers c) (ca_l1 c)) (\<lambda>p. ep_quote E (ca_l1 c) p msg L2_OPTIONS)"

definition quote_l2 :: "endpoint \<Rightarrow> string \<Rightarrow> string \<Rightarrow> string \<Rightarrow> caster \<Rightarrow> nat result" where
  "quote_l2 E pid opt n c = quote_fee E (encode_message pid opt n) c"

text \<open>
  \<open>V\<close> gives the verifier at an address (a call to an address without code reverts); \<open>value\<close> is the fee the caller attaches.
\<close>

definition cast_l2 ::
  "endpoint \<Rightarrow> (string \<Rightarrow> (proof_data \<Rightarrow> bool) option) \<Rightarrow> nat \<Rightarrow> string \<Rightarrow> string \<Rightarrow> string \<Rightarrow> proof_data \<Rightarrow> caster \<Rightarrow>
    caster result" where
  "cast_l2 E V value pid opt n pf c =
     (if ca_spent c n then throw ''NullifierSpentL2''
      else case V (ca_verifier c) of
        None \<Rightarrow> throw []
      | Some verify \<Rightarrow>
          if \<not> verify pf then throw ''InvalidZKProof''
          else
            (let msg = encode_message pid opt n
             in bind_result (quote_fee E msg c) (\<lambda>fee.
                  if value < fee then throw ''InsufficientFee''
                  else bind_result (peer_or_revert (ca_peers c) (ca_l1 c)) (\<lambda>p.
                    bind_result (ep_send E (ca_out c) (ca_l1 c) p msg L2_OPTIONS value) (\<lambda>guid.
                      Inr (c\<lparr>ca_spent := (ca_spent c)(n := True), ca_out := ca_out c @ [(ca_l1 c, p, msg)],
                             ca_log := ca_log c @ [(pid, n, guid)]\<rparr>))))))"

lemma cast_l2_Inr:
  assumes "cast_l2 E V value pid opt n pf c = Inr c'"
  shows "\<not> ca_spent c n \<and> (\<exists>verify. V (ca_verifier c) = Some verify \<and> verify pf) \<and> ca_peers c (ca_l1 c) \<noteq> zero_bytes 32 \<and>
    (\<exists>guid. c' = c\<lparr>ca_spent := (ca_spent c)(n := True),
       ca_out := ca_out c @ [(ca_l1 c, ca_peers c (ca_l1 c), encode_message pid opt n)], ca_log := ca_log c @ [(pid, n, guid)]\<rparr>)"
  using assms
  by (auto simp: cast_l2_def bind_result_def throw_def peer_or_revert_def Let_def split: if_splits option.splits sum.splits)

text \<open>
  The options carry a gas limit of 16 bytes. An endpoint that takes options of type 1 only with 32 bytes of gas, as the
  message library of LayerZero V2 documents, refuses them, and with them every vote.
\<close>

lemma l2_options_refused:
  assumes "\<And>eid p msg. length L2_OPTIONS \<noteq> 34 \<Longrightarrow> ep_quote E eid p msg L2_OPTIONS = Inl ''InvalidLegacyType1Option''"
  shows "\<exists>e. cast_l2 E V value pid opt n pf c = Inl e"
  using assms by (auto simp: cast_l2_def quote_fee_def bind_result_def throw_def peer_or_revert_def Let_def L2_OPTIONS_def
      split: option.splits sum.splits)

type_synonym l2_request = "nat \<times> string \<times> string \<times> string \<times> proof_data"

definition l2_channel ::
  "endpoint \<Rightarrow> (string \<Rightarrow> (proof_data \<Rightarrow> bool) option) \<Rightarrow> l2_request \<Rightarrow> caster \<Rightarrow> (string \<times> string \<times> string) option \<times> caster" where
  "l2_channel E V = (\<lambda>(value, pid, opt, n, pf) c.
     case cast_l2 E V value pid opt n pf c of Inl e \<Rightarrow> (None, c) | Inr c' \<Rightarrow> (Some (pid, opt, n), c'))"

definition l2_spent :: "caster \<Rightarrow> string set" where
  "l2_spent c = {n. ca_spent c n}"

interpretation l2: vote_channel "l2_channel E V" l2_spent "\<lambda>v. snd (snd v)" for E V
  by unfold_locales (auto simp: l2_channel_def l2_spent_def split: sum.splits dest!: cast_l2_Inr)

section \<open>The relay\<close>

record relay =
  re_owner :: string
  re_ledger :: string
  re_peers :: "nat \<Rightarrow> string"
  re_log :: "(string \<times> string \<times> nat) list"

definition relay_init :: "string \<Rightarrow> relay" where
  "relay_init initial_owner =
     \<lparr>re_owner = initial_owner, re_ledger = zero_bytes 20, re_peers = (\<lambda>_. zero_bytes 32), re_log = []\<rparr>"

definition set_vote_ledger :: "env \<Rightarrow> string \<Rightarrow> relay \<Rightarrow> relay result" where
  "set_vote_ledger en a r = (if sender en = re_owner r then Inr (r\<lparr>re_ledger := a\<rparr>) else throw ''OwnableUnauthorizedAccount'')"

definition CAST_VOTE_RELAY :: string where
  "CAST_VOTE_RELAY = ''castVoteRelay(bytes32,bytes32,bytes32,uint32)''"

text \<open>
  The endpoint delivers a message of \<open>from\<close> on chain \<open>eid\<close>: LayerZero's base contract admits the registered peer only, then
  \<open>_lzReceive\<close> runs. \<open>call a sig args\<close> is the call of another contract, on that contract's state.
\<close>

definition relay_receive ::
  "(string \<Rightarrow> string \<Rightarrow> abi_value list \<Rightarrow> 't \<Rightarrow> 't result) \<Rightarrow> nat \<Rightarrow> string \<Rightarrow> string \<Rightarrow> relay \<times> 't \<Rightarrow> (relay \<times> 't) result" where
  "relay_receive call eid origin msg = (\<lambda>(r, t).
     bind_result (peer_or_revert (re_peers r) eid) (\<lambda>p.
       if p \<noteq> origin then throw ''OnlyPeer''
       else if length msg \<noteq> 96 then throw ''InvalidMessageLength''
       else if re_ledger r = zero_bytes 20 then throw ''VoteLedgerNotSet''
       else (case decode_message msg of (pid, opt, n) \<Rightarrow>
         bind_result (call (re_ledger r) CAST_VOTE_RELAY [A_Bytes pid, A_Bytes opt, A_Bytes n, A_Uint eid] t) (\<lambda>t'.
           Inr (r\<lparr>re_log := re_log r @ [(pid, n, eid)]\<rparr>, t')))))"

lemma relay_receive_Inr:
  assumes "relay_receive call eid origin msg (r, t) = Inr (r', t')"
  shows "re_peers r eid = origin \<and> length msg = 96 \<and>
    (case decode_message msg of (pid, opt, n) \<Rightarrow>
       r' = r\<lparr>re_log := re_log r @ [(pid, n, eid)]\<rparr> \<and>
       call (re_ledger r) CAST_VOTE_RELAY [A_Bytes pid, A_Bytes opt, A_Bytes n, A_Uint eid] t = Inr t')"
  using assms
  by (auto simp: relay_receive_def bind_result_def throw_def peer_or_revert_def decode_message_def split: if_splits sum.splits)

section \<open>The chains together\<close>

text \<open>
  \<open>OAppCore.setPeer\<close> on the relay, and the state of the whole: the caster of every chain, the relay, the messages addressed to
  the relay that no delivery has consumed, and the contract the relay calls. \<open>self e\<close> is the address of the caster on the chain
  \<open>e\<close>, \<open>l1\<close> the relay's chain and \<open>ra\<close> its address; the owner registers casters only, as the deployment script asks.
\<close>

definition set_peer :: "env \<Rightarrow> nat \<Rightarrow> string \<Rightarrow> relay \<Rightarrow> relay result" where
  "set_peer en e p r =
     (if sender en = re_owner r then Inr (r\<lparr>re_peers := (re_peers r)(e := p)\<rparr>) else throw ''OwnableUnauthorizedAccount'')"

record 't xchain =
  xc_casters :: "nat \<Rightarrow> caster"
  xc_relay :: relay
  xc_flight :: "(nat \<times> string \<times> string) multiset"
  xc_target :: 't

type_synonym 't contract_calls = "string \<Rightarrow> string \<Rightarrow> abi_value list \<Rightarrow> 't \<Rightarrow> 't result"

inductive xstep ::
  "endpoint \<Rightarrow> (string \<Rightarrow> (proof_data \<Rightarrow> bool) option) \<Rightarrow> 't contract_calls \<Rightarrow> ('t \<Rightarrow> 't \<Rightarrow> bool) \<Rightarrow> (nat \<Rightarrow> string) \<Rightarrow>
    't xchain \<Rightarrow> 't xchain \<Rightarrow> bool"
  for E V call tstep self where
  X_Cast: "cast_l2 E V value pid opt n pf (xc_casters s e) = Inr c' \<Longrightarrow> length pid = 32 \<Longrightarrow> length opt = 32 \<Longrightarrow> length n = 32 \<Longrightarrow>
    xstep E V call tstep self s
      (s\<lparr>xc_casters := (xc_casters s)(e := c'), xc_flight := add_mset (e, self e, encode_message pid opt n) (xc_flight s)\<rparr>)"
| X_Foreign: "a \<noteq> self e \<Longrightarrow> xstep E V call tstep self s (s\<lparr>xc_flight := add_mset (e, a, m) (xc_flight s)\<rparr>)"
| X_Deliver: "(e, a, m) \<in># xc_flight s \<Longrightarrow> relay_receive call e a m (xc_relay s, xc_target s) = Inr (r', t') \<Longrightarrow>
    xstep E V call tstep self s (s\<lparr>xc_flight := xc_flight s - {#(e, a, m)#}, xc_relay := r', xc_target := t'\<rparr>)"
| X_Target: "tstep (xc_target s) t' \<Longrightarrow> xstep E V call tstep self s (s\<lparr>xc_target := t'\<rparr>)"
| X_Verifier: "set_zk_verifier en a (xc_casters s e) = Inr c' \<Longrightarrow>
    xstep E V call tstep self s (s\<lparr>xc_casters := (xc_casters s)(e := c')\<rparr>)"
| X_Ledger: "set_vote_ledger en a (xc_relay s) = Inr r' \<Longrightarrow> xstep E V call tstep self s (s\<lparr>xc_relay := r'\<rparr>)"
| X_Peer: "set_peer en e p (xc_relay s) = Inr r' \<Longrightarrow> p = self e \<or> p = zero_bytes 32 \<Longrightarrow>
    xstep E V call tstep self s (s\<lparr>xc_relay := r'\<rparr>)"

inductive xreach ::
  "endpoint \<Rightarrow> (string \<Rightarrow> (proof_data \<Rightarrow> bool) option) \<Rightarrow> 't contract_calls \<Rightarrow> ('t \<Rightarrow> 't \<Rightarrow> bool) \<Rightarrow> (nat \<Rightarrow> string) \<Rightarrow>
    't xchain \<Rightarrow> 't xchain \<Rightarrow> bool"
  for E V call tstep self where
  X_Start: "xreach E V call tstep self s s"
| X_Step: "xreach E V call tstep self s s' \<Longrightarrow> xstep E V call tstep self s' s'' \<Longrightarrow> xreach E V call tstep self s s''"

inductive_cases xstep_cases: "xstep E V call tstep self s s'"

text \<open>What a message is about, the messages of a chain that are sent and in flight, and those its relay has handed on.\<close>

definition subject :: "string \<Rightarrow> string \<times> string" where
  "subject m = (case decode_message m of (pid, opt, n) \<Rightarrow> (pid, n))"

definition sent_by :: "nat \<Rightarrow> 't xchain \<Rightarrow> (string \<times> string) list" where
  "sent_by e s = map (\<lambda>(l, p, m). subject m) (ca_out (xc_casters s e))"

definition flying :: "(nat \<Rightarrow> string) \<Rightarrow> nat \<Rightarrow> 't xchain \<Rightarrow> (string \<times> string) multiset" where
  "flying self e s = image_mset (\<lambda>(e', a, m). subject m) (filter_mset (\<lambda>(e', a, m). e' = e \<and> a = self e) (xc_flight s))"

definition relayed :: "nat \<Rightarrow> 't xchain \<Rightarrow> (string \<times> string) list" where
  "relayed e s = map (\<lambda>(pid, n, e'). (pid, n)) (filter (\<lambda>(pid, n, e'). e' = e) (re_log (xc_relay s)))"

text \<open>The start: the casters are new and the relay has handed on nothing; its peers are the casters or not set.\<close>

definition xc_start :: "(nat \<Rightarrow> string) \<Rightarrow> 't xchain \<Rightarrow> bool" where
  "xc_start self s \<longleftrightarrow>
     (\<forall>e. ca_out (xc_casters s e) = [] \<and> (\<forall>n. \<not> ca_spent (xc_casters s e) n)) \<and> re_log (xc_relay s) = [] \<and>
     (\<forall>e. re_peers (xc_relay s) e \<in> {self e, zero_bytes 32}) \<and> (\<forall>e. flying self e s = {#})"

definition xc_inv :: "(nat \<Rightarrow> string) \<Rightarrow> 't xchain \<Rightarrow> bool" where
  "xc_inv self s \<longleftrightarrow>
     (\<forall>e. mset (sent_by e s) = flying self e s + mset (relayed e s)) \<and>
     (\<forall>e. distinct (map snd (sent_by e s)) \<and> snd ` set (sent_by e s) \<subseteq> l2_spent (xc_casters s e)) \<and>
     (\<forall>e. re_peers (xc_relay s) e \<in> {self e, zero_bytes 32})"

lemma xc_start_inv: "xc_start self s \<Longrightarrow> xc_inv self s"
  by (simp add: xc_start_def xc_inv_def sent_by_def relayed_def)

lemma xc_inv_cast:
  assumes "xc_inv self s" "cast_l2 E V value pid opt n pf (xc_casters s e) = Inr c'"
    and "length pid = 32" "length opt = 32" "length n = 32"
  shows "xc_inv self
    (s\<lparr>xc_casters := (xc_casters s)(e := c'), xc_flight := add_mset (e, self e, encode_message pid opt n) (xc_flight s)\<rparr>)"
    (is "xc_inv self ?s'")
proof -
  have subj: "subject (encode_message pid opt n) = (pid, n)"
    using assms(3-) by (simp add: subject_def decode_encode)
  note c' = cast_l2_Inr [OF assms(2)]
  then have out: "ca_out c' = ca_out (xc_casters s e) @
      [(ca_l1 (xc_casters s e), ca_peers (xc_casters s e) (ca_l1 (xc_casters s e)), encode_message pid opt n)]"
    and spent: "l2_spent c' = insert n (l2_spent (xc_casters s e))" and fresh: "n \<notin> l2_spent (xc_casters s e)"
    by (auto simp: l2_spent_def)
  have sent: "sent_by e ?s' = sent_by e s @ [(pid, n)]" "e' \<noteq> e \<Longrightarrow> sent_by e' ?s' = sent_by e' s" for e'
    by (simp_all add: sent_by_def out subj)
  have fly: "flying self e ?s' = add_mset (pid, n) (flying self e s)" "e' \<noteq> e \<Longrightarrow> flying self e' ?s' = flying self e' s" for e'
    by (auto simp: flying_def subj)
  have rel: "relayed e' ?s' = relayed e' s" for e' by (simp add: relayed_def)
  have inv: "mset (sent_by e' s) = flying self e' s + mset (relayed e' s)"
    "distinct (map snd (sent_by e' s))" "snd ` set (sent_by e' s) \<subseteq> l2_spent (xc_casters s e')" for e'
    using assms(1) by (auto simp: xc_inv_def)
  have "mset (sent_by e' ?s') = flying self e' ?s' + mset (relayed e' ?s')" for e'
    using inv(1) [of e'] by (cases "e' = e") (simp_all add: sent fly rel)
  moreover have "distinct (map snd (sent_by e' ?s')) \<and> snd ` set (sent_by e' ?s') \<subseteq> l2_spent (xc_casters ?s' e')" for e'
    using inv(2) [of e'] inv(3) [of e'] fresh by (cases "e' = e") (auto simp: sent spent)
  ultimately show ?thesis using assms(1) unfolding xc_inv_def by simp
qed

lemma xc_inv_deliver:
  assumes "xc_inv self s" "(e, a, m) \<in># xc_flight s"
    and "relay_receive call e a m (xc_relay s, xc_target s) = Inr (r', t')"
  shows "xc_inv self (s\<lparr>xc_flight := xc_flight s - {#(e, a, m)#}, xc_relay := r', xc_target := t'\<rparr>)"
    (is "xc_inv self ?s'")
proof -
  obtain pid opt n where m: "decode_message m = (pid, opt, n)" by (cases "decode_message m")
  note r' = relay_receive_Inr [OF assms(3), unfolded m prod.case]
  have "re_peers (xc_relay s) e \<noteq> zero_bytes 32"
    using assms(3) by (auto simp: relay_receive_def bind_result_def peer_or_revert_def throw_def)
  moreover have "re_peers (xc_relay s) e \<in> {self e, zero_bytes 32}" using assms(1) by (auto simp: xc_inv_def)
  ultimately have a: "a = self e" using r' by auto
  have subj: "subject m = (pid, n)" by (simp add: subject_def m)
  have sent: "sent_by e' ?s' = sent_by e' s" for e' by (simp add: sent_by_def)
  have fly: "flying self e s = add_mset (pid, n) (flying self e ?s')"
  proof -
    obtain F where "xc_flight s = add_mset (e, a, m) F" using assms(2) by (auto dest: multi_member_split)
    then show ?thesis by (simp add: flying_def a subj)
  qed
  have fly': "e' \<noteq> e \<Longrightarrow> flying self e' ?s' = flying self e' s" for e'
    by (auto simp: flying_def)
  have rel: "relayed e ?s' = relayed e s @ [(pid, n)]" "e' \<noteq> e \<Longrightarrow> relayed e' ?s' = relayed e' s" for e'
    using r' by (auto simp: relayed_def)
  have "mset (sent_by e' ?s') = flying self e' ?s' + mset (relayed e' ?s')" for e'
  proof -
    have "mset (sent_by e' s) = flying self e' s + mset (relayed e' s)" using assms(1) by (simp add: xc_inv_def)
    then show ?thesis by (cases "e' = e") (simp_all add: sent fly fly' rel)
  qed
  moreover have "re_peers r' = re_peers (xc_relay s)" using r' by simp
  ultimately show ?thesis using assms(1) by (simp add: xc_inv_def sent)
qed

lemma xc_inv_same:
  assumes "xc_inv self s" "\<And>e. ca_out (xc_casters s' e) = ca_out (xc_casters s e)" "\<And>e. ca_spent (xc_casters s' e) = ca_spent (xc_casters s e)"
    and "re_log (xc_relay s') = re_log (xc_relay s)" "\<And>e. flying self e s' = flying self e s"
    and "\<And>e. re_peers (xc_relay s') e \<in> {re_peers (xc_relay s) e, self e, zero_bytes 32}"
  shows "xc_inv self s'"
proof -
  have "sent_by e s' = sent_by e s" "relayed e s' = relayed e s" "l2_spent (xc_casters s' e) = l2_spent (xc_casters s e)" for e
    by (simp_all add: sent_by_def relayed_def l2_spent_def assms(2-4))
  moreover have "re_peers (xc_relay s') e \<in> {self e, zero_bytes 32}" for e
    using assms(1) assms(6) [of e] by (auto simp: xc_inv_def)
  ultimately show ?thesis using assms(1,5) by (simp add: xc_inv_def)
qed

lemma xc_step_inv: "xstep E V call tstep self s s' \<Longrightarrow> xc_inv self s \<Longrightarrow> xc_inv self s'"
proof (induction rule: xstep.induct)
  case (X_Cast fee pid opt n pf s e c')
  then show ?case by (intro xc_inv_cast)
next
  case (X_Foreign a e s m)
  then show ?case by (elim xc_inv_same) (auto simp: flying_def)
next
  case (X_Deliver e a m s r' t')
  then show ?case by (intro xc_inv_deliver)
next
  case (X_Target s t')
  then show ?case by (elim xc_inv_same) (auto simp: flying_def)
next
  case (X_Verifier en a s e c')
  then show ?case
    by (elim xc_inv_same) (auto simp: flying_def set_zk_verifier_def throw_def split: if_splits)
next
  case (X_Ledger en a s r')
  then show ?case
    by (elim xc_inv_same) (auto simp: flying_def set_vote_ledger_def throw_def split: if_splits)
next
  case (X_Peer en e p s r')
  then show ?case
    by (elim xc_inv_same) (auto simp: flying_def set_peer_def throw_def split: if_splits)
qed

lemma xc_reach_inv: "xreach E V call tstep self s s' \<Longrightarrow> xc_inv self s \<Longrightarrow> xc_inv self s'"
  by (induction rule: xreach.induct) (auto intro: xc_step_inv)

section \<open>On the vote ledger\<close>

text \<open>The call of the ledger at the address \<open>vl\<close>, and its own transactions.\<close>

definition ledger_calls ::
  "(string \<Rightarrow> string) \<Rightarrow> (proof_data \<Rightarrow> bool) \<Rightarrow> (ledger \<Rightarrow> ledger) \<Rightarrow> string \<Rightarrow> env \<Rightarrow> ledger contract_calls" where
  "ledger_calls k v upgrade vl en = (\<lambda>a sig args l. if a = vl then ledger_dispatch k v upgrade en sig args l else throw [])"

definition ledger_steps :: "(string \<Rightarrow> string) \<Rightarrow> (proof_data \<Rightarrow> bool) \<Rightarrow> ledger \<Rightarrow> ledger \<Rightarrow> bool" where
  "ledger_steps k v l l' \<longleftrightarrow> (\<exists>en c. ledger_exec k v en c l = Inr l')"

lemma relay_refused: "relay_receive (ledger_calls k v upgrade vl en) e a m (r, l) \<noteq> Inr (r', l')"
proof
  assume "relay_receive (ledger_calls k v upgrade vl en) e a m (r, l) = Inr (r', l')"
  then obtain pid opt n where
      "ledger_calls k v upgrade vl en (re_ledger r) CAST_VOTE_RELAY [A_Bytes pid, A_Bytes opt, A_Bytes n, A_Uint e] l = Inr l'"
    using relay_receive_Inr by (cases "decode_message m") fastforce
  moreover have "CAST_VOTE_RELAY \<notin> set LEDGER_FUNCTIONS" by (simp add: CAST_VOTE_RELAY_def LEDGER_FUNCTIONS_def)
  ultimately show False by (auto simp: ledger_calls_def dispatch_unknown throw_def split: if_splits)
qed

lemma ledger_run_snoc: "ledger_run k v (txs @ [(en, c)]) l =
    (case ledger_exec k v en c (ledger_run k v txs l) of Inl e \<Rightarrow> ledger_run k v txs l | Inr l' \<Rightarrow> l')"
  by (induction txs arbitrary: l) (auto split: sum.split)

lemma xstep_ledger:
  assumes "xstep E V (ledger_calls k v upgrade vl en) (ledger_steps k v) self s s'"
  shows "re_log (xc_relay s') = re_log (xc_relay s) \<and>
    (xc_target s' = xc_target s \<or> ledger_steps k v (xc_target s) (xc_target s'))"
  using assms
proof (induction rule: xstep.induct)
  case (X_Deliver e a m s r' t')
  then show ?case using relay_refused by blast
qed (auto simp: set_vote_ledger_def set_peer_def throw_def split: if_splits)

lemma xreach_ledger:
  "xreach E V (ledger_calls k v upgrade vl en) (ledger_steps k v) self s s' \<Longrightarrow>
    re_log (xc_relay s') = re_log (xc_relay s) \<and> (\<exists>txs. xc_target s' = ledger_run k v txs (xc_target s))"
proof (induction rule: xreach.induct)
  case X_Start
  show ?case by (auto intro: exI [of _ "[]"])
next
  case (X_Step s s' s'')
  then obtain txs where txs: "xc_target s' = ledger_run k v txs (xc_target s)" by blast
  have "\<exists>txs. xc_target s'' = ledger_run k v txs (xc_target s)"
  proof (cases "xc_target s'' = xc_target s'")
    case True
    with txs show ?thesis by auto
  next
    case False
    with xstep_ledger [OF X_Step.hyps(2)] obtain en' c where "ledger_exec k v en' c (xc_target s') = Inr (xc_target s'')"
      by (auto simp: ledger_steps_def)
    with txs have "xc_target s'' = ledger_run k v (txs @ [(en', c)]) (xc_target s)" by (simp add: ledger_run_snoc)
    then show ?thesis by blast
  qed
  with X_Step.IH xstep_ledger [OF X_Step.hyps(2)] show ?case by simp
qed

section \<open>Properties\<close>

text \<open>
  C8: no cross-chain vote is lost, invented or handed on twice: in every reachable state the messages a registered caster has
  sent are exactly those in flight from it and those the relay has handed on, and the relay has handed on at most one vote
  for a nullifier of a chain, whoever else sends messages to it and in whatever order they arrive.
\<close>

theorem cross_chain_conservation:
  assumes "xc_start self s0" "xreach E V call tstep self s0 s"
  shows "mset (sent_by e s) = flying self e s + mset (relayed e s) \<and> distinct (map snd (relayed e s))"
proof -
  have inv: "xc_inv self s" using xc_reach_inv [OF assms(2) xc_start_inv [OF assms(1)]] .
  then have eq: "mset (sent_by e s) = flying self e s + mset (relayed e s)" and d: "distinct (map snd (sent_by e s))"
    by (simp_all add: xc_inv_def)
  obtain fl where "mset fl = flying self e s" using ex_mset by blast
  with eq have "mset (sent_by e s) = mset (fl @ relayed e s)" by simp
  then have "mset (map snd (sent_by e s)) = mset (map snd (fl @ relayed e s))" by (simp only: mset_map)
  with d have "distinct (map snd (fl @ relayed e s))" using mset_eq_imp_distinct_iff by blast
  then have "distinct (map snd (relayed e s))" by simp
  with eq show ?thesis by blast
qed


text \<open>A network with one accepted vote: a fee of five, every caster set up, the relay and its ledger wired.\<close>

definition demo_endpoint :: endpoint where
  "demo_endpoint = \<lparr>ep_quote = (\<lambda>_ _ _ _. Inr 5), ep_send = (\<lambda>_ _ _ _ _ _. Inr ''guid'')\<rparr>"

definition demo_chain :: "'t \<Rightarrow> 't xchain" where
  "demo_chain t =
     \<lparr>xc_casters = (\<lambda>_. (caster_init ''o'' 40161)\<lparr>ca_verifier := ''v'', ca_peers := (\<lambda>_. ''relay'')\<rparr>),
      xc_relay = (relay_init ''o'')\<lparr>re_ledger := ''vl'', re_peers := (\<lambda>_. ''caster'')\<rparr>, xc_flight = {#}, xc_target = t\<rparr>"

definition word_a :: string where "word_a = replicate 32 CHR ''a''"

lemma demo_words: "length word_a = 32" "''relay'' \<noteq> zero_bytes 32" "''caster'' \<noteq> zero_bytes 32" "''vl'' \<noteq> zero_bytes 20"
  by (simp add: word_a_def) (simp_all add: zero_bytes_def numeral_eq_Suc)

lemma demo_start: "xc_start (\<lambda>_. ''caster'') (demo_chain t)"
  by (simp add: xc_start_def demo_chain_def caster_init_def relay_init_def flying_def)

lemma demo_cast:
  "\<exists>c. cast_l2 demo_endpoint (\<lambda>_. Some (\<lambda>_. True)) 5 word_a word_a word_a any_proof (xc_casters (demo_chain t) 1) = Inr c \<and>
     ca_out c = [(40161, ''relay'', encode_message word_a word_a word_a)] \<and> l2_spent c = {word_a}"
  by (auto simp: cast_l2_def demo_chain_def caster_init_def quote_fee_def peer_or_revert_def demo_words demo_endpoint_def l2_spent_def split: if_splits)

lemma demo_sent:
  "\<exists>s. xreach demo_endpoint (\<lambda>_. Some (\<lambda>_. True)) call tstep (\<lambda>_. ''caster'') (demo_chain t) s \<and>
     sent_by 1 s = [(word_a, word_a)] \<and> xc_flight s = {#(1, ''caster'', encode_message word_a word_a word_a)#} \<and>
     xc_relay s = xc_relay (demo_chain t) \<and> xc_target s = t"
proof -
  obtain c where c: "cast_l2 demo_endpoint (\<lambda>_. Some (\<lambda>_. True)) 5 word_a word_a word_a any_proof (xc_casters (demo_chain t) 1) = Inr c"
      "ca_out c = [(40161, ''relay'', encode_message word_a word_a word_a)]"
    using demo_cast [where t = t] by (elim exE conjE)
  let ?m = "encode_message word_a word_a word_a"
  let ?s = "(demo_chain t)\<lparr>xc_casters := (xc_casters (demo_chain t))(1 := c), xc_flight := add_mset (1, ''caster'', ?m) (xc_flight (demo_chain t))\<rparr>"
  have "xstep demo_endpoint (\<lambda>_. Some (\<lambda>_. True)) call tstep (\<lambda>_. ''caster'') (demo_chain t) ?s"
    using X_Cast [where self = "\<lambda>_. ''caster''", OF c(1) demo_words(1,1,1)] .
  then have "xreach demo_endpoint (\<lambda>_. Some (\<lambda>_. True)) call tstep (\<lambda>_. ''caster'') (demo_chain t) ?s"
    by (rule X_Step [OF X_Start])
  moreover have "sent_by 1 ?s = [(word_a, word_a)]"
    by (simp add: sent_by_def c(2) subject_def decode_encode demo_words(1))
  moreover have "xc_flight ?s = {#(1, ''caster'', ?m)#}" by (simp add: demo_chain_def)
  ultimately show ?thesis by (intro exI [of _ ?s]) (simp add: demo_chain_def)
qed

theorem cross_chain_conservation_witness:
  "\<exists>s. xreach demo_endpoint (\<lambda>_. Some (\<lambda>_. True)) (\<lambda>_ _ _. Inr) (\<lambda>_ _. False) (\<lambda>_. ''caster'') (demo_chain ()) s \<and>
     relayed 1 s = [(word_a, word_a)] \<and> mset (sent_by 1 s) = flying (\<lambda>_. ''caster'') 1 s + {#(word_a, word_a)#}"
proof -
  let ?m = "encode_message word_a word_a word_a"
  obtain s where s: "xreach demo_endpoint (\<lambda>_. Some (\<lambda>_. True)) (\<lambda>_ _ _. Inr) (\<lambda>_ _. False) (\<lambda>_. ''caster'') (demo_chain ()) s"
      "xc_flight s = {#(1, ''caster'', ?m)#}" "xc_relay s = xc_relay (demo_chain ())"
    using demo_sent [where call = "\<lambda>_ _ _. Inr" and tstep = "\<lambda>_ _. False" and t = "()"] by (elim exE conjE) (rule that)
  have "relay_receive (\<lambda>_ _ _. Inr) 1 ''caster'' ?m (xc_relay s, xc_target s) =
      Inr ((xc_relay s)\<lparr>re_log := [(word_a, word_a, 1)]\<rparr>, xc_target s)"
    by (simp add: relay_receive_def s(3) demo_chain_def relay_init_def peer_or_revert_def demo_words length_encode decode_encode)
  moreover have "(1, ''caster'', ?m) \<in># xc_flight s" by (simp add: s(2))
  ultimately have "xreach demo_endpoint (\<lambda>_. Some (\<lambda>_. True)) (\<lambda>_ _ _. Inr) (\<lambda>_ _. False) (\<lambda>_. ''caster'') (demo_chain ())
      (s\<lparr>xc_flight := xc_flight s - {#(1, ''caster'', ?m)#}, xc_relay := (xc_relay s)\<lparr>re_log := [(word_a, word_a, 1)]\<rparr>,
         xc_target := xc_target s\<rparr>)" (is "xreach _ _ _ _ _ _ ?s'")
    by (intro X_Step [OF s(1)] X_Deliver)
  moreover from cross_chain_conservation [OF demo_start this, of 1]
  have "mset (sent_by 1 ?s') = flying (\<lambda>_. ''caster'') 1 ?s' + mset (relayed 1 ?s')" by blast
  moreover have "relayed 1 ?s' = [(word_a, word_a)]" by (simp add: relayed_def)
  ultimately show ?thesis by (intro exI [of _ ?s']) simp
qed

text \<open>
  C23: with the vote ledger as it is, every cross-chain vote is lost: it has no \<open>castVoteRelay\<close>, so in every reachable state
  nothing has been handed on, every message a caster has sent is still in flight while its nullifier is spent on that chain,
  and the ledger is as some transactions of its own have left it.
\<close>

theorem cross_chain_lost:
  assumes "xc_start self s0" "xreach E V (ledger_calls k v upgrade vl en) (ledger_steps k v) self s0 s"
  shows "relayed e s = [] \<and> mset (sent_by e s) = flying self e s \<and> snd ` set (sent_by e s) \<subseteq> l2_spent (xc_casters s e) \<and>
    (\<exists>txs. xc_target s = ledger_run k v txs (xc_target s0))"
proof -
  have "xc_inv self s" using xc_reach_inv [OF assms(2) xc_start_inv [OF assms(1)]] .
  then show ?thesis
    using xreach_ledger [OF assms(2)] assms(1) by (auto simp: xc_inv_def xc_start_def relayed_def)
qed

theorem cross_chain_lost_witness:
  "\<exists>s. xreach demo_endpoint (\<lambda>_. Some (\<lambda>_. True)) (ledger_calls id (\<lambda>_. True) id ''vl'' \<lparr>sender = ''relay'', now = 1\<rparr>)
       (ledger_steps id (\<lambda>_. True)) (\<lambda>_. ''caster'') (demo_chain (ledger_init ''o'')) s \<and>
     flying (\<lambda>_. ''caster'') 1 s = {#(word_a, word_a)#} \<and> word_a \<in> l2_spent (xc_casters s 1)"
proof -
  let ?en = "\<lparr>sender = ''relay'', now = 1\<rparr>"
  obtain s where s: "xreach demo_endpoint (\<lambda>_. Some (\<lambda>_. True)) (ledger_calls id (\<lambda>_. True) id ''vl'' ?en)
       (ledger_steps id (\<lambda>_. True)) (\<lambda>_. ''caster'') (demo_chain (ledger_init ''o'')) s" "sent_by 1 s = [(word_a, word_a)]"
    using demo_sent [where call = "ledger_calls id (\<lambda>_. True) id ''vl'' ?en" and tstep = "ledger_steps id (\<lambda>_. True)" and
        t = "ledger_init ''o''"]
    by (elim exE conjE) (rule that)
  have "mset (sent_by 1 s) = flying (\<lambda>_. ''caster'') 1 s \<and> snd ` set (sent_by 1 s) \<subseteq> l2_spent (xc_casters s 1)"
    using cross_chain_lost [OF demo_start s(1), of 1] by blast
  with s(2) have "flying (\<lambda>_. ''caster'') 1 s = {#(word_a, word_a)#} \<and> word_a \<in> l2_spent (xc_casters s 1)" by simp
  with s(1) show ?thesis by blast
qed

text \<open>
  Whatever requests a caster gets, with whatever fees, it sends at most one message for a nullifier, and a nullifier is
  spent on the chain exactly when a message for it was sent.
\<close>

theorem l2_one_message:
  assumes "run_channel (l2_channel E V) rs c = (vs, c')" "l2_spent c = {}"
  shows "distinct (map (\<lambda>v. snd (snd v)) vs) \<and> l2_spent c' = (\<lambda>v. snd (snd v)) ` set vs"
  using l2.run_once [OF assms(1)] assms(2) by simp

theorem l2_one_message_witness:
  "l2_spent (snd (run_channel (l2_channel demo_endpoint (\<lambda>_. Some (\<lambda>_. True)))
      [(5, word_a, word_a, word_a, any_proof), (9, word_a, word_a, word_a, any_proof)] (xc_casters (demo_chain ()) 1))) = {word_a}"
proof -
  let ?V = "\<lambda>_. Some (\<lambda>_. True)"
  let ?c = "xc_casters (demo_chain ()) 1"
  obtain c where c: "cast_l2 demo_endpoint ?V 5 word_a word_a word_a any_proof ?c = Inr c" "l2_spent c = {word_a}"
    using demo_cast [where t = "()"] by (elim exE conjE)
  then have "cast_l2 demo_endpoint ?V 9 word_a word_a word_a any_proof c = Inl ''NullifierSpentL2''"
    by (simp add: cast_l2_def l2_spent_def throw_def set_eq_iff)
  with c have run: "run_channel (l2_channel demo_endpoint ?V)
      [(5, word_a, word_a, word_a, any_proof), (9, word_a, word_a, word_a, any_proof)] ?c = ([(word_a, word_a, word_a)], c)"
    by (simp add: l2_channel_def)
  have "l2_spent ?c = {}" by (simp add: demo_chain_def caster_init_def l2_spent_def)
  from l2_one_message [OF run this] run show ?thesis by simp
qed

end
