(* ===== verification/Deployment.thy ===== *)
theory Deployment
  imports Json Contract_Calls Policy_Registry Voter_Registry Cross_Chain
begin

text \<open>
  The deployment scripts of \<open>src/blockchain/scripts/\<close> as functions on the contracts that exist on a chain, and the governance
  token of \<open>src/blockchain/contracts/VoteToken.sol\<close> they deploy. The address of the \<open>n\<close>-th contract created is the parameter
  \<open>A\<close>; of OpenZeppelin's timelock and token there is what the scripts use of them: roles, balances and delegates. The scripts'
  progress messages are left out, their files and the lines of their summaries are not.
\<close>

section \<open>The governance token\<close>

record token =
  tk_owner :: string
  tk_supply :: nat
  tk_balance :: "string \<Rightarrow> nat"
  tk_delegate :: "string \<Rightarrow> string"

definition TOKEN_CAP :: nat where "TOKEN_CAP = 2 ^ 208 - 1"

definition token_init :: "string \<Rightarrow> token" where
  "token_init initial_owner =
     \<lparr>tk_owner = initial_owner, tk_supply = 0, tk_balance = (\<lambda>_. 0), tk_delegate = (\<lambda>_. zero_bytes 20)\<rparr>"

definition token_only_owner :: "env \<Rightarrow> token \<Rightarrow> token result \<Rightarrow> token result" where
  "token_only_owner en t r = (if sender en = tk_owner t then r else throw ''OwnableUnauthorizedAccount'')"

definition mint_contributor :: "env \<Rightarrow> string \<Rightarrow> nat \<Rightarrow> token \<Rightarrow> token result" where
  "mint_contributor en to amount t =
     token_only_owner en t
       (if to = zero_bytes 20 then throw ''ERC20InvalidReceiver''
        else if TOKEN_CAP < tk_supply t + amount then throw ''ERC20ExceededSafeSupply''
        else Inr (t\<lparr>tk_supply := tk_supply t + amount, tk_balance := (tk_balance t)(to := tk_balance t to + amount)\<rparr>))"

definition revoke_contributor :: "env \<Rightarrow> string \<Rightarrow> nat \<Rightarrow> token \<Rightarrow> token result" where
  "revoke_contributor en a amount t =
     token_only_owner en t
       (if a = zero_bytes 20 then throw ''ERC20InvalidSender''
        else if tk_balance t a < amount then throw ''ERC20InsufficientBalance''
        else Inr (t\<lparr>tk_supply := tk_supply t - amount, tk_balance := (tk_balance t)(a := tk_balance t a - amount)\<rparr>))"

definition token_transfer :: "string \<Rightarrow> nat \<Rightarrow> token \<Rightarrow> token result" where
  "token_transfer to amount t = throw ''TokenIsSoulbound''"

definition token_transfer_from :: "string \<Rightarrow> string \<Rightarrow> nat \<Rightarrow> token \<Rightarrow> token result" where
  "token_transfer_from a to amount t = throw ''TokenIsSoulbound''"

definition token_delegate :: "env \<Rightarrow> string \<Rightarrow> token \<Rightarrow> token result" where
  "token_delegate en d t = Inr (t\<lparr>tk_delegate := (tk_delegate t)(sender en := d)\<rparr>)"

definition token_transfer_ownership :: "env \<Rightarrow> string \<Rightarrow> token \<Rightarrow> token result" where
  "token_transfer_ownership en a t =
     token_only_owner en t (if a = zero_bytes 20 then throw ''OwnableInvalidOwner'' else Inr (t\<lparr>tk_owner := a\<rparr>))"

datatype token_call =
    Mint string nat
  | Revoke string nat
  | Transfer string nat
  | Transfer_From string string nat
  | Delegate string
  | Transfer_Ownership string

fun token_exec :: "env \<Rightarrow> token_call \<Rightarrow> token \<Rightarrow> token result" where
  "token_exec en (Mint to n) t = mint_contributor en to n t"
| "token_exec en (Revoke a n) t = revoke_contributor en a n t"
| "token_exec en (Transfer to n) t = token_transfer to n t"
| "token_exec en (Transfer_From a to n) t = token_transfer_from a to n t"
| "token_exec en (Delegate d) t = token_delegate en d t"
| "token_exec en (Transfer_Ownership a) t = token_transfer_ownership en a t"

fun token_run :: "(env \<times> token_call) list \<Rightarrow> token \<Rightarrow> token" where
  "token_run [] t = t"
| "token_run ((en, c) # txs) t = (case token_exec en c t of Inl e \<Rightarrow> token_run txs t | Inr t' \<Rightarrow> token_run txs t')"

lemmas token_defs =
  mint_contributor_def revoke_contributor_def token_transfer_def token_transfer_from_def token_delegate_def
  token_transfer_ownership_def token_only_owner_def throw_def

lemma token_exec_owner:
  "token_exec en c t = Inr t' \<Longrightarrow> sender en \<noteq> tk_owner t \<Longrightarrow>
     tk_balance t' = tk_balance t \<and> tk_supply t' = tk_supply t \<and> tk_owner t' = tk_owner t"
  by (cases c) (auto simp: token_defs split: if_splits)

lemma token_run_owner:
  "\<forall>(en, c) \<in> set txs. sender en \<noteq> tk_owner t \<Longrightarrow>
     tk_balance (token_run txs t) = tk_balance t \<and> tk_supply (token_run txs t) = tk_supply t \<and> tk_owner (token_run txs t) = tk_owner t"
proof (induction txs arbitrary: t)
  case (Cons tx txs)
  obtain en c where tx: "tx = (en, c)" by fastforce
  show ?case
  proof (cases "token_exec en c t")
    case (Inl e)
    then show ?thesis using Cons by (simp add: tx)
  next
    case (Inr t')
    have "sender en \<noteq> tk_owner t" using Cons.prems by (simp add: tx)
    with token_exec_owner [OF Inr] Cons.IH [of t'] Cons.prems show ?thesis by (simp add: tx Inr)
  qed
qed simp

text \<open>The supply is the sum of the balances of the accounts that have one.\<close>

definition holders :: "(string \<Rightarrow> nat) \<Rightarrow> string set" where
  "holders f = {a. f a \<noteq> 0}"

definition holdings :: "(string \<Rightarrow> nat) \<Rightarrow> nat" where
  "holdings f = sum f (holders f)"

definition token_inv :: "token \<Rightarrow> bool" where
  "token_inv t \<longleftrightarrow>
     finite (holders (tk_balance t)) \<and> tk_supply t = holdings (tk_balance t) \<and> tk_supply t \<le> TOKEN_CAP"

lemma holdings_superset:
  assumes "finite S" "holders f \<subseteq> S"
  shows "holdings f = sum f S"
  unfolding holdings_def using assms by (intro sum.mono_neutral_left) (auto simp: holders_def)

lemma holdings_upd:
  assumes "finite (holders f)"
  shows "finite (holders (f(a := n)))" "holdings (f(a := n)) + f a = holdings f + n"
proof -
  let ?S = "insert a (holders f)"
  have S: "finite ?S" "holders f \<subseteq> ?S" "holders (f(a := n)) \<subseteq> ?S" using assms by (auto simp: holders_def)
  show "finite (holders (f(a := n)))" using finite_subset [OF S(3,1)] .
  have "sum (f(a := n)) ?S = n + sum f (holders f - {a})" "sum f ?S = f a + sum f (holders f - {a})"
    using assms by (simp_all add: sum.insert_remove)
  then show "holdings (f(a := n)) + f a = holdings f + n"
    unfolding holdings_superset [OF S(1,2)] holdings_superset [OF S(1,3)] by simp
qed

lemma token_exec_inv:
  assumes "token_inv t" "token_exec en c t = Inr t'"
  shows "token_inv t'"
proof (cases "tk_balance t' = tk_balance t \<and> tk_supply t' = tk_supply t")
  case True
  then show ?thesis using assms(1) by (simp add: token_inv_def)
next
  case False
  have fin: "finite (holders (tk_balance t))" and sup: "tk_supply t = holdings (tk_balance t)" "tk_supply t \<le> TOKEN_CAP"
    using assms(1) by (simp_all add: token_inv_def)
  from False assms(2) consider
      (mint) a n where "t' = t\<lparr>tk_supply := tk_supply t + n, tk_balance := (tk_balance t)(a := tk_balance t a + n)\<rparr>" "tk_supply t + n \<le> TOKEN_CAP"
    | (burn) a n where "t' = t\<lparr>tk_supply := tk_supply t - n, tk_balance := (tk_balance t)(a := tk_balance t a - n)\<rparr>" "n \<le> tk_balance t a"
    by (cases c) (auto simp: token_defs not_less split: if_splits)
  then show ?thesis
  proof cases
    case mint
    note u = holdings_upd [OF fin, where a = a and n = "tk_balance t a + n"]
    from mint show ?thesis using u sup by (simp add: token_inv_def del: fun_upd_apply)
  next
    case burn
    note u = holdings_upd [OF fin, where a = a and n = "tk_balance t a - n"]
    then have "holdings ((tk_balance t)(a := tk_balance t a - n)) = tk_supply t - n" using burn(2) sup(1) by simp
    with burn(1) show ?thesis using u(1) sup(2) by (simp add: token_inv_def del: fun_upd_apply)
  qed
qed

lemma token_run_inv: "token_inv t \<Longrightarrow> token_inv (token_run txs t)"
  by (induction txs arbitrary: t) (auto split: sum.split simp: token_exec_inv)

lemma token_inv_init: "token_inv (token_init a)"
  by (simp add: token_inv_def token_init_def holdings_def holders_def)


section \<open>A chain and what is deployed on it\<close>

record timelock =
  tl_delay :: nat
  tl_roles :: "string \<Rightarrow> string \<Rightarrow> bool"

datatype contract =
    C_Voters registry
  | C_Policies policy_registry
  | C_Verifier "proof_data \<Rightarrow> bool"
  | C_Ledger ledger string string
  | C_Token token
  | C_Timelock timelock
  | C_Governor string string
  | C_Relay relay
  | C_Caster caster

record world =
  w_at :: "string \<Rightarrow> contract option"
  w_count :: nat
  w_files :: "(string \<times> string) list"

definition create :: "(nat \<Rightarrow> string) \<Rightarrow> contract \<Rightarrow> world \<Rightarrow> string \<times> world" where
  "create A c w =
     (A (w_count w), w\<lparr>w_at := (w_at w)(A (w_count w) := Some c), w_count := w_count w + 1\<rparr>)"

text \<open>\<open>StubZKVerifier\<close> accepts every proof; \<open>initialize\<close> of the three upgradeable contracts.\<close>

definition stub_verifier :: "proof_data \<Rightarrow> bool" where
  "stub_verifier pf = True"

definition initialize :: "string \<Rightarrow> string list \<Rightarrow> contract result" where
  "initialize name args =
     (case args of
        [] \<Rightarrow> throw ''ARGUMENTS''
      | a # rest \<Rightarrow>
          if a = zero_bytes 20 then throw ''OwnableInvalidOwner''
          else if name = ''VoterRegistry'' then Inr (C_Voters (voters_init a))
          else if name = ''PolicyRegistry'' then Inr (C_Policies (policy_registry_init a))
          else (case rest of [vr, zk] \<Rightarrow> Inr (C_Ledger (ledger_init a) vr zk) | _ \<Rightarrow> throw ''ARGUMENTS''))"

definition deploy_proxy :: "(nat \<Rightarrow> string) \<Rightarrow> string \<Rightarrow> string list \<Rightarrow> world \<Rightarrow> (string \<times> world) result" where
  "deploy_proxy A name args w = bind_result (initialize name args) (\<lambda>c. Inr (create A c w))"

text \<open>A call of the contract at \<open>a\<close>, where the ledger asks the verifier it was given; a sequence of them.\<close>

definition verifier_at :: "world \<Rightarrow> string \<Rightarrow> (proof_data \<Rightarrow> bool) option" where
  "verifier_at w a = (case w_at w a of Some (C_Verifier v) \<Rightarrow> Some v | _ \<Rightarrow> None)"

definition ledger_of :: "world \<Rightarrow> string \<Rightarrow> ledger option" where
  "ledger_of w a = (case w_at w a of Some (C_Ledger l vr zk) \<Rightarrow> Some l | _ \<Rightarrow> None)"

definition ledger_tx ::
  "(string \<Rightarrow> string) \<Rightarrow> (ledger \<Rightarrow> ledger) \<Rightarrow> string \<Rightarrow> message_call \<Rightarrow> world \<Rightarrow> world result" where
  "ledger_tx k upgrade a = (\<lambda>(en, sig, args) w.
     case w_at w a of
       Some (C_Ledger l vr zk) \<Rightarrow>
         bind_result
           (case verifier_at w zk of
              Some v \<Rightarrow> ledger_dispatch k v upgrade en sig args l
            | None \<Rightarrow>
                (case ledger_dispatch k (\<lambda>_. False) upgrade en sig args l of
                   Inl e \<Rightarrow> throw (if e = ''InvalidZKProof'' then [] else e) | Inr l' \<Rightarrow> Inr l'))
           (\<lambda>l'. Inr (w\<lparr>w_at := (w_at w)(a := Some (C_Ledger l' vr zk))\<rparr>))
     | _ \<Rightarrow> throw [])"

fun ledger_txs :: "(string \<Rightarrow> string) \<Rightarrow> (ledger \<Rightarrow> ledger) \<Rightarrow> string \<Rightarrow> message_call list \<Rightarrow> world \<Rightarrow> world" where
  "ledger_txs k upgrade a [] w = w"
| "ledger_txs k upgrade a (tx # txs) w =
     (case ledger_tx k upgrade a tx w of Inl e \<Rightarrow> ledger_txs k upgrade a txs w | Inr w' \<Rightarrow> ledger_txs k upgrade a txs w')"

section \<open>deploy.ts and deploy-l2.ts\<close>

definition deploy :: "(nat \<Rightarrow> string) \<Rightarrow> string \<Rightarrow> world \<Rightarrow> (string list \<times> world) result" where
  "deploy A deployer w =
     bind_result (deploy_proxy A ''VoterRegistry'' [deployer] w) (\<lambda>(vr, w1).
     bind_result (deploy_proxy A ''PolicyRegistry'' [deployer] w1) (\<lambda>(pr, w2).
       case create A (C_Verifier stub_verifier) w2 of (zk, w3) \<Rightarrow>
     bind_result (deploy_proxy A ''VoteLedger'' [deployer, vr, zk] w3) (\<lambda>(vl, w4).
       Inr ([''VOTER_REGISTRY_ADDRESS='' @ vr, ''POLICY_REGISTRY_ADDRESS='' @ pr, ''ZK_VERIFIER_ADDRESS='' @ zk,
             ''VOTE_LEDGER_ADDRESS='' @ vl], w4))))"

definition CHAIN_NAMES :: "(nat \<times> string) list" where
  "CHAIN_NAMES =
     [(10, ''Optimism Mainnet''), (420, ''Optimism Goerli (deprecated)''), (11155420, ''Optimism Sepolia''),
      (42161, ''Arbitrum One''), (421614, ''Arbitrum Sepolia'')]"

definition chain_name :: "nat \<Rightarrow> string" where
  "chain_name i = (case map_of CHAIN_NAMES i of Some n \<Rightarrow> n | None \<Rightarrow> ''Chain '' @ nat_str i)"

definition write_file :: "string \<Rightarrow> json \<Rightarrow> world \<Rightarrow> world" where
  "write_file path j w = w\<lparr>w_files := (path, stringify2 j) # filter (\<lambda>f. fst f \<noteq> path) (w_files w)\<rparr>"

definition l2_manifest :: "string \<Rightarrow> nat \<Rightarrow> string \<Rightarrow> string \<Rightarrow> string \<Rightarrow> string \<Rightarrow> string \<Rightarrow> string \<Rightarrow> json" where
  "l2_manifest network chain deployed_at deployer zk vr pr vl =
     JObj [(''network'', JStr network), (''chainId'', JStr (nat_str chain)), (''chainName'', JStr (chain_name chain)),
           (''deployedAt'', JStr deployed_at), (''deployer'', JStr deployer),
           (''contracts'', JObj [(''StubZKVerifier'', JStr zk), (''VoterRegistry'', JStr vr), (''PolicyRegistry'', JStr pr),
                                 (''VoteLedger'', JStr vl)])]"

definition deploy_l2 ::
  "(nat \<Rightarrow> string) \<Rightarrow> string \<Rightarrow> nat \<Rightarrow> string \<Rightarrow> string \<Rightarrow> world \<Rightarrow> world result" where
  "deploy_l2 A network chain deployed_at deployer w =
     (case create A (C_Verifier stub_verifier) w of (zk, w1) \<Rightarrow>
     bind_result (deploy_proxy A ''VoterRegistry'' [deployer] w1) (\<lambda>(vr, w2).
     bind_result (deploy_proxy A ''PolicyRegistry'' [deployer] w2) (\<lambda>(pr, w3).
     bind_result (deploy_proxy A ''VoteLedger'' [zk, vr, pr] w3) (\<lambda>(vl, w4).
       Inr (write_file (''../deployments/'' @ network @ ''.json'')
              (l2_manifest network chain deployed_at deployer zk vr pr vl) w4)))))"

text \<open>The addresses a script creates on a chain with \<open>n\<close> contracts: the first is \<open>A n\<close>.\<close>

definition fresh_addresses :: "(nat \<Rightarrow> string) \<Rightarrow> bool" where
  "fresh_addresses A \<longleftrightarrow> inj A \<and> (\<forall>n. A n \<noteq> zero_bytes 20)"

lemma fresh_neq: "fresh_addresses A \<Longrightarrow> m \<noteq> n \<Longrightarrow> A m \<noteq> A n"
  by (auto simp: fresh_addresses_def dest: injD)

lemma fresh_zero: "fresh_addresses A \<Longrightarrow> A n \<noteq> zero_bytes 20"
  by (simp add: fresh_addresses_def)

lemma deploy_result:
  assumes "d \<noteq> zero_bytes 20"
  shows "deploy A d w =
    Inr ([''VOTER_REGISTRY_ADDRESS='' @ A (w_count w), ''POLICY_REGISTRY_ADDRESS='' @ A (w_count w + 1),
          ''ZK_VERIFIER_ADDRESS='' @ A (w_count w + 2), ''VOTE_LEDGER_ADDRESS='' @ A (w_count w + 3)],
         w\<lparr>w_at := (w_at w)(A (w_count w) := Some (C_Voters (voters_init d)), A (w_count w + 1) := Some (C_Policies (policy_registry_init d)),
             A (w_count w + 2) := Some (C_Verifier stub_verifier),
             A (w_count w + 3) := Some (C_Ledger (ledger_init d) (A (w_count w)) (A (w_count w + 2)))), w_count := w_count w + 4\<rparr>)"
  using assms by (simp add: deploy_def deploy_proxy_def initialize_def create_def add.assoc numeral_eq_Suc)

lemma deploy_l2_result:
  assumes "fresh_addresses A" "d \<noteq> zero_bytes 20"
  shows "\<exists>w'. deploy_l2 A network chain t d w = Inr w' \<and>
    w_at w' = (w_at w)(A (w_count w) := Some (C_Verifier stub_verifier), A (w_count w + 1) := Some (C_Voters (voters_init d)),
      A (w_count w + 2) := Some (C_Policies (policy_registry_init d)),
      A (w_count w + 3) := Some (C_Ledger (ledger_init (A (w_count w))) (A (w_count w + 1)) (A (w_count w + 2))))"
  using assms(2) fresh_zero [OF assms(1)] by (simp add: deploy_l2_def deploy_proxy_def initialize_def create_def write_file_def numeral_eq_Suc)

section \<open>deploy-dao.ts\<close>

text \<open>OpenZeppelin's \<open>TimelockController\<close>: it administers itself, and the \<open>admin\<close> it is given administers it too.\<close>

definition timelock_init :: "string \<Rightarrow> nat \<Rightarrow> string list \<Rightarrow> string list \<Rightarrow> string \<Rightarrow> timelock" where
  "timelock_init self delay proposers executors admin =
     \<lparr>tl_delay = delay,
      tl_roles = (\<lambda>r a.
        r = ''DEFAULT_ADMIN_ROLE'' \<and> (a = self \<or> a = admin \<and> admin \<noteq> zero_bytes 20) \<or>
        (r = ''PROPOSER_ROLE'' \<or> r = ''CANCELLER_ROLE'') \<and> a \<in> set proposers \<or>
        r = ''EXECUTOR_ROLE'' \<and> a \<in> set executors)\<rparr>"

definition tl_grant :: "string \<Rightarrow> string \<Rightarrow> string \<Rightarrow> timelock \<Rightarrow> timelock result" where
  "tl_grant caller r a t =
     (if tl_roles t ''DEFAULT_ADMIN_ROLE'' caller
      then Inr (t\<lparr>tl_roles := (\<lambda>r' a'. if r' = r \<and> a' = a then True else tl_roles t r' a')\<rparr>)
      else throw ''AccessControlUnauthorizedAccount'')"

definition tl_renounce :: "string \<Rightarrow> string \<Rightarrow> string \<Rightarrow> timelock \<Rightarrow> timelock result" where
  "tl_renounce caller r a t =
     (if a = caller then Inr (t\<lparr>tl_roles := (\<lambda>r' a'. if r' = r \<and> a' = a then False else tl_roles t r' a')\<rparr>)
      else throw ''AccessControlBadConfirmation'')"

definition on_timelock :: "string \<Rightarrow> (timelock \<Rightarrow> timelock result) \<Rightarrow> world \<Rightarrow> world result" where
  "on_timelock a f w =
     (case w_at w a of
        Some (C_Timelock t) \<Rightarrow> bind_result (f t) (\<lambda>t'. Inr (w\<lparr>w_at := (w_at w)(a := Some (C_Timelock t'))\<rparr>))
      | _ \<Rightarrow> throw [])"

definition on_token :: "string \<Rightarrow> (token \<Rightarrow> token result) \<Rightarrow> world \<Rightarrow> world result" where
  "on_token a f w =
     (case w_at w a of
        Some (C_Token t) \<Rightarrow> bind_result (f t) (\<lambda>t'. Inr (w\<lparr>w_at := (w_at w)(a := Some (C_Token t'))\<rparr>))
      | _ \<Rightarrow> throw [])"

text \<open>\<open>ethers.parseEther("1")\<close>.\<close>

definition ONE_VGT :: nat where "ONE_VGT = 10 ^ 18"

definition deploy_dao :: "(nat \<Rightarrow> string) \<Rightarrow> string \<Rightarrow> nat \<Rightarrow> world \<Rightarrow> (string list \<times> world) result" where
  "deploy_dao A deployer t w =
     (let en = \<lparr>sender = deployer, now = t\<rparr>
      in case create A (C_Token (token_init deployer)) w of (tok, w1) \<Rightarrow>
     bind_result (on_token tok (mint_contributor en deployer ONE_VGT) w1) (\<lambda>w2.
     bind_result (on_token tok (token_delegate en deployer) w2) (\<lambda>w3.
       case create A (C_Timelock (timelock_init (A (w_count w3)) (2 * 24 * 3600) [] [] deployer)) w3 of (tlk, w4) \<Rightarrow>
       case create A (C_Governor tok tlk) w4 of (gov, w5) \<Rightarrow>
     bind_result (on_timelock tlk (tl_grant deployer ''PROPOSER_ROLE'' gov) w5) (\<lambda>w6.
     bind_result (on_timelock tlk (tl_grant deployer ''EXECUTOR_ROLE'' gov) w6) (\<lambda>w7.
     bind_result (on_timelock tlk (tl_grant deployer ''CANCELLER_ROLE'' gov) w7) (\<lambda>w8.
     bind_result (on_timelock tlk (tl_renounce deployer ''DEFAULT_ADMIN_ROLE'' deployer) w8) (\<lambda>w9.
       Inr ([''VOTE_TOKEN_ADDRESS='' @ tok, ''TIMELOCK_ADDRESS='' @ tlk, ''GOVERNOR_ADDRESS='' @ gov], w9))))))))"

text \<open>The four calls on the timelock, made by its only outside administrator.\<close>

definition dao_roles :: "string \<Rightarrow> string \<Rightarrow> string \<Rightarrow> string \<Rightarrow> bool" where
  "dao_roles self gov = (\<lambda>r a. r = ''DEFAULT_ADMIN_ROLE'' \<and> a = self \<or>
     (r = ''PROPOSER_ROLE'' \<or> r = ''EXECUTOR_ROLE'' \<or> r = ''CANCELLER_ROLE'') \<and> a = gov)"

lemma dao_timelock:
  assumes "d \<noteq> zero_bytes 20" "self \<noteq> d"
  shows "\<exists>a b c t. tl_grant d ''PROPOSER_ROLE'' gov (timelock_init self delay [] [] d) = Inr a \<and>
    tl_grant d ''EXECUTOR_ROLE'' gov a = Inr b \<and> tl_grant d ''CANCELLER_ROLE'' gov b = Inr c \<and>
    tl_renounce d ''DEFAULT_ADMIN_ROLE'' d c = Inr t \<and> tl_delay t = delay \<and> tl_roles t = dao_roles self gov"
  using assms by (auto simp: tl_grant_def tl_renounce_def timelock_init_def dao_roles_def fun_eq_iff)

lemma on_timelock_step:
  assumes "g x = Inr y" "a \<noteq> b"
  shows "on_timelock a g (w\<lparr>w_at := f(a := Some (C_Timelock x), b := z), w_count := m\<rparr>) =
    Inr (w\<lparr>w_at := f(a := Some (C_Timelock y), b := z), w_count := m\<rparr>)"
  using assms by (auto simp: on_timelock_def fun_eq_iff)

lemma deploy_dao_result:
  assumes "fresh_addresses A" "d \<noteq> zero_bytes 20" "A (w_count w + 1) \<noteq> d"
  shows "\<exists>out w' tk tm. deploy_dao A d t w = Inr (out, w') \<and>
    w_at w' = (w_at w)(A (w_count w) := Some (C_Token tk), A (w_count w + 1) := Some (C_Timelock tm),
      A (w_count w + 2) := Some (C_Governor (A (w_count w)) (A (w_count w + 1)))) \<and>
    tk_owner tk = d \<and> tk_supply tk = ONE_VGT \<and> tk_balance tk d = ONE_VGT \<and> tk_delegate tk d = d \<and> tl_delay tm = 2 * 24 * 3600 \<and>
    tl_roles tm = dao_roles (A (w_count w + 1)) (A (w_count w + 2))"
proof -
  let ?n = "w_count w" and ?en = "\<lparr>sender = d, now = t\<rparr>"
  let ?self = "A (?n + 1)" and ?gov = "A (?n + 2)"
  have ne: "A ?n \<noteq> ?self" "A ?n \<noteq> ?gov" "?self \<noteq> ?gov" using fresh_neq [OF assms(1)] by simp_all
  let ?t1 = "\<lparr>tk_owner = d, tk_supply = ONE_VGT, tk_balance = (\<lambda>_. 0)(d := ONE_VGT), tk_delegate = (\<lambda>_. zero_bytes 20)\<rparr>"
  let ?tk = "?t1\<lparr>tk_delegate := (\<lambda>_. zero_bytes 20)(d := d)\<rparr>"
  have "ONE_VGT \<le> TOKEN_CAP" by (simp add: ONE_VGT_def TOKEN_CAP_def)
  then have mint: "mint_contributor ?en d ONE_VGT (token_init d) = Inr ?t1"
    using assms(2) by (simp add: mint_contributor_def token_only_owner_def token_init_def not_less)
  have delegate: "token_delegate ?en d ?t1 = Inr ?tk" by (simp add: token_delegate_def)
  obtain a b c tm where roles: "tl_grant d ''PROPOSER_ROLE'' ?gov (timelock_init ?self (2 * 24 * 3600) [] [] d) = Inr a"
      "tl_grant d ''EXECUTOR_ROLE'' ?gov a = Inr b" "tl_grant d ''CANCELLER_ROLE'' ?gov b = Inr c"
      "tl_renounce d ''DEFAULT_ADMIN_ROLE'' d c = Inr tm" "tl_delay tm = 2 * 24 * 3600" "tl_roles tm = dao_roles ?self ?gov"
    using dao_timelock [OF assms(2,3), where gov = ?gov and delay = "2 * 24 * 3600"] by (elim exE conjE)
  let ?w = "\<lambda>f m. w\<lparr>w_at := f, w_count := m\<rparr>"
  let ?f3 = "(w_at w)(A ?n := Some (C_Token ?tk))"
  let ?f = "\<lambda>x. (w_at w)(A ?n := Some (C_Token ?tk), ?self := Some (C_Timelock x), ?gov := Some (C_Governor (A ?n) ?self))"
  have s1: "on_token (A ?n) (mint_contributor ?en d ONE_VGT) (?w ((w_at w)(A ?n := Some (C_Token (token_init d)))) (?n + 1)) =
      Inr (?w ((w_at w)(A ?n := Some (C_Token ?t1))) (?n + 1))"
    by (simp add: on_token_def mint)
  have s2: "on_token (A ?n) (token_delegate ?en d) (?w ((w_at w)(A ?n := Some (C_Token ?t1))) (?n + 1)) = Inr (?w ?f3 (?n + 1))"
    by (simp add: on_token_def delegate)
  note tls = on_timelock_step [where g = "tl_grant d ''PROPOSER_ROLE'' ?gov", OF roles(1) ne(3)]
    on_timelock_step [where g = "tl_grant d ''EXECUTOR_ROLE'' ?gov", OF roles(2) ne(3)]
    on_timelock_step [where g = "tl_grant d ''CANCELLER_ROLE'' ?gov", OF roles(3) ne(3)]
    on_timelock_step [where g = "tl_renounce d ''DEFAULT_ADMIN_ROLE'' d", OF roles(4) ne(3)]
  have c1: "create A (C_Token (token_init d)) w = (A ?n, ?w ((w_at w)(A ?n := Some (C_Token (token_init d)))) (?n + 1))"
    by (simp add: create_def)
  have c2: "create A (C_Timelock (timelock_init (A (w_count (?w ?f3 (?n + 1)))) (2 * 24 * 3600) [] [] d)) (?w ?f3 (?n + 1)) =
      (?self, ?w (?f3(?self := Some (C_Timelock (timelock_init ?self (2 * 24 * 3600) [] [] d)))) (?n + 2))"
    by (simp add: create_def)
  have c3: "create A (C_Governor (A ?n) ?self) (?w (?f3(?self := Some (C_Timelock x))) (?n + 2)) = (?gov, ?w (?f x) (?n + 3))" for x
    by (simp add: create_def)
  have "\<exists>out. deploy_dao A d t w = Inr (out, ?w (?f tm) (?n + 3))"
    unfolding deploy_dao_def Let_def c1 prod.case s1 bind_result_simps s2 c2 c3 tls
    by blast
  then obtain out where "deploy_dao A d t w = Inr (out, ?w (?f tm) (?n + 3))" ..
  then show ?thesis
    using roles(5,6) by (intro exI [of _ out] exI [of _ "?w (?f tm) (?n + 3)"] exI [of _ ?tk] exI [of _ tm]) simp
qed

section \<open>deploy-crosschain.ts\<close>

definition LZ_ENDPOINTS :: "(string \<times> string) list" where
  "LZ_ENDPOINTS =
     [(''sepolia'', ''0x6EDCE65403992e310A62460808c4b910D972f10f''),
      (''optimismSepolia'', ''0x6EDCE65403992e310A62460808c4b910D972f10f''),
      (''arbitrumSepolia'', ''0x6EDCE65403992e310A62460808c4b910D972f10f''),
      (''mainnet'', ''0x1a44076050125825900e736c501f859c50fE728c''),
      (''optimism'', ''0x1a44076050125825900e736c501f859c50fE728c''),
      (''arbitrum'', ''0x1a44076050125825900e736c501f859c50fE728c'')]"

definition l1_eid :: "string \<Rightarrow> nat" where
  "l1_eid key = (if key = ''sepolia'' then 40161 else 30101)"

definition on_relay :: "string \<Rightarrow> (relay \<Rightarrow> relay result) \<Rightarrow> world \<Rightarrow> world result" where
  "on_relay a f w =
     (case w_at w a of
        Some (C_Relay r) \<Rightarrow> bind_result (f r) (\<lambda>r'. Inr (w\<lparr>w_at := (w_at w)(a := Some (C_Relay r'))\<rparr>))
      | _ \<Rightarrow> throw [])"

definition on_caster :: "string \<Rightarrow> (caster \<Rightarrow> caster result) \<Rightarrow> world \<Rightarrow> world result" where
  "on_caster a f w =
     (case w_at w a of
        Some (C_Caster c) \<Rightarrow> bind_result (f c) (\<lambda>c'. Inr (w\<lparr>w_at := (w_at w)(a := Some (C_Caster c'))\<rparr>))
      | _ \<Rightarrow> throw [])"

text \<open>\<open>vl\<close> is \<open>process.env.VOTE_LEDGER_ADDRESS\<close>; an inherited name of the object literal passes the endpoint test only.\<close>

definition deploy_crosschain ::
  "(nat \<Rightarrow> string) \<Rightarrow> string \<Rightarrow> string option \<Rightarrow> string \<Rightarrow> nat \<Rightarrow> world \<Rightarrow> world result" where
  "deploy_crosschain A network vl deployer t w =
     (let en = \<lparr>sender = deployer, now = t\<rparr>
      in if obj_get LZ_ENDPOINTS network = Undefined then throw (''No LZ endpoint configured for '' @ network)
         else if network = ''sepolia'' \<or> network = ''mainnet'' then
           (case create A (C_Relay (relay_init deployer)) w of (relay, w1) \<Rightarrow>
              bind_result
                (case vl of
                   Some a \<Rightarrow> if a = [] then Inr w1 else on_relay relay (set_vote_ledger en a) w1
                 | None \<Rightarrow> Inr w1)
                (\<lambda>w2. Inr (write_file ''../deployments/crosschain-l1.json''
                             (JObj [(''network'', JStr network), (''CrossChainVoteRelay'', JStr relay)]) w2)))
         else if network = ''optimismSepolia'' \<or> network = ''optimism'' \<or> network = ''arbitrumSepolia'' \<or> network = ''arbitrum'' then
           (let l1 = l1_eid (if str_includes network ''Sepolia'' then ''sepolia'' else ''mainnet'')
            in case create A (C_Caster (caster_init deployer l1)) w of (caster, w1) \<Rightarrow>
               case create A (C_Verifier stub_verifier) w1 of (stub, w2) \<Rightarrow>
                 bind_result (on_caster caster (set_zk_verifier en stub) w2)
                   (\<lambda>w3. Inr (write_file (''../deployments/crosschain-'' @ network @ ''.json'')
                                (JObj [(''network'', JStr network), (''L2VoteCaster'', JStr caster), (''l1Eid'', JStr (nat_str l1))]) w3)))
         else throw (''Unsupported network: '' @ network))"

definition L2_NETWORKS :: "string list" where
  "L2_NETWORKS = [''optimismSepolia'', ''optimism'', ''arbitrumSepolia'', ''arbitrum'']"

lemma deploy_caster:
  assumes "fresh_addresses A" "network \<in> set L2_NETWORKS"
  shows "\<exists>w'. deploy_crosschain A network vl d t w = Inr w' \<and>
    w_at w' = (w_at w)(A (w_count w) :=
        Some (C_Caster ((caster_init d (if network = ''optimismSepolia'' \<or> network = ''arbitrumSepolia'' then 40161 else 30101))
          \<lparr>ca_verifier := A (w_count w + 1)\<rparr>)),
      A (w_count w + 1) := Some (C_Verifier stub_verifier))"
proof -
  have ne: "A (w_count w) \<noteq> A (Suc (w_count w))" using fresh_neq [OF assms(1), of "w_count w" "Suc (w_count w)"] by simp
  have set: "set_zk_verifier \<lparr>sender = d, now = t\<rparr> a (caster_init d l) = Inr ((caster_init d l)\<lparr>ca_verifier := a\<rparr>)" for a l
    by (simp add: set_zk_verifier_def caster_init_def)
  from assms(2) ne show ?thesis
    by (auto simp: L2_NETWORKS_def deploy_crosschain_def Let_def obj_get_def LZ_ENDPOINTS_def create_def on_caster_def set
        l1_eid_def write_file_def starts_with_def fun_upd_twist)
qed

section \<open>migrate-to-plonk.ts\<close>

record proposal =
  p_targets :: "string list"
  p_values :: "nat list"
  p_calldatas :: "(string \<times> abi_value list) list"
  p_description :: string

text \<open>
  The governor is a parameter: \<open>propose\<close> on the contract at an address, with the logs of its transaction, each the identifier of
  a \<open>ProposalCreated\<close> event or another event; \<open>plonk\<close> is the new verifier. \<open>parseLog\<close> does not throw on a log it does not know,
  so the first log is taken.
\<close>

definition plonk_proposal :: "string \<Rightarrow> string \<Rightarrow> proposal" where
  "plonk_proposal ledger_address plonk =
     \<lparr>p_targets = [ledger_address], p_values = [0], p_calldatas = [(''setZKVerifier(address)'', [A_Bytes plonk])],
      p_description = ''Upgrade ZK verifier from Groth16 to Plonk '' @ [CHR 0xE2, CHR 0x80, CHR 0x94] @ '' PlonkVerifier at '' @ plonk\<rparr>"

definition migrate_to_plonk ::
  "(nat \<Rightarrow> string) \<Rightarrow> (string \<Rightarrow> proposal \<Rightarrow> world \<Rightarrow> (nat option list \<times> world) result) \<Rightarrow> (proof_data \<Rightarrow> bool) \<Rightarrow>
    string option \<Rightarrow> string option \<Rightarrow> world \<Rightarrow> (nat option \<times> world) result" where
  "migrate_to_plonk A propose plonk vl governor w =
     (case create A (C_Verifier plonk) w of (pv, w1) \<Rightarrow>
       (case (vl, governor) of
          (Some l, Some g) \<Rightarrow>
            bind_result (propose g (plonk_proposal l pv) w1) (\<lambda>(logs, w2).
              Inr (case logs of [] \<Rightarrow> None | x # xs \<Rightarrow> x, w2))
        | _ \<Rightarrow> throw ''invalid address''))"

text \<open>What the timelock does when a passed proposal is executed: its calls in order, all of them or none.\<close>

fun run_calls ::
  "(string \<Rightarrow> string) \<Rightarrow> (ledger \<Rightarrow> ledger) \<Rightarrow> env \<Rightarrow> (string \<times> string \<times> abi_value list) list \<Rightarrow> world \<Rightarrow> world result" where
  "run_calls k upgrade en [] w = Inr w"
| "run_calls k upgrade en ((a, sig, args) # cs) w =
     bind_result (ledger_tx k upgrade a (en, sig, args) w) (\<lambda>w'. run_calls k upgrade en cs w')"

definition execute_proposal :: "(string \<Rightarrow> string) \<Rightarrow> (ledger \<Rightarrow> ledger) \<Rightarrow> env \<Rightarrow> proposal \<Rightarrow> world \<Rightarrow> world result" where
  "execute_proposal k upgrade en p w = run_calls k upgrade en (zip (p_targets p) (p_calldatas p)) w"

section \<open>What the ledger of a script can do\<close>

text \<open>A ledger with no poll, not paused, owned by an account that sends nothing, stays as it is.\<close>

lemma dispatch_dead:
  assumes "sender en \<noteq> owner l" "\<forall>i. deadline (polls l i) = 0"
  shows "ledger_dispatch k v upgrade en sig args l = Inr l' \<Longrightarrow> l' = l"
  using dispatch_outsider [OF assms(1)] assms(2) by (auto simp: cast_vote_Inr)

lemma ledger_tx_dead:
  assumes "w_at w a = Some (C_Ledger l vr zk)" "sender en \<noteq> owner l" "\<forall>i. deadline (polls l i) = 0"
    and "ledger_tx k upgrade a (en, sig, args) w = Inr w'"
  shows "w' = w"
proof -
  obtain l' u where "w' = w\<lparr>w_at := (w_at w)(a := Some (C_Ledger l' vr zk))\<rparr>" "ledger_dispatch k u upgrade en sig args l = Inr l'"
    using assms(1,4) by (auto simp: ledger_tx_def bind_result_def throw_def split: option.splits sum.splits)
  moreover from this(2) have "l' = l" by (rule dispatch_dead [OF assms(2,3)])
  ultimately show ?thesis using assms(1) by (simp add: fun_upd_idem)
qed

lemma ledger_txs_dead:
  assumes "w_at w a = Some (C_Ledger l vr zk)" "\<forall>i. deadline (polls l i) = 0"
  shows "\<forall>(en, sig, args) \<in> set txs. sender en \<noteq> owner l \<Longrightarrow> ledger_txs k upgrade a txs w = w"
proof (induction txs)
  case (Cons tx txs)
  obtain en sig args where tx: "tx = (en, sig, args)" by (cases tx)
  have "sender en \<noteq> owner l" using Cons.prems by (simp add: tx)
  then have "ledger_tx k upgrade a tx w = Inr w' \<Longrightarrow> w' = w" for w'
    using ledger_tx_dead [OF assms(1) _ assms(2)] tx by blast
  with Cons show ?case by (auto split: sum.split)
qed simp

lemma castVote_listed: "''castVote(bytes32,bytes32,bytes32,(uint256[2],uint256[2][2],uint256[2],uint256[]))'' \<in> set LEDGER_FUNCTIONS"
  and createPoll_listed: "''createPoll(string,bytes2,uint64)'' \<in> set LEDGER_FUNCTIONS"
  by (simp_all add: LEDGER_FUNCTIONS_def)

lemma dispatch_create:
  "ledger_dispatch k v upgrade en ''createPoll(string,bytes2,uint64)'' [A_Str p, A_Bytes cc, A_Uint dl] l = create_poll k en p cc dl l"
  by (simp add: ledger_dispatch_def LEDGER_FUNCTIONS_def)

lemma dispatch_cast:
  "ledger_dispatch k v upgrade en ''castVote(bytes32,bytes32,bytes32,(uint256[2],uint256[2][2],uint256[2],uint256[]))''
     [A_Bytes i, A_Bytes x, A_Bytes n, A_Proof pf] l = cast_vote v en i x n pf l"
  by (simp add: ledger_dispatch_def LEDGER_FUNCTIONS_def)

text \<open>A fresh ledger whose owner creates a poll that a voter then votes in.\<close>

lemma fresh_ledger_vote:
  assumes "t1 < dl" "t2 \<le> dl"
  shows "\<exists>l1 l2. create_poll k \<lparr>sender = d, now = t1\<rparr> p cc dl (ledger_init d) = Inr l1 \<and>
    cast_vote stub_verifier \<lparr>sender = v, now = t2\<rparr> (k (p @ cc)) opt n pf l1 = Inr l2 \<and> get_tally_of l2 (k (p @ cc)) opt = 1"
  using assms
  by (auto simp: owner_calls_defs cast_vote_def packed_poll_id_def ledger_init_def no_poll_def stub_verifier_def get_tally_of_def uint256_max_def)

lemma ledger_tx_at:
  assumes "w_at w a = Some (C_Ledger l vr zk)" "w_at w zk = Some (C_Verifier v)" "ledger_dispatch k v upgrade en sig args l = Inr l'"
  shows "ledger_tx k upgrade a (en, sig, args) w = Inr (w\<lparr>w_at := (w_at w)(a := Some (C_Ledger l' vr zk))\<rparr>)"
  using assms by (simp add: ledger_tx_def verifier_at_def)

section \<open>Properties\<close>

text \<open>
  The governance token is bound to its holder: whatever transactions its life has had, its supply is the sum of its balances
  and within the bound, and transactions that are not the owner's move no balance.
\<close>

theorem token_soulbound:
  assumes "t = token_run txs (token_init a)" "\<forall>(en, c) \<in> set others. sender en \<noteq> tk_owner t"
  shows "tk_supply t = holdings (tk_balance t) \<and> tk_supply t \<le> TOKEN_CAP \<and>
    tk_balance (token_run others t) = tk_balance t \<and> tk_supply (token_run others t) = tk_supply t"
  using token_run_inv [OF token_inv_init, of txs a] token_run_owner [OF assms(2)] assms(1) by (simp add: token_inv_def)

theorem token_soulbound_witness:
  "tk_balance (token_run [(\<lparr>sender = ''x'', now = 2\<rparr>, Transfer ''y'' 1), (\<lparr>sender = ''x'', now = 2\<rparr>, Mint ''x'' 1)]
     (token_run [(\<lparr>sender = ''o'', now = 1\<rparr>, Mint ''x'' 5)] (token_init ''o''))) ''x'' = 5"
proof -
  let ?t = "token_run [(\<lparr>sender = ''o'', now = 1\<rparr>, Mint ''x'' 5)] (token_init ''o'')"
  have t: "?t = (token_init ''o'')\<lparr>tk_supply := 5, tk_balance := (\<lambda>_. 0)(''x'' := 5)\<rparr>"
    by (simp add: token_defs token_init_def zero_bytes_differ TOKEN_CAP_def)
  then have "tk_owner ?t = ''o''" by (simp add: token_init_def)
  then have "\<forall>(en, c) \<in> set [(\<lparr>sender = ''x'', now = 2\<rparr>, Transfer ''y'' 1), (\<lparr>sender = ''x'', now = 2\<rparr>, Mint ''x'' 1)].
      sender en \<noteq> tk_owner ?t" by simp
  from token_soulbound [OF refl this] t show ?thesis by (simp only: t) simp
qed

text \<open>
  C24: the first deployment works: on any chain the script ends, prints the ledger's address, and at that address the deployer can
  create a poll and any voter can vote in it, with any proof, since the verifier is the stub.
\<close>

theorem deploy_works:
  assumes "fresh_addresses A" "d \<noteq> zero_bytes 20" "t1 < dl" "t2 \<le> dl"
  shows "\<exists>out w' vl l. deploy A d w = Inr (out, w') \<and> ''VOTE_LEDGER_ADDRESS='' @ vl \<in> set out \<and>
    ledger_of (ledger_txs k upgrade vl
        [(\<lparr>sender = d, now = t1\<rparr>, ''createPoll(string,bytes2,uint64)'', [A_Str p, A_Bytes cc, A_Uint dl]),
         (\<lparr>sender = v, now = t2\<rparr>, ''castVote(bytes32,bytes32,bytes32,(uint256[2],uint256[2][2],uint256[2],uint256[]))'',
            [A_Bytes (k (p @ cc)), A_Bytes opt, A_Bytes n, A_Proof pf])] w') vl = Some l \<and>
    get_tally_of l (k (p @ cc)) opt = 1"
proof -
  let ?n = "w_count w"
  have ne: "A (?n + 2) \<noteq> A (?n + 3)" using fresh_neq [OF assms(1)] by simp
  obtain out w' where dep: "deploy A d w = Inr (out, w')" "''VOTE_LEDGER_ADDRESS='' @ A (?n + 3) \<in> set out"
      and at: "w_at w' (A (?n + 3)) = Some (C_Ledger (ledger_init d) (A ?n) (A (?n + 2)))"
        "w_at w' (A (?n + 2)) = Some (C_Verifier stub_verifier)"
    using deploy_result [OF assms(2), where A = A and w = w] ne by auto
  obtain l1 l2 where l: "create_poll k \<lparr>sender = d, now = t1\<rparr> p cc dl (ledger_init d) = Inr l1"
      "cast_vote stub_verifier \<lparr>sender = v, now = t2\<rparr> (k (p @ cc)) opt n pf l1 = Inr l2" "get_tally_of l2 (k (p @ cc)) opt = 1"
    using fresh_ledger_vote [OF assms(3,4)] by blast
  let ?w1 = "w'\<lparr>w_at := (w_at w')(A (?n + 3) := Some (C_Ledger l1 (A ?n) (A (?n + 2))))\<rparr>"
  have tx1: "ledger_tx k upgrade (A (?n + 3)) (\<lparr>sender = d, now = t1\<rparr>, ''createPoll(string,bytes2,uint64)'', [A_Str p, A_Bytes cc, A_Uint dl]) w' = Inr ?w1"
    using l(1) by (intro ledger_tx_at [OF at]) (simp only: dispatch_create)
  have at1: "w_at ?w1 (A (?n + 3)) = Some (C_Ledger l1 (A ?n) (A (?n + 2)))" "w_at ?w1 (A (?n + 2)) = Some (C_Verifier stub_verifier)"
    using at(2) ne by simp_all
  have tx2: "ledger_tx k upgrade (A (?n + 3)) (\<lparr>sender = v, now = t2\<rparr>, ''castVote(bytes32,bytes32,bytes32,(uint256[2],uint256[2][2],uint256[2],uint256[]))'',
      [A_Bytes (k (p @ cc)), A_Bytes opt, A_Bytes n, A_Proof pf]) ?w1 =
    Inr (?w1\<lparr>w_at := (w_at ?w1)(A (?n + 3) := Some (C_Ledger l2 (A ?n) (A (?n + 2))))\<rparr>)"
    using l(2) by (intro ledger_tx_at [OF at1]) (simp only: dispatch_cast)
  show ?thesis
    by (intro exI [of _ out] exI [of _ w'] exI [of _ "A (?n + 3)"] exI [of _ l2] conjI dep l(3))
      (simp only: ledger_txs.simps tx1 sum.case tx2, simp add: ledger_of_def)
qed

definition demo_addresses :: "nat \<Rightarrow> string" where
  "demo_addresses n = replicate n CHR ''a'' @ ''.''"

definition empty_world :: world where
  "empty_world = \<lparr>w_at = (\<lambda>_. None), w_count = 0, w_files = []\<rparr>"

lemma demo_fresh: "fresh_addresses demo_addresses"
proof -
  have "demo_addresses n \<noteq> zero_bytes 20" for n
  proof
    assume "demo_addresses n = zero_bytes 20"
    then have "last (demo_addresses n) = last (zero_bytes 20)" by simp
    then show False by (simp add: demo_addresses_def zero_bytes_def)
  qed
  moreover have "length (demo_addresses n) = Suc n" for n by (simp add: demo_addresses_def)
  then have "inj demo_addresses" by (metis injI old.nat.inject)
  ultimately show ?thesis by (simp add: fresh_addresses_def)
qed

theorem deploy_works_witness:
  "\<exists>out w' vl l. deploy demo_addresses ''d'' empty_world = Inr (out, w') \<and> ''VOTE_LEDGER_ADDRESS='' @ vl \<in> set out \<and>
    ledger_of (ledger_txs id id vl
        [(\<lparr>sender = ''d'', now = 1\<rparr>, ''createPoll(string,bytes2,uint64)'', [A_Str ''p'', A_Bytes ''GB'', A_Uint 9]),
         (\<lparr>sender = ''v'', now = 2\<rparr>, ''castVote(bytes32,bytes32,bytes32,(uint256[2],uint256[2][2],uint256[2],uint256[]))'',
            [A_Bytes (id (''p'' @ ''GB'')), A_Bytes ''y'', A_Bytes ''n'', A_Proof any_proof])] w') vl = Some l \<and>
    get_tally_of l (id (''p'' @ ''GB'')) ''y'' = 1"
  by (rule deploy_works [OF demo_fresh]) (simp_all add: zero_bytes_differ)

text \<open>
  The second-layer deployment is dead on arrival: the script passes the verifier where the initialiser takes the owner, so
  whatever anybody but the verifier contract, which sends nothing, calls on the new ledger changes nothing at all: no poll
  is created, no vote is recorded, and neither pausing, ownership nor an upgrade is possible.
\<close>

theorem deploy_l2_dead:
  assumes "fresh_addresses A" "d \<noteq> zero_bytes 20" "deploy_l2 A network chain t d w = Inr w'"
    and "\<forall>(en, sig, args) \<in> set txs. sender en \<noteq> A (w_count w)"
  shows "ledger_of w' (A (w_count w + 3)) = Some (ledger_init (A (w_count w))) \<and>
    ledger_txs k upgrade (A (w_count w + 3)) txs w' = w'"
proof -
  let ?n = "w_count w"
  have at: "w_at w' (A (?n + 3)) = Some (C_Ledger (ledger_init (A ?n)) (A (?n + 1)) (A (?n + 2)))"
    using deploy_l2_result [OF assms(1,2), where w = w and network = network and chain = chain and t = t] assms(3) by auto
  have "\<forall>i. deadline (polls (ledger_init (A ?n)) i) = 0" "owner (ledger_init (A ?n)) = A ?n"
    by (simp_all add: ledger_init_def no_poll_def)
  with ledger_txs_dead [OF at] assms(4) at show ?thesis by (simp add: ledger_of_def)
qed

theorem deploy_l2_dead_witness:
  "\<exists>w'. deploy_l2 demo_addresses ''optimism'' 10 ''t'' ''d'' empty_world = Inr w' \<and>
     ledger_txs id id (demo_addresses 3)
       [(\<lparr>sender = ''d'', now = 1\<rparr>, ''createPoll(string,bytes2,uint64)'', [A_Str ''p'', A_Bytes ''GB'', A_Uint 9])] w' = w'"
proof -
  have d: "''d'' \<noteq> zero_bytes 20" by (simp add: zero_bytes_differ)
  obtain w' where w': "deploy_l2 demo_addresses ''optimism'' 10 ''t'' ''d'' empty_world = Inr w'"
    using deploy_l2_result [OF demo_fresh d, where w = empty_world and network = "''optimism''" and chain = 10 and t = "''t''"] by blast
  have "\<forall>(en, sig, args) \<in> set [(\<lparr>sender = ''d'', now = 1\<rparr>, ''createPoll(string,bytes2,uint64)'', [A_Str ''p'', A_Bytes ''GB'', A_Uint 9])].
      sender en \<noteq> demo_addresses (w_count empty_world)"
    by (simp add: empty_world_def demo_addresses_def)
  from deploy_l2_dead [OF demo_fresh d w' this, of id id] w' show ?thesis by (simp add: empty_world_def)
qed

text \<open>
  The governance deployment hands the timelock over completely and nothing else: when it ends, the timelock administers
  itself, the governor alone proposes, executes and cancels, and the deployer has no role; but the deployer still owns the
  token, so it can mint itself any share of the votes, and every contract that existed before has the owner it had.
\<close>

theorem deploy_dao_handover:
  assumes "fresh_addresses A" "d \<noteq> zero_bytes 20" "A (w_count w + 1) \<noteq> d" "A (w_count w + 2) \<noteq> d" "extra \<le> TOKEN_CAP - ONE_VGT"
  shows "\<exists>out w' tk tm tk'. deploy_dao A d t w = Inr (out, w') \<and>
    w_at w' (A (w_count w)) = Some (C_Token tk) \<and> w_at w' (A (w_count w + 1)) = Some (C_Timelock tm) \<and>
    tl_roles tm = dao_roles (A (w_count w + 1)) (A (w_count w + 2)) \<and> (\<forall>r. \<not> tl_roles tm r d) \<and>
    mint_contributor \<lparr>sender = d, now = t'\<rparr> d extra tk = Inr tk' \<and> tk_balance tk' d = ONE_VGT + extra \<and> tk_supply tk' = ONE_VGT + extra \<and>
    (\<forall>a. a \<notin> {A (w_count w), A (w_count w + 1), A (w_count w + 2)} \<longrightarrow> w_at w' a = w_at w a)"
proof -
  let ?n = "w_count w"
  have ne: "A ?n \<noteq> A (?n + 1)" "A ?n \<noteq> A (?n + 2)" "A (?n + 1) \<noteq> A (?n + 2)" using fresh_neq [OF assms(1)] by simp_all
  obtain out w' tk tm where dao: "deploy_dao A d t w = Inr (out, w')"
      "w_at w' = (w_at w)(A ?n := Some (C_Token tk), A (?n + 1) := Some (C_Timelock tm), A (?n + 2) := Some (C_Governor (A ?n) (A (?n + 1))))"
      "tk_owner tk = d" "tk_supply tk = ONE_VGT" "tk_balance tk d = ONE_VGT" "tl_roles tm = dao_roles (A (?n + 1)) (A (?n + 2))"
    using deploy_dao_result [OF assms(1-3), of t] by (elim exE conjE) (rule that)
  let ?tk = "tk\<lparr>tk_supply := ONE_VGT + extra, tk_balance := (tk_balance tk)(d := ONE_VGT + extra)\<rparr>"
  have cap: "\<not> TOKEN_CAP < ONE_VGT + extra" using assms(5) by (simp add: TOKEN_CAP_def ONE_VGT_def)
  have "mint_contributor \<lparr>sender = d, now = t'\<rparr> d extra tk = Inr ?tk"
    using cap assms(2) dao(3-5) by (simp add: mint_contributor_def token_only_owner_def)
  moreover have "\<forall>r. \<not> tl_roles tm r d" using dao(6) assms(3,4) by (simp add: dao_roles_def)
  ultimately show ?thesis
    using dao ne by (intro exI [of _ out] exI [of _ w'] exI [of _ tk] exI [of _ tm] exI [of _ ?tk]) simp
qed

theorem deploy_dao_handover_witness:
  "\<exists>out w' tk tm tk'. deploy_dao demo_addresses ''d'' 1 empty_world = Inr (out, w') \<and>
    w_at w' (demo_addresses (w_count empty_world)) = Some (C_Token tk) \<and>
    w_at w' (demo_addresses (w_count empty_world + 1)) = Some (C_Timelock tm) \<and>
    mint_contributor \<lparr>sender = ''d'', now = 2\<rparr> ''d'' 7 tk = Inr tk' \<and> tk_balance tk' ''d'' = ONE_VGT + 7"
proof -
  have d: "''d'' \<noteq> zero_bytes 20" "demo_addresses (w_count empty_world + 1) \<noteq> ''d''" "demo_addresses (w_count empty_world + 2) \<noteq> ''d''"
      "7 \<le> TOKEN_CAP - ONE_VGT"
    by (simp_all add: zero_bytes_differ demo_addresses_def TOKEN_CAP_def ONE_VGT_def)
  show ?thesis using deploy_dao_handover [OF demo_fresh d, of 1 2] by (elim exE conjE) (intro exI conjI)
qed

text \<open>
  On each of the four second-layer networks the script deploys a caster that knows its verifier and the right first-layer
  endpoint, and that accepts no vote: until its owner registers the relay by hand every call reverts with \<open>NoPeer\<close>.
\<close>

theorem crosschain_unwired:
  assumes "fresh_addresses A" "network \<in> set L2_NETWORKS"
  shows "\<exists>w' c. deploy_crosschain A network vl d t w = Inr w' \<and> w_at w' (A (w_count w)) = Some (C_Caster c) \<and> ca_owner c = d \<and>
    verifier_at w' (ca_verifier c) = Some stub_verifier \<and>
    ca_l1 c = (if network \<in> {''optimismSepolia'', ''arbitrumSepolia''} then 40161 else 30101) \<and>
    cast_l2 E (verifier_at w') fee pid opt n pf c = Inl ''NoPeer''"
proof -
  obtain w' where w': "deploy_crosschain A network vl d t w = Inr w'"
      "w_at w' = (w_at w)(A (w_count w) :=
        Some (C_Caster ((caster_init d (if network = ''optimismSepolia'' \<or> network = ''arbitrumSepolia'' then 40161 else 30101))
          \<lparr>ca_verifier := A (w_count w + 1)\<rparr>)), A (w_count w + 1) := Some (C_Verifier stub_verifier))"
    using deploy_caster [OF assms, of vl d t w] by (elim exE conjE) (rule that)
  have ne: "A (w_count w) \<noteq> A (w_count w + 1)" using fresh_neq [OF assms(1)] by simp
  let ?c = "(caster_init d (if network = ''optimismSepolia'' \<or> network = ''arbitrumSepolia'' then 40161 else 30101))\<lparr>ca_verifier := A (w_count w + 1)\<rparr>"
  have v: "verifier_at w' (A (w_count w + 1)) = Some stub_verifier" by (simp add: verifier_at_def w'(2))
  have "cast_l2 E (verifier_at w') fee pid opt n pf ?c = Inl ''NoPeer''"
    using v by (simp add: cast_l2_def caster_init_def stub_verifier_def quote_fee_def peer_or_revert_def throw_def Let_def)
  then show ?thesis
    using w' ne v by (intro exI [of _ w'] exI [of _ ?c]) (simp add: caster_init_def)
qed

theorem crosschain_unwired_witness:
  "\<exists>w' c. deploy_crosschain demo_addresses ''optimism'' None ''d'' 1 empty_world = Inr w' \<and>
     w_at w' (demo_addresses (w_count empty_world)) = Some (C_Caster c) \<and>
     cast_l2 demo_endpoint (verifier_at w') 9 ''p'' ''y'' ''n'' any_proof c = Inl ''NoPeer''"
proof -
  have "''optimism'' \<in> set L2_NETWORKS" by (simp add: L2_NETWORKS_def)
  from crosschain_unwired [OF demo_fresh this, of None "''d''" 1 empty_world demo_endpoint 9 "''p''" "''y''" "''n''" any_proof]
  show ?thesis by (elim exE conjE) (intro exI conjI)
qed

text \<open>
  The migration cannot take effect: the proposal it makes calls \<open>setZKVerifier\<close>, which the vote ledger does not have, so its
  execution reverts in every state of the ledger and whoever executes it.
\<close>

theorem migration_reverts:
  assumes "w_at w vl = Some (C_Ledger l vr zk)"
  shows "execute_proposal k upgrade en (plonk_proposal vl plonk) w = Inl []"
  using assms by (simp add: execute_proposal_def plonk_proposal_def ledger_tx_def dispatch_unknown LEDGER_FUNCTIONS_def throw_def
      split: option.split)

theorem migration_reverts_witness:
  "execute_proposal id id \<lparr>sender = ''timelock'', now = 5\<rparr> (plonk_proposal ''vl'' ''p'')
     (empty_world\<lparr>w_at := (\<lambda>_. Some (C_Ledger (ledger_init ''timelock'') ''vr'' ''zk''))\<rparr>) = Inl []"
  by (rule migration_reverts [where l = "ledger_init ''timelock''" and vr = "''vr''" and zk = "''zk''"]) simp

end
