(* ===== verification/Abi.thy ===== *)
theory Abi
  imports Cross_Chain Audit_Log Homomorphic_Tally
begin

text \<open>
  The interfaces between the TypeScript clients and the contracts: the fragments each client declares, the signatures the
  contracts have, and the encoding of what a contract returns. A fragment is read as ethers reads it: names, data locations and
  \<open>indexed\<close> do not count, the types do. What a contract returns is a string of 32-byte words; a client that asks for other types
  than the contract encodes reads past the end of it.
\<close>

section \<open>Signatures\<close>

text \<open>
  One list of parameters, from behind its opening parenthesis: \<open>mode\<close> is 0 before a type, 1 in it and 2 behind it, \<open>depth\<close> counts the
  parentheses that are open inside. The second result is what follows the closing one.
\<close>

fun canon :: "nat \<Rightarrow> nat \<Rightarrow> string \<Rightarrow> string \<times> string" where
  "canon depth mode [] = ([], [])"
| "canon depth mode (c # s) =
     (if c = CHR ''('' then map_prod (Cons c) (\<lambda>x. x) (canon (depth + 1) 0 s)
      else if c = CHR '')'' then
        (if depth = 0 then ([c], s) else map_prod (Cons c) (\<lambda>x. x) (canon (depth - 1) 1 s))
      else if c = CHR '','' then map_prod (Cons c) (\<lambda>x. x) (canon depth 0 s)
      else if c = CHR '' '' then canon depth (if mode = 0 then 0 else 2) s
      else if mode = 2 then canon depth 2 s
      else map_prod (Cons c) (\<lambda>x. x) (canon depth 1 s))"

text \<open>The keyword \<open>tuple\<close> in front of a parenthesis is dropped.\<close>

fun untuple :: "nat \<Rightarrow> string \<Rightarrow> string" where
  "untuple 0 s = s"
| "untuple (Suc n) s =
     (if s = [] then [] else if starts_with s ''tuple('' then CHR ''('' # untuple n (drop 6 s) else hd s # untuple n (tl s))"

fun behind :: "string \<Rightarrow> string \<Rightarrow> string option" where
  "behind p [] = None"
| "behind p (c # s) = (if starts_with (c # s) p then Some (drop (length p) (c # s)) else behind p s)"

definition fragment_parts :: "string \<Rightarrow> string \<times> string \<times> string" where
  "fragment_parts f =
     (let g = untuple (length f) f;
          rest = drop 1 (dropWhile (\<lambda>c. c \<noteq> CHR '' '') g);
          name = takeWhile (\<lambda>c. c \<noteq> CHR ''('') rest;
          r = canon 0 0 (drop (length name + 1) rest)
      in (takeWhile (\<lambda>c. c \<noteq> CHR '' '') g, name @ ''('' @ fst r,
          case behind ''returns ('' (snd r) of None \<Rightarrow> ''()'' | Some t \<Rightarrow> ''('' @ fst (canon 0 0 t)))"

text \<open>An interface: the signatures of its functions with the types they return, and of its events.\<close>

record interface =
  if_functions :: "(string \<times> string) list"
  if_events :: "string list"

text \<open>What is wrong with a fragment against a contract: nothing, no such function or event, or other return types.\<close>

datatype mismatch = Missing string | Other_Returns string string string

definition mismatch_of :: "interface \<Rightarrow> string \<Rightarrow> mismatch option" where
  "mismatch_of i f =
     (case fragment_parts f of (kind, sig, outs) \<Rightarrow>
        if kind = ''event'' then (if sig \<in> set (if_events i) then None else Some (Missing sig))
        else (case map_of (if_functions i) sig of
                None \<Rightarrow> Some (Missing sig)
              | Some outs' \<Rightarrow> if outs = outs' \<or> outs = ''()'' then None else Some (Other_Returns sig outs outs')))"

definition mismatches :: "interface \<Rightarrow> string list \<Rightarrow> mismatch list" where
  "mismatches i fs = List.map_filter (mismatch_of i) fs"

section \<open>The contracts\<close>

text \<open>
  The getter of a public mapping to structs leaves out the struct's arrays, and a function that returns a struct returns one
  tuple.
\<close>

definition VOTE_LEDGER :: interface where
  "VOTE_LEDGER =
     \<lparr>if_functions =
        [(''createPoll(string,bytes2,uint64)'', ''(bytes32)''),
         (''castVote(bytes32,bytes32,bytes32,(uint256[2],uint256[2][2],uint256[2],uint256[]))'', ''()''),
         (''finalisePoll(bytes32)'', ''()''), (''getTally(bytes32,bytes32)'', ''(uint256)''),
         (''getPollMeta(bytes32)'', ''(bytes2,uint64,bool,uint256)''), (''isNullifierSpent(bytes32)'', ''(bool)''),
         (''pause()'', ''()''), (''unpause()'', ''()''), (''voterRegistry()'', ''(address)''), (''zkVerifier()'', ''(address)''),
         (''nullifierList(uint256)'', ''(bytes32)'')],
      if_events =
        [''PollCreated(bytes32,bytes2,uint64)'', ''VoteCast(bytes32,bytes32,bytes32)'', ''PollFinalised(bytes32,uint256)'']\<rparr>"

definition POLICY_REGISTRY :: interface where
  "POLICY_REGISTRY =
     \<lparr>if_functions =
        [(''publishPolicy(string,bytes2,string)'', ''()''), (''deactivatePolicy(string)'', ''()''),
         (''getPolicy(string)'', ''((bytes2,bytes32,string,uint64,bool))''),
         (''policies(bytes32)'', ''(bytes2,bytes32,string,uint64,bool)'')],
      if_events = [''PolicyPublished(bytes32,bytes2,string)'', ''PolicyDeactivated(bytes32)'']\<rparr>"

definition VOTER_REGISTRY :: interface where
  "VOTER_REGISTRY =
     \<lparr>if_functions =
        [(''register(bytes32,bytes2)'', ''()''), (''isRegistered(bytes32,bytes2)'', ''(bool)''), (''totalVoters()'', ''(uint256)''),
         (''setCountryRegistrar(bytes2,address)'', ''()''), (''pause()'', ''()''), (''unpause()'', ''()''),
         (''commitments(uint256)'', ''(bytes32)''), (''countryRegistrar(bytes2)'', ''(address)'')],
      if_events = [''VoterRegistered(bytes32,bytes2)'', ''RegistrarUpdated(bytes2,address)'']\<rparr>"

definition AUDIT_LOG :: interface where
  "AUDIT_LOG =
     \<lparr>if_functions =
        [(''addEntry(string,string)'', ''()''), (''getEntry(uint256)'', ''((address,string,string,uint256))''),
         (''entryCount()'', ''(uint256)'')],
      if_events = [''AuditEntryAdded(uint256,address,string,string,uint256)'']\<rparr>"

definition HOMOMORPHIC_TALLY :: interface where
  "HOMOMORPHIC_TALLY =
     \<lparr>if_functions =
        [(''registerPoll(bytes32,uint256[2],uint256,uint256)'', ''()''),
         (''submitEncryptedVote(bytes32,uint256,uint256,uint256,uint256,uint256,bytes32,bytes)'', ''()''),
         (''finaliseDecryption(bytes32,uint256,uint256,uint256[2],bytes)'', ''()''),
         (''getAccumulated(bytes32,uint256)'', ''(uint256,uint256,uint256,uint256,uint256)''),
         (''getResult(bytes32,uint256)'', ''(uint256,bool)''), (''setVerifier(address)'', ''()''),
         (''polls(bytes32)'', ''(uint256,uint256,bool)'')],
      if_events =
        [''PollRegistered(bytes32,uint256[2],uint256)'', ''EncryptedVoteAccumulated(bytes32,uint256,uint256)'',
         ''TallyFinalised(bytes32,uint256,uint256)'', ''VerifierUpdated(address,address)'']\<rparr>"

section \<open>What the clients declare\<close>

definition BLOCKCHAIN_SERVICE_LEDGER :: "string list" where
  "BLOCKCHAIN_SERVICE_LEDGER =
     [''function castVote(bytes32 pollId, bytes32 optionHash, bytes32 nullifier, tuple(uint256[2] piA, uint256[2][2] piB, uint256[2] piC, uint256[] publicSignals) proof) external'',
      ''function getTally(bytes32 pollId, bytes32 optionHash) external view returns (uint256)'',
      ''function getPollMeta(bytes32 pollId) external view returns (bytes2 countryCode, uint64 deadline, bool finalised, uint256 totalVotes)'',
      ''function isNullifierSpent(bytes32 nullifier) external view returns (bool)'']"

definition BLOCKCHAIN_SERVICE_REGISTRY :: "string list" where
  "BLOCKCHAIN_SERVICE_REGISTRY =
     [''function getPolicy(string policyId) external view returns (tuple(bytes2 countryCode, bytes32 documentHash, string ipfsCID, uint64 createdAt, bool active))'']"

definition IDENTITY_REGISTER_ABI :: "string list" where
  "IDENTITY_REGISTER_ABI =
     [''function register(bytes32 commitment, bytes2 countryCode) external'',
      ''function isRegistered(bytes32 commitment, bytes2 countryCode) external view returns (bool)'']"

definition TALLY_SERVICE_ABI :: "string list" where
  "TALLY_SERVICE_ABI =
     [''event VoteCast(bytes32 indexed policyIdHash, bytes32 indexed nullifier, string optionId, uint256 blockNumber)'',
      ''event PolicyFinalized(bytes32 indexed policyIdHash)'']"

definition LIVE_TALLY_ABI :: "string list" where
  "LIVE_TALLY_ABI =
     [''event VoteCast(bytes32 indexed policyIdHash, bytes32 indexed nullifier, string optionId, uint256 blockNumber)'',
      ''event PolicyFinalized(bytes32 indexed policyIdHash)'']"

definition AUDIT_LOG_ABI :: "string list" where
  "AUDIT_LOG_ABI =
     [''function addEntry(string calldata action, string calldata ipfsCid) external'',
      ''function getEntry(uint256 id) view returns (address actor, string action, string ipfsCid, uint256 timestamp)'',
      ''function entryCount() view returns (uint256)'',
      ''event AuditEntryAdded(uint256 indexed id, address indexed actor, string action, string ipfsCid, uint256 timestamp)'']"

definition HOMOMORPHIC_TALLY_ABI :: "string list" where
  "HOMOMORPHIC_TALLY_ABI =
     [''event EncryptedVoteAccumulated(bytes32 indexed pollId, uint256 indexed optionIndex, uint256 newCount)'',
      ''event TallyFinalised(bytes32 indexed pollId, uint256 indexed optionIndex, uint256 tallyValue)'',
      ''event PollRegistered(bytes32 indexed pollId, uint256[2] tallyPublicKey, uint256 closeTime)'',
      ''function getAccumulated(bytes32 pollId, uint256 optionIndex) view returns (uint256 C1x, uint256 C1y, uint256 C2x, uint256 C2y, uint256 count)'',
      ''function getResult(bytes32 pollId, uint256 optionIndex) view returns (uint256 tallyValue, bool finalised)'',
      ''function finaliseDecryption(bytes32 pollId, uint256 optionIndex, uint256 tallyValue, uint256[2] T, bytes decryptionProof) external'',
      ''function polls(bytes32 pollId) view returns (uint256[2] tallyPublicKey, uint256 optionCount, uint256 closeTime, bool exists)'']"

definition CLI_LEDGER_ABI :: "string list" where
  "CLI_LEDGER_ABI =
     [''event VoteCast(bytes32 indexed policyIdHash, bytes32 indexed nullifier, string optionId, uint256 blockNumber)'',
      ''function usedNullifiers(bytes32) view returns (bool)'']"

definition CLI_REGISTRY_ABI :: "string list" where
  "CLI_REGISTRY_ABI = [''function getDocumentCID(bytes32 policyIdHash) view returns (string)'']"

definition MIGRATION_LEDGER_ABI :: "string list" where
  "MIGRATION_LEDGER_ABI = [''function setZKVerifier(address newVerifier) external'']"

text \<open>Every client with the contract it talks to.\<close>

definition CLIENTS :: "(string \<times> interface \<times> string list) list" where
  "CLIENTS =
     [(''BlockchainService'', VOTE_LEDGER, BLOCKCHAIN_SERVICE_LEDGER), (''BlockchainService'', POLICY_REGISTRY, BLOCKCHAIN_SERVICE_REGISTRY),
      (''identityRegister'', VOTER_REGISTRY, IDENTITY_REGISTER_ABI), (''TallyService'', VOTE_LEDGER, TALLY_SERVICE_ABI),
      (''LiveTallyService'', VOTE_LEDGER, LIVE_TALLY_ABI), (''AuditLogService'', AUDIT_LOG, AUDIT_LOG_ABI),
      (''HomomorphicTallyService'', HOMOMORPHIC_TALLY, HOMOMORPHIC_TALLY_ABI), (''cli'', VOTE_LEDGER, CLI_LEDGER_ABI),
      (''cli'', POLICY_REGISTRY, CLI_REGISTRY_ABI), (''migrate-to-plonk'', VOTE_LEDGER, MIGRATION_LEDGER_ABI)]"

definition interface_report :: "(string \<times> mismatch) list" where
  "interface_report = concat (map (\<lambda>(n, i, fs). map (Pair n) (mismatches i fs)) CLIENTS)"

lemma report_blockchain: "mismatches VOTE_LEDGER BLOCKCHAIN_SERVICE_LEDGER = []" "mismatches POLICY_REGISTRY BLOCKCHAIN_SERVICE_REGISTRY = []"
  by code_simp+

lemma report_registry: "mismatches VOTER_REGISTRY IDENTITY_REGISTER_ABI = []"
  by code_simp

lemma report_tallies:
  "mismatches VOTE_LEDGER TALLY_SERVICE_ABI = [Missing ''VoteCast(bytes32,bytes32,string,uint256)'', Missing ''PolicyFinalized(bytes32)'']"
  "mismatches VOTE_LEDGER LIVE_TALLY_ABI = [Missing ''VoteCast(bytes32,bytes32,string,uint256)'', Missing ''PolicyFinalized(bytes32)'']"
  by code_simp+

lemma report_audit:
  "mismatches AUDIT_LOG AUDIT_LOG_ABI =
     [Other_Returns ''getEntry(uint256)'' ''(address,string,string,uint256)'' ''((address,string,string,uint256))'']"
  by code_simp

lemma report_htally:
  "mismatches HOMOMORPHIC_TALLY HOMOMORPHIC_TALLY_ABI =
     [Other_Returns ''polls(bytes32)'' ''(uint256[2],uint256,uint256,bool)'' ''(uint256,uint256,bool)'']"
  by code_simp

lemma report_cli:
  "mismatches VOTE_LEDGER CLI_LEDGER_ABI = [Missing ''VoteCast(bytes32,bytes32,string,uint256)'', Missing ''usedNullifiers(bytes32)'']"
  "mismatches POLICY_REGISTRY CLI_REGISTRY_ABI = [Missing ''getDocumentCID(bytes32)'']"
  "mismatches VOTE_LEDGER MIGRATION_LEDGER_ABI = [Missing ''setZKVerifier(address)'']"
  by code_simp+

lemmas reports = report_blockchain report_registry report_tallies report_audit report_htally report_cli

section \<open>The encoding of results\<close>

fun be_val :: "nat \<Rightarrow> string \<Rightarrow> nat" where
  "be_val acc [] = acc"
| "be_val acc (c # s) = be_val (256 * acc + code c) s"

lemma be_val_append: "be_val acc (s @ t) = be_val (be_val acc s) t"
  by (induction s arbitrary: acc) simp_all

lemma be_val_bytes: "n < 256 ^ k \<Longrightarrow> be_val acc (be_bytes k n) = 256 ^ k * acc + n"
proof (induction k arbitrary: n acc)
  case (Suc k)
  have "n div 256 < 256 ^ k" using Suc.prems by (simp add: less_mult_imp_div_less mult.commute)
  from Suc.IH [OF this] show ?case by (simp add: be_val_append code_def algebra_simps)
qed simp

definition abi_word :: "nat \<Rightarrow> string" where
  "abi_word n = be_bytes 32 n"

definition padding :: "nat \<Rightarrow> nat" where
  "padding n = (32 - n mod 32) mod 32"

definition abi_text :: "string \<Rightarrow> string" where
  "abi_text s = abi_word (length s) @ s @ replicate (padding (length s)) (CHR 0x00)"

definition read_word :: "string \<Rightarrow> nat \<Rightarrow> nat result" where
  "read_word d off = (if length d < off + 32 then throw ''BUFFER_OVERRUN'' else Inr (be_val 0 (take 32 (drop off d))))"

text \<open>A text in a tuple that starts at \<open>base\<close>: its word is its offset from there.\<close>

definition read_text :: "string \<Rightarrow> nat \<Rightarrow> nat \<Rightarrow> string result" where
  "read_text d base off =
     bind_result (read_word d (base + off)) (\<lambda>p.
     bind_result (read_word d (base + p)) (\<lambda>n.
       if length d < base + p + 32 + n then throw ''BUFFER_OVERRUN'' else Inr (take n (drop (base + p + 32) d))))"

lemma length_abi_word [simp]: "length (abi_word n) = 32"
  by (simp add: abi_word_def)

lemma read_word_at:
  assumes "d = u @ abi_word n @ v" "length u = off" "n < 2 ^ 256"
  shows "read_word d off = Inr n"
proof -
  have "be_val 0 (abi_word n) = n" using be_val_bytes [of n 32 0] assms(3) by (simp add: abi_word_def)
  then show ?thesis using assms(1,2) by (simp add: read_word_def)
qed

lemma read_text_at:
  assumes "d = u @ abi_text s @ v" "length u = base + p" "read_word d (base + off) = Inr p" "length s < 2 ^ 256"
  shows "read_text d base off = Inr s"
proof -
  have w: "read_word d (base + p) = Inr (length s)"
    by (rule read_word_at [OF _ _ assms(4), of _ u "s @ replicate (padding (length s)) (CHR 0x00) @ v"])
      (simp_all add: assms(1,2) abi_text_def)
  have "take (length s) (drop (base + p + 32) d) = s" "base + p + 32 + length s \<le> length d"
    using assms(2) by (simp_all add: assms(1) abi_text_def)
  then show ?thesis unfolding read_text_def assms(3) bind_result_simps w by simp
qed

section \<open>The audit log on the wire\<close>

text \<open>What \<open>getEntry\<close> returns; \<open>addr\<close> is an address as a number.\<close>

definition entry_return :: "(string \<Rightarrow> nat) \<Rightarrow> log_entry \<Rightarrow> string" where
  "entry_return addr e =
     abi_word 32 @ abi_word (addr (le_actor e)) @ abi_word 128 @ abi_word (128 + length (abi_text (le_action e))) @
     abi_word (le_time e) @ abi_text (le_action e) @ abi_text (le_cid e)"

text \<open>Four values at \<open>base\<close>: the client reads them at 0; the tuple the contract returns lies where the first word points to.\<close>

definition read_entry_at :: "string \<Rightarrow> nat \<Rightarrow> (nat \<times> string \<times> string \<times> nat) result" where
  "read_entry_at d base =
     bind_result (read_word d base) (\<lambda>a.
     bind_result (read_text d base 32) (\<lambda>s.
     bind_result (read_text d base 64) (\<lambda>t.
     bind_result (read_word d (base + 96)) (\<lambda>n. Inr (a, s, t, n)))))"

definition client_entry :: "string \<Rightarrow> (nat \<times> string \<times> string \<times> nat) result" where
  "client_entry d = read_entry_at d 0"

definition declared_entry :: "string \<Rightarrow> (nat \<times> string \<times> string \<times> nat) result" where
  "declared_entry d = bind_result (read_word d 0) (read_entry_at d)"

definition wire_get_entry :: "(string \<Rightarrow> nat) \<Rightarrow> int \<Rightarrow> audit_chain \<Rightarrow> (nat \<times> string \<times> string \<times> nat) result" where
  "wire_get_entry addr i es = bind_result (get_entry i es) (\<lambda>e. client_entry (entry_return addr e))"

text \<open>The verification route with the answer read from the wire; \<open>checksum\<close> writes an address as text.\<close>

definition wire_verify_route ::
  "(string \<Rightarrow> nat) \<Rightarrow> (nat \<Rightarrow> string) \<Rightarrow> 'b helia \<Rightarrow> wallet \<Rightarrow> audit_chain \<Rightarrow> string \<Rightarrow> 'b option \<Rightarrow> response" where
  "wire_verify_route addr checksum H W es eid s =
     (case parse_int_any eid of
        None \<Rightarrow> json_res 400 (error_json ''Invalid ID'')
      | Some i \<Rightarrow>
          (case bind_result (wire_get_entry addr i es) (\<lambda>(a, act, cid, t). read_entry H W (checksum a) cid s) of
             Inl e \<Rightarrow> json_res 404 (error_json e)
           | Inr v \<Rightarrow> json_res 200 (JObj [(''entry'', ve_entry v), (''valid'', JBool (ve_valid v)), (''cid'', JStr (ve_cid v))])))"

section \<open>The polls of the homomorphic tally on the wire\<close>

definition polls_return :: "ht_poll option \<Rightarrow> string" where
  "polls_return p =
     (case p of
        None \<Rightarrow> abi_word 0 @ abi_word 0 @ abi_word 0
      | Some q \<Rightarrow> abi_word (optionCount q) @ abi_word (closeTime q) @ abi_word 1)"

definition client_poll :: "string \<Rightarrow> ht_poll option result" where
  "client_poll d =
     bind_result (read_word d 0) (\<lambda>x. bind_result (read_word d 32) (\<lambda>y.
     bind_result (read_word d 64) (\<lambda>n. bind_result (read_word d 96) (\<lambda>t. bind_result (read_word d 128) (\<lambda>ex.
       Inr (if ex = 0 then None else Some \<lparr>tallyPublicKey = (int x, int y), optionCount = n, closeTime = t\<rparr>))))))"

definition wire_polls :: "ht_chain \<Rightarrow> string \<Rightarrow> ht_poll option result" where
  "wire_polls c pid = client_poll (polls_return (ht_polls c pid))"

lemma wire_polls_fail: "wire_polls c pid = Inl ''BUFFER_OVERRUN''"
  by (simp add: wire_polls_def polls_return_def client_poll_def read_word_def throw_def split: option.split)

section \<open>Properties\<close>


text \<open>The entry the contract returns can be read as the tuple it is: the encoding loses nothing.\<close>

lemma entry_roundtrip:
  assumes "addr (le_actor e) < 2 ^ 256" "le_time e < 2 ^ 256" "length (entry_return addr e) < 2 ^ 256"
  shows "declared_entry (entry_return addr e) = Inr (addr (le_actor e), le_action e, le_cid e, le_time e)"
proof -
  let ?a = "abi_word (addr (le_actor e))" and ?p = "abi_word (128 + length (abi_text (le_action e)))" and ?t = "abi_word (le_time e)"
  let ?A = "abi_text (le_action e)" and ?C = "abi_text (le_cid e)"
  let ?d = "entry_return addr e"
  have d: "?d = abi_word 32 @ ?a @ abi_word 128 @ ?p @ ?t @ ?A @ ?C" by (simp add: entry_return_def)
  have small: "128 + length ?A < 2 ^ 256" "length (le_action e) < 2 ^ 256" "length (le_cid e) < 2 ^ 256"
    using assms(3) by (simp_all add: d abi_text_def)
  have w0: "read_word ?d 0 = Inr 32" by (rule read_word_at [of _ "[]"]) (simp_all add: d)
  have w1: "read_word ?d 32 = Inr (addr (le_actor e))" by (rule read_word_at [OF _ _ assms(1), of _ "abi_word 32"]) (simp_all add: d)
  have w2: "read_word ?d (32 + 32) = Inr 128" by (rule read_word_at [of _ "abi_word 32 @ ?a"]) (simp_all add: d)
  have w3: "read_word ?d (32 + 64) = Inr (128 + length ?A)"
    by (rule read_word_at [OF _ _ small(1), of _ "abi_word 32 @ ?a @ abi_word 128"]) (simp_all add: d)
  have w4: "read_word ?d (32 + 96) = Inr (le_time e)"
    by (rule read_word_at [OF _ _ assms(2), of _ "abi_word 32 @ ?a @ abi_word 128 @ ?p"]) (simp_all add: d)
  have t1: "read_text ?d 32 32 = Inr (le_action e)"
    by (rule read_text_at [OF _ _ w2 small(2), of "abi_word 32 @ ?a @ abi_word 128 @ ?p @ ?t"]) (simp_all add: d)
  have t2: "read_text ?d 32 64 = Inr (le_cid e)"
    by (rule read_text_at [OF _ _ w3 small(3), of "abi_word 32 @ ?a @ abi_word 128 @ ?p @ ?t @ ?A" "[]"]) (simp_all add: d)
  show ?thesis unfolding declared_entry_def w0 bind_result_simps read_entry_at_def w1 t1 t2 w4 ..
qed

lemma client_entry_fails:
  assumes "length (entry_return addr e) \<le> addr (le_actor e)" "addr (le_actor e) < 2 ^ 256"
  shows "client_entry (entry_return addr e) = Inl ''BUFFER_OVERRUN''"
proof -
  let ?a = "abi_word (addr (le_actor e))" and ?d = "entry_return addr e"
  obtain rest where d: "?d = abi_word 32 @ ?a @ rest" by (simp add: entry_return_def)
  have w0: "read_word ?d 0 = Inr 32" by (rule read_word_at [of _ "[]"]) (simp_all add: d)
  have w1: "read_word ?d 32 = Inr (addr (le_actor e))" by (rule read_word_at [OF _ _ assms(2), of _ "abi_word 32"]) (simp_all add: d)
  have "read_word ?d (addr (le_actor e)) = Inl ''BUFFER_OVERRUN''"
    using assms(1) by (simp add: read_word_def throw_def)
  with w0 w1 show ?thesis by (simp add: client_entry_def read_entry_at_def read_text_def)
qed

text \<open>
  C34: the admin history cannot be read: whatever is on the audit log, the verification route never answers with an entry, since the
  client takes the actor's address for the place of the first text. (An address is beyond the answer's length, in all but a
  vanishing part of the address space.)
\<close>

theorem audit_entries_unreadable:
  assumes "\<forall>e \<in> set es. length (entry_return addr e) \<le> addr (le_actor e) \<and> addr (le_actor e) < 2 ^ 160"
  shows "status (wire_verify_route addr checksum H W es eid s) \<in> {400, 404}"
proof -
  have "\<exists>e. wire_get_entry addr i es = Inl e" for i
  proof (cases "get_entry i es")
    case (Inr e)
    then have "e \<in> set es" by (auto simp: get_entry_def throw_def split: if_splits)
    with assms have "length (entry_return addr e) \<le> addr (le_actor e)" "addr (le_actor e) < 2 ^ 160" by blast+
    then have "client_entry (entry_return addr e) = Inl ''BUFFER_OVERRUN''" by (intro client_entry_fails) simp_all
    then show ?thesis by (simp add: wire_get_entry_def Inr)
  qed (simp add: wire_get_entry_def)
  note fails = this
  show ?thesis
  proof (cases "parse_int_any eid")
    case (Some i)
    obtain e where "wire_get_entry addr i es = Inl e" using fails [of i] ..
    then show ?thesis by (simp add: wire_verify_route_def Some)
  qed (simp add: wire_verify_route_def)
qed

theorem audit_entries_unreadable_witness:
  "status (wire_verify_route (\<lambda>a. 2 ^ 100) (\<lambda>n. []) helia_mem demo_wallet
     [\<lparr>le_actor = ''a'', le_action = ''policy_created'', le_cid = ''cid'', le_time = 7\<rparr>] ''0'' (Some [])) = 404"
proof -
  let ?e = "\<lparr>le_actor = ''a'', le_action = ''policy_created'', le_cid = ''cid'', le_time = 7\<rparr>"
  let ?r = "wire_verify_route (\<lambda>a. 2 ^ 100) (\<lambda>n. []) helia_mem demo_wallet [?e] ''0'' (Some [])"
  have "\<forall>e \<in> set [?e]. length (entry_return (\<lambda>a. 2 ^ 100) e) \<le> 2 ^ 100 \<and> (2::nat) ^ 100 < 2 ^ 160"
    by (simp add: entry_return_def abi_text_def padding_def)
  then have "status ?r \<in> {400, 404}" by (rule audit_entries_unreadable)
  moreover have "parse_int_any ''0'' = Some 0" by code_simp
  then have "status ?r \<noteq> 400" by (simp add: wire_verify_route_def split: sum.split)
  ultimately show ?thesis by simp
qed

text \<open>
  The homomorphic tally cannot be read either: every answer of \<open>polls\<close> is three words where the service expects five, so for
  every poll, registered or not, both of its routes fail.
\<close>

theorem htally_unreadable:
  "fst (htally_ciphertexts_route R t (wire_polls c pid) acc pid s) = Inl ''BUFFER_OVERRUN'' \<and>
   htally_results_route (wire_polls c pid) res pid = Inl ''BUFFER_OVERRUN''"
  by (simp add: htally_ciphertexts_route_def get_ciphertexts_def htally_results_route_def get_tally_results_def wire_polls_fail)

end
