(* ===== verification/Tally_Lifecycle.thy ===== *)
theory Tally_Lifecycle
  imports Abi
begin

text \<open>
  The life of the homomorphic tally service inside the server: \<open>start\<close>, \<open>stop\<close>, the listeners and the timers of
  \<open>HomomorphicTallyService.ts\<close>, as the server of \<open>src/backend/src/index.ts\<close> runs it. Timers belong to the process: they survive
  \<open>stop\<close> and are gone when the process ends. An error in a timer's function is an unhandled rejection, which ends a Node
  process; an error in the listener for new votes is caught.
\<close>

record ht_service =
  hs_started :: bool
  hs_listening :: bool
  hs_timers :: "(nat \<times> string) list"
  hs_alive :: bool

text \<open>The process as it starts, before and after \<open>start\<close>.\<close>

definition hs_new :: ht_service where
  "hs_new = \<lparr>hs_started = False, hs_listening = False, hs_timers = [], hs_alive = True\<rparr>"

definition hs_start :: "ht_service \<Rightarrow> ht_service" where
  "hs_start s = (if hs_started s then s else s\<lparr>hs_started := True, hs_listening := True\<rparr>)"

definition hs_stop :: "ht_service \<Rightarrow> ht_service" where
  "hs_stop s = s\<lparr>hs_listening := False, hs_started := False\<rparr>"

text \<open>\<open>PollRegistered\<close> reaches the listener at the time \<open>now_ms\<close>.\<close>

definition hs_registered :: "nat \<Rightarrow> string \<Rightarrow> nat \<Rightarrow> ht_service \<Rightarrow> ht_service" where
  "hs_registered now_ms pid close s =
     (if hs_listening s
      then (case on_poll_registered now_ms close of None \<Rightarrow> s | Some t \<Rightarrow> s\<lparr>hs_timers := hs_timers s @ [(t, pid)]\<rparr>)
      else s)"

text \<open>A timer fires: \<open>read\<close> is the answer of \<open>polls\<close>; when it fails the process ends, otherwise the poll is finalised on the chain.\<close>

definition hs_fire ::
  "(ht_chain \<Rightarrow> string \<Rightarrow> ht_poll option result) \<Rightarrow> (nat \<Rightarrow> string \<Rightarrow> ht_chain \<Rightarrow> ht_chain) \<Rightarrow> nat \<times> string \<Rightarrow>
    ht_service \<times> ht_chain \<Rightarrow> ht_service \<times> ht_chain" where
  "hs_fire read finalise = (\<lambda>(t, pid) (s, c).
     if (t, pid) \<notin> set (hs_timers s) then (s, c)
     else (case read c pid of
             Inl e \<Rightarrow> (s\<lparr>hs_timers := [], hs_listening := False, hs_started := False, hs_alive := False\<rparr>, c)
           | Inr p \<Rightarrow> (s\<lparr>hs_timers := remove1 (t, pid) (hs_timers s)\<rparr>, finalise t pid c)))"

definition get_tally_private_key :: "(string \<Rightarrow> int result) \<Rightarrow> string option \<Rightarrow> string result" where
  "get_tally_private_key big_int key =
     (case key of
        None \<Rightarrow> throw ''TALLY_AUTHORITY_PRIVATE_KEY not set''
      | Some k \<Rightarrow> if k = [] then throw ''TALLY_AUTHORITY_PRIVATE_KEY not set'' else bind_result (big_int k) (\<lambda>i. Inr (int_str i)))"

datatype hs_event =
    Hs_Start
  | Hs_Stop
  | Hs_Registered nat string nat
  | Hs_Fire nat string
  | Hs_Restart

definition hs_step ::
  "(ht_chain \<Rightarrow> string \<Rightarrow> ht_poll option result) \<Rightarrow> (nat \<Rightarrow> string \<Rightarrow> ht_chain \<Rightarrow> ht_chain) \<Rightarrow> hs_event \<Rightarrow>
    ht_service \<times> ht_chain \<Rightarrow> ht_service \<times> ht_chain" where
  "hs_step read finalise ev = (\<lambda>(s, c).
     case ev of
       Hs_Restart \<Rightarrow> (hs_start hs_new, c)
     | Hs_Start \<Rightarrow> (if hs_alive s then hs_start s else s, c)
     | Hs_Stop \<Rightarrow> (hs_stop s, c)
     | Hs_Registered now_ms pid close \<Rightarrow> (hs_registered now_ms pid close s, c)
     | Hs_Fire t pid \<Rightarrow> hs_fire read finalise (t, pid) (s, c))"

definition hs_run ::
  "(ht_chain \<Rightarrow> string \<Rightarrow> ht_poll option result) \<Rightarrow> (nat \<Rightarrow> string \<Rightarrow> ht_chain \<Rightarrow> ht_chain) \<Rightarrow> hs_event list \<Rightarrow>
    ht_service \<times> ht_chain \<Rightarrow> ht_service \<times> ht_chain" where
  "hs_run read finalise evs st = fold (hs_step read finalise) evs st"

section \<open>What is scheduled\<close>

text \<open>The polls a running service has heard of since its process started.\<close>

fun heard :: "hs_event list \<Rightarrow> string set" where
  "heard [] = {}"
| "heard (Hs_Registered t pid close # evs) = insert pid (heard evs)"
| "heard (ev # evs) = heard evs"

lemma hs_step_timers:
  "hs_step read finalise ev (s, c) = (s', c') \<Longrightarrow> ev \<noteq> Hs_Restart \<Longrightarrow>
     snd ` set (hs_timers s') \<subseteq> snd ` set (hs_timers s) \<union> heard [ev]"
  by (cases ev) (auto simp: hs_step_def hs_start_def hs_stop_def hs_registered_def hs_fire_def
      split: if_splits option.splits sum.splits dest!: set_remove1_subset [THEN subsetD] intro: rev_image_eqI)

lemma hs_run_timers:
  "hs_run read finalise evs (s, c) = (s', c') \<Longrightarrow> Hs_Restart \<notin> set evs \<Longrightarrow>
     snd ` set (hs_timers s') \<subseteq> snd ` set (hs_timers s) \<union> heard evs"
proof (induction evs arbitrary: s c)
  case (Cons ev evs)
  obtain s1 c1 where step: "hs_step read finalise ev (s, c) = (s1, c1)" by fastforce
  have "heard (ev # evs) = heard [ev] \<union> heard evs" by (cases ev) auto
  moreover have "hs_run read finalise evs (s1, c1) = (s', c')" using Cons.prems(1) step by (simp add: hs_run_def)
  moreover have "ev \<noteq> Hs_Restart" "Hs_Restart \<notin> set evs" using Cons.prems(2) by auto
  ultimately show ?case using Cons.IH [of s1 c1] hs_step_timers [OF step] by blast
qed (simp add: hs_run_def)

section \<open>Properties\<close>

text \<open>
  A restart forgets: whatever happened before the process was restarted, a poll that is not registered anew afterwards has no
  timer, so the service never finalises it by itself: there is no catching up with the chain.
\<close>

theorem restart_forgets:
  assumes "hs_run read finalise (before @ Hs_Restart # afterwards) (hs_new, c) = (s, c')"
    and "Hs_Restart \<notin> set afterwards" "pid \<notin> heard afterwards"
  shows "pid \<notin> snd ` set (hs_timers s)"
proof -
  obtain s1 c1 where before: "hs_run read finalise before (hs_new, c) = (s1, c1)" by fastforce
  then have "hs_run read finalise afterwards (hs_start hs_new, c1) = (s, c')"
    using assms(1) by (simp add: hs_run_def hs_step_def)
  from hs_run_timers [OF this assms(2)] assms(3) show ?thesis by (auto simp: hs_start_def hs_new_def)
qed

theorem restart_forgets_witness:
  "''p'' \<notin> snd ` set (hs_timers (fst (hs_run wire_polls (\<lambda>t pid c. c)
     ([Hs_Start, Hs_Registered 0 ''p'' 100] @ Hs_Restart # [Hs_Registered 5 ''q'' 100]) (hs_new, ht_init))))"
  by (rule restart_forgets [OF surjective_pairing]) simp_all

text \<open>
  The close of a poll ends the server: with the answers the contract really gives, the timer that a registration sets brings
  the whole process down when it fires, and no result is posted to the chain.
\<close>

theorem poll_close_ends_server:
  assumes "hs_alive s" "hs_listening s" "on_poll_registered now_ms close = Some t"
  shows "case hs_run wire_polls finalise [Hs_Registered now_ms pid close, Hs_Fire t pid] (s, c) of
    (s', c') \<Rightarrow> \<not> hs_alive s' \<and> c' = c"
  using assms by (simp add: hs_run_def hs_step_def hs_registered_def hs_fire_def wire_polls_fail)

theorem poll_close_ends_server_witness:
  "\<not> hs_alive (fst (hs_run wire_polls (\<lambda>t pid c. c) [Hs_Registered 0 ''p'' 100, Hs_Fire 105000 ''p''] (hs_start hs_new, ht_init)))"
  using poll_close_ends_server [where s = "hs_start hs_new" and now_ms = 0 and close = 100 and t = 105000 and
      finalise = "\<lambda>t pid c. c" and pid = "''p''" and c = ht_init]
  by (simp add: hs_start_def hs_new_def on_poll_registered_def node_delay_def split: prod.splits)

text \<open>
  Were \<open>polls\<close> read as the service declares it, every poll registered while the service listens, with its close ahead and
  within the timers' range, would be finalised five seconds after it: the call that computes and posts the results is made
  exactly once, at that time.
\<close>

theorem scheduled_finalisation:
  assumes "hs_listening s" "now_ms < close * 1000" "close * 1000 + 5000 - now_ms \<le> 2147483647"
    and "\<forall>t. (t, pid) \<notin> set (hs_timers s)"
  shows "hs_run (\<lambda>c p. Inr (ht_polls c p)) finalise [Hs_Registered now_ms pid close, Hs_Fire (close * 1000 + 5000) pid] (s, c) =
    (s, finalise (close * 1000 + 5000) pid c)"
proof -
  have "on_poll_registered now_ms close = Some (close * 1000 + 5000)"
    using assms(2,3) by (simp add: on_poll_registered_def node_delay_def)
  then show ?thesis using assms(1,4)
    by (simp add: hs_run_def hs_step_def hs_registered_def hs_fire_def remove1_append)
qed

theorem scheduled_finalisation_witness:
  "snd (hs_run (\<lambda>c p. Inr (ht_polls c p)) (\<lambda>t pid c. c\<lparr>ht_used := {(pid, nat_str t)}\<rparr>)
     [Hs_Registered 0 ''p'' 100, Hs_Fire (100 * 1000 + 5000) ''p''] (hs_start hs_new, ht_init)) = ht_init\<lparr>ht_used := {(''p'', nat_str 105000)}\<rparr>"
  using scheduled_finalisation [where s = "hs_start hs_new" and now_ms = 0 and close = 100 and pid = "''p''" and
      finalise = "\<lambda>t pid c. c\<lparr>ht_used := {(pid, nat_str t)}\<rparr>" and c = ht_init]
  by (simp add: hs_start_def hs_new_def del: nat_str.simps)

end
