(* ===== verification/Vote_Reads.thy ===== *)
theory Vote_Reads
  imports Vote
begin

text \<open>
  The reading routes of \<open>src/backend/src/routes/vote.ts\<close>: whether a nullifier is recorded, and the count of a policy. \<open>node\<close> is the
  ledger as the node answers, an error when it cannot be reached.
\<close>

record verify_query =
  vq_nullifier :: string
  vq_policy :: string

definition verify_schema :: "verify_query \<Rightarrow> bool" where
  "verify_schema q \<longleftrightarrow> hex_of_length 64 (vq_nullifier q) \<and> vq_policy q \<noteq> [] \<and> length (vq_policy q) \<le> 128"

text \<open>\<open>BlockchainService.isNullifierSpent\<close> and \<open>getReceipt\<close>.\<close>

definition service_nullifier_spent :: "ledger result \<Rightarrow> string \<Rightarrow> bool result" where
  "service_nullifier_spent node n = bind_result node (\<lambda>l. Inr (is_nullifier_spent l (hex_bytes n)))"

definition verify_handler :: "ledger result \<Rightarrow> verify_query \<Rightarrow> unit \<Rightarrow> response result \<times> unit" where
  "verify_handler node q s =
     (bind_result (service_nullifier_spent node (vq_nullifier q)) (\<lambda>b. Inr (json_res 200 (JObj [(''recorded'', JBool b)]))), s)"

definition vote_verify_route :: "('raw \<Rightarrow> issue list + verify_query) \<Rightarrow> ledger result \<Rightarrow> 'raw \<Rightarrow> response" where
  "vote_verify_route safe_parse node raw = finish (fst (validate_request safe_parse (verify_handler node) raw ()))"

definition vote_results_route :: "'k crypto \<Rightarrow> ledger result \<Rightarrow> string \<Rightarrow> response" where
  "vote_results_route X node pid = finish (bind_result node (\<lambda>l. Inr (json_res 200 (get_results X pid l))))"

section \<open>Properties\<close>

text \<open>
  What the verification route says is what the chain holds: after any transactions on a fresh ledger it answers every request the
  schema lets through, and it says ``recorded'' exactly for the nullifiers of the votes in the ledger's log, the same for
  every policy that is asked about, also one the vote was not cast in.
\<close>

theorem verify_reads_log:
  assumes "safe_parse raw = Inr q"
  shows "vote_verify_route safe_parse (Inr (ledger_run k v txs (ledger_init a))) raw =
    json_res 200 (JObj [(''recorded'',
      JBool (hex_bytes (vq_nullifier q) \<in> vc_nullifier ` set (casts (ledger_run k v txs (ledger_init a)))))])"
proof -
  have "ledger_inv (ledger_run k v txs (ledger_init a))" by (rule ledger_run_inv) (rule ledger_inv_init)
  then show ?thesis
    by (simp add: vote_verify_route_def validate_request_def assms verify_handler_def service_nullifier_spent_def
        is_nullifier_spent_def ledger_inv_def)
qed

theorem verify_reads_log_witness:
  "vote_verify_route (\<lambda>n. Inr \<lparr>vq_nullifier = n, vq_policy = ''other''\<rparr>)
     (Inr (ledger_run (\<lambda>x. x) (\<lambda>_. True)
        [(\<lparr>sender = ''o'', now = 1\<rparr>, CreatePoll ''p'' ''GB'' 9), (\<lparr>sender = ''v'', now = 2\<rparr>, CastVote ''pGB'' ''y'' ''ab'' any_proof)]
        (ledger_init ''o''))) ''0x6162'' = json_res 200 (JObj [(''recorded'', JBool True)])"
proof -
  let ?txs = "[(\<lparr>sender = ''o'', now = 1\<rparr>, CreatePoll ''p'' ''GB'' 9), (\<lparr>sender = ''v'', now = 2\<rparr>, CastVote ''pGB'' ''y'' ''ab'' any_proof)]"
  let ?l = "ledger_run (\<lambda>x. x) (\<lambda>_. True) ?txs (ledger_init ''o'')"
  have "vc_nullifier ` set (casts ?l) = {''ab''}"
    by (simp add: ledger_exec_def create_poll_def only_owner_def cast_vote_def ledger_init_def no_poll_def packed_poll_id_def
        uint256_max_def Let_def)
  moreover have "hex_bytes ''0x6162'' = ''ab''" by code_simp
  ultimately show ?thesis
    using verify_reads_log [of "\<lambda>n. Inr \<lparr>vq_nullifier = n, vq_policy = ''other''\<rparr>" "''0x6162''"
        "\<lparr>vq_nullifier = ''0x6162'', vq_policy = ''other''\<rparr>" "\<lambda>x. x" "\<lambda>_. True" ?txs "''o''"] by simp
qed

text \<open>An unreachable node is a server error on both routes, never ``not recorded'' or a count of zero.\<close>

lemma reads_fail_closed:
  "safe_parse raw = Inr q \<Longrightarrow> vote_verify_route safe_parse (Inl e) raw = error_handler e"
  "vote_results_route X (Inl e) pid = error_handler e"
  by (simp_all add: vote_verify_route_def validate_request_def verify_handler_def service_nullifier_spent_def vote_results_route_def)

end
