(* ===== verification/Backup.thy ===== *)
theory Backup
  imports Documents
begin

text \<open>
  The snapshot script \<open>src/backend/scripts/backup.ts\<close>: it pins the country files of a directory and then a manifest that names
  them with their identifiers. The directory is its files in the order the system lists them, \<open>None\<close> when it does not exist; the
  document store is that of theory \<open>Documents\<close>, started by the script and stopped at its end.
\<close>

definition ends_with :: "string \<Rightarrow> string \<Rightarrow> bool" where
  "ends_with s t \<longleftrightarrow> length t \<le> length s \<and> drop (length s - length t) s = t"

definition json_files :: "(string \<times> string) list \<Rightarrow> (string \<times> string) list" where
  "json_files d = filter (\<lambda>f. ends_with (fst f) ''.json'') d"

fun pin_files :: "'b helia \<Rightarrow> (string \<times> string) list \<Rightarrow> 'b option \<Rightarrow> (string \<times> string) list result \<times> 'b option" where
  "pin_files H [] s = (Inr [], s)"
| "pin_files H ((name, content) # fs) s =
     (case pin_document H name content s of
        (Inl e, s') \<Rightarrow> (Inl e, s')
      | (Inr cid, s') \<Rightarrow>
          (case pin_files H fs s' of
             (Inl e, s'') \<Rightarrow> (Inl e, s'')
           | (Inr ms, s'') \<Rightarrow> (Inr ((name, cid) # ms), s'')))"

definition manifest_json :: "string \<Rightarrow> (string \<times> string) list \<Rightarrow> json" where
  "manifest_json now_iso ms =
     JObj [(''backedUpAt'', JStr now_iso),
           (''files'', JArr (map (\<lambda>(p, c). JObj [(''path'', JStr p), (''cid'', JStr c)]) ms))]"

text \<open>The result is the line on standard output, the manifest's identifier, and the store as it is before \<open>stop\<close>.\<close>

definition backup :: "'b helia \<Rightarrow> 'b \<Rightarrow> string \<Rightarrow> (string \<times> string) list option \<Rightarrow> 'b option \<Rightarrow> string result \<times> 'b option" where
  "backup H blockstore now_iso dir s =
     (case pin_files H (case dir of None \<Rightarrow> [] | Some d \<Rightarrow> json_files d) (ipfs_init blockstore s) of
        (Inl e, s') \<Rightarrow> (Inl e, s')
      | (Inr ms, s') \<Rightarrow> pin_document H ''backup-manifest.json'' (stringify2 (manifest_json now_iso ms)) s')"

text \<open>Reading a snapshot back: the manifest, then every file it names.\<close>

definition manifest_entry :: "json \<Rightarrow> (string \<times> string) option" where
  "manifest_entry j =
     (case (json_get ''path'' j, json_get ''cid'' j) of (Some (JStr p), Some (JStr c)) \<Rightarrow> Some (p, c) | _ \<Rightarrow> None)"

definition manifest_files :: "string \<Rightarrow> (string \<times> string) list option" where
  "manifest_files t =
     (case json_parse t of
        None \<Rightarrow> None
      | Some j \<Rightarrow> (case json_get ''files'' j of Some (JArr vs) \<Rightarrow> those (map manifest_entry vs) | _ \<Rightarrow> None))"

fun fetch_files :: "'b helia \<Rightarrow> (string \<times> string) list \<Rightarrow> 'b option \<Rightarrow> (string \<times> string) list result" where
  "fetch_files H [] s = Inr []"
| "fetch_files H ((p, c) # ms) s =
     bind_result (get_document H c s) (\<lambda>d. bind_result (fetch_files H ms s) (\<lambda>fs. Inr ((p, d) # fs)))"

definition restore :: "'b helia \<Rightarrow> string \<Rightarrow> 'b option \<Rightarrow> (string \<times> string) list result" where
  "restore H cid s =
     bind_result (get_document H cid s) (\<lambda>t.
       case manifest_files t of None \<Rightarrow> throw ''bad manifest'' | Some ms \<Rightarrow> fetch_files H ms s)"

section \<open>A snapshot can be read back\<close>

lemma manifest_roundtrip: "manifest_files (stringify2 (manifest_json now_iso ms)) = Some ms"
proof -
  have "json_plain (manifest_json now_iso ms)" by (auto simp: manifest_json_def list_all_iff)
  then have "json_parse (stringify2 (manifest_json now_iso ms)) = Some (manifest_json now_iso ms)" by (rule json_roundtrip)
  moreover have "those (map (manifest_entry \<circ> (\<lambda>(p, c). JObj [(''path'', JStr p), (''cid'', JStr c)])) ms) = Some ms"
    by (induction ms) (auto simp: manifest_entry_def)
  ultimately show ?thesis by (simp add: manifest_files_def manifest_json_def comp_def)
qed

context helia_store
begin

lemma pin_files_keep:
  "pin_files H fs s = (r, s') \<Longrightarrow> get_document H k s = Inr d \<Longrightarrow> get_document H k s' = Inr d"
proof (induction fs arbitrary: s r s')
  case (Cons f fs)
  obtain p c where f: "f = (p, c)" by fastforce
  obtain r1 s1 where pin: "pin_document H p c s = (r1, s1)" by fastforce
  have kept: "get_document H k s1 = Inr d" using ipfs_put_keeps [OF pin Cons.prems(2)] .
  show ?case
  proof (cases r1)
    case (Inl e)
    with Cons.prems(1) pin kept show ?thesis by (simp add: f)
  next
    case (Inr cid)
    obtain r2 s2 where rest: "pin_files H fs s1 = (r2, s2)" by fastforce
    with Cons.IH [OF rest kept] Cons.prems(1) pin Inr show ?thesis by (auto simp: f split: sum.splits)
  qed
qed simp

lemma pin_files_fetch:
  "pin_files H fs s = (Inr ms, s') \<Longrightarrow> (\<And>k d. get_document H k s' = Inr d \<Longrightarrow> get_document H k t = Inr d) \<Longrightarrow>
     fetch_files H ms t = Inr fs"
proof (induction fs arbitrary: s ms)
  case (Cons f fs)
  obtain p c where f: "f = (p, c)" by fastforce
  obtain cid s1 ms' where pin: "pin_document H p c s = (Inr cid, s1)" and rest: "pin_files H fs s1 = (Inr ms', s')"
      and ms: "ms = (p, cid) # ms'"
    using Cons.prems(1) by (auto simp: f split: prod.splits sum.splits)
  have "get_document H cid s' = Inr c" using pin_files_keep [OF rest ipfs_put_get [OF pin]] .
  with Cons.prems(2) have "get_document H cid t = Inr c" .
  moreover have "fetch_files H ms' t = Inr fs" by (rule Cons.IH [OF rest Cons.prems(2)])
  ultimately show ?case by (simp add: ms f)
qed simp

lemma pin_files_ok: "\<exists>ms b'. pin_files H fs (Some b) = (Inr ms, Some b')"
proof (induction fs arbitrary: b)
  case (Cons f fs)
  obtain p c where f: "f = (p, c)" by fastforce
  obtain cid b1 where "h_add H p c b = (cid, b1)" by fastforce
  with Cons.IH [of b1] show ?case by (auto simp: f pin_document_def)
qed simp

lemma backup_restore:
  "\<exists>cid s'. backup H b now_iso (Some dir) s = (Inr cid, s') \<and> restore H cid s' = Inr (json_files dir)"
proof -
  obtain ms b1 where pin: "pin_files H (json_files dir) (Some b) = (Inr ms, Some b1)" using pin_files_ok by blast
  obtain cid s' where man: "pin_document H ''backup-manifest.json'' (stringify2 (manifest_json now_iso ms)) (Some b1) = (Inr cid, s')"
    by (cases "h_add H ''backup-manifest.json'' (stringify2 (manifest_json now_iso ms)) b1") (simp add: pin_document_def)
  have "get_document H k (Some b1) = Inr d \<Longrightarrow> get_document H k s' = Inr d" for k d using ipfs_put_keeps [OF man] .
  then have "fetch_files H ms s' = Inr (json_files dir)" by (rule pin_files_fetch [OF pin])
  moreover have "get_document H cid s' = Inr (stringify2 (manifest_json now_iso ms))" using ipfs_put_get [OF man] .
  moreover have "backup H b now_iso (Some dir) s = (Inr cid, s')" by (simp add: backup_def ipfs_init_def pin man)
  ultimately show ?thesis by (intro exI [of _ cid] exI [of _ s']) (simp add: restore_def manifest_roundtrip)
qed

end

section \<open>Properties\<close>



text \<open>
  The snapshot does not outlive the script: the blocks are kept in memory, so a node started later, with its empty store, has
  none of them, and the printed identifier cannot be read.
\<close>

lemma backup_gone: "restore helia_mem cid (ipfs_init [] s) = Inl ''block not found''"
  by (simp add: restore_def get_document_def ipfs_init_def helia_mem_def throw_def)

end
