(* ===== verification/Web_Pages.thy ===== *)
theory Web_Pages
  imports Web_Client Tally
begin

text \<open>
  What the pages of the web client other than the voting page show: the receipt page, the audit page, the admin dashboard and
  its policies and proposals, the home page and the navigation (\<open>src/web/app/\<close>). A view is a function of the page's state; it is
  \<open>None\<close> when rendering throws. Dates as the browser prints them are the parameter \<open>date\<close>; the styling is left out.
\<close>

section \<open>The receipt page\<close>

text \<open>\<open>setResult({ found: true, ...data })\<close>: a member \<open>found\<close> of the answer replaces the flag.\<close>

definition found_flag :: "json \<Rightarrow> bool" where
  "found_flag j = (case json_get ''found'' j of None \<Rightarrow> True | v \<Rightarrow> js_truthy v)"

definition verify_rows :: "(json option \<Rightarrow> string) \<Rightarrow> json \<Rightarrow> widget list option" where
  "verify_rows date j =
     (if list_all (\<lambda>k. child_ok k j) [''txHash'', ''blockNumber'', ''policyId'', ''nullifier'']
      then Some [Label ''Vote confirmed on-chain'', Row ''Transaction'' (json_get ''txHash'' j), Row ''Block'' (json_get ''blockNumber'' j),
                 Row ''Policy'' (json_get ''policyId'' j), Row ''Nullifier'' (json_get ''nullifier'' j),
                 Row ''Timestamp'' (Some (JStr (if js_truthy (json_get ''timestamp'' j) then date (json_get ''timestamp'' j)
                                               else [CHR 0xE2, CHR 0x80, CHR 0x94])))]
      else None)"

definition verify_view :: "(json option \<Rightarrow> string) \<Rightarrow> verify_page \<Rightarrow> widget list option" where
  "verify_view date w =
     map_option (\<lambda>us. [Label ''Verify Your Vote''] @ (if vr_error w = [] then [] else [Label (vr_error w)]) @ us)
       (case vr_shown w of
          None \<Rightarrow> Some []
        | Some None \<Rightarrow> Some [Label ''Transaction not found on this network. Check the hash and try again.'']
        | Some (Some j) \<Rightarrow>
            if found_flag j then verify_rows date j
            else Some [Label ''Transaction not found on this network. Check the hash and try again.''])"

section \<open>The audit page\<close>

definition BADGES :: "(string \<times> string) list" where
  "BADGES = [(''open'', ''badge-open''), (''closed'', ''badge-closed''), (''tallying'', ''badge-tallying''), (''finalised'', ''badge-final'')]"

definition badge_class :: "json option \<Rightarrow> string" where
  "badge_class st =
     ''badge '' @ (case obj_get BADGES (template st) of Own c \<Rightarrow> c | Inherited f \<Rightarrow> f | Undefined \<Rightarrow> [])"

text \<open>
  JavaScript's arithmetic on what the server sends: \<open>total > 0\<close> and \<open>Math.round((count / total) * 100)\<close> in floating point. For
  whole numbers the rounding is within half a point, in either direction when the quotient lies between two points.
\<close>

record js_arith =
  positive :: "json option \<Rightarrow> bool"
  percent :: "json option \<Rightarrow> json option \<Rightarrow> int"

definition js_arith_ok :: "js_arith \<Rightarrow> bool" where
  "js_arith_ok A \<longleftrightarrow>
     (\<forall>n. positive A (Some (JNum n)) \<longleftrightarrow> 0 < n) \<and>
     (\<forall>k n. 0 \<le> k \<longrightarrow> k \<le> n \<longrightarrow> 0 < n \<longrightarrow>
        2 * n * percent A (Some (JNum k)) (Some (JNum n)) \<le> 200 * k + n \<and>
        200 * k \<le> 2 * n * percent A (Some (JNum k)) (Some (JNum n)) + n)"

record tally_bar =
  tb_label :: string
  tb_count :: "json option"
  tb_percent :: int
  tb_max :: "json option"

definition tally_bar_of :: "js_arith \<Rightarrow> string \<Rightarrow> json option \<Rightarrow> json option \<Rightarrow> tally_bar" where
  "tally_bar_of A label k n =
     \<lparr>tb_label = label, tb_count = k, tb_percent = (if positive A n then percent A k n else 0),
      tb_max = (if js_truthy n then n else Some (JNum 1))\<rparr>"

definition tally_bars :: "js_arith \<Rightarrow> json \<Rightarrow> tally_bar list" where
  "tally_bars A t =
     map (\<lambda>(label, k). tally_bar_of A label (json_get k t) (json_get ''total'' t))
       [(''Support'', ''support''), (''Oppose'', ''oppose''), (''Abstain'', ''abstain'')]"

record audit_row =
  ar_title :: "json option"
  ar_id :: "json option"
  ar_country :: "json option"
  ar_badge :: "string \<times> json option"
  ar_document :: "(string \<times> json) option"
  ar_tally :: "(tally_bar list \<times> json option) option"

text \<open>\<open>documentCid.slice(0, 20)\<close>, on a string or an array; any other value has no such method.\<close>

definition sliced :: "nat \<Rightarrow> json \<Rightarrow> json option" where
  "sliced n j = (case j of JStr t \<Rightarrow> Some (JStr (take n t)) | JArr vs \<Rightarrow> Some (JArr (take n vs)) | _ \<Rightarrow> None)"

definition document_link :: "nat \<Rightarrow> json option \<Rightarrow> (string \<times> json) option option" where
  "document_link n cid =
     (if js_truthy cid
      then (case sliced n (the cid) of
              None \<Rightarrow> None
            | Some j \<Rightarrow> if renders j then Some (Some (''/api/v1/ipfs/'' @ template cid, j)) else None)
      else Some None)"

definition policy_row :: "js_arith \<Rightarrow> 's fetch_fn \<Rightarrow> json \<Rightarrow> 's \<Rightarrow> audit_row option \<times> 's" where
  "policy_row A fetch p s =
     (if p = JNull then (None, s)
      else (case audit_tally fetch (template (json_get ''id'' p)) s of
        (t, s') \<Rightarrow>
          ((case document_link 20 (json_get ''documentCid'' p) of
              None \<Rightarrow> None
            | Some doc \<Rightarrow>
                if \<not> list_all (\<lambda>k. child_ok k p) [''title'', ''id'', ''countryCode'', ''status''] then None
                else if js_truthy t \<and> \<not> list_all (\<lambda>k. child_ok k (the t)) [''support'', ''oppose'', ''abstain'', ''total''] then None
                else Some \<lparr>ar_title = json_get ''title'' p, ar_id = json_get ''id'' p, ar_country = json_get ''countryCode'' p,
                           ar_badge = (badge_class (json_get ''status'' p), json_get ''status'' p), ar_document = doc,
                           ar_tally = (if js_truthy t then Some (tally_bars A (the t), json_get ''total'' (the t)) else None)\<rparr>),
           s')))"

fun policy_rows :: "js_arith \<Rightarrow> 's fetch_fn \<Rightarrow> json list \<Rightarrow> 's \<Rightarrow> audit_row list option \<times> 's" where
  "policy_rows A fetch [] s = (Some [], s)"
| "policy_rows A fetch (p # ps) s =
     (case policy_row A fetch p s of
        (None, s') \<Rightarrow> (None, s')
      | (Some r, s') \<Rightarrow> (case policy_rows A fetch ps s' of (rs, s'') \<Rightarrow> (map_option (Cons r) rs, s'')))"

text \<open>No rows is the card ``No policies found''.\<close>

definition audit_page :: "js_arith \<Rightarrow> 's fetch_fn \<Rightarrow> 's \<Rightarrow> audit_row list option \<times> 's" where
  "audit_page A fetch s =
     (case audit_policies fetch s of
        (ps, s') \<Rightarrow>
          if length_zero ps then (Some [], s')
          else (case ps of JArr vs \<Rightarrow> policy_rows A fetch vs s' | _ \<Rightarrow> (None, s')))"

section \<open>The admin pages\<close>

record stat_card =
  sc_label :: string
  sc_value :: nat
  sc_accent :: bool

definition stat_cards :: "dashboard \<Rightarrow> stat_card list" where
  "stat_cards d =
     [\<lparr>sc_label = ''Total Policies'', sc_value = policy_count d, sc_accent = False\<rparr>,
      \<lparr>sc_label = ''Open Policies'', sc_value = open_count d, sc_accent = True\<rparr>,
      \<lparr>sc_label = ''Countries'', sc_value = country_count d, sc_accent = False\<rparr>]"

definition QUICK_LINKS :: "(string \<times> string) list" where
  "QUICK_LINKS = [(''/admin/policies'', ''Manage Policies''), (''/admin/voters'', ''Voter Roll''), (''/admin/dao'', ''DAO Proposals'')]"

text \<open>The page of the policies: its state, what it loads when it opens, the form and the table.\<close>

record admin_page =
  ap_policies :: json
  ap_loading :: bool
  ap_form :: bool
  ap_error :: string
  ap_success :: string

definition admin_start :: admin_page where
  "admin_start = \<lparr>ap_policies = JArr [], ap_loading = True, ap_form = False, ap_error = [], ap_success = []\<rparr>"

definition admin_fetch :: "'s fetch_fn \<Rightarrow> admin_page \<Rightarrow> 's \<Rightarrow> admin_page \<times> 's" where
  "admin_fetch fetch w s =
     (case fetch_json fetch HTTP_GET ''/api/v1/policy'' [] s of
        (Inl e, s') \<Rightarrow> (w\<lparr>ap_loading := False\<rparr>, s')
      | (Inr j, s') \<Rightarrow> (w\<lparr>ap_policies := j, ap_loading := False\<rparr>, s'))"

definition admin_toggle :: "admin_page \<Rightarrow> admin_page" where
  "admin_toggle w = w\<lparr>ap_form := \<not> ap_form w\<rparr>"

definition admin_submit :: "'s fetch_fn \<Rightarrow> (string \<Rightarrow> string \<Rightarrow> string) \<Rightarrow> int \<Rightarrow> policy_form \<Rightarrow> admin_page \<Rightarrow> 's \<Rightarrow> admin_page \<times> 's" where
  "admin_submit fetch multipart ms f w s =
     (case create_policy fetch multipart ms f s of
        (Form_Error e, s') \<Rightarrow> (w\<lparr>ap_error := e, ap_success := []\<rparr>, s')
      | (Form_Thrown e, s') \<Rightarrow> (w\<lparr>ap_error := [], ap_success := []\<rparr>, s')
      | (Form_Success t, s') \<Rightarrow> admin_fetch fetch (w\<lparr>ap_error := [], ap_success := t, ap_form := False\<rparr>) s')"

record admin_row =
  ad_id :: "json option"
  ad_title :: "json option"
  ad_country :: "json option"
  ad_status :: "string \<times> json option"
  ad_closes :: string
  ad_cid :: string

definition cid_cell :: "json option \<Rightarrow> string option" where
  "cid_cell cid =
     (if js_truthy cid then map_option (\<lambda>j. dots (js_string j)) (sliced 16 (the cid)) else Some [CHR 0xE2, CHR 0x80, CHR 0x94])"

definition admin_row_of :: "(json option \<Rightarrow> string) \<Rightarrow> json \<Rightarrow> admin_row option" where
  "admin_row_of date p =
     (if p = JNull \<or> \<not> list_all (\<lambda>k. child_ok k p) [''id'', ''title'', ''countryCode'', ''status''] then None
      else map_option (\<lambda>c.
        \<lparr>ad_id = json_get ''id'' p, ad_title = json_get ''title'' p, ad_country = json_get ''countryCode'' p,
         ad_status = (''badge badge-'' @ template (json_get ''status'' p), json_get ''status'' p),
         ad_closes = date (json_get ''closesAt'' p), ad_cid = c\<rparr>) (cid_cell (json_get ''documentCid'' p)))"

text \<open>The button, the two messages, whether the form shows, and the table (none while it loads).\<close>

definition admin_view ::
  "(json option \<Rightarrow> string) \<Rightarrow> admin_page \<Rightarrow> (string \<times> string list \<times> bool \<times> admin_row list option) option" where
  "admin_view date w =
     map_option (\<lambda>t. (if ap_form w then ''Cancel'' else ''New Policy'', filter (\<lambda>m. m \<noteq> []) [ap_error w, ap_success w], ap_form w, t))
       (if ap_loading w then Some None
        else (case ap_policies w of JArr vs \<Rightarrow> map_option Some (those (map (admin_row_of date) vs)) | _ \<Rightarrow> None))"

text \<open>The proposals.\<close>

definition STATE_LABELS :: "(nat \<times> string) list" where
  "STATE_LABELS =
     [(0, ''Pending''), (1, ''Active''), (2, ''Canceled''), (3, ''Defeated''), (4, ''Succeeded''), (5, ''Queued''), (6, ''Expired''), (7, ''Executed'')]"

definition state_label :: "json option \<Rightarrow> json option" where
  "state_label st =
     (case obj_get (map (\<lambda>(i, l). (nat_str i, l)) STATE_LABELS) (template st) of
        Own l \<Rightarrow> Some (JStr l) | Inherited f \<Rightarrow> (if template st = ''__proto__'' then Some (JObj []) else None) | Undefined \<Rightarrow> st)"

record proposal_row =
  pp_id :: json
  pp_description :: "json option"
  pp_state :: "json option"
  pp_for :: "json option"
  pp_against :: "json option"

definition proposal_row_of :: "json \<Rightarrow> proposal_row option" where
  "proposal_row_of p =
     (case json_get ''proposalId'' p of
        None \<Rightarrow> None
      | Some i \<Rightarrow>
          (case sliced 16 i of
             None \<Rightarrow> None
           | Some j \<Rightarrow>
               if renders j \<and> list_all (\<lambda>k. child_ok k p) [''description'', ''forVotes'', ''againstVotes''] \<and>
                  (case state_label (json_get ''state'' p) of None \<Rightarrow> True | Some l \<Rightarrow> renders l)
               then Some \<lparr>pp_id = j, pp_description = json_get ''description'' p, pp_state = state_label (json_get ''state'' p),
                          pp_for = json_get ''forVotes'' p, pp_against = json_get ''againstVotes'' p\<rparr>
               else None))"

text \<open>No row is the card ``No proposals found.''\<close>

definition dao_view :: "json list \<Rightarrow> proposal_row list option" where
  "dao_view ps = those (map proposal_row_of ps)"

section \<open>The links\<close>

definition WEB_PAGES :: "string list" where
  "WEB_PAGES = [''/'', ''/audit'', ''/verify'', ''/vote'', ''/privacy'', ''/admin'', ''/admin/policies'', ''/admin/dao'']"

definition HOME_LINKS :: "(string \<times> string) list" where
  "HOME_LINKS = [(''/audit'', ''Audit Trail''), (''/verify'', ''Verify Receipt''), (''/vote'', ''Vote Online'')]"

definition NAV_LINKS :: "(string \<times> string) list" where
  "NAV_LINKS = [(''/'', ''TheVoteApp''), (''/audit'', ''Audit Trail''), (''/verify'', ''Verify Receipt'')]"

definition ADMIN_NAV :: "(string \<times> string) list" where
  "ADMIN_NAV =
     [(''/admin'', ''Dashboard''), (''/admin/policies'', ''Policies''), (''/admin/voters'', ''Voter Roll''), (''/admin/dao'', ''DAO Proposals'')]"

text \<open>One link leads nowhere: there is no page for the voter roll.\<close>

lemma dangling_links:
  "filter (\<lambda>l. fst l \<notin> set WEB_PAGES) (HOME_LINKS @ NAV_LINKS @ ADMIN_NAV @ QUICK_LINKS) =
     [(''/admin/voters'', ''Voter Roll''), (''/admin/voters'', ''Voter Roll'')]"
  by (simp add: WEB_PAGES_def HOME_LINKS_def NAV_LINKS_def ADMIN_NAV_def QUICK_LINKS_def)

section \<open>What the server's policies look like on the pages\<close>

lemma listed_policy_gets:
  "json_get ''documentCid'' (listed_policy_json pc) = None" "json_get ''status'' (listed_policy_json pc) = None"
  "json_get ''title'' (listed_policy_json pc) = Some (JStr (pc_title (fst pc)))"
  "json_get ''countryCode'' (listed_policy_json pc) = Some (JStr (snd pc))"
  "json_get ''closesAt'' (listed_policy_json pc) = None" "listed_policy_json pc \<noteq> JNull"
  by (cases pc; auto simp: listed_policy_json_def policy_members_def optional_json_def split: option.splits)+

definition row_shows :: "policy_config \<times> string \<Rightarrow> audit_row \<Rightarrow> bool" where
  "row_shows pc r \<longleftrightarrow>
     ar_id r = Some (JStr (pc_id (fst pc))) \<and> ar_title r = Some (JStr (pc_title (fst pc))) \<and> ar_country r = Some (JStr (snd pc)) \<and>
     ar_document r = None \<and> ar_badge r = (''badge '', None)"

lemma policy_row_listed:
  assumes "policy_row A fetch (listed_policy_json pc) s = (Some r, s')"
  shows "row_shows pc r"
proof -
  have "badge_class None = ''badge ''" by (simp add: badge_class_def template_def obj_get_def BADGES_def object_prototype_def)
  with assms show ?thesis
    by (auto simp: row_shows_def policy_row_def listed_policy_gets listed_policy_id document_link_def js_truthy_def split: prod.splits if_splits)
qed

lemma policy_rows_listed:
  "policy_rows A fetch (map listed_policy_json pcs) s = (Some rs, s') \<Longrightarrow>
     list_all2 row_shows pcs rs"
proof (induction pcs arbitrary: s rs)
  case (Cons pc pcs)
  obtain ro s1 where row: "policy_row A fetch (listed_policy_json pc) s = (ro, s1)" by fastforce
  with Cons.prems obtain r where ro: "ro = Some r" by (cases ro) auto
  obtain rso s2 where rows: "policy_rows A fetch (map listed_policy_json pcs) s1 = (rso, s2)" by fastforce
  from Cons.prems row ro rows obtain rs' where "rso = Some rs'" "rs = r # rs'" "s2 = s'" by auto
  with policy_row_listed [of A fetch pc s r s1] row ro Cons.IH [of s1 rs'] rows show ?case by simp
qed simp

lemma rows_shown:
  "list_all2 row_shows pcs rows \<Longrightarrow>
     map ar_id rows = map (\<lambda>pc. Some (JStr (pc_id (fst pc)))) pcs \<and> map ar_country rows = map (\<lambda>pc. Some (JStr (snd pc))) pcs \<and>
     list_all (\<lambda>r. ar_document r = None \<and> ar_badge r = (''badge '', None)) rows"
  by (induction pcs rows rule: list_all2_induct) (simp_all add: row_shows_def)

lemma policies_page_served:
  "serve H page HTTP_GET ''/api/v1/policy'' raw s = H ''policies'' [] [] raw s"
proof -
  have "segments ''/api/v1/policy'' = [''api'', ''v1'', ''policy'']" by (simp add: segments_def)
  then show ?thesis by (simp add: serve_def find_route_def ROUTES_def lits_def query_of_def)
qed

lemma audit_policies_served:
  assumes "H ''policies'' = (\<lambda>ps q raw s. (policies_handler collate (policy_query q) m, s))" "policy_query [] = None"
  shows "audit_policies (online H page) s = (JArr (map listed_policy_json (all_policies collate m)), s)"
proof -
  let ?j = "JArr (map listed_policy_json (all_policies collate m))"
  have "json_plain ?j" by (simp add: list_all_iff listed_policy_plain)
  then have "json_parse (stringify ?j) = Some ?j" by (rule json_roundtrip)
  then show ?thesis
    by (simp add: audit_policies_def online_def policies_page_served assms policies_handler_def json_res_def read_json_def body_text_def res_ok_def)
qed

section \<open>Properties\<close>

text \<open>
  The receipt page on the server's answer: for every transaction the node knows, a reverted one too, it says ``Vote confirmed
  on-chain'' and shows the block, while the rows for the transaction, the policy and the nullifier are empty, because the
  server sends none of the members they read.
\<close>

theorem verify_page_confirms:
  assumes "H ''vote receipt'' = (\<lambda>ps q raw s. (receipt_route lookup (hd ps), s))"
    and "hex_of_length 64 tx" "lookup tx = Inr (Some r)" "nat \<bar>cr_block r\<bar> \<le> max_safe"
  shows "verify_view date (fst (verify_receipt (online H page) tx w s)) =
    Some [Label ''Verify Your Vote'', Label ''Vote confirmed on-chain'', Row ''Transaction'' None, Row ''Block'' (Some (JNum (cr_block r))),
          Row ''Policy'' None, Row ''Nullifier'' None, Row ''Timestamp'' (Some (JStr [CHR 0xE2, CHR 0x80, CHR 0x94]))]"
  by (subst verify_shows [where H = H and lookup = lookup and w = w, OF assms])
    (simp add: verify_view_def verify_rows_def found_flag_def node_receipt_json_def child_ok_def js_truthy_def)

theorem verify_page_confirms_witness:
  "verify_view (\<lambda>d. ''now'') (fst (verify_receipt (online (\<lambda>h ps q raw s. (receipt_route
       (\<lambda>t. Inr (Some \<lparr>cr_hash = t, cr_block = 7, cr_status = 0\<rparr>)) (hd ps), s)) no_page)
       (''0x'' @ replicate 64 (CHR ''a'')) \<lparr>vr_shown = None, vr_error = []\<rparr> ())) =
    Some [Label ''Verify Your Vote'', Label ''Vote confirmed on-chain'', Row ''Transaction'' None, Row ''Block'' (Some (JNum 7)),
          Row ''Policy'' None, Row ''Nullifier'' None, Row ''Timestamp'' (Some (JStr [CHR 0xE2, CHR 0x80, CHR 0x94]))]"
proof -
  let ?lookup = "\<lambda>t. Inr (Some \<lparr>cr_hash = t, cr_block = 7, cr_status = 0\<rparr>)"
  let ?H = "(\<lambda>h ps q raw s. (receipt_route ?lookup (hd ps), s)) :: unit handlers"
  define tx where "tx = ''0x'' @ replicate 64 (CHR ''a'')"
  have "hex_of_length 64 tx"
    by (simp add: tx_def hex_of_length_def starts_with_def list_all_iff is_hex_def code_def)
  from verify_page_confirms [where H = ?H and lookup = ?lookup and page = no_page and s = "()" and date = "\<lambda>d. ''now''" and
      w = "\<lparr>vr_shown = None, vr_error = []\<rparr>" and r = "\<lparr>cr_hash = tx, cr_block = 7, cr_status = 0\<rparr>", OF _ this]
  show ?thesis unfolding tx_def [symmetric] by (simp add: max_safe_def)
qed

text \<open>
  The audit page lists the server's policies, each once and in their order, but of none the document: every row has an
  empty status and no link, though the policies have documents, because the page reads other members than the server sends.
\<close>

theorem audit_page_rows:
  assumes "H ''policies'' = (\<lambda>ps q raw s. (policies_handler collate (policy_query q) m, s))" "policy_query [] = None"
    and "fst (audit_page A (online H page) s) = Some rows"
  shows "map ar_id rows = map (\<lambda>pc. Some (JStr (pc_id (fst pc)))) (all_policies collate m) \<and>
    map ar_country rows = map (\<lambda>pc. Some (JStr (snd pc))) (all_policies collate m) \<and>
    list_all (\<lambda>r. ar_document r = None \<and> ar_badge r = (''badge '', None)) rows"
proof -
  let ?all = "all_policies collate m"
  note served = audit_policies_served [where H = H and collate = collate and m = m and policy_query = policy_query and s = s and page = page,
      OF assms(1,2)]
  have "list_all2 row_shows ?all rows"
  proof (cases "?all = []")
    case True
    with assms(3) show ?thesis
      by (simp add: audit_page_def served length_zero_def)
  next
    case False
    obtain rs s' where rows: "policy_rows A (online H page) (map listed_policy_json ?all) s = (rs, s')" by fastforce
    with assms(3) False have "rs = Some rows"
      by (simp add: audit_page_def served length_zero_def)
    then show ?thesis using policy_rows_listed [of A "online H page" ?all s rows s'] rows by simp
  qed
  then show ?thesis by (rule rows_shown)
qed

definition demo_audit :: "unit handlers" where
  "demo_audit h ps q raw s =
     (if h = ''policies'' then policies_handler (\<lambda>a b. 0) None [(''GB'', demo_country)] else json_res 404 (error_json ''Policy not found''), s)"

lemma demo_audit_tally: "audit_tally (online demo_audit no_page) ''gb-nhs-reform-2026'' () = (None, ())"
proof -
  have "find_route HTTP_GET ''/api/v1/policy/gb-nhs-reform-2026/results'' =
      Some (HTTP_GET, api ''policy'' @ [Param, Lit ''results''], ''policy results'')" by code_simp
  then show ?thesis by (simp add: audit_tally_def online_def serve_def demo_audit_def res_ok_def throw_def)
qed

theorem audit_page_rows_witness:
  "\<exists>rows. fst (audit_page A (online demo_audit no_page) ()) = Some rows \<and>
     map ar_id rows = [Some (JStr ''gb-nhs-reform-2026'')] \<and> map ar_document rows = [None]"
proof -
  have all: "all_policies (\<lambda>a b. 0) [(''GB'', demo_country)] = [(demo_policy, ''GB'')]"
    by (simp add: all_policies_def get_all_countries_def sort_cmp_def demo_country_def)
  have h: "demo_audit ''policies'' = (\<lambda>ps q raw s. (policies_handler (\<lambda>a b. 0) ((\<lambda>_. None) q) [(''GB'', demo_country)], s))"
    by (simp add: demo_audit_def fun_eq_iff)
  note served = audit_policies_served [where H = demo_audit and collate = "\<lambda>a b. 0" and m = "[(''GB'', demo_country)]" and
      policy_query = "\<lambda>_. None" and s = "()" and page = no_page, OF h refl]
  let ?p = "listed_policy_json (demo_policy, ''GB'')"
  have "\<exists>r. policy_row A (online demo_audit no_page) ?p () = (Some r, ())"
    using demo_audit_tally
    by (simp add: policy_row_def listed_policy_gets listed_policy_id document_link_def js_truthy_def child_ok_def template_def demo_policy_def)
  then obtain r where "policy_row A (online demo_audit no_page) ?p () = (Some r, ())" ..
  then have page: "fst (audit_page A (online demo_audit no_page) ()) = Some [r]"
    by (simp add: audit_page_def served all length_zero_def)
  from audit_page_rows [where H = demo_audit and collate = "\<lambda>a b. 0" and m = "[(''GB'', demo_country)]" and policy_query = "\<lambda>_. None",
      OF h refl page] page all
  show ?thesis by (auto simp: demo_policy_def)
qed

definition exact_arith :: js_arith where
  "exact_arith =
     \<lparr>positive = (\<lambda>n. case n of Some (JNum i) \<Rightarrow> 0 < i | _ \<Rightarrow> False),
      percent = (\<lambda>k n. case (k, n) of (Some (JNum a), Some (JNum b)) \<Rightarrow> (200 * a + b) div (2 * b) | _ \<Rightarrow> 0)\<rparr>"

lemma exact_arith_ok: "js_arith_ok exact_arith"
proof -
  have "2 * n * ((200 * k + n) div (2 * n)) \<le> 200 * k + n \<and> 200 * k \<le> 2 * n * ((200 * k + n) div (2 * n)) + n" if "0 < n" for k n :: int
  proof -
    have "(200 * k + n) = 2 * n * ((200 * k + n) div (2 * n)) + (200 * k + n) mod (2 * n)" by simp
    moreover have "0 \<le> (200 * k + n) mod (2 * n)" "(200 * k + n) mod (2 * n) < 2 * n" using that by simp_all
    ultimately show ?thesis by linarith
  qed
  then show ?thesis by (simp add: js_arith_ok_def exact_arith_def)
qed

lemma tally_gets:
  assumes "set (stray t) \<inter> {''support'', ''oppose'', ''abstain'', ''total''} = {}"
  shows "json_get ''support'' (tally_json t) = Some (JNum (support t))" "json_get ''oppose'' (tally_json t) = Some (JNum (oppose t))"
    "json_get ''abstain'' (tally_json t) = Some (JNum (abstain t))" "json_get ''total'' (tally_json t) = Some (JNum (total t))"
proof -
  have "map_of (rev (map (\<lambda>n. (n, JNull)) (stray t))) k = None" if "k \<notin> set (stray t)" for k
    using that by (auto simp: map_of_eq_None_iff)
  then show "json_get ''support'' (tally_json t) = Some (JNum (support t))" "json_get ''oppose'' (tally_json t) = Some (JNum (oppose t))"
    "json_get ''abstain'' (tally_json t) = Some (JNum (abstain t))" "json_get ''total'' (tally_json t) = Some (JNum (total t))"
    using assms by (simp_all add: tally_json_def tally_members_def map_add_def)
qed

text \<open>
  The bars of a tally: when its three counters make up its total, each bar is between 0 and 100 per cent, and the three add
  up to 100 within one point, whichever way JavaScript rounds a quotient that lies between two points.
\<close>

theorem tally_bars_add_up:
  assumes "js_arith_ok A" "0 < total t" "0 \<le> support t" "0 \<le> oppose t" "0 \<le> abstain t"
    and "support t + oppose t + abstain t = total t"
    and "set (stray t) \<inter> {''support'', ''oppose'', ''abstain'', ''total''} = {}"
  shows "list_all (\<lambda>b. 0 \<le> tb_percent b \<and> tb_percent b \<le> 100) (tally_bars A (tally_json t)) \<and>
    99 \<le> sum_list (map tb_percent (tally_bars A (tally_json t))) \<and> sum_list (map tb_percent (tally_bars A (tally_json t))) \<le> 101"
proof -
  let ?n = "total t"
  define p where "p k = percent A (Some (JNum k)) (Some (JNum ?n))" for k
  have pos: "positive A (Some (JNum ?n))" using assms(1,2) by (simp add: js_arith_ok_def)
  have law: "2 * ?n * p k \<le> 200 * k + ?n \<and> 200 * k \<le> 2 * ?n * p k + ?n" if "0 \<le> k" "k \<le> ?n" for k
    using assms(1,2) that by (simp add: js_arith_ok_def p_def)
  have each: "0 \<le> p k \<and> p k \<le> 100" if "0 \<le> k" "k \<le> ?n" for k
  proof -
    have "?n * (2 * p k) \<le> ?n * 201" "?n * (- 1) \<le> ?n * (2 * p k)" using law [OF that] that by (simp_all add: algebra_simps)
    then have "2 * p k \<le> 201" "- 1 \<le> 2 * p k" using assms(2) by (simp_all only: mult_le_cancel_left_pos)
    then show ?thesis by linarith
  qed
  have bars: "map tb_percent (tally_bars A (tally_json t)) = [p (support t), p (oppose t), p (abstain t)]"
    by (simp add: tally_bars_def tally_bar_of_def tally_gets [OF assms(7)] pos p_def)
  let ?S = "p (support t) + p (oppose t) + p (abstain t)"
  have "?n * (2 * ?S) \<le> ?n * 203" "?n * 197 \<le> ?n * (2 * ?S)"
    using law [of "support t"] law [of "oppose t"] law [of "abstain t"] assms(3-6) by (simp_all add: algebra_simps)
  then have "2 * ?S \<le> 203" "197 \<le> 2 * ?S" using assms(2) by (simp_all only: mult_le_cancel_left_pos)
  moreover have "list_all (\<lambda>x. 0 \<le> x \<and> x \<le> 100) (map tb_percent (tally_bars A (tally_json t)))"
    unfolding bars using each assms(3-6) by simp
  then have "list_all (\<lambda>b. 0 \<le> tb_percent b \<and> tb_percent b \<le> 100) (tally_bars A (tally_json t))"
    by (simp add: list.pred_map comp_def)
  ultimately show ?thesis unfolding bars by simp
qed

theorem tally_bars_add_up_witness:
  "map tb_percent (tally_bars exact_arith (tally_json ((empty_tally ''p'')\<lparr>support := 1, oppose := 1, abstain := 1, total := 3\<rparr>))) = [33, 33, 33] \<and>
   99 \<le> sum_list (map tb_percent (tally_bars exact_arith (tally_json ((empty_tally ''p'')\<lparr>support := 1, oppose := 1, abstain := 1, total := 3\<rparr>))))"
  using tally_bars_add_up [OF exact_arith_ok, of "(empty_tally ''p'')\<lparr>support := 1, oppose := 1, abstain := 1, total := 3\<rparr>"]
  by (simp add: empty_tally_def tally_bars_def tally_bar_of_def tally_json_def tally_members_def exact_arith_def)

end
