(* ===== verification/Redis_Client.thy ===== *)
theory Redis_Client
  imports Prelude
begin

text \<open>
  \<open>redis/RedisClient.ts\<close>: the module variable \<open>_client\<close> and its two functions. A client of ioredis is known here by the number of
  its construction; \<open>quit\<close> is what the package answers to \<open>quit()\<close> on it.
\<close>

record redis_module =
  rm_client :: "nat option"
  rm_created :: nat

definition redis_fresh :: redis_module where
  "redis_fresh = \<lparr>rm_client = None, rm_created = 0\<rparr>"

definition get_redis :: "redis_module \<Rightarrow> nat \<times> redis_module" where
  "get_redis m =
     (case rm_client m of
        Some c \<Rightarrow> (c, m)
      | None \<Rightarrow> (rm_created m, m\<lparr>rm_client := Some (rm_created m), rm_created := rm_created m + 1\<rparr>))"

definition close_redis :: "(nat \<Rightarrow> unit result) \<Rightarrow> redis_module \<Rightarrow> unit result \<times> redis_module" where
  "close_redis quit m =
     (case rm_client m of
        None \<Rightarrow> (Inr (), m)
      | Some c \<Rightarrow> (case quit c of Inl e \<Rightarrow> (Inl e, m) | Inr u \<Rightarrow> (Inr (), m\<lparr>rm_client := None\<rparr>)))"

datatype redis_use = Get_Redis | Close_Redis

fun redis_run :: "(nat \<Rightarrow> unit result) \<Rightarrow> redis_use list \<Rightarrow> redis_module \<Rightarrow> nat list \<times> redis_module" where
  "redis_run quit [] m = ([], m)"
| "redis_run quit (Get_Redis # us) m =
     (case get_redis m of (c, m') \<Rightarrow> map_prod (Cons c) (\<lambda>x. x) (redis_run quit us m'))"
| "redis_run quit (Close_Redis # us) m = redis_run quit us (snd (close_redis quit m))"

definition redis_module_ok :: "redis_module \<Rightarrow> bool" where
  "redis_module_ok m \<longleftrightarrow> (case rm_client m of None \<Rightarrow> True | Some c \<Rightarrow> rm_created m = c + 1)"

lemma redis_fresh_ok [simp]: "redis_module_ok redis_fresh"
  by (simp add: redis_module_ok_def redis_fresh_def)

lemma get_redis_ok: "redis_module_ok m \<Longrightarrow> get_redis m = (c, m') \<Longrightarrow> redis_module_ok m' \<and> rm_client m' = Some c"
  by (auto simp: get_redis_def redis_module_ok_def split: option.splits)

text \<open>Every caller until the next close is handed the same client, and a close whose \<open>quit\<close> is refused leaves it in use.\<close>

lemma one_client:
  assumes "rm_client m = Some c"
  shows "list_all (\<lambda>u. u = Get_Redis) us \<Longrightarrow> redis_run quit us m = (replicate (length us) c, m)"
  using assms by (induction us) (auto simp: get_redis_def)

lemma failed_close_keeps:
  assumes "rm_client m = Some c" "quit c = Inl e"
  shows "redis_run quit (Close_Redis # us) m = redis_run quit us m"
  using assms by (simp add: close_redis_def)

text \<open>No client is handed out again once it is closed: the clients of a run never decrease.\<close>

lemma clients_grow:
  assumes "redis_module_ok m"
  shows "sorted (fst (redis_run quit us m)) \<and> (\<forall>c \<in> set (fst (redis_run quit us m)). (case rm_client m of None \<Rightarrow> rm_created m | Some d \<Rightarrow> d) \<le> c)"
  using assms
proof (induction us arbitrary: m)
  case (Cons u us)
  show ?case
  proof (cases u)
    case Get_Redis
    obtain c m' where g: "get_redis m = (c, m')" by fastforce
    have ok: "redis_module_ok m'" "rm_client m' = Some c" using get_redis_ok [OF Cons.prems g] by auto
    have "c = (case rm_client m of None \<Rightarrow> rm_created m | Some d \<Rightarrow> d)" using g by (auto simp: get_redis_def split: option.splits)
    with Cons.IH [OF ok(1)] ok(2) g Get_Redis show ?thesis by auto
  next
    case Close_Redis
    define m' where "m' = snd (close_redis quit m)"
    have "redis_module_ok m'" "(case rm_client m of None \<Rightarrow> rm_created m | Some d \<Rightarrow> d) \<le> (case rm_client m' of None \<Rightarrow> rm_created m' | Some d \<Rightarrow> d)"
      using Cons.prems by (auto simp: m'_def close_redis_def redis_module_ok_def split: option.splits sum.splits)
    with Cons.IH [of m'] Close_Redis show ?thesis by (fastforce simp: m'_def)
  qed
qed simp

end
