(* ===== verification/Server.thy ===== *)
theory Server
  imports App Vote Rate_Limit
begin

text \<open>
  The server as one pipeline (\<open>app.ts\<close>): the parser of JSON bodies, the request log (\<open>middleware/requestLogger.ts\<close>), the
  duration metric (\<open>middleware/metricsMiddleware.ts\<close> with \<open>metrics/MetricsService.ts\<close>), the global limiter, the limiters in
  front of the routers, and the routes of theory \<open>App\<close>. The body parser and the global limiter are packages and parameters;
  so is the application behind the routes. While a router answers, Express shows it the path without the mount path, and so
  do the log and the metric, which look at the request when the answer is finished.
\<close>

section \<open>The mount points\<close>

text \<open>In the order of the calls of \<open>app.use\<close>, with the limiter in front.\<close>

definition MOUNTS :: "(string list \<times> rl_options option) list" where
  "MOUNTS =
     [([''metrics''], None), ([''docs''], None), ([''health''], None), ([''api'', ''v1'', ''countries''], None),
      ([''api'', ''v1'', ''policy''], None), ([''api'', ''v1'', ''vote'', ''qr''], Some vote_limiter),
      ([''api'', ''v1'', ''vote''], Some vote_limiter), ([''api'', ''v1'', ''health'', ''deep''], None), ([''.well-known''], None),
      ([''api'', ''v1'', ''did''], None), ([''api'', ''v1'', ''fido2''], Some fido2_limiter), ([''api'', ''v1'', ''sms''], None),
      ([''api'', ''v1'', ''ussd''], None), ([''api'', ''v1'', ''governance''], None), ([''api'', ''v1'', ''audit''], Some audit_limiter),
      ([''api'', ''v1'', ''notifications''], None), ([''api'', ''v1'', ''ipfs''], None), ([''api'', ''v1'', ''identity''], None),
      ([''api'', ''v1'', ''identity''], None), ([''api'', ''v1'', ''htally''], None)]"

definition under :: "string list \<Rightarrow> string list \<Rightarrow> bool" where
  "under mount ws \<longleftrightarrow> length mount \<le> length ws \<and> map to_lower (take (length mount) ws) = mount"

text \<open>The mounts a request enters, in their order, up to the one whose router answers it; \<open>own\<close> is that one.\<close>

definition own_mount :: "seg list \<Rightarrow> string list" where
  "own_mount ps = (case filter (\<lambda>mt. lits (fst mt) = take (length (fst mt)) ps) MOUNTS of [] \<Rightarrow> [] | mt # _ \<Rightarrow> fst mt)"

definition entered :: "http_method \<Rightarrow> string \<Rightarrow> (string list \<times> rl_options option) list" where
  "entered m url =
     (let all = filter (\<lambda>mt. under (fst mt) (segments url)) MOUNTS
      in case find_route m url of
           None \<Rightarrow> all
         | Some (_, ps, _) \<Rightarrow> takeWhile (\<lambda>mt. fst mt \<noteq> own_mount ps) all @ take 1 (dropWhile (\<lambda>mt. fst mt \<noteq> own_mount ps) all))"

section \<open>What is logged and measured\<close>

definition path_of :: "string \<Rightarrow> string" where
  "path_of url = takeWhile (\<lambda>c. c \<noteq> CHR ''?'') url"

text \<open>\<open>req.path\<close> inside the router mounted at \<open>mount\<close>.\<close>

definition stripped :: "string list \<Rightarrow> string \<Rightarrow> string" where
  "stripped mount url =
     (let r = drop (sum_list (map (\<lambda>w. length w + 1) mount)) (path_of url)
      in if starts_with r ''/'' then r else CHR ''/'' # r)"

text \<open>\<open>req.route?.path ?? req.path\<close>: the path a router declared, or the path of the request.\<close>

datatype route_label = Template "seg list" | Concrete string

definition log_line :: "http_method \<Rightarrow> string \<Rightarrow> nat \<Rightarrow> int \<Rightarrow> json" where
  "log_line m pth st ms =
     JObj [(''method'', JStr (case m of HTTP_GET \<Rightarrow> ''GET'' | HTTP_POST \<Rightarrow> ''POST'' | HTTP_DELETE \<Rightarrow> ''DELETE'')),
           (''path'', JStr pth), (''status'', JNum (int st)), (''ms'', JNum ms)]"

definition HTTP_BUCKETS :: "int list" where
  "HTTP_BUCKETS = [5, 10, 25, 50, 100, 250, 500, 1000, 2500]"

record histogram =
  h_buckets :: "nat list"
  h_count :: nat
  h_sum :: int

definition empty_histogram :: histogram where
  "empty_histogram = \<lparr>h_buckets = map (\<lambda>_. 0) HTTP_BUCKETS, h_count = 0, h_sum = 0\<rparr>"

text \<open>A bucket holds the observations up to its bound, as prom-client exports it.\<close>

definition observe :: "int \<Rightarrow> histogram \<Rightarrow> histogram" where
  "observe v h =
     \<lparr>h_buckets = map2 (\<lambda>b n. if v \<le> b then n + 1 else n) HTTP_BUCKETS (h_buckets h), h_count = h_count h + 1, h_sum = h_sum h + v\<rparr>"

type_synonym series = "(http_method \<times> route_label \<times> nat) \<times> histogram"

fun observe_at :: "http_method \<times> route_label \<times> nat \<Rightarrow> int \<Rightarrow> series list \<Rightarrow> series list" where
  "observe_at k v [] = [(k, observe v empty_histogram)]"
| "observe_at k v ((k', h) # hs) = (if k' = k then (k, observe v h) # hs else (k', h) # observe_at k v hs)"

section \<open>The pipeline\<close>

text \<open>The clock when the request comes and when its answer is finished, and the ticks at which its limiters run.\<close>

record request =
  hr_method :: http_method
  hr_url :: string
  hr_head :: http_req
  hr_raw :: string
  hr_start :: int
  hr_end :: int
  hr_ticks :: "(int \<times> string) list"

record ('g, 's) server =
  sv_global :: 'g
  sv_limits :: zstore
  sv_app :: 's
  sv_log :: "json list"
  sv_series :: "series list"

fun pass_limiters :: "bool \<Rightarrow> (string list \<times> rl_options option) list \<Rightarrow> (int \<times> string) list \<Rightarrow> http_req \<Rightarrow> zstore \<Rightarrow>
    (string list \<times> response) option \<times> zstore" where
  "pass_limiters up [] ts r z = (None, z)"
| "pass_limiters up ((p, None) # ms) ts r z = pass_limiters up ms ts r z"
| "pass_limiters up ((p, Some o') # ms) [] r z = pass_limiters up ms [] r z"
| "pass_limiters up ((p, Some o') # ms) ((t, rand) # ts) r z =
     (case rate_limit o' t rand up r z of
        (Reject hs res, z') \<Rightarrow> (Some (p, res), z')
      | (_, z') \<Rightarrow> pass_limiters up ms ts r z')"

definition global_too_many :: response where
  "global_too_many =
     json_res 429 (error_json (''Too many requests '' @ [CHR 0xE2, CHR 0x80, CHR 0x94] @ '' please wait before submitting again.''))"

text \<open>The answer, with the path and the label its request has when it is finished.\<close>

definition answer ::
  "(http_req \<Rightarrow> 'g \<Rightarrow> bool \<times> 'g) \<Rightarrow> bool \<Rightarrow> 's handlers \<Rightarrow> (http_method \<Rightarrow> string \<Rightarrow> string) \<Rightarrow> request \<Rightarrow> ('g, 's) server \<Rightarrow>
    (response \<times> string \<times> route_label) \<times> ('g, 's) server" where
  "answer glob up H page q sv =
     (let m = hr_method q; url = hr_url q
      in case glob (hr_head q) (sv_global sv) of
           (False, g) \<Rightarrow> ((global_too_many, path_of url, Concrete (path_of url)), sv\<lparr>sv_global := g\<rparr>)
         | (True, g) \<Rightarrow>
             (case pass_limiters up (entered m url) (hr_ticks q) (hr_head q) (sv_limits sv) of
                (Some (p, res), z) \<Rightarrow> ((res, stripped p url, Concrete (stripped p url)), sv\<lparr>sv_global := g, sv_limits := z\<rparr>)
              | (None, z) \<Rightarrow>
                  (case serve H page m url (hr_raw q) (sv_app sv) of
                     (res, s) \<Rightarrow>
                       ((case find_route m url of
                           None \<Rightarrow> (res, path_of url, Concrete (path_of url))
                         | Some (_, ps, _) \<Rightarrow> (res, stripped (own_mount ps) url, Template (drop (length (own_mount ps)) ps))),
                        sv\<lparr>sv_global := g, sv_limits := z, sv_app := s\<rparr>))))"

definition request_logger :: "request \<Rightarrow> string \<Rightarrow> nat \<Rightarrow> ('g, 's) server \<Rightarrow> ('g, 's) server" where
  "request_logger q pth st sv = sv\<lparr>sv_log := sv_log sv @ [log_line (hr_method q) pth st (hr_end q - hr_start q)]\<rparr>"

definition metrics_middleware :: "request \<Rightarrow> route_label \<Rightarrow> nat \<Rightarrow> ('g, 's) server \<Rightarrow> ('g, 's) server" where
  "metrics_middleware q l st sv = sv\<lparr>sv_series := observe_at (hr_method q, l, st) (hr_end q - hr_start q) (sv_series sv)\<rparr>"

definition handle ::
  "(string \<Rightarrow> unit result) \<Rightarrow> (http_req \<Rightarrow> 'g \<Rightarrow> bool \<times> 'g) \<Rightarrow> bool \<Rightarrow> 's handlers \<Rightarrow> (http_method \<Rightarrow> string \<Rightarrow> string) \<Rightarrow> request \<Rightarrow>
    ('g, 's) server \<Rightarrow> response \<times> ('g, 's) server" where
  "handle parse glob up H page q sv =
     (case parse (hr_raw q) of
        Inl e \<Rightarrow> (error_handler e, sv)
      | Inr _ \<Rightarrow>
          (case answer glob up H page q sv of
             ((res, pth, l), sv') \<Rightarrow> (res, metrics_middleware q l (status res) (request_logger q pth (status res) sv'))))"

fun handle_all ::
  "(string \<Rightarrow> unit result) \<Rightarrow> (http_req \<Rightarrow> 'g \<Rightarrow> bool \<times> 'g) \<Rightarrow> bool \<Rightarrow> 's handlers \<Rightarrow> (http_method \<Rightarrow> string \<Rightarrow> string) \<Rightarrow> request list \<Rightarrow>
    ('g, 's) server \<Rightarrow> response list \<times> ('g, 's) server" where
  "handle_all parse glob up H page [] sv = ([], sv)"
| "handle_all parse glob up H page (q # qs) sv =
     (case handle parse glob up H page q sv of
        (res, sv') \<Rightarrow> map_prod (Cons res) (\<lambda>x. x) (handle_all parse glob up H page qs sv'))"

section \<open>The counts agree\<close>

lemma length_buckets: "length (h_buckets (observe v h)) = min (length HTTP_BUCKETS) (length (h_buckets h))"
  by (simp add: observe_def)

definition histogram_ok :: "histogram \<Rightarrow> bool" where
  "histogram_ok h \<longleftrightarrow> length (h_buckets h) = length HTTP_BUCKETS \<and> sorted (h_buckets h @ [h_count h])"

lemma observe_ok: "histogram_ok h \<Longrightarrow> histogram_ok (observe v h)"
proof -
  assume h: "histogram_ok h"
  then have len: "length (h_buckets h) = 9" by (simp add: histogram_ok_def HTTP_BUCKETS_def)
  obtain a b c d e f g i j where eq: "h_buckets h = [a, b, c, d, e, f, g, i, j]"
    using len by (auto simp: length_Suc_conv numeral_eq_Suc)
  from h show ?thesis by (auto simp: histogram_ok_def observe_def HTTP_BUCKETS_def eq)
qed

lemma empty_histogram_ok: "histogram_ok empty_histogram"
  by (simp add: histogram_ok_def empty_histogram_def HTTP_BUCKETS_def)

definition series_ok :: "series list \<Rightarrow> bool" where
  "series_ok ss \<longleftrightarrow> distinct (map fst ss) \<and> list_all (\<lambda>s. histogram_ok (snd s)) ss"

definition observed :: "series list \<Rightarrow> nat" where
  "observed ss = sum_list (map (\<lambda>s. h_count (snd s)) ss)"

lemma observe_at_keys: "fst ` set (observe_at k v ss) = insert k (fst ` set ss)"
  by (induction k v ss rule: observe_at.induct) auto

lemma observe_at_ok:
  assumes "series_ok ss"
  shows "series_ok (observe_at k v ss) \<and> observed (observe_at k v ss) = observed ss + 1"
  using assms
proof (induction k v ss rule: observe_at.induct)
  case (1 k v)
  show ?case by (simp add: series_ok_def observed_def observe_ok empty_histogram_ok) (simp add: observe_def empty_histogram_def)
next
  case (2 k v k' h hs)
  show ?case
  proof (cases "k' = k")
    case True
    with 2(2) show ?thesis by (auto simp: series_ok_def observed_def observe_ok) (simp add: observe_def)
  next
    case False
    from 2(2) have "series_ok hs" by (simp add: series_ok_def)
    with 2(1) False have "series_ok (observe_at k v hs)" "observed (observe_at k v hs) = observed hs + 1" by auto
    with False 2(2) observe_at_keys [of k v hs] show ?thesis by (auto simp: series_ok_def observed_def)
  qed
qed

lemma handle_fields:
  assumes "handle parse glob up H page q sv = (res, sv')"
  shows "(\<exists>e. parse (hr_raw q) = Inl e) \<and> sv' = sv \<and> status res \<in> {409, 410, 400, 422, 500} \<or>
    parse (hr_raw q) = Inr () \<and>
      (\<exists>pth l. fst (answer glob up H page q sv) = (res, pth, l) \<and>
         sv_log sv' = sv_log sv @ [log_line (hr_method q) pth (status res) (hr_end q - hr_start q)] \<and>
         sv_series sv' = observe_at (hr_method q, l, status res) (hr_end q - hr_start q) (sv_series sv))"
proof (cases "parse (hr_raw q)")
  case (Inl e)
  with assms error_handler_status [of e] show ?thesis by (auto simp: handle_def)
next
  case (Inr u)
  obtain pth l sv1 where a: "answer glob up H page q sv = ((res, pth, l), sv1)"
      and sv': "sv' = metrics_middleware q l (status res) (request_logger q pth (status res) sv1)"
    using assms Inr by (auto simp: handle_def split: prod.splits)
  have "sv_log sv1 = sv_log sv" "sv_series sv1 = sv_series sv"
    using a by (auto simp: answer_def Let_def split: prod.splits bool.splits option.splits)
  with a Inr sv' show ?thesis by (simp add: metrics_middleware_def request_logger_def)
qed

section \<open>The votes behind their limiter\<close>

text \<open>\<open>app.use("/api/v1/vote", voteLimiter, voteRouter)\<close> on the route that casts: an arrival, its body, the two readings of the
  clock and the environment of the transaction; \<open>up\<close> says whether Redis answers.\<close>

type_synonym 'raw vote_arrival = "arrival \<times> 'raw \<times> int \<times> int \<times> env"

definition vote_mount ::
  "('raw \<Rightarrow> issue list + vote_request) \<Rightarrow> 'k crypto \<Rightarrow> (string \<Rightarrow> string) \<Rightarrow> (proof_data \<Rightarrow> bool) \<Rightarrow> tx_receipt \<Rightarrow> bool \<Rightarrow>
    'raw vote_arrival \<Rightarrow> zstore \<times> ledger \<Rightarrow> response \<times> zstore \<times> ledger" where
  "vote_mount sp X msg v rc up = (\<lambda>(a, raw, t, t', en) (z, st).
     case rate_limit vote_limiter (at a) (rnd a) up (req a) z of
       (Reject hs res, z') \<Rightarrow> (res, z', st)
     | (_, z') \<Rightarrow> (case vote_route sp X (ledger_send msg v en rc) t t' raw st of (res, st') \<Rightarrow> (res, z', st')))"

fun vote_mount_run ::
  "('raw \<Rightarrow> issue list + vote_request) \<Rightarrow> 'k crypto \<Rightarrow> (string \<Rightarrow> string) \<Rightarrow> (proof_data \<Rightarrow> bool) \<Rightarrow> tx_receipt \<Rightarrow>
    'raw vote_arrival list \<Rightarrow> zstore \<times> ledger \<Rightarrow> response list \<times> zstore \<times> ledger" where
  "vote_mount_run sp X msg v rc [] s = ([], s)"
| "vote_mount_run sp X msg v rc (q # qs) s =
     (case vote_mount sp X msg v rc True q s of (res, s') \<Rightarrow> map_prod (Cons res) (\<lambda>x. x) (vote_mount_run sp X msg v rc qs s'))"

lemma vote_mount_step:
  assumes "vote_mount sp X msg v rc True (a, raw, t, t', en) (z, st) = (res, z', st')"
  shows "\<exists>vd. rate_limit vote_limiter (at a) (rnd a) True (req a) z = (vd, z') \<and> (status res = 201 \<longrightarrow> admitted vd) \<and>
    length (casts st') = length (casts st) + (if status res = 201 then 1 else 0)"
proof -
  obtain vd z1 where rl: "rate_limit vote_limiter (at a) (rnd a) True (req a) z = (vd, z1)" by fastforce
  have route: "length (casts st') = length (casts st) + (if status res = 201 then 1 else 0)"
    if "vote_route sp X (ledger_send msg v en rc) t t' raw st = (res, st')"
    using vote_route_ledger [OF that] by (auto simp: cast_vote_Inr)
  show ?thesis
  proof (cases vd)
    case (Reject hs r)
    then have "r = too_many vote_limiter" using rl by (auto simp: rate_limit_def Let_def split: option.splits if_splits)
    with assms rl Reject show ?thesis by (auto simp: vote_mount_def too_many_def)
  next
    case (Proceed hs)
    with assms rl route show ?thesis by (auto simp: vote_mount_def admitted_def split: prod.splits)
  next
    case Fail_open
    with assms rl route show ?thesis by (auto simp: vote_mount_def admitted_def split: prod.splits)
  qed
qed

lemma card_Suc_indices: "card {i. i < Suc n \<and> P i} = (if P 0 then 1 else 0) + card {i. i < n \<and> P (Suc i)}"
proof -
  have "{i. i < Suc n \<and> P i} = (if P 0 then {0} else {}) \<union> Suc ` {i. i < n \<and> P (Suc i)}"
    by (auto simp: image_iff less_Suc_eq_0_disj)
  moreover have "card (Suc ` {i. i < n \<and> P (Suc i)}) = card {i. i < n \<and> P (Suc i)}" by (rule card_image) simp
  ultimately show ?thesis by (simp add: card_Un_disjoint)
qed

lemma vote_mount_run_facts:
  assumes "vote_mount_run sp X msg v rc qs (z, st) = (rs, z', st')"
  shows "\<exists>vs. rl_run vote_limiter (map fst qs) z = (vs, z') \<and> length rs = length qs \<and>
    (\<forall>i < length qs. status (rs ! i) = 201 \<longrightarrow> admitted (vs ! i)) \<and>
    length (casts st') = length (casts st) + card {i. i < length qs \<and> status (rs ! i) = 201}"
  using assms
proof (induction qs arbitrary: z st rs)
  case (Cons q qs)
  obtain a raw t t' en where q: "q = (a, raw, t, t', en)" by (cases q)
  obtain res z1 st1 where m: "vote_mount sp X msg v rc True q (z, st) = (res, z1, st1)" by (cases "vote_mount sp X msg v rc True q (z, st)")
  obtain rs1 where r: "vote_mount_run sp X msg v rc qs (z1, st1) = (rs1, z', st')" "rs = res # rs1"
    using Cons.prems m by (auto simp: map_prod_def split: prod.splits)
  obtain vd where vd: "rate_limit vote_limiter (at a) (rnd a) True (req a) z = (vd, z1)" "status res = 201 \<longrightarrow> admitted vd"
      "length (casts st1) = length (casts st) + (if status res = 201 then 1 else 0)"
    using vote_mount_step [of sp X msg v rc a raw t t' en z st res z1 st1] m q by auto
  obtain vs where vs: "rl_run vote_limiter (map fst qs) z1 = (vs, z')" "length rs1 = length qs"
      "\<forall>i < length qs. status (rs1 ! i) = 201 \<longrightarrow> admitted (vs ! i)"
      "length (casts st') = length (casts st1) + card {i. i < length qs \<and> status (rs1 ! i) = 201}"
    using Cons.IH [OF r(1)] by blast
  have "\<forall>i < length (q # qs). status (rs ! i) = 201 \<longrightarrow> admitted ((vd # vs) ! i)"
    using vd(2) vs(3) r(2) by (auto simp: nth_Cons split: nat.splits)
  moreover have "rl_run vote_limiter (map fst (q # qs)) z = (vd # vs, z')" using vd(1) vs(1) q by simp
  ultimately show ?case using vd(3) vs(2,4) r(2) by (simp add: card_Suc_indices)
qed simp

section \<open>Runs of the pipeline\<close>

lemma handle_all_accounting:
  assumes "handle_all parse glob up H page qs sv = (rs, sv')" "series_ok (sv_series sv)"
  shows "series_ok (sv_series sv') \<and>
    observed (sv_series sv') = observed (sv_series sv) + length (filter (\<lambda>q. parse (hr_raw q) = Inr ()) qs) \<and>
    length (sv_log sv') = length (sv_log sv) + length (filter (\<lambda>q. parse (hr_raw q) = Inr ()) qs)"
  using assms
proof (induction qs arbitrary: sv rs)
  case (Cons q qs)
  obtain res sv1 where h: "handle parse glob up H page q sv = (res, sv1)" by fastforce
  then obtain rs1 where r: "handle_all parse glob up H page qs sv1 = (rs1, sv')"
    using Cons.prems(1) by (auto simp: map_prod_def split: prod.splits)
  have "series_ok (sv_series sv1) \<and>
      observed (sv_series sv1) = observed (sv_series sv) + (if parse (hr_raw q) = Inr () then 1 else 0) \<and>
      length (sv_log sv1) = length (sv_log sv) + (if parse (hr_raw q) = Inr () then 1 else 0)"
    using handle_fields [OF h] Cons.prems(2) observe_at_ok [OF Cons.prems(2)] by auto
  with Cons.IH [OF r] show ?case by auto
qed simp

lemma path_of_no_query: "CHR ''?'' \<notin> set (path_of url)"
  by (auto simp: path_of_def dest: set_takeWhileD)

lemma stripped_no_query: "CHR ''?'' \<notin> set (stripped mount url)"
  using path_of_no_query [of url] by (auto simp: stripped_def Let_def dest: in_set_dropD)

lemma answer_path: "fst (answer glob up H page q sv) = (res, pth, l) \<Longrightarrow> pth = path_of (hr_url q) \<or> (\<exists>mount. pth = stripped mount (hr_url q))"
  by (auto simp: answer_def Let_def split: prod.splits bool.splits option.splits)

definition bare_line :: "json \<Rightarrow> bool" where
  "bare_line j \<longleftrightarrow> (\<exists>m pth st ms. j = log_line m pth st ms \<and> CHR ''?'' \<notin> set pth)"

lemma handle_all_bare:
  assumes "handle_all parse glob up H page qs sv = (rs, sv')" "\<forall>j \<in> set (sv_log sv). bare_line j"
  shows "\<forall>j \<in> set (sv_log sv'). bare_line j"
  using assms
proof (induction qs arbitrary: sv rs)
  case (Cons q qs)
  obtain res sv1 where h: "handle parse glob up H page q sv = (res, sv1)" by fastforce
  then obtain rs1 where r: "handle_all parse glob up H page qs sv1 = (rs1, sv')"
    using Cons.prems(1) by (auto simp: map_prod_def split: prod.splits)
  have "\<forall>j \<in> set (sv_log sv1). bare_line j"
    using handle_fields [OF h]
  proof (elim disjE exE conjE)
    fix pth l assume a: "fst (answer glob up H page q sv) = (res, pth, l)"
      and lg: "sv_log sv1 = sv_log sv @ [log_line (hr_method q) pth (status res) (hr_end q - hr_start q)]"
    have "CHR ''?'' \<notin> set pth" using answer_path [OF a] path_of_no_query stripped_no_query by auto
    then have "bare_line (log_line (hr_method q) pth (status res) (hr_end q - hr_start q))" unfolding bare_line_def by blast
    with lg Cons.prems(2) show ?thesis by auto
  qed (use Cons.prems(2) in simp)
  from Cons.IH [OF r this] show ?case .
qed simp

lemma pass_no_limiters: "list_all (\<lambda>mt. snd mt = None) ms \<Longrightarrow> pass_limiters up ms ts r z = (None, z)"
proof (induction ms)
  case (Cons mt ms)
  then show ?case by (cases mt) simp
qed simp

lemma unknown_label:
  assumes "find_route (hr_method q) (hr_url q) = None" "list_all (\<lambda>mt. snd mt = None) (entered (hr_method q) (hr_url q))"
  shows "\<exists>res. fst (answer glob up H page q sv) = (res, path_of (hr_url q), Concrete (path_of (hr_url q)))"
  using assms by (auto simp: answer_def Let_def pass_no_limiters split: prod.splits bool.splits)

lemma handle_all_unknown:
  assumes "handle_all parse glob up H page qs sv = (rs, sv')"
    and "\<forall>q \<in> set qs. parse (hr_raw q) = Inr () \<and> find_route (hr_method q) (hr_url q) = None \<and>
      list_all (\<lambda>mt. snd mt = None) (entered (hr_method q) (hr_url q))"
  shows "Concrete ` path_of ` hr_url ` set qs \<union> (\<lambda>s. fst (snd (fst s))) ` set (sv_series sv) \<subseteq> (\<lambda>s. fst (snd (fst s))) ` set (sv_series sv')"
  using assms
proof (induction qs arbitrary: sv rs)
  case (Cons q qs)
  let ?ls = "\<lambda>ss. (\<lambda>s. fst (snd (fst s))) ` set ss"
  obtain res sv1 where h: "handle parse glob up H page q sv = (res, sv1)" by fastforce
  then obtain rs1 where r: "handle_all parse glob up H page qs sv1 = (rs1, sv')"
    using Cons.prems(1) by (auto simp: map_prod_def split: prod.splits)
  have eq: "?ls ss = fst ` snd ` fst ` set ss" for ss :: "series list" by (simp add: image_image)
  obtain res1 where l: "fst (answer glob up H page q sv) = (res1, path_of (hr_url q), Concrete (path_of (hr_url q)))"
    using unknown_label [of q glob up H page sv] Cons.prems(2) by auto
  with handle_fields [OF h] Cons.prems(2)
  have "sv_series sv1 = observe_at (hr_method q, Concrete (path_of (hr_url q)), status res) (hr_end q - hr_start q) (sv_series sv)"
    by auto
  then have "?ls (sv_series sv1) = insert (Concrete (path_of (hr_url q))) (?ls (sv_series sv))"
    by (simp add: eq observe_at_keys)
  with Cons.IH [OF r] Cons.prems(2) show ?case by auto
qed simp

section \<open>Properties\<close>

text \<open>
  C40: the limiter bounds the votes that reach the chain: with Redis up, in any span of a minute at most \<open>l\<close> requests of one client
  key are confirmed, \<open>l\<close> the limit of its country, and the ledger's log grows by exactly the confirmed requests, one vote each.
\<close>

theorem limited_votes:
  assumes "vote_mount_run sp X msg v rc qs (Map.empty, st) = (rs, z, st')"
    and "sorted (map (at \<circ> fst) qs)" "distinct (map (entry_name \<circ> fst) qs)"
    and "\<forall>q \<in> set qs. redis_key vote_limiter (req (fst q)) = k \<longrightarrow> the (effective_limit vote_limiter (req (fst q))) \<le> int l"
  shows "card {i. i < length qs \<and> status (rs ! i) = 201 \<and> redis_key vote_limiter (req (fst (qs ! i))) = k \<and>
      t - 60000 < at (fst (qs ! i)) \<and> at (fst (qs ! i)) \<le> t} \<le> l \<and>
    length (casts st') = length (casts st) + card {i. i < length qs \<and> status (rs ! i) = 201}"
proof -
  obtain vs where vs: "rl_run vote_limiter (map fst qs) Map.empty = (vs, z)" "length rs = length qs"
      "\<forall>i < length qs. status (rs ! i) = 201 \<longrightarrow> admitted (vs ! i)"
      "length (casts st') = length (casts st) + card {i. i < length qs \<and> status (rs ! i) = 201}"
    using vote_mount_run_facts [OF assms(1)] by blast
  let ?B = "{i. i < length (map fst qs) \<and> admitted (vs ! i) \<and> redis_key vote_limiter (req (map fst qs ! i)) = k \<and>
      t - window_ms vote_limiter < at (map fst qs ! i) \<and> at (map fst qs ! i) \<le> t}"
  have "card ?B \<le> l"
  proof (rule window_bound [OF vs(1)])
    show "\<forall>a \<in> set (map fst qs). redis_key vote_limiter (req a) = k \<longrightarrow> the (effective_limit vote_limiter (req a)) \<le> int l"
      using assms(4) by auto
  qed (use assms(2,3) in \<open>simp_all add: vote_limiter_def\<close>)
  moreover have "{i. i < length qs \<and> status (rs ! i) = 201 \<and> redis_key vote_limiter (req (fst (qs ! i))) = k \<and>
      t - 60000 < at (fst (qs ! i)) \<and> at (fst (qs ! i)) \<le> t} \<subseteq> ?B"
    using vs(3) by (auto simp: vote_limiter_def)
  then have "card {i. i < length qs \<and> status (rs ! i) = 201 \<and> redis_key vote_limiter (req (fst (qs ! i))) = k \<and>
      t - 60000 < at (fst (qs ! i)) \<and> at (fst (qs ! i)) \<le> t} \<le> card ?B" by (intro card_mono) simp_all
  ultimately show ?thesis using vs(4) by linarith
qed

definition demo_vote_run :: "response list \<times> zstore \<times> ledger" where
  "demo_vote_run =
     vote_mount_run (\<lambda>r. Inr r) demo_crypto (\<lambda>e. e) (\<lambda>_. True) \<lparr>tx_hash = ''t'', tx_block = 1\<rparr>
       [(demo_arrival 10, demo_request, 2000, 2001, \<lparr>sender = ''r'', now = 2\<rparr>)]
       (Map.empty, (ledger_init ''o'')\<lparr>polls := (\<lambda>_. no_poll\<lparr>deadline := 9\<rparr>)\<rparr>)"

lemma demo_vote_cast:
  "status (fst (vote_route (\<lambda>r. Inr r) demo_crypto (ledger_send (\<lambda>e. e) (\<lambda>_. True) \<lparr>sender = ''r'', now = 2\<rparr> \<lparr>tx_hash = ''t'', tx_block = 1\<rparr>)
     2000 2001 demo_request ((ledger_init ''o'')\<lparr>polls := (\<lambda>_. no_poll\<lparr>deadline := 9\<rparr>)\<rparr>))) = 201"
proof -
  have pf: "convert_proof (vr_proof demo_request) = Inr \<lparr>cp_a = [1, 2], cp_b = [[3, 4], [5, 6]], cp_c = [7, 8], cp_signals = []\<rparr>" by code_simp
  have enc: "encode_proof \<lparr>cp_a = [1, 2], cp_b = [[3, 4], [5, 6]], cp_c = [7, 8], cp_signals = []\<rparr> =
      Inr \<lparr>piA = [1, 2], piB = [[3, 4], [5, 6]], piC = [7, 8], publicSignals = []\<rparr>"
    by (simp add: encode_proof_def to_uint_def bind_result_def uint256_max_def)
  have "verify_signature demo_crypto demo_request = Inr ()" "zk_verify demo_crypto (vr_proof demo_request) = Inr ()"
    "vr_timestamp demo_request = 1000"
    by (simp_all add: verify_signature_def zk_verify_def demo_crypto_def demo_request_def bind_result_def)
  then show ?thesis
    by (simp add: vote_route_def validate_request_def vote_handler_def submit_vote_def blockchain_cast_vote_def pf ledger_send_def enc
        cast_vote_def ledger_init_def no_poll_def uint256_max_def)
qed

theorem limited_votes_witness:
  "status (hd (fst demo_vote_run)) = 201 \<and> length (casts (snd (snd demo_vote_run))) = 1"
proof -
  let ?qs = "[(demo_arrival 10, demo_request, 2000 :: int, 2001 :: int, \<lparr>sender = ''r'', now = 2\<rparr>)]"
  let ?st = "(ledger_init ''o'')\<lparr>polls := (\<lambda>_. no_poll\<lparr>deadline := 9\<rparr>)\<rparr>"
  have run: "vote_mount_run (\<lambda>r. Inr r) demo_crypto (\<lambda>e. e) (\<lambda>_. True) \<lparr>tx_hash = ''t'', tx_block = 1\<rparr> ?qs (Map.empty, ?st) =
      (fst demo_vote_run, fst (snd demo_vote_run), snd (snd demo_vote_run))"
    by (simp only: demo_vote_run_def [symmetric] prod.collapse)
  have lim: "effective_limit vote_limiter (req (demo_arrival 10)) = Some 5" by code_simp
  have free: "fst (rate_limit vote_limiter 10 [] True (req (demo_arrival 10)) Map.empty) = Proceed (rl_headers vote_limiter 5 0)"
    by (simp add: rate_limit_def lim zremrangebyscore_def zread_def)
  obtain z where z: "rate_limit vote_limiter 10 [] True (req (demo_arrival 10)) Map.empty = (Proceed (rl_headers vote_limiter 5 0), z)"
    using free by (metis prod.collapse)
  have rnd: "rnd (demo_arrival 10) = []" by (simp add: demo_arrival_def)
  have st: "map status (fst demo_vote_run) = [201]"
    using demo_vote_cast by (auto simp: demo_vote_run_def vote_mount_def z rnd split: prod.splits)
  then have "{i. i < length ?qs \<and> status (fst demo_vote_run ! i) = 201} = {0}" by (cases "fst demo_vote_run") auto
  with limited_votes [OF run, of "[]" 5 20] lim st show ?thesis by (cases "fst demo_vote_run") (auto simp: ledger_init_def)
qed

definition demo_q :: "string \<Rightarrow> request" where
  "demo_q url = \<lparr>hr_method = HTTP_GET, hr_url = url, hr_head = \<lparr>header = (\<lambda>_. None), req_ip = None\<rparr>, hr_raw = [], hr_start = 0, hr_end = 7,
     hr_ticks = [(0, ''a'')]\<rparr>"

definition demo_server :: "(unit, unit) server" where
  "demo_server = \<lparr>sv_global = (), sv_limits = Map.empty, sv_app = (), sv_log = [], sv_series = []\<rparr>"

text \<open>
  Log and metric agree: from an empty start each request whose body parses is logged once and observed once, however it is
  answered, a request whose body does not parse is neither, and the buckets of every series are cumulative: they grow with
  their bounds up to the series' count.
\<close>

theorem request_accounting:
  assumes "handle_all parse glob up H page qs sv = (rs, sv')" "sv_log sv = []" "sv_series sv = []"
  shows "length (sv_log sv') = length (filter (\<lambda>q. parse (hr_raw q) = Inr ()) qs) \<and>
    observed (sv_series sv') = length (sv_log sv') \<and>
    distinct (map fst (sv_series sv')) \<and> list_all (\<lambda>s. sorted (h_buckets (snd s) @ [h_count (snd s)])) (sv_series sv')"
  using handle_all_accounting [OF assms(1)] assms(2,3)
  by (simp add: series_ok_def observed_def histogram_ok_def list_all_iff)

theorem request_accounting_witness:
  "observed (sv_series (snd (handle_all (\<lambda>_. Inr ()) (\<lambda>_ g. (True, g)) True (\<lambda>h ps q raw s. (json_res 200 JNull, s)) (\<lambda>m u. [])
     [demo_q ''/health'', demo_q ''/nothing''] demo_server))) = 2"
  using request_accounting [OF prod.collapse [symmetric], of demo_server "\<lambda>_. Inr ()" "\<lambda>_ g. (True, g)" True
      "\<lambda>h ps q raw s. (json_res 200 JNull, s)" "\<lambda>m u. []" "[demo_q ''/health'', demo_q ''/nothing'']"]
  by (simp add: demo_server_def)

text \<open>
  The request log holds no query string, no header and no body: every line is made of the method, a path without a query,
  the status and the duration, whatever the requests were.
\<close>

theorem log_is_bare:
  assumes "handle_all parse glob up H page qs sv = (rs, sv')" "sv_log sv = []"
  shows "\<forall>j \<in> set (sv_log sv'). \<exists>m pth st ms. j = log_line m pth st ms \<and> CHR ''?'' \<notin> set pth"
  using handle_all_bare [OF assms(1)] assms(2) by (simp add: bare_line_def)

theorem log_is_bare_witness:
  "bare_line (hd (sv_log (snd (handle_all (\<lambda>_. Inr ()) (\<lambda>_ g. (True, g)) True (\<lambda>h ps q raw s. (json_res 200 JNull, s)) (\<lambda>m u. [])
     [demo_q ''/api/v1/vote/verify?nullifier=0x1''] demo_server))))"
proof -
  let ?r = "handle_all (\<lambda>_. Inr ()) (\<lambda>_ g. (True, g)) True (\<lambda>h ps q raw s. (json_res 200 JNull, s)) (\<lambda>m u. [])
     [demo_q ''/api/v1/vote/verify?nullifier=0x1''] demo_server"
  have "\<forall>j \<in> set (sv_log (snd ?r)). \<exists>m pth st ms. j = log_line m pth st ms \<and> CHR ''?'' \<notin> set pth"
    by (rule log_is_bare [OF prod.collapse [symmetric]]) (simp add: demo_server_def)
  moreover have "length (sv_log (snd ?r)) = 1"
    using handle_all_accounting [OF prod.collapse [symmetric], of demo_server "\<lambda>_. Inr ()" "\<lambda>_ g. (True, g)" True
        "\<lambda>h ps q raw s. (json_res 200 JNull, s)" "\<lambda>m u. []" "[demo_q ''/api/v1/vote/verify?nullifier=0x1'']"]
    by (simp add: demo_server_def series_ok_def)
  ultimately show ?thesis unfolding bare_line_def by (cases "sv_log (snd ?r)") auto
qed

text \<open>
  The metric tells requests apart where it should not and not where it should: every address that no route serves makes a
  series of its own, without a bound, so that anybody can grow the server's memory.
\<close>

theorem unknown_paths_grow:
  assumes "handle_all parse glob up H page qs sv = (rs, sv')"
    and "\<forall>q \<in> set qs. parse (hr_raw q) = Inr () \<and> find_route (hr_method q) (hr_url q) = None \<and>
      list_all (\<lambda>mt. snd mt = None) (entered (hr_method q) (hr_url q))"
    and "distinct (map (path_of \<circ> hr_url) qs)"
  shows "length qs \<le> length (sv_series sv')"
proof -
  let ?ls = "(\<lambda>s. fst (snd (fst s))) ` set (sv_series sv')"
  have "Concrete ` path_of ` hr_url ` set qs \<subseteq> ?ls" using handle_all_unknown [OF assms(1,2)] by blast
  then have "card (Concrete ` path_of ` hr_url ` set qs) \<le> card ?ls" by (intro card_mono) simp_all
  moreover have "card ?ls \<le> length (sv_series sv')" by (rule order_trans [OF card_image_le card_length]) simp
  moreover have "card (Concrete ` path_of ` hr_url ` set qs) = card (path_of ` hr_url ` set qs)"
    by (rule card_image) (simp add: inj_on_def)
  moreover have "card (path_of ` hr_url ` set qs) = length qs"
    using distinct_card [OF assms(3)] by (simp add: image_comp)
  ultimately show ?thesis by linarith
qed

theorem unknown_paths_grow_witness:
  "2 \<le> length (sv_series (snd (handle_all (\<lambda>_. Inr ()) (\<lambda>_ g. (True, g)) True (\<lambda>h ps q raw s. (json_res 200 JNull, s)) (\<lambda>m u. [])
     [demo_q ''/a'', demo_q ''/b''] demo_server)))"
proof -
  have "find_route HTTP_GET ''/a'' = None" "find_route HTTP_GET ''/b'' = None" "path_of ''/a'' = ''/a''" "path_of ''/b'' = ''/b''"
    "list_all (\<lambda>mt. snd mt = None) (entered HTTP_GET ''/a'')" "list_all (\<lambda>mt. snd mt = None) (entered HTTP_GET ''/b'')" by code_simp+
  then show ?thesis
    using unknown_paths_grow [OF prod.collapse [symmetric], of "[demo_q ''/a'', demo_q ''/b'']" "\<lambda>_. Inr ()" "\<lambda>_ g. (True, g)" True
        "\<lambda>h ps q raw s. (json_res 200 JNull, s)" "\<lambda>m u. []" demo_server]
    by (simp add: demo_q_def)
qed

text \<open>
  It does not tell the routers apart: inside a router the route has no mount path, so the list of policies, the list of
  countries, the health check and the metrics themselves are one series.
\<close>

theorem metrics_merge:
  "list_all (\<lambda>url. fst (answer (\<lambda>_ g. (True, g)) up (\<lambda>h ps q raw s. (json_res 200 JNull, s)) page (demo_q url) sv) =
       (json_res 200 JNull, ''/'', Template []))
     [''/api/v1/policy'', ''/api/v1/countries'', ''/health'', ''/metrics'']"
proof -
  have "find_route HTTP_GET ''/api/v1/policy'' = Some (HTTP_GET, api ''policy'', ''policies'')"
    "find_route HTTP_GET ''/api/v1/countries'' = Some (HTTP_GET, api ''countries'', ''countries'')"
    "find_route HTTP_GET ''/health'' = Some (HTTP_GET, lits [''health''], ''health'')"
    "find_route HTTP_GET ''/metrics'' = Some (HTTP_GET, lits [''metrics''], ''metrics'')"
    "list_all (\<lambda>mt. snd mt = None) (entered HTTP_GET ''/api/v1/policy'')" "list_all (\<lambda>mt. snd mt = None) (entered HTTP_GET ''/api/v1/countries'')"
    "list_all (\<lambda>mt. snd mt = None) (entered HTTP_GET ''/health'')" "list_all (\<lambda>mt. snd mt = None) (entered HTTP_GET ''/metrics'')"
    "own_mount (api ''policy'') = [''api'', ''v1'', ''policy'']" "own_mount (api ''countries'') = [''api'', ''v1'', ''countries'']"
    "own_mount (lits [''health'']) = [''health'']" "own_mount (lits [''metrics'']) = [''metrics'']"
    "stripped [''api'', ''v1'', ''policy''] ''/api/v1/policy'' = ''/''" "stripped [''api'', ''v1'', ''countries''] ''/api/v1/countries'' = ''/''"
    "stripped [''health''] ''/health'' = ''/''" "stripped [''metrics''] ''/metrics'' = ''/''"
    by code_simp+
  then show ?thesis by (simp add: answer_def Let_def demo_q_def pass_no_limiters serve_def lits_def)
qed

text \<open>
  A body that is no JSON is the client's mistake and answered as the server's: unless the parser's message happens to contain
  one of the error handler's words the answer is 500, and the request is neither logged nor measured nor limited.
\<close>

theorem malformed_body_is_500:
  assumes "parse (hr_raw q) = Inl e"
    and "list_all (\<lambda>w. \<not> str_includes e w)
      [''NullifierSpent'', ''PollClosed'', ''InvalidZKProof'', ''verification failed'', ''Invalid vote signature'', ''stale'', ''validation'']"
  shows "handle parse glob up H page q sv = (json_res 500 (error_json ''An unexpected error occurred.''), sv)"
  using assms by (simp add: handle_def error_handler_def sanitize_error_def)

theorem malformed_body_is_500_witness:
  "fst (handle (\<lambda>_. Inl ''Unexpected end of JSON input'') (\<lambda>_ g. (True, g)) True (\<lambda>h ps q raw s. (json_res 200 JNull, s)) (\<lambda>m u. [])
      (demo_q ''/api/v1/vote'') demo_server) = json_res 500 (error_json ''An unexpected error occurred.'')"
proof -
  have "list_all (\<lambda>w. \<not> str_includes ''Unexpected end of JSON input'' w)
      [''NullifierSpent'', ''PollClosed'', ''InvalidZKProof'', ''verification failed'', ''Invalid vote signature'', ''stale'', ''validation'']"
    by code_simp
  then show ?thesis
    by (subst malformed_body_is_500 [where e = "''Unexpected end of JSON input''"]) simp_all
qed

end
