(* ===== verification/Channels.thy ===== *)
theory Channels
  imports Sms
begin

text \<open>
  The telephone channels together: they share one Redis and both record a phone's votes, each under nullifiers of its own. What
  policies SMS can name, what a number can do over both, and what the log lines of their votes tell
  (\<open>USSDVoteService.ts\<close> and \<open>SMSVoteService.ts\<close> log the option with the nullifier).
\<close>

section \<open>Policies by SMS\<close>

lemma sms_policy_upper:
  assumes "sms_handle R sha salt allowed phone txt s = (r, Some v, s')"
  shows "to_upper (sub_policy v) = sub_policy v"
proof -
  let ?p = "split_spaces (to_upper (trim txt))"
  have "sub_policy v = ?p ! 1 \<and> 3 \<le> length ?p"
    using assms
    by (cases "obj_get sms_option_map (?p ! 2)") (auto simp: sms_handle_def handle_vote_def Let_def split: if_splits)
  then show ?thesis by (simp add: split_spaces_upper)
qed

lemma sms_run_upper:
  assumes "run_channel (sms_channel R sha salt allowed) ms s = (vs, t)" "v \<in> set vs"
  shows "to_upper (sub_policy v) = sub_policy v"
  using assms
proof (induction ms arbitrary: s vs)
  case (Cons m ms)
  obtain w s' where w: "sms_channel R sha salt allowed m s = (w, s')" by fastforce
  obtain vs' u where vs': "run_channel (sms_channel R sha salt allowed) ms s' = (vs', u)" by fastforce
  have "w = None \<or> to_upper (sub_policy (the w)) = sub_policy (the w)"
    using sms_channel_handle [OF w] by (cases w) (auto dest: sms_policy_upper)
  moreover have "u = t" "vs = (case w of None \<Rightarrow> vs' | Some x \<Rightarrow> x # vs')"
    using Cons.prems(1) w vs' by (auto split: option.splits)
  ultimately show ?case using Cons.IH [of s' vs'] Cons.prems(2) vs' by (auto split: option.splits)
qed simp

section \<open>One Redis\<close>

lemma phone_keys: "SMS_NULLIFIERS_KEY \<noteq> NULLIFIERS_KEY" "SK sid \<noteq> SMS_NULLIFIERS_KEY"
  by (simp_all add: SMS_NULLIFIERS_KEY_def NULLIFIERS_KEY_def SK_def)

context redis_store
begin

lemma sms_keeps_ussd:
  assumes "sms_handle R sha salt allowed phone txt s = (r, v, s')"
  shows "spent_in R s' = spent_in R s" "r_get R (SK sid) s' = r_get R (SK sid) s"
  using sms_handle_cases [OF assms] phone_keys(1) phone_keys(2) [of sid] by (auto simp: spent_in_def sis_sadd get_sadd)

end

section \<open>The log of the votes\<close>

text \<open>\<open>logger.info({ policyId, optionId, nullifier }, ..)\<close> of both services.\<close>

record vote_log =
  vl_policy :: string
  vl_option :: "string option"
  vl_nullifier :: string

definition logged :: "submission \<Rightarrow> vote_log" where
  "logged v = \<lparr>vl_policy = sub_policy v, vl_option = sub_option v, vl_nullifier = sub_nullifier v\<rparr>"

text \<open>What a reader of the log who knows the salt computes for a number and a policy.\<close>

definition vote_of_phone :: "hash \<Rightarrow> string \<Rightarrow> vote_log list \<Rightarrow> string \<Rightarrow> string \<Rightarrow> string option" where
  "vote_of_phone sha salt ls phone pid =
     (case find (\<lambda>l. vl_nullifier l = sms_nullifier sha salt phone pid) ls of None \<Rightarrow> None | Some l \<Rightarrow> vl_option l)"

section \<open>Properties\<close>

text \<open>
  Policies are named by SMS in capital letters only: a message is upper-cased before it is read, so no sequence of messages
  ever votes in a policy whose identifier has a small letter, as those of the country files and of the USSD menu have.
\<close>

theorem sms_misses_policies:
  assumes "run_channel (sms_channel R sha salt allowed) ms s = (vs, t)" "to_upper pid \<noteq> pid"
  shows "pid \<notin> sub_policy ` set vs"
  using sms_run_upper [OF assms(1)] assms(2) by auto

theorem sms_misses_policies_witness:
  "''gb-nhs-reform-2026'' \<notin> sub_policy ` set (fst (run_channel (sms_channel redis_mem (\<lambda>x. x) ''s'' [''gb''])
     [(''+447'', ''vote gb-nhs-reform-2026 support'')] mem_empty))"
  by (rule sms_misses_policies [OF prod.collapse [symmetric]]) code_simp

text \<open>
  One number, two votes: a number that has voted in a policy by SMS can vote in the same policy, in its USSD spelling, by
  USSD, since each channel has its own spent nullifiers.
\<close>

theorem two_channels_two_votes:
  assumes "redis_store R" "sms_handle R sha salt allowed phone txt s = (r, Some v, s')"
    and "sub_policy v = to_upper (pol_id (POLICIES ! i))" "i < 5" "obj_get option_map inp \<noteq> Undefined"
    and "r_get R (SK sid) s = None" "derive_nullifier sha salt' phone (pol_id (POLICIES ! i)) \<notin> spent_in R s"
  shows "\<exists>s1 s2 s3 w.
    snd (ussd_handle R sha salt' sid phone (nat_str (i + 1)) s') = (None, s1) \<and>
    snd (ussd_handle R sha salt' sid phone (nat_str (i + 1) @ ''*'' @ inp) s1) = (None, s2) \<and>
    snd (ussd_handle R sha salt' sid phone (nat_str (i + 1) @ ''*'' @ inp @ ''*1'') s2) = (Some w, s3) \<and>
    to_upper (sub_policy w) = sub_policy v"
proof -
  have fresh: "r_get R (SK sid) s' = None" "derive_nullifier sha salt' phone (pol_id (POLICIES ! i)) \<notin> spent_in R s'"
    using redis_store.sms_keeps_ussd [OF assms(1,2)] assms(6,7) by simp_all
  from redis_store.dialog_complete [OF assms(1) fresh(1) assms(4,5) fresh(2)] obtain r1 s1 r2 s2 r3 s3 where
    "ussd_handle R sha salt' sid phone (nat_str (i + 1)) s' = (Inr r1, None, s1)"
    "ussd_handle R sha salt' sid phone (nat_str (i + 1) @ ''*'' @ inp) s1 = (Inr r2, None, s2)"
    "ussd_handle R sha salt' sid phone (nat_str (i + 1) @ ''*'' @ inp @ ''*1'') s2 =
      (Inr r3, Some \<lparr>sub_policy = pol_id (POLICIES ! i), sub_option = Some (slot_text (obj_get option_map inp)),
                     sub_nullifier = derive_nullifier sha salt' phone (pol_id (POLICIES ! i))\<rparr>, s3)"
    by (elim exE conjE) (rule that)
  with assms(3) show ?thesis
    by (intro exI [of _ s1] exI [of _ s2] exI [of _ s3]
        exI [of _ "\<lparr>sub_policy = pol_id (POLICIES ! i), sub_option = Some (slot_text (obj_get option_map inp)),
                     sub_nullifier = derive_nullifier sha salt' phone (pol_id (POLICIES ! i))\<rparr>"]) simp
qed

theorem two_channels_two_votes_witness:
  "\<exists>s1 s2 s3 w.
    snd (ussd_handle redis_mem (\<lambda>x. x) ''u'' ''a'' ''+447'' (nat_str 1) (mem_sadd SMS_NULLIFIERS_KEY ''0x+447POL-001s'' mem_empty)) = (None, s1) \<and>
    snd (ussd_handle redis_mem (\<lambda>x. x) ''u'' ''a'' ''+447'' (nat_str 1 @ ''*'' @ ''1'') s1) = (None, s2) \<and>
    snd (ussd_handle redis_mem (\<lambda>x. x) ''u'' ''a'' ''+447'' (nat_str 1 @ ''*'' @ ''1'' @ ''*1'') s2) = (Some w, s3) \<and>
    to_upper (sub_policy w) = ''POL-001''"
proof -
  let ?v = "\<lparr>sub_policy = ''POL-001'', sub_option = Some ''option-oppose'', sub_nullifier = ''0x+447POL-001s''\<rparr>"
  have "split_spaces (to_upper (trim ''vote pol-001 oppose'')) = [''VOTE'', ''POL-001'', ''OPPOSE'']" by code_simp
  then have "snd (sms_handle redis_mem (\<lambda>x. x) ''s'' [] ''+447'' ''vote pol-001 oppose'' mem_empty) =
      (Some ?v, mem_sadd SMS_NULLIFIERS_KEY ''0x+447POL-001s'' mem_empty)"
    by (simp add: sms_handle_def handle_vote_def obj_get_def sms_option_map_def slot_text_def sms_nullifier_def redis_mem_def mem_empty_def Let_def)
  then obtain r where "sms_handle redis_mem (\<lambda>x. x) ''s'' [] ''+447'' ''vote pol-001 oppose'' mem_empty =
      (r, Some ?v, mem_sadd SMS_NULLIFIERS_KEY ''0x+447POL-001s'' mem_empty)"
    by (metis prod.collapse)
  moreover have "sub_policy ?v = to_upper (pol_id (POLICIES ! 0))" "to_upper (pol_id (POLICIES ! 0)) = ''POL-001''" by code_simp+
  ultimately show ?thesis
    using two_channels_two_votes [OF mem.redis_store_axioms, of "\<lambda>x. x" "''s''" "[]" "''+447''" "''vote pol-001 oppose''" mem_empty r ?v _ 0 "''1''" "''a''" "''u''"]
    by (simp add: obj_get_def option_map_def redis_mem_def mem_empty_def spent_in_def)
qed

text \<open>
  The log tells every vote: whoever reads the log lines of the SMS votes and knows the salt, which has a default in the code,
  computes for each number and policy the option it voted for, against the promise that votes stay anonymous.
\<close>

theorem log_reveals_votes:
  assumes "redis_store R" "run_channel (sms_channel R sha salt allowed) ms s = (vs, t)" "v \<in> set vs"
  shows "\<exists>phone \<in> fst ` set ms. vote_of_phone sha salt (map logged vs) phone (sub_policy v) = sub_option v"
proof -
  obtain phone where p: "phone \<in> fst ` set ms" "sub_nullifier v = sms_nullifier sha salt phone (sub_policy v)"
    using redis_store.sms_run_valid [OF assms] by (auto simp: sms_valid_def)
  have d: "distinct (map sub_nullifier vs)" using redis_store.sms_run_once [OF assms(1,2)] by blast
  have "find (\<lambda>l. vl_nullifier l = sub_nullifier v) (map logged vs) = Some (logged v)"
    using d assms(3) by (induction vs) (auto simp: logged_def)
  with p show ?thesis by (intro bexI [of _ phone]) (simp_all add: vote_of_phone_def logged_def)
qed

theorem log_reveals_votes_witness:
  "vote_of_phone (\<lambda>x. x) ''s'' (map logged (fst (run_channel (sms_channel redis_mem (\<lambda>x. x) ''s'' [])
     [(''+447'', ''VOTE P OPPOSE'')] mem_empty))) ''+447'' ''P'' = Some ''option-oppose''"
proof -
  let ?run = "run_channel (sms_channel redis_mem (\<lambda>x. x) ''s'' []) [(''+447'', ''VOTE P OPPOSE'')] mem_empty"
  have "fst ?run = [\<lparr>sub_policy = ''P'', sub_option = Some ''option-oppose'', sub_nullifier = ''0x+447Ps''\<rparr>]" by code_simp
  then obtain t where run: "?run = ([\<lparr>sub_policy = ''P'', sub_option = Some ''option-oppose'', sub_nullifier = ''0x+447Ps''\<rparr>], t)"
    by (metis prod.collapse)
  from log_reveals_votes [OF mem.redis_store_axioms run list.set_intros(1)] show ?thesis by (simp add: run del: run_channel.simps)
qed

end
