(* ===== verification/Live_Lifecycle.thy ===== *)
theory Live_Lifecycle
  imports Live_Tally
begin

text \<open>
  The life of \<open>liveTallyService\<close>: its subscriptions to the contract's events, which every \<open>start\<close> adds to and \<open>stop\<close> takes away,
  on top of the running tally of theory \<open>Live_Tally\<close>, and the way \<open>index.ts\<close> starts it. An event of the provider calls every
  subscribed listener once, in order.
\<close>

section \<open>The service\<close>

record live_service =
  ls_live :: live
  ls_listeners :: nat

definition ls_new :: live_service where
  "ls_new = \<lparr>ls_live = live_empty, ls_listeners = 0\<rparr>"

text \<open>When the catch-up throws nothing is subscribed.\<close>

definition ls_start :: "(int \<Rightarrow> vote_event list result) \<Rightarrow> int \<Rightarrow> live_service \<Rightarrow> unit result \<times> live_service" where
  "ls_start past b s =
     (case start past b (ls_live s) of
        (Inl e, l) \<Rightarrow> (Inl e, s\<lparr>ls_live := l\<rparr>)
      | (Inr u, l) \<Rightarrow> (Inr (), s\<lparr>ls_live := l, ls_listeners := ls_listeners s + 1\<rparr>))"

definition ls_stop :: "live_service \<Rightarrow> live_service" where
  "ls_stop s = s\<lparr>ls_listeners := 0\<rparr>"

definition ls_track :: "(string \<Rightarrow> string) \<Rightarrow> string \<Rightarrow> live_service \<Rightarrow> live_service" where
  "ls_track h pid s = s\<lparr>ls_live := track_policy h pid (ls_live s)\<rparr>"

fun each_listener :: "nat \<Rightarrow> (live \<Rightarrow> live_update option \<times> live) \<Rightarrow> live \<Rightarrow> live_update list \<times> live" where
  "each_listener 0 f l = ([], l)"
| "each_listener (Suc n) f l =
     (case f l of (u, l') \<Rightarrow> map_prod (append (case u of None \<Rightarrow> [] | Some x \<Rightarrow> [x])) (\<lambda>x. x) (each_listener n f l'))"

datatype live_event =
    Ls_Start int "vote_event list result"
  | Ls_Stop
  | Ls_Track string
  | Ls_Vote vote_event
  | Ls_Final string

text \<open>One event with the updates it emits.\<close>

definition ls_step :: "(string \<Rightarrow> string) \<Rightarrow> live_event \<Rightarrow> live_service \<Rightarrow> live_update list \<times> live_service" where
  "ls_step h ev s =
     (case ev of
        Ls_Start b past \<Rightarrow> ([], snd (ls_start (\<lambda>_. past) b s))
      | Ls_Stop \<Rightarrow> ([], ls_stop s)
      | Ls_Track pid \<Rightarrow> ([], ls_track h pid s)
      | Ls_Vote e \<Rightarrow> (case each_listener (ls_listeners s) (on_vote_cast e) (ls_live s) of (us, l) \<Rightarrow> (us, s\<lparr>ls_live := l\<rparr>))
      | Ls_Final ph \<Rightarrow> (case each_listener (ls_listeners s) (on_policy_finalized ph) (ls_live s) of (us, l) \<Rightarrow> (us, s\<lparr>ls_live := l\<rparr>)))"

fun ls_run :: "(string \<Rightarrow> string) \<Rightarrow> live_event list \<Rightarrow> live_service \<Rightarrow> live_update list \<times> live_service" where
  "ls_run h [] s = ([], s)"
| "ls_run h (ev # evs) s = (case ls_step h ev s of (us, s') \<Rightarrow> map_prod (append us) (\<lambda>x. x) (ls_run h evs s'))"

section \<open>Listeners\<close>

lemma apply_last_seen [simp]: "last_seen (snd (apply_vote_cast ph opt bn l)) = last_seen l"
  by (simp add: apply_vote_cast_def Let_def split: option.split prod.split)

lemma on_vote_cast_seen: "ev_block e \<le> last_seen (snd (on_vote_cast e l))"
  by (simp add: on_vote_cast_def)

lemma each_listener_seen: "ev_block e \<le> last_seen l \<Longrightarrow> each_listener n (on_vote_cast e) l = ([], l)"
  by (induction n) (simp_all add: on_vote_cast_def)

lemma each_listener_votes:
  "each_listener (Suc n) (on_vote_cast e) l = (case on_vote_cast e l of (u, l') \<Rightarrow> (case u of None \<Rightarrow> [] | Some x \<Rightarrow> [x], l'))"
proof -
  obtain u l' where f: "on_vote_cast e l = (u, l')" by fastforce
  then have "ev_block e \<le> last_seen l'" using on_vote_cast_seen [of e l] by simp
  then show ?thesis by (simp add: f each_listener_seen)
qed

section \<open>A service without policies\<close>

definition untracked :: "live \<Rightarrow> bool" where
  "untracked l \<longleftrightarrow> tallies l = Map.empty \<and> hash_to_id l = Map.empty"

lemma untracked_vote: "untracked l \<Longrightarrow> fst (on_vote_cast e l) = None \<and> untracked (snd (on_vote_cast e l))"
  by (simp add: untracked_def on_vote_cast_def apply_vote_cast_def tally_for_def)

lemma untracked_final: "untracked l \<Longrightarrow> on_policy_finalized ph l = (None, l)"
  by (simp add: untracked_def on_policy_finalized_def tally_for_def)

lemma untracked_catch_up: "untracked l \<Longrightarrow> catch_up es l = l"
  by (induction es) (simp_all add: untracked_def apply_vote_cast_def tally_for_def)

lemma each_listener_untracked:
  assumes "\<And>l. untracked l \<Longrightarrow> fst (f l) = None \<and> untracked (snd (f l))"
  shows "untracked l \<Longrightarrow> fst (each_listener n f l) = [] \<and> untracked (snd (each_listener n f l))"
proof (induction n arbitrary: l)
  case (Suc n)
  obtain u l' where f: "f l = (u, l')" by fastforce
  with assms [OF Suc.prems] have "u = None" "untracked l'" by simp_all
  with Suc.IH [of l'] f show ?case by simp
qed simp

lemma ls_step_untracked:
  assumes "\<forall>pid. ev \<noteq> Ls_Track pid" "untracked (ls_live s)"
  shows "fst (ls_step h ev s) = [] \<and> untracked (ls_live (snd (ls_step h ev s)))"
proof (cases ev)
  case (Ls_Start b past)
  have "untracked (snd (start (\<lambda>_. past) b (ls_live s)))"
    using assms(2) by (auto simp: start_def Let_def untracked_catch_up untracked_def split: sum.split)
  then show ?thesis by (auto simp: ls_step_def ls_start_def Ls_Start split: prod.splits sum.splits)
next
  case (Ls_Vote e)
  with each_listener_untracked [of "on_vote_cast e" "ls_live s" "ls_listeners s"] untracked_vote assms(2) show ?thesis
    by (auto simp: ls_step_def split: prod.splits)
next
  case (Ls_Final ph)
  with each_listener_untracked [of "on_policy_finalized ph" "ls_live s" "ls_listeners s"] untracked_final assms(2) show ?thesis
    by (auto simp: ls_step_def split: prod.splits)
qed (use assms in \<open>auto simp: ls_step_def ls_stop_def\<close>)

section \<open>Restart\<close>

lemma apply_tallies:
  "tallies l = tallies l' \<Longrightarrow> hash_to_id l = hash_to_id l' \<Longrightarrow>
     tallies (snd (apply_vote_cast ph opt bn l)) = tallies (snd (apply_vote_cast ph opt bn l')) \<and>
     hash_to_id (snd (apply_vote_cast ph opt bn l)) = hash_to_id (snd (apply_vote_cast ph opt bn l'))"
  by (simp add: apply_vote_cast_def tally_for_def Let_def split: option.split prod.split)

lemma deliver_catch_up:
  assumes "tallies l = tallies l'" "hash_to_id l = hash_to_id l'"
    and "sorted_wrt (\<lambda>a b. ev_block a < ev_block b) es" "\<forall>e \<in> set es. last_seen l < ev_block e"
  shows "tallies (deliver es l) = tallies (catch_up es l')"
  using assms
proof (induction es arbitrary: l l')
  case (Cons e es)
  let ?l = "snd (on_vote_cast e l)" and ?l' = "snd (apply_vote_cast (ev_policy e) (ev_option e) (ev_block e) l')"
  have v: "on_vote_cast e l = apply_vote_cast (ev_policy e) (ev_option e) (ev_block e) (l\<lparr>last_seen := ev_block e\<rparr>)"
    using Cons.prems(4) by (simp add: on_vote_cast_def)
  have "tallies ?l = tallies ?l' \<and> hash_to_id ?l = hash_to_id ?l'"
    unfolding v using Cons.prems(1,2) by (intro apply_tallies) simp_all
  moreover have "last_seen ?l = ev_block e" by (simp add: v)
  ultimately show ?case using Cons.IH [of ?l ?l'] Cons.prems(3) by simp
qed simp

section \<open>Properties\<close>

definition demo_vote_event :: vote_event where
  "demo_vote_event = \<lparr>ev_policy = ''h'', ev_nullifier = ''n'', ev_option = ''option-support'', ev_block = 7\<rparr>"

text \<open>
  Starting the service more than once does no harm to the tallies: however many listeners are subscribed, a vote changes them,
  and is announced, as with one, because the first listener moves the last seen block up to it.
\<close>

theorem extra_listeners_harmless:
  assumes "0 < ls_listeners s"
  shows "fst (ls_step h (Ls_Vote e) s) = fst (ls_step h (Ls_Vote e) (s\<lparr>ls_listeners := 1\<rparr>)) \<and>
    ls_live (snd (ls_step h (Ls_Vote e) s)) = ls_live (snd (ls_step h (Ls_Vote e) (s\<lparr>ls_listeners := 1\<rparr>)))"
proof -
  obtain n where "ls_listeners s = Suc n" using assms gr0_implies_Suc by blast
  then show ?thesis using each_listener_votes [of n e "ls_live s"] each_listener_votes [of 0 e "ls_live s"]
    by (simp add: ls_step_def split: prod.split)
qed

theorem extra_listeners_harmless_witness:
  "fst (ls_step id (Ls_Vote demo_vote_event) (ls_new\<lparr>ls_listeners := 3\<rparr>)) = fst (ls_step id (Ls_Vote demo_vote_event) (ls_new\<lparr>ls_listeners := 1\<rparr>))"
  using extra_listeners_harmless [of "ls_new\<lparr>ls_listeners := 3\<rparr>"] by simp

text \<open>
  A restart loses nothing: when the votes missed while the service was stopped lie in later blocks, one each, starting it from
  the block after the last seen one leads to the tallies it would have had without the stop.
\<close>

theorem restart_catches_up:
  assumes "ls_live s = l" "0 \<le> last_seen l" "sorted_wrt (\<lambda>a b. ev_block a < ev_block b) missed" "\<forall>e \<in> set missed. last_seen l < ev_block e"
  shows "tallies (ls_live (snd (ls_run h [Ls_Stop, Ls_Start (last_seen l + 1) (Inr missed)] s))) = tallies (deliver missed l)"
proof -
  have "tallies (deliver missed l) = tallies (catch_up missed (l\<lparr>last_seen := last_seen l + 1\<rparr>))"
    by (rule deliver_catch_up) (use assms in simp_all)
  then show ?thesis using assms(1,2) by (simp add: ls_step_def ls_stop_def ls_start_def start_def)
qed

text \<open>
  The live feed of the running server is silent: \<open>index.ts\<close> starts the service and nothing ever calls \<open>trackPolicy\<close>, so whatever
  events the chain delivers, and whenever it is stopped and started, no update is emitted and no policy has a snapshot.
\<close>

theorem live_feed_silent:
  assumes "ls_run h (Ls_Start 0 past # evs) ls_new = (us, s)" "\<forall>pid. Ls_Track pid \<notin> set evs"
  shows "us = [] \<and> get_snapshot (ls_live s) pid = None"
proof -
  have run: "ls_run h evs s0 = (us, s) \<Longrightarrow> \<forall>pid. Ls_Track pid \<notin> set evs \<Longrightarrow> untracked (ls_live s0) \<Longrightarrow> us = [] \<and> untracked (ls_live s)"
    for evs s0 us
  proof (induction evs arbitrary: s0 us)
    case (Cons ev evs)
    obtain us1 s1 where st: "ls_step h ev s0 = (us1, s1)" by fastforce
    then obtain us2 where r: "ls_run h evs s1 = (us2, s)" "us = us1 @ us2"
      using Cons.prems(1) by (auto simp: map_prod_def split: prod.splits)
    have "us1 = [] \<and> untracked (ls_live s1)" using ls_step_untracked [of ev s0 h] Cons.prems(2,3) st by auto
    with Cons.IH [OF r(1)] Cons.prems(2) r(2) show ?case by auto
  qed simp
  have "untracked (ls_live ls_new)" by (simp add: untracked_def ls_new_def live_empty_def)
  with run [OF assms(1)] assms(2) show ?thesis by (auto simp: untracked_def get_snapshot_def)
qed

theorem live_feed_silent_witness:
  "fst (ls_run id [Ls_Start 0 (Inr []), Ls_Vote demo_vote_event, Ls_Final ''h''] ls_new) = []"
proof -
  have "fst (ls_run id (Ls_Start 0 (Inr []) # [Ls_Vote demo_vote_event, Ls_Final ''h'']) ls_new) = [] \<and>
      get_snapshot (ls_live (snd (ls_run id (Ls_Start 0 (Inr []) # [Ls_Vote demo_vote_event, Ls_Final ''h'']) ls_new))) ''p'' = None"
    by (rule live_feed_silent [OF prod.collapse [symmetric]]) simp
  then show ?thesis by simp
qed

theorem restart_catches_up_witness:
  "tallies (ls_live (snd (ls_run id [Ls_Stop, Ls_Start 1 (Inr [demo_vote_event])] (ls_track id ''h'' ls_new)))) =
     tallies (deliver [demo_vote_event] (ls_live (ls_track id ''h'' ls_new)))"
proof -
  have "last_seen (ls_live (ls_track id ''h'' ls_new)) = 0"
    by (simp add: ls_track_def ls_new_def live_empty_def track_policy_def Let_def)
  with restart_catches_up [OF refl, of "ls_track id ''h'' ls_new" "[demo_vote_event]" id] show ?thesis
    by (simp add: demo_vote_event_def)
qed

end
