(* ===== verification/Ballot_Box.thy ===== *)
theory Ballot_Box
  imports Ledger
begin

text \<open>
  What the contracts of the first layer promise, without how they do it. The abstract ballot box has
  the polls with their closing times, the final ones, and one finite map from spent nullifiers to the ballot each
  cast; it keeps no counter, list or log. \<open>VoteLedger.sol\<close> (theory \<open>Ledger\<close>) implements it: the same
  transactions are accepted, in the same order, and every number the contract answers is a count of
  ballots. The roll of voters is the same for \<open>register\<close> of \<open>VoterRegistry.sol\<close>.
\<close>

section \<open>Machines and what it is to implement one\<close>

text \<open>Commands are accepted, with a new state, or rejected, without effect; the trace says which.\<close>

fun run_trace :: "('c \<Rightarrow> 's \<Rightarrow> 's option) \<Rightarrow> 'c list \<Rightarrow> 's \<Rightarrow> bool list \<times> 's" where
  "run_trace ex [] s = ([], s)"
| "run_trace ex (c # cs) s =
     (case ex c s of
        None \<Rightarrow> map_prod ((#) False) id (run_trace ex cs s)
      | Some s' \<Rightarrow> map_prod ((#) True) id (run_trace ex cs s'))"

text \<open>\<open>inv n\<close> is the invariant of a state with room for \<open>n\<close> more commands.\<close>

locale implements =
  fixes cexec :: "'c \<Rightarrow> 's \<Rightarrow> 's option"
    and aexec :: "'c \<Rightarrow> 'a \<Rightarrow> 'a option"
    and abs :: "'s \<Rightarrow> 'a"
    and inv :: "nat \<Rightarrow> 's \<Rightarrow> bool"
  assumes step: "inv (Suc n) s \<Longrightarrow> map_option abs (cexec c s) = aexec c (abs s)"
    and keeps: "inv (Suc n) s \<Longrightarrow> cexec c s = Some s' \<Longrightarrow> inv n s'"
    and less_room: "inv (Suc n) s \<Longrightarrow> inv n s"
begin

lemma accepted: "inv (Suc n) s \<Longrightarrow> cexec c s = Some s' \<Longrightarrow> aexec c (abs s) = Some (abs s')"
  by (metis option.simps(9) step)

lemma rejected: "inv (Suc n) s \<Longrightarrow> cexec c s = None \<Longrightarrow> aexec c (abs s) = None"
  by (metis option.simps(8) step)

lemma traces:
  "inv (length cs) s \<Longrightarrow>
     run_trace aexec cs (abs s) = map_prod id abs (run_trace cexec cs s) \<and> inv 0 (snd (run_trace cexec cs s))"
proof (induction cs arbitrary: s)
  case Nil
  then show ?case by simp
next
  case (Cons c cs)
  then have i: "inv (Suc (length cs)) s" by simp
  show ?case
  proof (cases "cexec c s")
    case None
    from Cons.IH [OF less_room [OF i]] show ?thesis
      by (simp add: None rejected [OF i None] prod.map_comp comp_def)
  next
    case (Some s')
    from Cons.IH [OF keeps [OF i Some]] show ?thesis
      by (simp add: Some accepted [OF i Some] prod.map_comp comp_def)
  qed
qed

end

section \<open>The ballot box\<close>

record ballot_box =
  bx_owner :: string
  bx_halted :: bool
  bx_polls :: "string \<rightharpoonup> nat"
  bx_final :: "string set"
  bx_ballots :: "string \<rightharpoonup> string \<times> string"

definition box_init :: "string \<Rightarrow> ballot_box" where
  "box_init a = \<lparr>bx_owner = a, bx_halted = False, bx_polls = Map.empty, bx_final = {}, bx_ballots = Map.empty\<rparr>"

definition guarded :: "bool \<Rightarrow> 'a \<Rightarrow> 'a option" where
  "guarded g x = (if g then Some x else None)"

definition may_vote :: "nat \<Rightarrow> string \<Rightarrow> string \<Rightarrow> ballot_box \<Rightarrow> bool" where
  "may_vote t i n b \<longleftrightarrow>
     \<not> bx_halted b \<and> (case bx_polls b i of None \<Rightarrow> False | Some dl \<Rightarrow> t \<le> dl) \<and> i \<notin> bx_final b \<and> n \<notin> dom (bx_ballots b)"

definition box_exec ::
  "(string \<Rightarrow> string) \<Rightarrow> (proof_data \<Rightarrow> bool) \<Rightarrow> env \<times> ledger_call \<Rightarrow> ballot_box \<Rightarrow> ballot_box option" where
  "box_exec keccak valid tx b =
     (let own = sender (fst tx) = bx_owner b; t = now (fst tx)
      in case snd tx of
           CreatePoll p cc dl \<Rightarrow>
             guarded (own \<and> t < dl) (b\<lparr>bx_polls := (bx_polls b)(packed_poll_id keccak p cc \<mapsto> dl)\<rparr>)
         | CastVote i opt n pf \<Rightarrow>
             guarded (may_vote t i n b \<and> valid pf) (b\<lparr>bx_ballots := (bx_ballots b)(n \<mapsto> (i, opt))\<rparr>)
         | FinalisePoll i \<Rightarrow>
             guarded (own \<and> i \<in> dom (bx_polls b) \<and> i \<notin> bx_final b) (b\<lparr>bx_final := insert i (bx_final b)\<rparr>)
         | Pause \<Rightarrow> guarded (own \<and> \<not> bx_halted b) (b\<lparr>bx_halted := True\<rparr>)
         | Unpause \<Rightarrow> guarded (own \<and> bx_halted b) (b\<lparr>bx_halted := False\<rparr>))"

definition ballots_for :: "string \<Rightarrow> string \<Rightarrow> ballot_box \<Rightarrow> string set" where
  "ballots_for i opt b = {n. bx_ballots b n = Some (i, opt)}"

definition ballots_in :: "string \<Rightarrow> ballot_box \<Rightarrow> string set" where
  "ballots_in i b = {n. \<exists>opt. bx_ballots b n = Some (i, opt)}"

section \<open>The ledger implements it\<close>

definition accepts :: "'e + 's \<Rightarrow> 's option" where
  "accepts r = (case r of Inl _ \<Rightarrow> None | Inr s \<Rightarrow> Some s)"

definition ledger_tx ::
  "(string \<Rightarrow> string) \<Rightarrow> (proof_data \<Rightarrow> bool) \<Rightarrow> env \<times> ledger_call \<Rightarrow> ledger \<Rightarrow> ledger option" where
  "ledger_tx k v tx st = accepts (ledger_exec k v (fst tx) (snd tx) st)"

definition ballot_of :: "vote_cast \<Rightarrow> string \<times> string \<times> string" where
  "ballot_of e = (vc_nullifier e, vc_poll e, vc_option e)"

definition box_of :: "ledger \<Rightarrow> ballot_box" where
  "box_of st =
     \<lparr>bx_owner = owner st, bx_halted = paused st,
      bx_polls = (\<lambda>i. if deadline (polls st i) = 0 then None else Some (deadline (polls st i))),
      bx_final = {i. finalised (polls st i)},
      bx_ballots = map_of (map ballot_of (casts st))\<rparr>"

definition ledger_room :: "nat \<Rightarrow> ledger \<Rightarrow> bool" where
  "ledger_room n st \<longleftrightarrow> ledger_inv st \<and> length (casts st) + n \<le> uint256_max"

lemma ledger_run_trace: "snd (run_trace (ledger_tx k v) txs st) = ledger_run k v txs st"
  by (induction txs arbitrary: st) (auto simp: ledger_tx_def accepts_def split: sum.split)

lemma casts_keys: "fst ` ballot_of ` S = vc_nullifier ` S"
  by (force simp: ballot_of_def)

lemma ballots_dom: "ledger_inv st \<Longrightarrow> n \<in> dom (bx_ballots (box_of st)) \<longleftrightarrow> nullifiers st n"
  by (simp add: box_of_def dom_map_of_conv_image_fst casts_keys ledger_inv_def)

lemma map_of_fresh_snoc: "fst p \<notin> fst ` set ps \<Longrightarrow> map_of (ps @ [p]) = (map_of ps)(fst p \<mapsto> snd p)"
  by (induction ps) (auto simp: fun_eq_iff)

lemma room_no_panic:
  assumes "ledger_room (Suc n) st"
  shows "optionTally (polls st i) opt \<noteq> uint256_max" "totalVotes (polls st i) \<noteq> uint256_max"
proof -
  have "votes_in i (casts st) \<le> length (casts st)" "votes_on i opt (casts st) \<le> length (casts st)"
    by (simp_all add: votes_in_def votes_on_def)
  then show "optionTally (polls st i) opt \<noteq> uint256_max" "totalVotes (polls st i) \<noteq> uint256_max"
    using assms by (simp_all add: ledger_room_def ledger_inv_def)
qed

lemma box_cast:
  assumes "ledger_room (Suc n) st"
  shows "map_option box_of (accepts (cast_vote v en i opt nul pf st)) =
    guarded (may_vote (now en) i nul (box_of st) \<and> v pf)
      ((box_of st)\<lparr>bx_ballots := (bx_ballots (box_of st))(nul \<mapsto> (i, opt))\<rparr>)"
proof -
  have inv: "ledger_inv st" using assms by (simp add: ledger_room_def)
  have may: "may_vote (now en) i nul (box_of st) \<longleftrightarrow>
      \<not> paused st \<and> deadline (polls st i) \<noteq> 0 \<and> now en \<le> deadline (polls st i) \<and> \<not> finalised (polls st i) \<and> \<not> nullifiers st nul"
    using ballots_dom [OF inv, of nul] by (auto simp: may_vote_def box_of_def)
  show ?thesis
  proof (cases "may_vote (now en) i nul (box_of st) \<and> v pf")
    case True
    then obtain st' where st': "cast_vote v en i opt nul pf st = Inr st'"
      using may room_no_panic [OF assms] by (auto simp: cast_vote_Inr)
    have "nul \<notin> fst ` set (map ballot_of (casts st))"
      using True may inv by (simp add: casts_keys ledger_inv_def)
    then have "map_of (map ballot_of (casts st) @ [(nul, i, opt)]) = (map_of (map ballot_of (casts st)))(nul \<mapsto> (i, opt))"
      using map_of_fresh_snoc [of "(nul, i, opt)"] by simp
    then have "box_of st' = (box_of st)\<lparr>bx_ballots := (bx_ballots (box_of st))(nul \<mapsto> (i, opt))\<rparr>"
      using st' by (auto simp: cast_vote_Inr box_of_def ballot_of_def)
    then show ?thesis using True st' by (simp add: accepts_def guarded_def)
  next
    case False
    have "cast_vote v en i opt nul pf st \<noteq> Inr st'" for st' using False may by (auto simp: cast_vote_Inr)
    then show ?thesis using False by (auto simp: accepts_def guarded_def split: sum.split)
  qed
qed

lemma box_admin:
  assumes "cast_of c = None"
  shows "map_option box_of (accepts (ledger_exec k v en c st)) = box_exec k v (en, c) (box_of st)"
  using assms
  by (cases c)
    (auto simp: cast_of_def ledger_exec_def box_exec_def owner_calls_defs accepts_def guarded_def box_of_def split: if_splits)

lemma ledger_box_step:
  assumes "ledger_room (Suc n) st"
  shows "map_option box_of (ledger_tx k v tx st) = box_exec k v tx (box_of st)"
proof (cases "snd tx")
  case (CastVote i opt nul pf)
  then show ?thesis
    using box_cast [OF assms] by (simp add: ledger_tx_def ledger_exec_def box_exec_def)
qed (use box_admin [of "snd tx" k v "fst tx" st] in \<open>cases tx, simp add: ledger_tx_def cast_of_def\<close>)+

lemma ledger_room_keeps:
  assumes "ledger_room (Suc n) st" "ledger_tx k v tx st = Some st'"
  shows "ledger_room n st'"
proof -
  have ex: "ledger_exec k v (fst tx) (snd tx) st = Inr st'"
    using assms(2) by (simp add: ledger_tx_def accepts_def split: sum.splits)
  moreover have "length (casts st') \<le> Suc (length (casts st))"
    using ledger_exec_cases [OF ex] by (auto simp: cast_vote_Inr admin_change_def)
  ultimately show ?thesis
    using assms(1) ledger_exec_inv by (auto simp: ledger_room_def)
qed

interpretation ledger_box: implements "ledger_tx k v" "box_exec k v" box_of ledger_room for k v
  by unfold_locales (auto simp: ledger_box_step ledger_room_keeps, simp add: ledger_room_def)

text \<open>The numbers the contract answers are counts of ballots.\<close>

lemma ballot_of_eq: "(n, i, opt) = ballot_of e \<longleftrightarrow> e = \<lparr>vc_poll = i, vc_nullifier = n, vc_option = opt\<rparr>"
  by (cases e) (auto simp: ballot_of_def)

lemma casts_at: "n \<in> vc_nullifier ` {e \<in> S. P (vc_poll e) (vc_option e)} \<longleftrightarrow>
    (\<exists>i opt. P i opt \<and> \<lparr>vc_poll = i, vc_nullifier = n, vc_option = opt\<rparr> \<in> S)"
  by (auto simp: image_iff) (metis vote_cast.surjective old.unit.exhaust vote_cast.select_convs)+

lemma distinct_filter_card:
  "distinct (map f es) \<Longrightarrow> length (filter P es) = card (f ` {e \<in> set es. P e})"
proof -
  assume d: "distinct (map f es)"
  then have "inj_on f {e \<in> set es. P e}" by (auto simp: distinct_map intro: inj_on_subset)
  then have "card (f ` {e \<in> set es. P e}) = card {e \<in> set es. P e}" by (rule card_image)
  also have "\<dots> = card (set (filter P es))" by simp
  also have "\<dots> = length (filter P es)" using d by (intro distinct_card) (simp add: distinct_map)
  finally show ?thesis by simp
qed

lemma ballot_Some:
  assumes "ledger_inv st"
  shows "bx_ballots (box_of st) n = Some (i, opt) \<longleftrightarrow> \<lparr>vc_poll = i, vc_nullifier = n, vc_option = opt\<rparr> \<in> set (casts st)"
proof -
  have d: "distinct (map fst (map ballot_of (casts st)))"
    using assms by (auto simp: ledger_inv_def ballot_of_def comp_def)
  have "bx_ballots (box_of st) n = Some (i, opt) \<longleftrightarrow> (n, i, opt) \<in> set (map ballot_of (casts st))"
    using map_of_eq_Some_iff [OF d] by (simp add: box_of_def)
  also have "\<dots> \<longleftrightarrow> \<lparr>vc_poll = i, vc_nullifier = n, vc_option = opt\<rparr> \<in> set (casts st)"
    by (auto simp: image_iff ballot_of_eq)
  finally show ?thesis .
qed

lemma tally_is_card:
  assumes "ledger_inv st"
  shows "get_tally_of st i opt = card (ballots_for i opt (box_of st))"
    and "totalVotes (polls st i) = card (ballots_in i (box_of st))"
proof -
  have d: "distinct (map vc_nullifier (casts st))" using assms by (auto simp: ledger_inv_def)
  have "ballots_for i opt (box_of st) = vc_nullifier ` {e \<in> set (casts st). vc_poll e = i \<and> vc_option e = opt}"
    by (auto simp: set_eq_iff ballots_for_def ballot_Some [OF assms]
      casts_at [of _ _ "\<lambda>j oo. j = i \<and> oo = opt"])
  then show "get_tally_of st i opt = card (ballots_for i opt (box_of st))"
    using assms distinct_filter_card [OF d] by (simp add: ledger_inv_def get_tally_of_def votes_on_def)
  have "ballots_in i (box_of st) = vc_nullifier ` {e \<in> set (casts st). vc_poll e = i}"
    by (auto simp: set_eq_iff ballots_in_def ballot_Some [OF assms] casts_at [of _ _ "\<lambda>j oo. j = i"])
  then show "totalVotes (polls st i) = card (ballots_in i (box_of st))"
    using assms distinct_filter_card [OF d] by (simp add: ledger_inv_def votes_in_def)
qed

section \<open>Properties\<close>

lemma box_of_init: "box_of (ledger_init a) = box_init a"
  by (simp add: box_of_def ledger_init_def no_poll_def box_init_def)

lemma ledger_room_init: "n \<le> uint256_max \<Longrightarrow> ledger_room n (ledger_init a)"
  by (simp add: ledger_room_def ledger_inv_init) (simp add: ledger_init_def)

text \<open>
  C3: The ledger implements the ballot box: for every sequence of transactions of anyone from a fresh
  contract (fewer than its counters can count) the two accept the same ones and end in corresponding
  states, and the contract's answers are counts of ballots: an option's tally is the number of nullifiers whose ballot is
  for that option in that poll, a poll's total that of its ballots, and a nullifier is spent when it has one.
\<close>

theorem ledger_implements_box:
  assumes "length txs \<le> uint256_max" "run_trace (ledger_tx k v) txs (ledger_init a) = (bs, st)"
  shows "run_trace (box_exec k v) txs (box_init a) = (bs, box_of st) \<and>
    (\<forall>i opt. get_tally_of st i opt = card (ballots_for i opt (box_of st))) \<and>
    (\<forall>i. totalVotes (polls st i) = card (ballots_in i (box_of st))) \<and>
    (\<forall>n. is_nullifier_spent st n \<longleftrightarrow> n \<in> dom (bx_ballots (box_of st)))"
proof -
  have tr: "run_trace (box_exec k v) txs (box_init a) = (bs, box_of st)" and inv: "ledger_inv st"
    using ledger_box.traces [of txs "ledger_init a" k v] ledger_room_init [OF assms(1)] assms(2)
    by (simp_all add: box_of_init ledger_room_def)
  then show ?thesis
    using tally_is_card [OF inv] ballots_dom [OF inv] by (simp add: is_nullifier_spent_def)
qed

definition demo_election :: "(env \<times> ledger_call) list" where
  "demo_election =
     [(\<lparr>sender = ''o'', now = 1\<rparr>, CreatePoll ''p'' ''GB'' 9),
      (\<lparr>sender = ''a'', now = 2\<rparr>, CastVote ''pGB'' ''y'' ''m'' any_proof),
      (\<lparr>sender = ''b'', now = 3\<rparr>, CastVote ''pGB'' ''n'' ''m'' any_proof),
      (\<lparr>sender = ''a'', now = 4\<rparr>, FinalisePoll ''pGB''),
      (\<lparr>sender = ''o'', now = 5\<rparr>, FinalisePoll ''pGB''),
      (\<lparr>sender = ''b'', now = 6\<rparr>, CastVote ''pGB'' ''n'' ''l'' any_proof)]"

theorem ledger_implements_box_witness:
  "fst (run_trace (ledger_tx (\<lambda>x. x) (\<lambda>_. True)) demo_election (ledger_init ''o'')) = [True, True, False, False, True, False]"
proof -
  have "length demo_election \<le> uint256_max" by (simp add: demo_election_def uint256_max_def)
  then have "fst (run_trace (ledger_tx (\<lambda>x. x) (\<lambda>_. True)) demo_election (ledger_init ''o'')) =
      fst (run_trace (box_exec (\<lambda>x. x) (\<lambda>_. True)) demo_election (box_init ''o''))"
    using ledger_implements_box [OF _ surjective_pairing, of demo_election] by (metis fst_conv)
  also have "\<dots> = [True, True, False, False, True, False]"
    by (simp add: demo_election_def box_exec_def box_init_def guarded_def may_vote_def packed_poll_id_def)
  finally show ?thesis .
qed

end
