(* ===== verification/Config.thy ===== *)
theory Config
  imports Sms Identity Tally
begin

text \<open>
  How the services are set up: every constructor and module-level instance as a function of the
  environment (\<open>process.env\<close>, a partial map; a variable set to the empty text is set), with the
  defaults of the code. \<open>v ?? d\<close> is \<open>env_or\<close>: it replaces only an unset variable. The clients of \<open>ethers\<close> are
  what they are given: the node's address, the contract's address and the signing key. \<open>DOCUMENTED\<close> is the list of variables
  of \<open>src/backend/.env.example\<close>, the file a deployment starts from.
\<close>

type_synonym environ = "string \<rightharpoonup> string"

definition env_or :: "environ \<Rightarrow> string \<Rightarrow> string \<Rightarrow> string" where
  "env_or E k d = (case E k of None \<Rightarrow> d | Some v \<Rightarrow> v)"

lemma env_or_unset [simp]: "E k = None \<Longrightarrow> env_or E k d = d"
  by (simp add: env_or_def)

lemma env_or_set [simp]: "E k = Some v \<Longrightarrow> env_or E k d = v"
  by (simp add: env_or_def)

lemma env_or_upd: "k \<noteq> k' \<Longrightarrow> env_or (E(k' := v)) k d = env_or E k d"
  by (simp add: env_or_def)

section \<open>The clients of the chain\<close>

record chain_client =
  cl_node :: string
  cl_contract :: string
  cl_key :: "string option"

definition LOCAL_NODE :: string where "LOCAL_NODE = ''http://localhost:8545''"

definition ZERO_ADDRESS :: string where "ZERO_ADDRESS = ''0x'' @ replicate 40 (CHR ''0'')"

text \<open>The constructors, then the instances the modules make.\<close>

definition tally_service_new :: "string \<Rightarrow> string \<Rightarrow> chain_client" where
  "tally_service_new rpc contract = \<lparr>cl_node = rpc, cl_contract = contract, cl_key = None\<rparr>"

definition tally_service_client :: "environ \<Rightarrow> chain_client" where
  "tally_service_client E =
     tally_service_new (env_or E ''RPC_URL'' LOCAL_NODE) (env_or E ''VOTE_LEDGER_ADDRESS'' ZERO_ADDRESS)"

definition live_tally_new :: "string \<Rightarrow> string \<Rightarrow> chain_client" where
  "live_tally_new rpc contract = \<lparr>cl_node = rpc, cl_contract = contract, cl_key = None\<rparr>"

definition live_tally_client :: "environ \<Rightarrow> chain_client" where
  "live_tally_client E = live_tally_new (env_or E ''RPC_URL'' LOCAL_NODE) (env_or E ''VOTE_LEDGER_ADDRESS'' ZERO_ADDRESS)"

text \<open>\<open>rnd\<close> is the key of \<open>Wallet.createRandom()\<close>.\<close>

definition audit_log_new :: "string \<Rightarrow> string \<Rightarrow> string \<Rightarrow> chain_client" where
  "audit_log_new key contract rpc = \<lparr>cl_node = rpc, cl_contract = contract, cl_key = Some key\<rparr>"

definition audit_log_client :: "string \<Rightarrow> environ \<Rightarrow> chain_client" where
  "audit_log_client rnd E =
     audit_log_new (env_or E ''AUDIT_SIGNER_KEY'' rnd) (env_or E ''AUDIT_LOG_ADDRESS'' ZERO_ADDRESS) (env_or E ''RPC_URL'' LOCAL_NODE)"

definition htally_client :: "string \<Rightarrow> environ \<Rightarrow> chain_client" where
  "htally_client rnd E =
     (let k = env_or E ''TALLY_AUTHORITY_PRIVATE_KEY'' []
      in \<lparr>cl_node = env_or E ''BLOCKCHAIN_RPC_URL'' LOCAL_NODE, cl_contract = env_or E ''HOMOMORPHIC_TALLY_ADDR'' ZERO_ADDRESS,
          cl_key = Some (if k = [] then rnd else k)\<rparr>)"

definition governor_reader :: "environ \<Rightarrow> chain_client" where
  "governor_reader E =
     \<lparr>cl_node = env_or E ''RPC_URL'' LOCAL_NODE, cl_contract = env_or E ''VOTE_GOVERNOR_ADDRESS'' ZERO_ADDRESS, cl_key = None\<rparr>"

text \<open>A wallet refuses a text that is no private key; which those are is the parameter \<open>key_ok\<close> of the library.\<close>

definition with_wallet :: "(string \<Rightarrow> bool) \<Rightarrow> string \<Rightarrow> chain_client \<Rightarrow> chain_client result" where
  "with_wallet key_ok k c = (if key_ok k then Inr (c\<lparr>cl_key := Some k\<rparr>) else throw ''invalid private key'')"

definition governor_signer :: "(string \<Rightarrow> bool) \<Rightarrow> environ \<Rightarrow> chain_client result" where
  "governor_signer key_ok E = with_wallet key_ok (env_or E ''RELAY_PRIVATE_KEY'' []) (governor_reader E)"

definition registry_client :: "(string \<Rightarrow> bool) \<Rightarrow> environ \<Rightarrow> chain_client result" where
  "registry_client key_ok E =
     with_wallet key_ok (env_or E ''RELAY_PRIVATE_KEY'' [])
       \<lparr>cl_node = env_or E ''RPC_URL'' LOCAL_NODE, cl_contract = env_or E ''VOTER_REGISTRY_ADDRESS'' ZERO_ADDRESS, cl_key = None\<rparr>"

text \<open>
  \<open>BlockchainService\<close> has no defaults of its own: without an address the provider takes its local node (\<open>ethers\<close>' default), a
  wallet without a key and a contract without an address are refused. The two clients are the ledger and the policy registry.
\<close>

definition blockchain_service :: "(string \<Rightarrow> bool) \<Rightarrow> environ \<Rightarrow> (chain_client \<times> chain_client) result" where
  "blockchain_service key_ok E =
     (let node = env_or E ''RPC_URL'' LOCAL_NODE
      in case E ''RELAY_PRIVATE_KEY'' of
           None \<Rightarrow> throw ''invalid private key''
         | Some k \<Rightarrow>
             if \<not> key_ok k then throw ''invalid private key''
             else (case (E ''VOTE_LEDGER_ADDRESS'', E ''POLICY_REGISTRY_ADDRESS'') of
                     (Some l, Some p) \<Rightarrow>
                       Inr (\<lparr>cl_node = node, cl_contract = l, cl_key = Some k\<rparr>, \<lparr>cl_node = node, cl_contract = p, cl_key = None\<rparr>)
                   | _ \<Rightarrow> throw ''no contract address''))"

text \<open>\<open>new DIDService(process.env.RPC_URL!, ...)\<close>: the node and the name of the network.\<close>

definition did_service_new :: "string \<Rightarrow> string \<Rightarrow> string \<times> string" where
  "did_service_new rpc network = (rpc, network)"

definition did_service :: "environ \<Rightarrow> string \<times> string" where
  "did_service E = did_service_new (env_or E ''RPC_URL'' LOCAL_NODE) (env_or E ''DID_NETWORK'' ''sepolia'')"

section \<open>The other services\<close>

definition fido_service_new :: "string \<Rightarrow> string \<Rightarrow> string \<times> string" where
  "fido_service_new rp origin = (rp, origin)"

definition fido_relying_party :: "environ \<Rightarrow> string \<times> string" where
  "fido_relying_party E = fido_service_new (env_or E ''RP_ID'' ''localhost'') (env_or E ''ORIGIN'' ''http://localhost:3000'')"

definition redis_url :: "environ \<Rightarrow> string" where
  "redis_url E = env_or E ''REDIS_URL'' ''redis://localhost:6379''"

definition server_port :: "environ \<Rightarrow> string" where
  "server_port E = env_or E ''PORT'' ''3000''"

definition cors_origin :: "environ \<Rightarrow> string" where
  "cors_origin E = env_or E ''CORS_ORIGIN'' ''http://localhost:3001''"

definition ussd_salt :: "environ \<Rightarrow> string" where
  "ussd_salt E = env_or E ''USSD_NULLIFIER_SALT'' ''ussd-salt-replace''"

definition sms_salt :: "environ \<Rightarrow> string" where
  "sms_salt E = env_or E ''SMS_NULLIFIER_SALT'' ''default-salt-replace-in-prod''"

definition sms_codes :: "environ \<Rightarrow> string list" where
  "sms_codes E = split_on (CHR '','') (env_or E ''SMS_ALLOWED_COUNTRY_CODES'' ''GB,US,IN,NG,KE,ZA'')"

record sms_service =
  sm_account :: string
  sm_token :: string
  sm_number :: string
  sm_codes :: "string list"

definition sms_service_new :: "string \<Rightarrow> string \<Rightarrow> string \<Rightarrow> string list \<Rightarrow> sms_service" where
  "sms_service_new account token number codes =
     \<lparr>sm_account = account, sm_token = token, sm_number = number, sm_codes = map to_upper codes\<rparr>"

definition sms_service_of :: "environ \<Rightarrow> sms_service" where
  "sms_service_of E =
     sms_service_new (env_or E ''TWILIO_ACCOUNT_SID'' []) (env_or E ''TWILIO_AUTH_TOKEN'' []) (env_or E ''TWILIO_FROM_NUMBER'' [])
       (sms_codes E)"

definition anonymity_new :: "js_num \<Rightarrow> (string \<rightharpoonup> js_num) \<Rightarrow> anonymity" where
  "anonymity_new k ts = \<lparr>default_k = k, thresholds = ts\<rparr>"

definition anonymity_service :: "environ \<Rightarrow> anonymity" where
  "anonymity_service E =
     anonymity_new (parse_int (env_or E ''ANONYMITY_K'' ''5'')) [''NZ'' \<mapsto> Some 10, ''IS'' \<mapsto> Some 10, ''LU'' \<mapsto> Some 10]"

lemmas setup_defs =
  tally_service_client_def tally_service_new_def live_tally_client_def live_tally_new_def audit_log_client_def audit_log_new_def
  fido_relying_party_def fido_service_new_def sms_service_of_def sms_service_new_def anonymity_service_def anonymity_new_def

text \<open>The settings of the identity adapters, into the configuration whose libraries are given.\<close>

definition EIDAS_DEFAULT :: string where
  "EIDAS_DEFAULT = ''DE,FR,ES,IT,NL,PL,SE,AT,BE,DK,FI,IE,PT,RO,CZ,HU,BG,HR,SK,SI,LT,LV,EE,CY,LU,MT''"

definition identity_settings :: "environ \<Rightarrow> id_config \<Rightarrow> id_config" where
  "identity_settings E C =
     C\<lparr>commitment_salt := env_or E ''IDENTITY_COMMITMENT_SALT'' ''identity-salt-replace-in-prod'',
       node_env := env_or E ''NODE_ENV'' [],
       govuk_jwks := env_or E ''GOVUK_OIDC_JWKS_URI'' [], govuk_issuer := env_or E ''GOVUK_OIDC_ISSUER'' [],
       govuk_client := env_or E ''GOVUK_OIDC_CLIENT_ID'' [],
       eidas_jwks := env_or E ''EIDAS_JWKS_URI'' [], eidas_issuer := env_or E ''EIDAS_ISSUER'' [],
       eidas_audience := env_or E ''EIDAS_AUDIENCE'' [],
       eidas_countries := env_or E ''EIDAS_COUNTRY_CODES'' EIDAS_DEFAULT,
       zkp_dev_flag := (E ''ZKPASSPORT_DEV_MODE'' = Some ''true''), zkp_oprf := E ''ZKP_OPRF_KEY_ID''\<rparr>"

definition zkp_domain :: "environ \<Rightarrow> string" where
  "zkp_domain E = env_or E ''ZKPASSPORT_DOMAIN'' ''thevoteapp.org''"

text \<open>The pages rendered on the server and those rendered in the browser.\<close>

definition page_api :: "environ \<Rightarrow> string" where
  "page_api E = env_or E ''API_BASE_URL'' ''http://localhost:3000''"

definition browser_api :: "environ \<Rightarrow> string" where
  "browser_api E = env_or E ''NEXT_PUBLIC_API_BASE_URL'' []"

text \<open>The networks a deployment can name: address, accounts.\<close>

definition hardhat_networks :: "environ \<Rightarrow> (string \<times> string \<times> string list) list" where
  "hardhat_networks E =
     (let accts = (case E ''DEPLOYER_PRIVATE_KEY'' of None \<Rightarrow> [] | Some k \<Rightarrow> if k = [] then [] else [k])
      in [(''sepolia'', env_or E ''SEPOLIA_RPC_URL'' [], accts), (''mainnet'', env_or E ''MAINNET_RPC_URL'' [], accts)])"

definition l2_networks :: "environ \<Rightarrow> (string \<times> string \<times> string list \<times> nat) list" where
  "l2_networks E =
     (let accts = [env_or E ''DEPLOYER_PRIVATE_KEY'' (''0x'' @ replicate 64 (CHR ''0''))]
      in [(''optimismSepolia'', env_or E ''OPTIMISM_SEPOLIA_RPC_URL'' ''https://sepolia.optimism.io'', accts, 11155420),
          (''arbitrumSepolia'', env_or E ''ARBITRUM_SEPOLIA_RPC_URL'' ''https://sepolia-rollup.arbitrum.io/rpc'', accts, 421614),
          (''optimism'', env_or E ''OPTIMISM_RPC_URL'' ''https://mainnet.optimism.io'', accts, 10),
          (''arbitrum'', env_or E ''ARBITRUM_RPC_URL'' ''https://arb1.arbitrum.io/rpc'', accts, 42161)])"

text \<open>The command line of the auditor.\<close>

definition auditor_contracts :: "environ \<Rightarrow> string \<times> string" where
  "auditor_contracts E =
     (env_or E ''VOTE_LEDGER_ADDRESS'' ZERO_ADDRESS, env_or E ''POLICY_REGISTRY_ADDRESS'' ZERO_ADDRESS)"

section \<open>Clients made at first use\<close>

text \<open>
  The identity proof's SDK is made once, at the first verification, with the domain the environment names then; an SDK is
  shown by its domain. \<open>check domain\<close> is its \<open>verify\<close>. A verifier given to the constructor replaces it.
\<close>

record sdk_request = zkp_input +
  rq_identifier_type :: int
  rq_directory :: string

definition get_sdk :: "environ \<Rightarrow> string option \<Rightarrow> string \<times> string option" where
  "get_sdk E sdk = (case sdk of None \<Rightarrow> (zkp_domain E, Some (zkp_domain E)) | Some d \<Rightarrow> (d, sdk))"

definition default_verify ::
  "(string \<Rightarrow> sdk_request \<Rightarrow> zkp_verification result) \<Rightarrow> int \<Rightarrow> string \<Rightarrow> environ \<Rightarrow> zkp_input \<Rightarrow> string option
     \<Rightarrow> zkp_verification result \<times> string option" where
  "default_verify check salted tmp E i sdk =
     (case get_sdk E sdk of
        (d, sdk') \<Rightarrow>
          (check d \<lparr>in_proofs = in_proofs i, in_query = in_query i, in_result = in_result i, in_scope = in_scope i, in_dev = in_dev i,
                    in_oprf = in_oprf i, rq_identifier_type = salted, rq_directory = tmp\<rparr>, sdk'))"

fun verify_calls ::
  "(string \<Rightarrow> sdk_request \<Rightarrow> zkp_verification result) \<Rightarrow> int \<Rightarrow> string \<Rightarrow> (environ \<times> zkp_input) list \<Rightarrow> string option
     \<Rightarrow> zkp_verification result list" where
  "verify_calls check salted tmp [] sdk = []"
| "verify_calls check salted tmp ((E, i) # cs) sdk =
     (case default_verify check salted tmp E i sdk of (r, sdk') \<Rightarrow> r # verify_calls check salted tmp cs sdk')"

lemma verify_calls_same:
  "verify_calls check salted tmp cs (Some d) = map (\<lambda>(E, i). fst (default_verify check salted tmp E i (Some d))) cs"
  by (induction cs) (auto simp: default_verify_def get_sdk_def)

text \<open>\<open>initializeApp\<close> of Firebase fails by its argument; the second result is whether a warning is logged.\<close>

definition push_setup :: "nat \<Rightarrow> environ \<Rightarrow> (string \<Rightarrow> unit result) \<Rightarrow> nat \<times> bool" where
  "push_setup apps E init =
     (case E ''FIREBASE_SERVICE_ACCOUNT'' of
        None \<Rightarrow> (apps, False)
      | Some v \<Rightarrow>
          if apps = 0 \<and> v \<noteq> [] then (case init v of Inl e \<Rightarrow> (apps, True) | Inr u \<Rightarrow> (apps + 1, False))
          else (apps, False))"

text \<open>A call of the logger, as winston gets it: a text drops the second argument.\<close>

definition log_call :: "string \<Rightarrow> string + json \<Rightarrow> string option \<Rightarrow> string \<times> string \<times> json option" where
  "log_call level x msg =
     (case x of Inl t \<Rightarrow> (level, t, None) | Inr j \<Rightarrow> (level, case_option [] (\<lambda>m. m) msg, Some j))"

text \<open>Which answers are compressed; \<open>std\<close> is the package's own filter.\<close>

definition compress_filter :: "bool \<Rightarrow> string option \<Rightarrow> bool" where
  "compress_filter std ct =
     (let c = case_option [] (\<lambda>t. t) ct
      in if str_includes c ''image/'' \<or> str_includes c ''application/pdf'' then False else std)"

section \<open>What the identity routes accept\<close>

text \<open>\<open>VerifyBody\<close> and \<open>RegisterBody\<close>; additional members are dropped.\<close>

definition is_text :: "json option \<Rightarrow> bool" where
  "is_text v = (case v of Some (JStr t) \<Rightarrow> True | _ \<Rightarrow> False)"

definition extra_ok :: "json option \<Rightarrow> bool" where
  "extra_ok v =
     (case v of None \<Rightarrow> True | Some (JObj ms) \<Rightarrow> list_all (\<lambda>k. is_text (json_get k (JObj ms))) (map fst ms) | _ \<Rightarrow> False)"

definition identity_schema :: "json \<Rightarrow> identity_body option" where
  "identity_schema j =
     (case (json_get ''adapter'' j, json_get ''token'' j) of
        (Some (JStr a), Some (JStr t)) \<Rightarrow>
          if 1 \<le> length a \<and> length a \<le> 32 \<and> 1 \<le> length t \<and> length t \<le> 16384 \<and> extra_ok (json_get ''extraParams'' j)
          then Some \<lparr>b_adapter = a, b_token = t\<rparr> else None
      | _ \<Rightarrow> None)"

section \<open>The SMS webhook with its signature check\<close>

text \<open>
  \<open>twilio.validateRequest(token, signature, url, form)\<close> is the parameter \<open>validate\<close>. The template of the address prints
  an unset \<open>ORIGIN\<close> as \<open>undefined\<close>.
\<close>

definition sms_url :: "environ \<Rightarrow> string" where
  "sms_url E = env_or E ''ORIGIN'' ''undefined'' @ ''/api/v1/sms/inbound''"

type_synonym form = "(string \<times> string) list"

definition signature_ok :: "(string \<Rightarrow> string \<Rightarrow> string \<Rightarrow> form \<Rightarrow> bool) \<Rightarrow> environ \<Rightarrow> string option \<Rightarrow> form \<Rightarrow> bool" where
  "signature_ok validate E sig fm =
     validate (env_or E ''TWILIO_AUTH_TOKEN'' []) (case sig of None \<Rightarrow> [] | Some v \<Rightarrow> v) (sms_url E) fm"

definition sms_inbound ::
  "'r redis \<Rightarrow> hash \<Rightarrow> (string \<Rightarrow> string \<Rightarrow> string \<Rightarrow> form \<Rightarrow> bool) \<Rightarrow> environ \<Rightarrow> string option \<Rightarrow> form \<Rightarrow> 'r
     \<Rightarrow> response \<times> submission option \<times> 'r" where
  "sms_inbound R sha validate E sig fm s =
     sms_route R sha (sms_salt E) (sms_codes E) (E ''NODE_ENV'' = Some ''test'') (signature_ok validate E sig fm)
       (map_of fm ''From'') (map_of fm ''Body'') s"

section \<open>The documented environment\<close>

definition DOCUMENTED :: "string list" where
  "DOCUMENTED =
     [''PORT'', ''NODE_ENV'', ''RPC_URL'', ''VOTE_LEDGER_ADDRESS'', ''VOTER_REGISTRY_ADDRESS'', ''POLICY_REGISTRY_ADDRESS'',
      ''RELAY_PRIVATE_KEY'', ''ZK_CIRCUIT_WASM_PATH'', ''ZK_ZKEY_PATH'', ''RATE_LIMIT_WINDOW_MS'', ''RATE_LIMIT_MAX'',
      ''VOTE_RATE_LIMIT'', ''AUDIT_RATE_LIMIT'', ''ADMIN_RATE_LIMIT'', ''CORS_ORIGIN'', ''REDIS_URL'',
      ''IDENTITY_COMMITMENT_SALT'', ''EIDAS_JWKS_URI'', ''EIDAS_ISSUER'', ''EIDAS_AUDIENCE'', ''EIDAS_COUNTRY_CODES'',
      ''GOVUK_OIDC_JWKS_URI'', ''GOVUK_OIDC_ISSUER'', ''GOVUK_OIDC_CLIENT_ID'', ''PINATA_JWT'', ''WEB3_STORAGE_TOKEN'',
      ''FILEBASE_KEY'', ''FILEBASE_SECRET'', ''FILEBASE_BUCKET'', ''LOG_LEVEL'', ''LOG_VOTES'', ''ZKPASSPORT_DOMAIN'',
      ''ZKP_OPRF_KEY_ID'', ''ZKPASSPORT_DEV_MODE'']"

lemma undocumented:
  assumes "dom E \<subseteq> set DOCUMENTED" "k \<notin> set DOCUMENTED"
  shows "E k = None"
  using assms by auto

lemma not_documented:
  "list_all (\<lambda>k. k \<notin> set DOCUMENTED)
     [''BLOCKCHAIN_RPC_URL'', ''HOMOMORPHIC_TALLY_ADDR'', ''TALLY_AUTHORITY_PRIVATE_KEY'', ''AUDIT_SIGNER_KEY'', ''AUDIT_LOG_ADDRESS'',
      ''VOTE_GOVERNOR_ADDRESS'', ''SMS_NULLIFIER_SALT'', ''USSD_NULLIFIER_SALT'', ''TWILIO_AUTH_TOKEN'', ''TWILIO_ACCOUNT_SID'',
      ''TWILIO_FROM_NUMBER'', ''ORIGIN'', ''RP_ID'', ''SMS_ALLOWED_COUNTRY_CODES'', ''ANONYMITY_K'']"
  by (simp add: DOCUMENTED_def)

lemma undocumented_unset:
  assumes "dom E \<subseteq> set DOCUMENTED"
  shows "E ''BLOCKCHAIN_RPC_URL'' = None" "E ''HOMOMORPHIC_TALLY_ADDR'' = None" "E ''TALLY_AUTHORITY_PRIVATE_KEY'' = None"
    "E ''AUDIT_SIGNER_KEY'' = None" "E ''AUDIT_LOG_ADDRESS'' = None" "E ''VOTE_GOVERNOR_ADDRESS'' = None"
    "E ''SMS_NULLIFIER_SALT'' = None" "E ''USSD_NULLIFIER_SALT'' = None" "E ''TWILIO_AUTH_TOKEN'' = None"
    "E ''ORIGIN'' = None" "E ''RP_ID'' = None" "E ''SMS_ALLOWED_COUNTRY_CODES'' = None" "E ''ANONYMITY_K'' = None"
  using undocumented [OF assms] not_documented by auto

definition EXAMPLE :: environ where
  "EXAMPLE =
     [''PORT'' \<mapsto> ''3000'', ''NODE_ENV'' \<mapsto> ''production'', ''RPC_URL'' \<mapsto> ''http://node:8545'', ''VOTE_LEDGER_ADDRESS'' \<mapsto> ''0xa'',
      ''POLICY_REGISTRY_ADDRESS'' \<mapsto> ''0xb'', ''RELAY_PRIVATE_KEY'' \<mapsto> ''0xc'']"

lemma EXAMPLE_documented: "dom EXAMPLE \<subseteq> set DOCUMENTED"
  by (simp add: EXAMPLE_def DOCUMENTED_def)

section \<open>Properties\<close>

text \<open>
  With no more than the documented variables set, whatever their values, the homomorphic tally watches no contract on
  the local node with a random key, the audit log writes to no contract and signs with a random key, and governance reads none;
  the salts of the nullifiers are the texts in the code, and the SMS webhook checks signatures under the empty token.
\<close>

theorem documented_settings:
  assumes "dom E \<subseteq> set DOCUMENTED"
  shows "htally_client rnd E = \<lparr>cl_node = LOCAL_NODE, cl_contract = ZERO_ADDRESS, cl_key = Some rnd\<rparr> \<and>
    cl_contract (audit_log_client rnd E) = ZERO_ADDRESS \<and> cl_key (audit_log_client rnd E) = Some rnd \<and>
    cl_contract (governor_reader E) = ZERO_ADDRESS \<and>
    sms_salt E = ''default-salt-replace-in-prod'' \<and> ussd_salt E = ''ussd-salt-replace'' \<and>
    sm_token (sms_service_of E) = [] \<and> sms_url E = ''undefined/api/v1/sms/inbound'' \<and>
    fido_relying_party E = (''localhost'', ''http://localhost:3000'')"
  using undocumented_unset [OF assms]
  by (simp add: htally_client_def governor_reader_def sms_salt_def ussd_salt_def sms_url_def setup_defs)

theorem documented_settings_witness:
  "cl_node (htally_client ''r'' EXAMPLE) = ''http://localhost:8545'' \<and> cl_node (tally_service_client EXAMPLE) = ''http://node:8545''"
  using documented_settings [OF EXAMPLE_documented, of "''r''"]
  by (simp add: LOCAL_NODE_def setup_defs EXAMPLE_def)


definition demo_sign :: "string \<Rightarrow> string \<Rightarrow> form \<Rightarrow> string" where
  "demo_sign token url fm = token @ ''|'' @ url @ concat (map (\<lambda>(k, v). k @ v) fm)"

definition demo_validate :: "string \<Rightarrow> string \<Rightarrow> string \<Rightarrow> form \<Rightarrow> bool" where
  "demo_validate token sig url fm = (sig = demo_sign token url fm)"


text \<open>
  The relay and the two tallies agree on the ledger: when the environment names node and ledger, whatever else it sets, the
  votes are written to the contract the tallies are read from.
\<close>

theorem one_ledger:
  assumes "blockchain_service key_ok E = Inr (l, p)" "E ''RPC_URL'' = Some u"
  shows "cl_node l = u \<and> cl_node (tally_service_client E) = u \<and> tally_service_client E = live_tally_client E \<and>
    cl_contract l = cl_contract (tally_service_client E)"
  using assms
  by (auto simp: blockchain_service_def setup_defs throw_def Let_def split: option.splits if_splits)

text \<open>
  All verifications of a process run under one domain, that of the first, whatever the environment says later, and each
  asks for a salted identifier.
\<close>

theorem one_sdk:
  "verify_calls check salted tmp ((E, i) # cs) None =
     map (\<lambda>(E', i'). fst (default_verify check salted tmp E' i' (Some (zkp_domain E)))) ((E, i) # cs)"
  by (simp add: default_verify_def get_sdk_def verify_calls_same split: prod.split)

text \<open>A value of \<open>ANONYMITY_K\<close> that is no number, the empty text among them, turns the filter off: every tally is published.\<close>

theorem anonymity_off:
  assumes "E ''ANONYMITY_K'' = Some v" "parse_int v = None"
  shows "anonymise (anonymity_service E) t None = Available (policyId t) (t\<lparr>stray := []\<rparr>)"
  using assms by (simp add: anonymise_def setup_defs threshold_for_def js_less_def)

text \<open>The list of countries is not trimmed: a blank behind a comma takes a country out of the SMS channel.\<close>

lemma split_join_blank:
  assumes "\<And>c. c \<in> set cs \<Longrightarrow> d \<notin> set c" "d \<noteq> CHR '' ''" "d \<notin> set c0"
  shows "split_on d (join [d, CHR '' ''] (c0 # cs)) = c0 # map ((#) (CHR '' '')) cs"
  using assms
proof (induction cs arbitrary: c0)
  case (Cons c cs)
  have "split_on d (join [d, CHR '' ''] (c # cs)) = c # map ((#) (CHR '' '')) cs" using Cons by simp
  then show ?case using Cons.prems by (simp add: split_on_append)
qed (simp add: split_on_no_sep)

theorem sms_codes_blank:
  assumes "E ''SMS_ALLOWED_COUNTRY_CODES'' = Some (join '', '' (c0 # cs))" "\<forall>c \<in> set (c0 # cs). CHR '','' \<notin> set c"
    and "extract_country_code phone \<noteq> to_upper c0"
  shows "sms_handle R sha salt (sms_codes E) phone txt s = (''Voting via SMS is not available in your region.'', None, s)"
proof -
  have codes: "sms_codes E = c0 # map ((#) (CHR '' '')) cs"
    using split_join_blank [of cs "CHR '',''" c0] assms(1,2) by (simp add: sms_codes_def)
  have "extract_country_code phone \<noteq> to_upper (CHR '' '' # c)" for c
    by (simp add: extract_country_code_def to_upper_def upper_char_def is_lower_def code_def)
  then show ?thesis using assms(3) codes by (auto simp: sms_handle_def Let_def)
qed

end
