(* ===== verification/Curve_Group.thy ===== *)
theory Curve_Group
  imports Curve_Points
begin

text \<open>
  The points of Baby Jubjub under the service's addition (\<open>bjjAdd\<close>, \<open>bjjScalarMul\<close> and \<open>bjjNeg\<close> of
  \<open>services/HomomorphicTallyService.ts\<close>): the addition is associative wherever its denominators are invertible, so that the
  multiples of the generator add like their indices, double-and-add computes them, and the search finds the index. Which multiples have
  invertible denominators is the predicate \<open>tame\<close>; it holds of all, since the curve is complete, and is checked here for the first ones.
\<close>

section \<open>Associativity\<close>

text \<open>The two ideal memberships behind it: the cross-multiplied difference of the two sums vanishes on the curve.\<close>

lemma assoc_ideal_x:
  fixes x1 y1 x2 y2 x3 y3 a d :: int
  shows "\<exists>r1 r2 r3. ((x1*y2+y1*x2) * (1 - d*(x1*x2)*(y1*y2)) * y3 + (y1*y2 - a*(x1*x2)) * (1 + d*(x1*x2)*(y1*y2)) * x3) *
      ((1 + d*(x2*x3)*(y2*y3)) * (1 - d*(x2*x3)*(y2*y3)) + d * x1 * y1 * ((x2*y3+y2*x3) * (y2*y3 - a*(x2*x3)))) -
     (x1 * ((y2*y3 - a*(x2*x3)) * (1 + d*(x2*x3)*(y2*y3))) + y1 * ((x2*y3+y2*x3) * (1 - d*(x2*x3)*(y2*y3)))) *
      ((1 + d*(x1*x2)*(y1*y2)) * (1 - d*(x1*x2)*(y1*y2)) + d * x3 * y3 * ((x1*y2+y1*x2) * (y1*y2 - a*(x1*x2)))) =
     (a * x1\<^sup>2 + y1\<^sup>2 - (1 + d * (x1\<^sup>2 * y1\<^sup>2))) * r1 + (a * x2\<^sup>2 + y2\<^sup>2 - (1 + d * (x2\<^sup>2 * y2\<^sup>2))) * r2 +
     (a * x3\<^sup>2 + y3\<^sup>2 - (1 + d * (x3\<^sup>2 * y3\<^sup>2))) * r3"
  by algebra

lemma assoc_ideal_y:
  fixes x1 y1 x2 y2 x3 y3 a d :: int
  shows "\<exists>r1 r2 r3. ((y1*y2 - a*(x1*x2)) * (1 + d*(x1*x2)*(y1*y2)) * y3 - a * ((x1*y2+y1*x2) * (1 - d*(x1*x2)*(y1*y2)) * x3)) *
      ((1 + d*(x2*x3)*(y2*y3)) * (1 - d*(x2*x3)*(y2*y3)) - d * x1 * y1 * ((x2*y3+y2*x3) * (y2*y3 - a*(x2*x3)))) -
     (y1 * ((y2*y3 - a*(x2*x3)) * (1 + d*(x2*x3)*(y2*y3))) - a * (x1 * ((x2*y3+y2*x3) * (1 - d*(x2*x3)*(y2*y3))))) *
      ((1 + d*(x1*x2)*(y1*y2)) * (1 - d*(x1*x2)*(y1*y2)) - d * x3 * y3 * ((x1*y2+y1*x2) * (y1*y2 - a*(x1*x2)))) =
     (a * x1\<^sup>2 + y1\<^sup>2 - (1 + d * (x1\<^sup>2 * y1\<^sup>2))) * r1 + (a * x2\<^sup>2 + y2\<^sup>2 - (1 + d * (x2\<^sup>2 * y2\<^sup>2))) * r2 +
     (a * x3\<^sup>2 + y3\<^sup>2 - (1 + d * (x3\<^sup>2 * y3\<^sup>2))) * r3"
  by algebra

definition curve_point :: "point \<Rightarrow> bool" where
  "curve_point p \<longleftrightarrow> in_field p \<and> on_curve p"

lemma on_curve_dvd: "on_curve (x, y) \<longleftrightarrow> BJJ_P dvd BJJ_A * x\<^sup>2 + y\<^sup>2 - (1 + BJJ_D * (x\<^sup>2 * y\<^sup>2))"
  by (simp only: on_curve_def fst_conv snd_conv mod_eq_dvd_iff)

lemma dvd_three:
  fixes m :: int
  assumes "\<exists>r1 r2 r3. g = e1 * r1 + e2 * r2 + e3 * r3" "m dvd e1" "m dvd e2" "m dvd e3"
  shows "m dvd g"
  using assms by (metis dvd_add dvd_mult2)

text \<open>Cross-multiplying through the defining equations of the two inner sums.\<close>

lemma cleared:
  fixes m :: int
  assumes "(x * A) mod m = M mod m" "(y * B) mod m = N mod m"
  shows "((x * u + y * v) * (A * B)) mod m = (M * B * u + N * A * v) mod m"
    and "((1 + k * (x * y)) * (A * B)) mod m = (A * B + k * (M * N)) mod m"
    and "((y * u - c * (x * v)) * (A * B)) mod m = (N * A * u - c * (M * B * v)) mod m"
    and "((1 - k * (x * y)) * (A * B)) mod m = (A * B - k * (M * N)) mod m"
proof -
  have "(x * u + y * v) * (A * B) = (x * A) * B * u + (y * B) * A * v"
    "(1 + k * (x * y)) * (A * B) = A * B + k * ((x * A) * (y * B))"
    "(y * u - c * (x * v)) * (A * B) = (y * B) * A * u - c * ((x * A) * B * v)"
    "(1 - k * (x * y)) * (A * B) = A * B - k * ((x * A) * (y * B))"
    by (simp_all add: algebra_simps)
  then show "((x * u + y * v) * (A * B)) mod m = (M * B * u + N * A * v) mod m"
    "((1 + k * (x * y)) * (A * B)) mod m = (A * B + k * (M * N)) mod m"
    "((y * u - c * (x * v)) * (A * B)) mod m = (N * A * u - c * (M * B * v)) mod m"
    "((1 - k * (x * y)) * (A * B)) mod m = (A * B - k * (M * N)) mod m"
    by (simp_all only:) (intro mod_add_cong mod_diff_cong mod_mult_cong assms refl)+
qed

text \<open>Equal fractions: two quotients by units that agree after clearing all denominators.\<close>

lemma cross_cancel:
  fixes m :: int
  assumes u: "(u * F) mod m = S mod m"
    and l: "(T * U) mod m = L mod m" "(F * V) mod m = F' mod m"
    and r: "(S * V) mod m = R mod m" "(E * U) mod m = E' mod m"
    and eq: "m dvd L * F' - R * E'"
    and cop: "coprime m (F * (U * V))"
  shows "(u * E) mod m = T mod m"
proof -
  have "(T * F * (U * V)) mod m = (S * E * (U * V)) mod m"
  proof -
    have "(T * F * (U * V)) mod m = ((T * U) * (F * V)) mod m" by (simp add: ac_simps)
    also have "\<dots> = (L * F') mod m" by (intro mod_mult_cong l)
    also have "\<dots> = (R * E') mod m" using eq by (simp add: mod_eq_dvd_iff)
    also have "\<dots> = ((S * V) * (E * U)) mod m" by (intro mod_mult_cong r [symmetric])
    also have "\<dots> = (S * E * (U * V)) mod m" by (simp add: ac_simps)
    finally show ?thesis .
  qed
  moreover have "(S * E * (U * V)) mod m = (u * F * E * (U * V)) mod m"
    by (intro mod_mult_cong u [symmetric] refl)
  ultimately have "m dvd T * F * (U * V) - u * F * E * (U * V)" by (simp only: mod_eq_dvd_iff [symmetric])
  moreover have "T * F * (U * V) - u * F * E * (U * V) = - ((u * E - T) * (F * (U * V)))" by algebra
  ultimately have "m dvd (u * E - T) * (F * (U * V))" by simp
  with cop have "m dvd u * E - T" by (simp add: coprime_dvd_mult_left_iff)
  then show ?thesis by (simp add: mod_eq_dvd_iff)
qed

text \<open>
  The service's addition is associative: three points of the curve have the same sum in both orders whenever the denominators
  of the four additions are invertible.
\<close>

lemma bjj_add_assoc:
  assumes "curve_point p" "curve_point q" "curve_point r"
    and "addable p q" "addable q r" "addable (bjj_add p q) r" "addable p (bjj_add q r)"
  shows "bjj_add (bjj_add p q) r = bjj_add p (bjj_add q r)"
proof -
  obtain x1 y1 x2 y2 x3 y3 where pq: "p = (x1, y1)" "q = (x2, y2)" "r = (x3, y3)" by (cases p, cases q, cases r)
  obtain x12 y12 x23 y23 where s: "bjj_add p q = (x12, y12)" "bjj_add q r = (x23, y23)" by fastforce
  obtain u v where uv: "bjj_add p (bjj_add q r) = (u, v)" by fastforce
  have cp: "in_field p" "in_field q" "in_field r" "on_curve p" "on_curve q" "on_curve r"
    using assms(1-3) by (simp_all add: curve_point_def)
  have f12: "in_field (x12, y12)" and f23: "in_field (x23, y23)"
    using bjj_add_law(3) [OF cp(1,2) assms(4)] bjj_add_law(3) [OF cp(2,3) assms(5)] by (simp_all only: s)
  have fuv: "in_field (u, v)" using bjj_add_law(3) [OF cp(1) f23 assms(7) [unfolded s]] uv [unfolded s] by simp
  let ?d = "BJJ_D" and ?a = "BJJ_A" and ?m = "BJJ_P"
  let ?A = "1 + ?d * (x1 * x2) * (y1 * y2)" and ?B = "1 - ?d * (x1 * x2) * (y1 * y2)"
  let ?C = "1 + ?d * (x2 * x3) * (y2 * y3)" and ?D = "1 - ?d * (x2 * x3) * (y2 * y3)"
  let ?M = "x1 * y2 + y1 * x2" and ?N = "y1 * y2 - ?a * (x1 * x2)"
  let ?K = "x2 * y3 + y2 * x3" and ?L = "y2 * y3 - ?a * (x2 * x3)"
  have l12: "(x12 * ?A) mod ?m = ?M mod ?m" "(y12 * ?B) mod ?m = ?N mod ?m"
    using bjj_add_law(1,2) [OF cp(1,2) assms(4)] unfolding s unfolding edwards_t_def pq fst_conv snd_conv .
  have l23: "(x23 * ?C) mod ?m = ?K mod ?m" "(y23 * ?D) mod ?m = ?L mod ?m"
    using bjj_add_law(1,2) [OF cp(2,3) assms(5)] unfolding s unfolding edwards_t_def pq fst_conv snd_conv .
  have luv: "(u * (1 + ?d * x1 * y1 * (x23 * y23))) mod ?m = (x23 * y1 + y23 * x1) mod ?m"
    "(v * (1 - ?d * x1 * y1 * (x23 * y23))) mod ?m = (y23 * y1 - ?a * (x23 * x1)) mod ?m"
    using bjj_add_law(1,2) [OF cp(1) f23 assms(7) [unfolded s]] unfolding uv [unfolded s] unfolding edwards_t_def pq fst_conv snd_conv
    by (simp_all add: ac_simps)
  have units: "coprime ?m (F * ((?A * ?B) * (?C * ?D)))"
    if "F = 1 + ?d * x1 * y1 * (x23 * y23) \<or> F = 1 - ?d * x1 * y1 * (x23 * y23)" for F
  proof -
    have "coprime ?A ?m" "coprime ?B ?m" "coprime ?C ?m" "coprime ?D ?m"
      using assms(4,5) by (simp_all only: addable_def edwards_t_def pq fst_conv snd_conv)
    moreover have "coprime F ?m"
      using that assms(7) [unfolded s] by (auto simp: addable_def edwards_t_def pq ac_simps)
    ultimately show ?thesis by (simp add: coprime_commute)
  qed
  have e: "?m dvd ?a * x1\<^sup>2 + y1\<^sup>2 - (1 + ?d * (x1\<^sup>2 * y1\<^sup>2))" "?m dvd ?a * x2\<^sup>2 + y2\<^sup>2 - (1 + ?d * (x2\<^sup>2 * y2\<^sup>2))"
    "?m dvd ?a * x3\<^sup>2 + y3\<^sup>2 - (1 + ?d * (x3\<^sup>2 * y3\<^sup>2))"
    using cp(4-6) by (simp_all only: pq on_curve_dvd)
  have ideal_x: "?m dvd (?M * ?B * y3 + ?N * ?A * x3) * (?C * ?D + ?d * x1 * y1 * (?K * ?L)) -
      (?K * ?D * y1 + ?L * ?C * x1) * (?A * ?B + ?d * x3 * y3 * (?M * ?N))"
    using dvd_three [OF assoc_ideal_x e] by (simp only: ac_simps)
  have ideal_y: "?m dvd (?N * ?A * y3 - ?a * (?M * ?B * x3)) * (?C * ?D - ?d * x1 * y1 * (?K * ?L)) -
      (?L * ?C * y1 - ?a * (?K * ?D * x1)) * (?A * ?B - ?d * x3 * y3 * (?M * ?N))"
    using dvd_three [OF assoc_ideal_y e] by (simp only: ac_simps)
  have u: "(u * (1 + ?d * x3 * y3 * (x12 * y12))) mod ?m = (x12 * y3 + y12 * x3) mod ?m"
    by (rule cross_cancel [OF luv(1) cleared(1) [OF l12] cleared(2) [OF l23] cleared(1) [OF l23] cleared(2) [OF l12] ideal_x units]) simp
  have v: "(v * (1 - ?d * x3 * y3 * (x12 * y12))) mod ?m = (y12 * y3 - ?a * (x12 * x3)) mod ?m"
    by (rule cross_cancel [OF luv(2) cleared(3) [OF l12] cleared(4) [OF l23] cleared(3) [OF l23] cleared(4) [OF l12] ideal_y units]) simp
  have "bjj_add (x12, y12) r = (u, v)"
  proof (rule bjj_add_eqI [OF f12 cp(3) _ fuv])
    show "addable (x12, y12) r" using assms(6) by (simp only: s)
    show "(u * (1 + edwards_t (x12, y12) r)) mod ?m = (fst (x12, y12) * snd r + snd (x12, y12) * fst r) mod ?m"
      using u by (simp add: edwards_t_def pq ac_simps)
    show "(v * (1 - edwards_t (x12, y12) r)) mod ?m = (snd (x12, y12) * snd r - ?a * (fst (x12, y12) * fst r)) mod ?m"
      using v by (simp add: edwards_t_def pq ac_simps)
  qed
  then show ?thesis by (simp only: s uv [unfolded s])
qed

section \<open>The multiples of the generator\<close>

abbreviation bjj_G :: point where "bjj_G \<equiv> (BJJ_GX, BJJ_GY)"

definition multiple :: "nat \<Rightarrow> point" where
  "multiple n = baby BJJ_NEUTRAL n"

lemma multiple_simps: "multiple 0 = BJJ_NEUTRAL" "multiple (Suc n) = bjj_add (multiple n) bjj_G" "multiple 1 = bjj_G"
  by (simp_all add: multiple_def baby_def BJJ_NEUTRAL_def)

text \<open>The first multiples can be added to each other.\<close>

definition tame :: "nat \<Rightarrow> bool" where
  "tame N \<longleftrightarrow> (\<forall>i \<le> N. \<forall>j \<le> N. addable (multiple i) (multiple j))"

lemma tame_addable: "tame N \<Longrightarrow> i \<le> N \<Longrightarrow> j \<le> N \<Longrightarrow> addable (multiple i) (multiple j)"
  by (simp add: tame_def)

lemma curve_point_neutral: "curve_point BJJ_NEUTRAL"
  by (simp add: curve_point_def in_field_def on_curve_def BJJ_NEUTRAL_def)

lemma curve_point_G: "curve_point bjj_G"
  using generator_on_curve by (simp add: curve_point_def in_field_def BJJ_GX_def BJJ_GY_def BJJ_P_def)

lemma curve_point_add: "curve_point p \<Longrightarrow> curve_point q \<Longrightarrow> addable p q \<Longrightarrow> curve_point (bjj_add p q)"
  by (simp add: curve_point_def bjj_add_law(3) bjj_add_on_curve)

lemma curve_point_multiple:
  assumes "tame N" "n \<le> N"
  shows "curve_point (multiple n)"
  using assms(2)
proof (induction n)
  case (Suc n)
  then have "addable (multiple n) (multiple 1)" using tame_addable [OF assms(1)] by simp
  with Suc curve_point_add [OF _ curve_point_G] show ?case by (simp add: multiple_simps del: One_nat_def)
qed (simp add: multiple_simps curve_point_neutral)

text \<open>They add like their indices.\<close>

lemma multiple_add:
  assumes "tame N" "i + j \<le> N"
  shows "bjj_add (multiple i) (multiple j) = multiple (i + j)"
  using assms(2)
proof (induction j)
  case 0
  then show ?case by (simp add: multiple_simps BJJ_NEUTRAL_def)
next
  case (Suc j)
  have b: "i \<le> N" "j \<le> N" "1 \<le> N" "Suc j \<le> N" "i + j \<le> N" using Suc.prems by simp_all
  have one: "bjj_add (multiple k) (multiple 1) = multiple (Suc k)" for k by (simp only: multiple_simps)
  have ij: "bjj_add (multiple i) (multiple j) = multiple (i + j)" using Suc by simp
  have "bjj_add (bjj_add (multiple i) (multiple j)) (multiple 1) = bjj_add (multiple i) (bjj_add (multiple j) (multiple 1))"
  proof (rule bjj_add_assoc)
    show "addable (bjj_add (multiple i) (multiple j)) (multiple 1)" "addable (multiple i) (bjj_add (multiple j) (multiple 1))"
      unfolding ij one by (intro tame_addable [OF assms(1)] b)+
  qed (intro curve_point_multiple [OF assms(1)] tame_addable [OF assms(1)] b)+
  then show ?case by (simp only: ij one add_Suc_right)
qed

text \<open>The double-and-add loop on a multiple: it never uses the last doubling.\<close>

lemma scalar_loop_multiple:
  assumes "tame N" "r + s * c \<le> N"
  shows "scalar_loop (int s) (multiple r) (multiple c) = multiple (r + s * c)"
  using assms(2)
proof (induction s arbitrary: r c rule: less_induct)
  case (less s)
  show ?case
  proof (cases "s \<le> 1")
    case True
    then consider "s = 0" | "s = 1" by linarith
    then show ?thesis
    proof cases
      case 2
      then show ?thesis
        using multiple_add [OF assms(1)] less.prems by (simp add: scalar_loop.simps [of 1] scalar_loop.simps [of 0])
    qed (simp add: scalar_loop.simps [of 0])
  next
    case False
    then have half: "s div 2 < s" "0 < s" "1 \<le> s div 2" by simp_all
    have s: "s = s div 2 * 2 + s mod 2" by simp
    have le: "(s div 2) * (c + c) + (s mod 2) * c = s * c" by (metis s add_mult_distrib mult.assoc mult_2)
    have c2: "c + c \<le> N"
    proof -
      have "c + c \<le> (s div 2) * (c + c)" using half(3) by simp
      with le less.prems show ?thesis by linarith
    qed
    have dbl: "bjj_add (multiple c) (multiple c) = multiple (c + c)" by (rule multiple_add [OF assms(1) c2])
    have acc: "(if odd (int s) then bjj_add (multiple r) (multiple c) else multiple r) = multiple (r + (s mod 2) * c)"
    proof (cases "odd s")
      case True
      then have m: "s mod 2 = 1" by presburger
      have "c \<le> s * c" using half(2) by simp
      then have "r + c \<le> N" using less.prems by linarith
      with True m multiple_add [OF assms(1)] show ?thesis by simp
    next
      case False
      then have "s mod 2 = 0" by presburger
      with False show ?thesis by simp
    qed
    have "scalar_loop (int s) (multiple r) (multiple c) =
        scalar_loop (int (s div 2)) (multiple (r + (s mod 2) * c)) (multiple (c + c))"
      using half(2) acc by (subst scalar_loop.simps) (simp only: dbl of_nat_0_less_iff if_True zdiv_int of_nat_numeral)
    also have "\<dots> = multiple (r + (s mod 2) * c + (s div 2) * (c + c))"
      by (rule less.IH [OF half(1)]) (use le less.prems in linarith)
    also have "r + (s mod 2) * c + (s div 2) * (c + c) = r + s * c" using le by linarith
    finally show ?thesis .
  qed
qed

lemma scalar_mul_multiple:
  assumes "tame N" "s * c \<le> N"
  shows "bjj_scalar_mul (int s) (multiple c) = multiple (s * c)"
  using scalar_loop_multiple [OF assms(1), of 0 s c] assms(2) by (simp add: bjj_scalar_mul_def multiple_simps)

section \<open>Subtraction\<close>

lemma bjj_neg_field: "in_field (x, y) \<Longrightarrow> bjj_neg (x, y) = ((- x) mod BJJ_P, y)"
  by (simp add: bjj_neg_def in_field_def smod_BJJ)

lemma curve_point_neg:
  assumes "curve_point q"
  shows "curve_point (bjj_neg q)"
proof -
  obtain x y where q: "q = (x, y)" by fastforce
  have f: "in_field (x, y)" using assms by (simp add: curve_point_def q)
  have "((- x) mod BJJ_P)\<^sup>2 mod BJJ_P = x\<^sup>2 mod BJJ_P" by (simp add: power_mod)
  then have "(BJJ_A * ((- x) mod BJJ_P)\<^sup>2 + y\<^sup>2) mod BJJ_P = (BJJ_A * x\<^sup>2 + y\<^sup>2) mod BJJ_P"
    "(1 + BJJ_D * (((- x) mod BJJ_P)\<^sup>2 * y\<^sup>2)) mod BJJ_P = (1 + BJJ_D * (x\<^sup>2 * y\<^sup>2)) mod BJJ_P"
    by (intro mod_add_cong mod_mult_cong refl; assumption)+
  with assms f show ?thesis
    by (simp add: curve_point_def on_curve_def q bjj_neg_field in_field_def)
qed

lemma addable_neg:
  assumes "in_field q" "addable p q"
  shows "addable p (bjj_neg q)"
proof -
  obtain x y where q: "q = (x, y)" by fastforce
  have n: "bjj_neg q = ((- x) mod BJJ_P, y)" using assms(1) by (simp add: q bjj_neg_field)
  have cong: "edwards_t p (bjj_neg q) mod BJJ_P = (- edwards_t p q) mod BJJ_P"
  proof -
    have "edwards_t p (bjj_neg q) mod BJJ_P = (BJJ_D * (fst p * (- x)) * (snd p * y)) mod BJJ_P"
      unfolding edwards_t_def n fst_conv snd_conv by (intro mod_mult_cong) simp_all
    then show ?thesis by (simp add: edwards_t_def q)
  qed
  have "(1 + edwards_t p (bjj_neg q)) mod BJJ_P = (1 - edwards_t p q) mod BJJ_P"
    "(1 - edwards_t p (bjj_neg q)) mod BJJ_P = (1 + edwards_t p q) mod BJJ_P"
    using mod_add_cong [OF refl cong, of 1] mod_diff_cong [OF refl cong, of 1] by simp_all
  then show ?thesis
    using assms(2) unfolding addable_def by (metis BJJ_P_gt(2) coprime_mod_left_iff less_irrefl)
qed

lemma bjj_add_neg_self:
  assumes "curve_point p" "addable p p"
  shows "bjj_add p (bjj_neg p) = BJJ_NEUTRAL"
  using assms by (intro bjj_add_neg) (simp_all add: curve_point_def addable_def edwards_t_def power2_eq_square ac_simps)

lemma multiple_sub:
  assumes "tame N" "a + b \<le> N"
  shows "bjj_add (multiple (a + b)) (bjj_neg (multiple a)) = multiple b"
proof -
  have le: "a \<le> N" "b \<le> N" "b + a \<le> N" using assms(2) by simp_all
  note cp = curve_point_multiple [OF assms(1)] and ad = tame_addable [OF assms(1)]
  have fa: "in_field (multiple a)" using cp [OF le(1)] by (simp add: curve_point_def)
  have sum: "bjj_add (multiple b) (multiple a) = multiple (b + a)" by (rule multiple_add [OF assms(1) le(3)])
  have inv: "bjj_add (multiple a) (bjj_neg (multiple a)) = BJJ_NEUTRAL" by (rule bjj_add_neg_self [OF cp ad]) (rule le)+
  have "bjj_add (bjj_add (multiple b) (multiple a)) (bjj_neg (multiple a)) =
      bjj_add (multiple b) (bjj_add (multiple a) (bjj_neg (multiple a)))"
  proof (rule bjj_add_assoc)
    show "addable (bjj_add (multiple b) (multiple a)) (bjj_neg (multiple a))"
      unfolding sum by (intro addable_neg fa ad le)
    show "addable (multiple b) (bjj_add (multiple a) (bjj_neg (multiple a)))"
      unfolding inv by (simp add: addable_def edwards_t_def BJJ_NEUTRAL_def)
  qed (intro cp ad le curve_point_neg addable_neg fa)+
  then show ?thesis by (simp add: sum inv) (simp add: BJJ_NEUTRAL_def add.commute)
qed

section \<open>The search finds the index\<close>

lemma giant_multiple:
  assumes "tame N" "n \<le> N" "m \<le> N" "i * m \<le> n"
  shows "giant (bjj_neg (multiple m)) (multiple n) i = multiple (n - i * m)"
  using assms(4)
proof (induction i)
  case (Suc i)
  then have le: "m + (n - Suc i * m) \<le> N" "n - i * m = m + (n - Suc i * m)" using assms(2) by simp_all
  have ih: "giant (bjj_neg (multiple m)) (multiple n) i = multiple (n - i * m)" using Suc by simp
  have "giant (bjj_neg (multiple m)) (multiple n) (Suc i) = bjj_add (giant (bjj_neg (multiple m)) (multiple n) i) (bjj_neg (multiple m))"
    by (simp add: giant_def)
  also have "\<dots> = bjj_add (multiple (m + (n - Suc i * m))) (bjj_neg (multiple m))" by (simp only: ih flip: le(2))
  also have "\<dots> = multiple (n - Suc i * m)" by (rule multiple_sub [OF assms(1) le(1)])
  finally show ?case .
qed (simp add: giant_def)

text \<open>The table of the baby steps is the inverse of \<open>multiple\<close> on its range.\<close>

lemma baby_table:
  assumes "inj_on multiple {..L}" "m \<le> Suc L" "k \<le> L"
  shows "baby_steps m 0 BJJ_NEUTRAL Map.empty (multiple k) = (if k < m then Some k else None)"
proof (cases "baby_steps m 0 BJJ_NEUTRAL Map.empty (multiple k)")
  case None
  then have "\<not> k < m" using baby_steps_complete [of k m 0 BJJ_NEUTRAL Map.empty] by (auto simp: multiple_def)
  with None show ?thesis by simp
next
  case (Some j)
  then have j: "j < m" "multiple k = multiple j" using baby_steps_sound [OF Some] by (simp_all add: multiple_def)
  then have "k = j" using assms by (auto dest: inj_onD)
  with Some j show ?thesis by simp
qed

lemma giant_steps_hit:
  assumes "\<And>i. i < h \<Longrightarrow> t (giant neg g i) = None" "t (giant neg g h) = Some j" "h < n" "(i0 + h) * m + j \<le> K"
  shows "giant_steps n i0 m K neg g t = Some ((i0 + h) * m + j)"
  using assms
proof (induction n i0 m K neg g t arbitrary: h rule: giant_steps.induct)
  case (2 n i m K neg g t)
  show ?case
  proof (cases h)
    case 0
    then show ?thesis using "2.prems" by (simp add: giant_def)
  next
    case (Suc h')
    have g0: "t g = None" using "2.prems"(1) [of 0] Suc by (simp add: giant_def)
    have "giant_steps n (Suc i) m K neg (bjj_add g neg) t = Some ((Suc i + h') * m + j)"
    proof (rule "2.IH"(1) [OF g0])
      fix k
      assume "k < h'"
      then show "t (giant neg (bjj_add g neg) k) = None" using "2.prems"(1) [of "Suc k"] Suc by (simp add: giant_Suc)
    qed (use "2.prems" Suc in \<open>simp_all add: giant_Suc\<close>)
    then show ?thesis using g0 Suc by simp
  qed
qed simp

text \<open>
  Within its range the search is the discrete logarithm: for a multiple of the generator by at most the bound, it returns the
  factor, if the generator's order exceeds what is searched.
\<close>

lemma bsgs_finds:
  assumes "tame N" "n \<le> K" "K \<le> N" "ceil_sqrt K + 1 \<le> N" "inj_on multiple {..max K (ceil_sqrt K + 1)}"
  shows "bsgs (multiple n) K = Some n"
proof -
  let ?m = "ceil_sqrt K + 1"
  let ?t = "baby_steps ?m 0 BJJ_NEUTRAL Map.empty"
  have neg: "bjj_scalar_mul (int ?m) bjj_G = multiple ?m"
    using scalar_mul_multiple [OF assms(1), of ?m 1] assms(4) by (simp only: multiple_simps mult_1_right)
  have g: "giant (bjj_neg (multiple ?m)) (multiple n) i = multiple (n - i * ?m)" if "i * ?m \<le> n" for i
    by (rule giant_multiple [OF assms(1) _ assms(4) that]) (use assms(2,3) in linarith)
  have t: "?t (multiple k) = (if k < ?m then Some k else None)" if "k \<le> n" for k
    using baby_table [OF assms(5), of ?m k] that assms(2) by simp
  have split: "(n div ?m) * ?m \<le> n" "n - n div ?m * ?m = n mod ?m"
    by (rule div_times_less_eq_dividend, rule minus_div_mult_eq_mod)
  have hit: "?t (giant (bjj_neg (multiple ?m)) (multiple n) (n div ?m)) = Some (n mod ?m)"
    using g [OF split(1)] t [of "n mod ?m"] split(2) by simp
  have before: "?t (giant (bjj_neg (multiple ?m)) (multiple n) i) = None" if "i < n div ?m" for i
  proof -
    have "Suc i * ?m \<le> n div ?m * ?m" using that by (intro mult_le_mono1) simp
    then have "i * ?m \<le> n" "?m \<le> n - i * ?m" using split(1) by simp_all
    then show ?thesis using g t by simp
  qed
  have range: "n div ?m < ?m"
  proof -
    have "n < ?m * ?m" using ceil_sqrt_bound(1) [of K] assms(2) by simp
    then show ?thesis by (simp add: div_less_iff_less_mult)
  qed
  have bound: "(0 + n div ?m) * ?m + n mod ?m \<le> K" using assms(2) by (simp only: add_0 div_mult_mod_eq)
  have "giant_steps ?m 0 ?m K (bjj_neg (multiple ?m)) (multiple n) ?t = Some ((0 + n div ?m) * ?m + n mod ?m)"
    by (rule giant_steps_hit [where t = ?t, OF _ hit range bound]) (rule before)
  then show ?thesis by (simp only: bsgs_def Let_def neg add_0 div_mult_mod_eq)
qed

end
