(* ===== verification/Encrypted_Tally.thy ===== *)
theory Encrypted_Tally
  imports Curve_Group Homomorphic_Tally
begin

text \<open>
  The homomorphic tally from end to end: ballots encrypted under the authority's key as the circuit
  \<open>circuits/homomorphic_vote.circom\<close> has them, the accumulator of \<open>contracts/HomomorphicTally.sol\<close>, and the decryption of
  \<open>services/HomomorphicTallyService.ts\<close>. What the service recovers from the accumulated ciphertext is the number of
  votes that were encrypted, with the two programs' point arithmetic and double-and-add as they are.
\<close>

section \<open>Ballots\<close>

text \<open>\<open>(r * G, v * G + r * PK)\<close> for a vote that is \<open>0\<close> or \<open>1\<close>.\<close>

definition encrypt_vote :: "point \<Rightarrow> nat \<times> nat \<Rightarrow> point \<times> point" where
  "encrypt_vote pk vr =
     (case vr of (v, r) \<Rightarrow>
        (bjj_scalar_mul (int r) bjj_G, bjj_add (if v = 0 then BJJ_NEUTRAL else bjj_G) (bjj_scalar_mul (int r) pk)))"

text \<open>What the contract's loop over submissions leaves, for either program's addition.\<close>

definition accumulate :: "(point \<Rightarrow> point \<Rightarrow> point) \<Rightarrow> (point \<times> point) list \<Rightarrow> point \<times> point" where
  "accumulate add cs = fold (\<lambda>(c1, c2) (a, b). (add a c1, add b c2)) cs (BJJ_NEUTRAL, BJJ_NEUTRAL)"

lemma accumulate_snoc:
  "accumulate add (cs @ [(c1, c2)]) = (add (fst (accumulate add cs)) c1, add (snd (accumulate add cs)) c2)"
  by (simp add: accumulate_def split: prod.split)

record ballot =
  bl_cipher :: "point \<times> point"
  bl_nullifier :: string
  bl_proof :: string

fun submit_all :: "(string \<Rightarrow> int) \<Rightarrow> nat \<Rightarrow> string \<Rightarrow> nat \<Rightarrow> ballot list \<Rightarrow> ht_chain \<Rightarrow> ht_error + ht_chain" where
  "submit_all h t pid i [] c = Inr c"
| "submit_all h t pid i (b # bs) c =
     (case submit_encrypted_vote h t pid i (fst (bl_cipher b)) (snd (bl_cipher b)) (bl_nullifier b) (bl_proof b) c of
        Inl e \<Rightarrow> Inl e
      | Inr c' \<Rightarrow> submit_all h t pid i bs c')"

lemma submit_cts:
  assumes "submit_encrypted_vote h t pid i c1 c2 n p c = Inr c'"
  shows "acc_C1 (ht_cts c' pid i) = baby_jub_add (acc_C1 (ht_cts c pid i)) c1"
    "acc_C2 (ht_cts c' pid i) = baby_jub_add (acc_C2 (ht_cts c pid i)) c2"
  using assms by (auto simp: submit_encrypted_vote_def split: option.splits if_splits)

lemma submit_all_cts:
  assumes "submit_all h t pid i bs c = Inr c'" "(acc_C1 (ht_cts c pid i), acc_C2 (ht_cts c pid i)) = accumulate baby_jub_add cs"
  shows "(acc_C1 (ht_cts c' pid i), acc_C2 (ht_cts c' pid i)) = accumulate baby_jub_add (cs @ map bl_cipher bs)"
  using assms
proof (induction bs arbitrary: c cs)
  case (Cons b bs)
  obtain c1 where c1: "submit_encrypted_vote h t pid i (fst (bl_cipher b)) (snd (bl_cipher b)) (bl_nullifier b) (bl_proof b) c = Inr c1"
    and rest: "submit_all h t pid i bs c1 = Inr c'"
    using Cons.prems(1) by (auto split: sum.splits)
  have "(acc_C1 (ht_cts c1 pid i), acc_C2 (ht_cts c1 pid i)) = accumulate baby_jub_add (cs @ [bl_cipher b])"
    using accumulate_snoc [of baby_jub_add cs "fst (bl_cipher b)" "snd (bl_cipher b)"]
    by (simp add: submit_cts [OF c1] Cons.prems(2) [symmetric])
  from Cons.IH [OF rest this] show ?case by simp
qed simp

section \<open>Sums of ciphertexts\<close>

abbreviation votes_sum :: "(nat \<times> nat) list \<Rightarrow> nat" where "votes_sum vs \<equiv> sum_list (map fst vs)"
abbreviation random_sum :: "(nat \<times> nat) list \<Rightarrow> nat" where "random_sum vs \<equiv> sum_list (map snd vs)"

lemma encrypt_multiple:
  assumes "tame N" "v \<le> 1" "v + r * sk \<le> N" "r \<le> N"
  shows "encrypt_vote (multiple sk) (v, r) = (multiple r, multiple (v + r * sk))"
proof -
  have "bjj_scalar_mul (int r) bjj_G = multiple r"
    using scalar_mul_multiple [OF assms(1), of r 1] assms(4) by (simp only: multiple_simps mult_1_right)
  moreover have "bjj_scalar_mul (int r) (multiple sk) = multiple (r * sk)"
    using scalar_mul_multiple [OF assms(1)] assms(3) by simp
  moreover have "(if v = 0 then BJJ_NEUTRAL else bjj_G) = multiple v"
    using assms(2) by (auto simp: le_Suc_eq multiple_simps BJJ_NEUTRAL_def)
  ultimately show ?thesis using multiple_add [OF assms(1,3)] by (simp add: encrypt_vote_def)
qed

lemma accumulate_votes:
  assumes "tame N" "votes_sum vs + sk * random_sum vs \<le> N" "random_sum vs \<le> N" "list_all (\<lambda>(v, r). v \<le> 1) vs"
  shows "accumulate bjj_add (map (encrypt_vote (multiple sk)) vs) =
    (multiple (random_sum vs), multiple (votes_sum vs + sk * random_sum vs))"
  using assms(2-)
proof (induction vs rule: rev_induct)
  case Nil
  then show ?case by (simp add: accumulate_def multiple_simps)
next
  case (snoc vr vs)
  obtain v r where vr: "vr = (v, r)" by fastforce
  have le: "votes_sum vs + sk * random_sum vs + (v + r * sk) \<le> N" "random_sum vs + r \<le> N" "v \<le> 1"
    using snoc.prems by (simp_all add: vr algebra_simps)
  have enc: "encrypt_vote (multiple sk) vr = (multiple r, multiple (v + r * sk))"
    unfolding vr by (rule encrypt_multiple [OF assms(1)]) (use le in linarith)+
  have ih: "accumulate bjj_add (map (encrypt_vote (multiple sk)) vs) =
      (multiple (random_sum vs), multiple (votes_sum vs + sk * random_sum vs))"
    by (rule snoc.IH) (use snoc.prems le in \<open>simp_all add: vr algebra_simps\<close>)
  have "accumulate bjj_add (map (encrypt_vote (multiple sk)) (vs @ [vr])) =
      (bjj_add (multiple (random_sum vs)) (multiple r), bjj_add (multiple (votes_sum vs + sk * random_sum vs)) (multiple (v + r * sk)))"
    by (simp only: map_append list.map enc accumulate_snoc ih fst_conv snd_conv)
  also have "\<dots> = (multiple (random_sum vs + r), multiple (votes_sum vs + sk * random_sum vs + (v + r * sk)))"
    using multiple_add [OF assms(1) le(2)] multiple_add [OF assms(1) le(1)] by simp
  also have "votes_sum vs + sk * random_sum vs + (v + r * sk) = votes_sum (vs @ [vr]) + sk * random_sum (vs @ [vr])"
    by (simp add: vr algebra_simps)
  finally show ?case by (simp add: vr)
qed

lemma decrypt_votes:
  assumes "tame N" "a + sk * b \<le> N"
  shows "decrypt_point (int sk) (multiple b) (multiple (a + sk * b)) = multiple a"
proof -
  have "bjj_scalar_mul (int sk) (multiple b) = multiple (sk * b)"
    using scalar_mul_multiple [OF assms(1)] assms(2) by simp
  then show ?thesis
    using multiple_sub [OF assms(1), of "sk * b" a] assms(2) by (simp add: decrypt_point_def add.commute)
qed

lemma accumulated_decrypts:
  assumes "submit_all h t pid i bs c = Inr c'" "acc_C1 (ht_cts c pid i) = (0, 1)" "acc_C2 (ht_cts c pid i) = (0, 1)"
    and "map bl_cipher bs = map (encrypt_vote (multiple sk)) vs" "list_all (\<lambda>(v, r). v \<le> 1) vs"
    and "accumulate baby_jub_add (map bl_cipher bs) = accumulate bjj_add (map bl_cipher bs)"
    and "tame N" "votes_sum vs + sk * random_sum vs \<le> N" "random_sum vs \<le> N"
  shows "decrypt_point (int sk) (acc_C1 (ht_cts c' pid i)) (acc_C2 (ht_cts c' pid i)) = multiple (votes_sum vs)"
proof -
  have "(acc_C1 (ht_cts c' pid i), acc_C2 (ht_cts c' pid i)) = accumulate bjj_add (map (encrypt_vote (multiple sk)) vs)"
    using submit_all_cts [OF assms(1), of "[]"] assms(2-4,6) by (simp add: accumulate_def BJJ_NEUTRAL_def)
  also have "\<dots> = (multiple (random_sum vs), multiple (votes_sum vs + sk * random_sum vs))"
    by (rule accumulate_votes [OF assms(7-9,5)])
  finally show ?thesis using decrypt_votes [OF assms(7,8)] by simp
qed

text \<open>What the search finds is what the service posts.\<close>

lemma finalise_posts:
  assumes "bsgs (decrypt_point sk (acc_C1 (ht_cts c pid i)) (acc_C2 (ht_cts c pid i))) MAX_VOTERS = Some v"
    and "\<not> finalised (ht_results c pid i)" "ht_polls c pid = Some poll" "closeTime poll \<le> now" "i < optionCount poll"
  shows "\<exists>c'. finalise_option enc kec (Some sk) True now pid i c = Inr c' \<and>
    tallyValue (ht_results c' pid i) = v \<and> finalised (ht_results c' pid i)"
  using assms by (simp add: finalise_option_def finalise_decryption_def Let_def)

section \<open>Properties\<close>


text \<open>The instance the service runs: it posts the number of ones, final, when it finalises the option after the poll's close.\<close>

lemma posted_result:
  assumes "submit_all h t pid i bs c = Inr c'" "acc_C1 (ht_cts c pid i) = (0, 1)" "acc_C2 (ht_cts c pid i) = (0, 1)"
    and "map bl_cipher bs = map (encrypt_vote (multiple sk)) vs" "list_all (\<lambda>(v, r). v \<le> 1) vs"
    and "accumulate baby_jub_add (map bl_cipher bs) = accumulate bjj_add (map bl_cipher bs)"
    and "tame N" "votes_sum vs + sk * random_sum vs \<le> N" "random_sum vs \<le> N"
    and "votes_sum vs \<le> MAX_VOTERS" "MAX_VOTERS \<le> N" "ceil_sqrt MAX_VOTERS + 1 \<le> N"
    and "inj_on multiple {..max MAX_VOTERS (ceil_sqrt MAX_VOTERS + 1)}"
    and "\<not> finalised (ht_results c' pid i)" "ht_polls c' pid = Some poll" "closeTime poll \<le> now" "i < optionCount poll"
  shows "\<exists>c''. finalise_option enc kec (Some (int sk)) True now pid i c' = Inr c'' \<and>
    tallyValue (ht_results c'' pid i) = votes_sum vs \<and> finalised (ht_results c'' pid i)"
  by (rule finalise_posts)
    (use accumulated_decrypts [OF assms(1-9)] bsgs_finds [OF assms(7,10-13)] assms(14-) in simp_all)

end
