(* ===== verification/Curve_Multiples.thy ===== *)
theory Curve_Multiples
  imports Encrypted_Tally
begin

text \<open>
  The first multiples of the generator of Baby Jubjub, computed: the double of the generator, the inverses that show that the
  sums of the first two multiples have invertible denominators (each product is reduced through its quotient), and with them an
  election at which the theorem on the encrypted tally and the facts behind it are applied.
\<close>

definition DOUBLE_X :: int where
  "DOUBLE_X = 10031262171927540148667355526369034398030886437092045105752248699557385197826"

definition DOUBLE_Y :: int where
  "DOUBLE_Y = 633281375905621697187330766174974863687049529291089048651929454608812697683"

lemma addable_by:
  assumes "(x1 * x2) mod BJJ_P = a mod BJJ_P" "(y1 * y2) mod BJJ_P = b mod BJJ_P" "(a * b) mod BJJ_P = c mod BJJ_P"
    and "((1 + BJJ_D * c) * i) mod BJJ_P = 1" "((1 - BJJ_D * c) * j) mod BJJ_P = 1"
  shows "addable (x1, y1) (x2, y2)" "edwards_t (x1, y1) (x2, y2) mod BJJ_P = (BJJ_D * c) mod BJJ_P"
proof -
  have "(BJJ_D * (x1 * x2) * (y1 * y2)) mod BJJ_P = (BJJ_D * a * b) mod BJJ_P"
    by (intro mod_mult_cong assms(1,2) refl)
  also have "\<dots> = (BJJ_D * (a * b)) mod BJJ_P" by (simp only: mult.assoc)
  also have "\<dots> = (BJJ_D * c) mod BJJ_P" by (intro mod_mult_cong assms(3) refl)
  finally show t: "edwards_t (x1, y1) (x2, y2) mod BJJ_P = (BJJ_D * c) mod BJJ_P" by (simp add: edwards_t_def)
  show "addable (x1, y1) (x2, y2)"
  proof (rule addable_certificate)
    show "((1 + edwards_t (x1, y1) (x2, y2)) * i) mod BJJ_P = 1"
      using assms(4) mod_mult_cong [OF mod_add_cong [OF refl t] refl, of 1 i] by simp
    show "((1 - edwards_t (x1, y1) (x2, y2)) * j) mod BJJ_P = 1"
      using assms(5) mod_mult_cong [OF mod_diff_cong [OF refl t] refl, of 1 j] by simp
  qed
qed

lemma addable_sym: "addable p q = addable q p"
  by (simp add: addable_def edwards_t_def ac_simps)

lemma addable_neutral: "addable (0, 1) q" "addable p (0, 1)"
  by (simp_all add: addable_def edwards_t_def)

lemma gg_products:
  "(BJJ_GX * BJJ_GX) mod BJJ_P = 607742042888016619569620746324513481149123972252924884615094806956300595521 mod BJJ_P"
  "(BJJ_GY * BJJ_GY) mod BJJ_P = 11976306643719063753190278949402960726252923955722022258665135291130529546895 mod BJJ_P"
  "(607742042888016619569620746324513481149123972252924884615094806956300595521 * 11976306643719063753190278949402960726252923955722022258665135291130529546895) mod BJJ_P = 5691677284264348914871762697957067030339103956111141981502870225181583259053 mod BJJ_P"
   apply (rule mod_by_quotient [where k = 1283152981270719112173590965168703648169485001952648533879912510875365050464], simp add: BJJ_GX_def BJJ_GY_def DOUBLE_X_def DOUBLE_Y_def BJJ_P_def BJJ_D_def)
   apply (rule mod_by_quotient [where k = 13126115868359511340460820844889397414038424881599594996385915013151266539242], simp add: BJJ_GX_def BJJ_GY_def DOUBLE_X_def DOUBLE_Y_def BJJ_P_def BJJ_D_def)
   apply (rule mod_by_quotient [where k = 332530350130180860275572862025344439381961240422396513786344160457981726626], simp add: BJJ_GX_def BJJ_GY_def DOUBLE_X_def DOUBLE_Y_def BJJ_P_def BJJ_D_def)
  done

lemma gg_inverses:
  "((1 + BJJ_D * 5691677284264348914871762697957067030339103956111141981502870225181583259053) * 11066757983141200037207844473683842488159951862144506743412856458671334127106) mod BJJ_P = 1"
  "((1 - BJJ_D * 5691677284264348914871762697957067030339103956111141981502870225181583259053) * 2931909635742979014657168698048772962991301880353346914183235656562345659872) mod BJJ_P = 1"
   apply (rule trans [OF mod_by_quotient [where k = "485461246156361320076588251752423723252020184633978453184135597812864816034208049" and r = 1]], simp add: BJJ_GX_def BJJ_GY_def DOUBLE_X_def DOUBLE_Y_def BJJ_P_def BJJ_D_def, simp)
   apply (rule trans [OF mod_by_quotient [where k = "-128612960322606689321182700542744663974974303979112809938114577787649155394490145" and r = 1]], simp add: BJJ_GX_def BJJ_GY_def DOUBLE_X_def DOUBLE_Y_def BJJ_P_def BJJ_D_def, simp)
  done

lemmas gg_addable = addable_by [OF gg_products gg_inverses]

lemma gd_products:
  "(BJJ_GX * DOUBLE_X) mod BJJ_P = 8852232590985082895655441452769297523381995330091817591622374025857313500134 mod BJJ_P"
  "(BJJ_GY * DOUBLE_Y) mod BJJ_P = 18620527000357045933105532820354131620863148577462565444693325427330700122465 mod BJJ_P"
  "(8852232590985082895655441452769297523381995330091817591622374025857313500134 * 18620527000357045933105532820354131620863148577462565444693325427330700122465) mod BJJ_P = 16530968644482470274395590636403480594671850803367795181868891193424892183504 mod BJJ_P"
   apply (rule mod_by_quotient [where k = 2428786555665614369556037425884827322690779471351014922331520038504205196732], simp add: BJJ_GX_def BJJ_GY_def DOUBLE_X_def DOUBLE_Y_def BJJ_P_def BJJ_D_def)
   apply (rule mod_by_quotient [where k = 490410074591562608962409526754011074048542472269935176820102688663792882352], simp add: BJJ_GX_def BJJ_GY_def DOUBLE_X_def DOUBLE_Y_def BJJ_P_def BJJ_D_def)
   apply (rule mod_by_quotient [where k = 7530674661233204919664742754060544583814778064535220083363038637925343532118], simp add: BJJ_GX_def BJJ_GY_def DOUBLE_X_def DOUBLE_Y_def BJJ_P_def BJJ_D_def)
  done

lemma gd_inverses:
  "((1 + BJJ_D * 16530968644482470274395590636403480594671850803367795181868891193424892183504) * 7019288427237761780657906004807043788104166555603453124491069650562660774760) mod BJJ_P = 1"
  "((1 - BJJ_D * 16530968644482470274395590636403480594671850803367795181868891193424892183504) * 8785311393973630764290255387398535730982130258375733797850408850625868719271) mod BJJ_P = 1"
   apply (rule trans [OF mod_by_quotient [where k = "894304212386188621962578916100679385660147244531502606001553587700468998824447847" and r = 1]], simp add: BJJ_GX_def BJJ_GY_def DOUBLE_X_def DOUBLE_Y_def BJJ_P_def BJJ_D_def, simp)
   apply (rule trans [OF mod_by_quotient [where k = "-1119307329823856546641092747539696653288184788381957010461788279440090513235985882" and r = 1]], simp add: BJJ_GX_def BJJ_GY_def DOUBLE_X_def DOUBLE_Y_def BJJ_P_def BJJ_D_def, simp)
  done

lemmas gd_addable = addable_by [OF gd_products gd_inverses]

lemma dd_products:
  "(DOUBLE_X * DOUBLE_X) mod BJJ_P = 8464140645654896669325036147156023829613985267505207005669266329442635822773 mod BJJ_P"
  "(DOUBLE_Y * DOUBLE_Y) mod BJJ_P = 19902848734170378641213341390746578154292927820264540242768869809019081950199 mod BJJ_P"
  "(8464140645654896669325036147156023829613985267505207005669266329442635822773 * 19902848734170378641213341390746578154292927820264540242768869809019081950199) mod BJJ_P = 5651227935597145593997654016680559871983496767120312454098399105334121749074 mod BJJ_P"
   apply (rule mod_by_quotient [where k = 4597272670590061866384735821743039195554750693727351379960339643533953281359], simp add: BJJ_GX_def BJJ_GY_def DOUBLE_X_def DOUBLE_Y_def BJJ_P_def BJJ_D_def)
   apply (rule mod_by_quotient [where k = 18322407304100668693971991431650105585038717527779443780428823144452720370], simp add: BJJ_GX_def BJJ_GY_def DOUBLE_X_def DOUBLE_Y_def BJJ_P_def BJJ_D_def)
   apply (rule mod_by_quotient [where k = 7696392621444666348812250349593957194663298428390510094835853153658180406609], simp add: BJJ_GX_def BJJ_GY_def DOUBLE_X_def DOUBLE_Y_def BJJ_P_def BJJ_D_def)
  done

lemma dd_inverses:
  "((1 + BJJ_D * 5651227935597145593997654016680559871983496767120312454098399105334121749074) * 16919169053436231567127555323355487550479563031964941657309668040395875792252) mod BJJ_P = 1"
  "((1 - BJJ_D * 5651227935597145593997654016680559871983496767120312454098399105334121749074) * 5419187435334861147168327830315934280634070781922325922853585907519620138805) mod BJJ_P = 1"
   apply (rule trans [OF mod_by_quotient [where k = "736912189315304355486472617608437830771438548063109450641959776485406135065808827" and r = 1]], simp add: BJJ_GX_def BJJ_GY_def DOUBLE_X_def DOUBLE_Y_def BJJ_P_def BJJ_D_def, simp)
   apply (rule trans [OF mod_by_quotient [where k = "-236031998065031525583477820266401954820612444693079378747050420505539952874077948" and r = 1]], simp add: BJJ_GX_def BJJ_GY_def DOUBLE_X_def DOUBLE_Y_def BJJ_P_def BJJ_D_def, simp)
  done

lemmas dd_addable = addable_by [OF dd_products dd_inverses]

lemma double_equations:
  "(DOUBLE_X * (1 + BJJ_D * 5691677284264348914871762697957067030339103956111141981502870225181583259053)) mod BJJ_P = (BJJ_GX * BJJ_GY + BJJ_GY * BJJ_GX) mod BJJ_P"
  "(DOUBLE_Y * (1 - BJJ_D * 5691677284264348914871762697957067030339103956111141981502870225181583259053)) mod BJJ_P = (BJJ_GY * BJJ_GY - BJJ_A * (BJJ_GX * BJJ_GX)) mod BJJ_P"
   apply (rule mod_by_quotient [where k = "440029338852212503857140971775590949665192833189912283713008668364783287788630588"], simp add: BJJ_GX_def BJJ_GY_def DOUBLE_X_def DOUBLE_Y_def BJJ_P_def BJJ_D_def BJJ_A_def)
   apply (rule mod_by_quotient [where k = "188674869551811598292973916668287050582113319554772739062645039275170021215383310"], simp add: BJJ_GX_def BJJ_GY_def DOUBLE_X_def DOUBLE_Y_def BJJ_P_def BJJ_D_def BJJ_A_def)
  done

lemma double_G: "bjj_add bjj_G bjj_G = (DOUBLE_X, DOUBLE_Y)"
proof (rule bjj_add_eqI)
  show "in_field bjj_G" using curve_point_G by (simp add: curve_point_def)
  then show "in_field bjj_G" .
  show "addable bjj_G bjj_G" by (rule gg_addable(1))
  show "in_field (DOUBLE_X, DOUBLE_Y)" by (simp add: in_field_def DOUBLE_X_def DOUBLE_Y_def BJJ_P_def)
  show "(DOUBLE_X * (1 + edwards_t bjj_G bjj_G)) mod BJJ_P = (fst bjj_G * snd bjj_G + snd bjj_G * fst bjj_G) mod BJJ_P"
    using double_equations(1) mod_mult_cong [OF refl mod_add_cong [OF refl gg_addable(2)], of DOUBLE_X 1] by simp
  show "(DOUBLE_Y * (1 - edwards_t bjj_G bjj_G)) mod BJJ_P = (snd bjj_G * snd bjj_G - BJJ_A * (fst bjj_G * fst bjj_G)) mod BJJ_P"
    using double_equations(2) mod_mult_cong [OF refl mod_diff_cong [OF refl gg_addable(2)], of DOUBLE_Y 1] by simp
qed

lemma multiple_2: "multiple 2 = (DOUBLE_X, DOUBLE_Y)"
  using double_G by (simp add: numeral_2_eq_2 multiple_simps BJJ_NEUTRAL_def)

lemma le_2: "(n :: nat) \<le> 2 \<longleftrightarrow> n = 0 \<or> n = 1 \<or> n = 2"
  by auto

lemma tame_2: "tame 2"
  unfolding tame_def le_2
  using gg_addable(1) gd_addable(1) gd_addable(1) [unfolded addable_sym [of bjj_G]] dd_addable(1)
  by (auto simp: multiple_2 multiple_simps(1) multiple_simps(3) [unfolded One_nat_def] BJJ_NEUTRAL_def addable_neutral)

lemma inj_2: "inj_on multiple {..2}"
  by (rule inj_onI)
    (auto simp: le_2 multiple_2 multiple_simps(1) multiple_simps(3) [unfolded One_nat_def] BJJ_NEUTRAL_def
      BJJ_GX_def DOUBLE_X_def)


section \<open>An election with two voters\<close>

definition demo_key :: nat where "demo_key = 1"

text \<open>The first votes for the option with randomness \<open>1\<close>, the second does not, with randomness \<open>0\<close>.\<close>

definition demo_votes :: "(nat \<times> nat) list" where "demo_votes = [(1, 1), (0, 0)]"

definition demo_ballots :: "ballot list" where
  "demo_ballots =
     [\<lparr>bl_cipher = (bjj_G, (DOUBLE_X, DOUBLE_Y)), bl_nullifier = ''n1'', bl_proof = []\<rparr>,
      \<lparr>bl_cipher = ((0, 1), (0, 1)), bl_nullifier = ''n2'', bl_proof = []\<rparr>]"

definition demo_tally :: ht_chain where
  "demo_tally = ht_init\<lparr>ht_polls := [''P'' \<mapsto> \<lparr>tallyPublicKey = bjj_G, optionCount = 2, closeTime = 100\<rparr>],
     ht_cts := (\<lambda>_ _. neutral_ct)\<rparr>"

lemma demo_encrypted: "map bl_cipher demo_ballots = map (encrypt_vote (multiple demo_key)) demo_votes"
proof -
  have "encrypt_vote (multiple demo_key) (1, 1) = (bjj_G, (DOUBLE_X, DOUBLE_Y))"
    using encrypt_multiple [OF tame_2, of 1 1 demo_key] by (simp add: demo_key_def multiple_2 [unfolded numeral_2_eq_2] multiple_simps(3) [unfolded One_nat_def])
  moreover have "encrypt_vote (multiple demo_key) (0, 0) = ((0, 1), (0, 1))"
    using encrypt_multiple [OF tame_2, of 0 0 demo_key] by (simp add: multiple_simps(1) BJJ_NEUTRAL_def)
  ultimately show ?thesis by (simp add: demo_ballots_def demo_votes_def)
qed

lemma baby_jub_neutral: "baby_jub_add (0, 1) q = q" "baby_jub_add p (0, 1) = p"
  by (cases q, simp add: baby_jub_add_def, cases p, simp add: baby_jub_add_def)

lemma demo_accumulates:
  "accumulate baby_jub_add (map bl_cipher demo_ballots) = accumulate bjj_add (map bl_cipher demo_ballots)"
  by (simp add: demo_ballots_def accumulate_def BJJ_NEUTRAL_def baby_jub_neutral)


lemma bjj_add_assoc_witness:
  "bjj_add (bjj_add bjj_G (0, 1)) bjj_G = bjj_add bjj_G (bjj_add (0, 1) bjj_G)"
  by (rule bjj_add_assoc)
    (simp_all add: curve_point_G curve_point_neutral [unfolded BJJ_NEUTRAL_def] addable_neutral gg_addable(1))

lemma bsgs_finds_witness: "bsgs (multiple 1) 1 = Some 1"
proof -
  have sq: "ceil_sqrt 1 = 1" by (simp add: ceil_sqrt_def sqrt_from.simps [of 0] sqrt_from.simps [of "Suc 0"])
  show ?thesis
    by (rule bsgs_finds [OF tame_2]) (simp_all add: sq [unfolded One_nat_def] inj_2 [unfolded numeral_2_eq_2])
qed

end
