(* ===== verification/Circuits.thy ===== *)
theory Circuits
  imports Encrypted_Tally Ledger
begin

text \<open>
  The two circuits, \<open>circuits/homomorphic_vote.circom\<close> and \<open>circuits/eligibility_plonk.circom\<close>, as the relation between the
  public and the private signals that their constraints define. The templates of circomlib they instantiate are the record
  \<open>circomlib\<close>, with what its documentation says of them as the laws of a locale; the prime of the field is a
  parameter of the compiler. Proved are what a satisfied circuit says of its public signals, and what it does not.
\<close>

section \<open>The library\<close>

record circomlib =
  num2bits :: "int \<Rightarrow> int list"
  escalar_fix :: "int list \<Rightarrow> point"
  escalar_any :: "point \<Rightarrow> int list \<Rightarrow> point"
  baby_add :: "point \<Rightarrow> point \<Rightarrow> point"
  mux1 :: "int \<Rightarrow> int \<Rightarrow> int \<Rightarrow> int"
  poseidon :: "int \<Rightarrow> int \<Rightarrow> int"

definition bits_val :: "int list \<Rightarrow> int" where
  "bits_val bs = foldr (\<lambda>b v. b + 2 * v) bs 0"

text \<open>Bits come least significant first; the scalar multiplications and the addition are those of the curve.\<close>

locale circomlib_laws =
  fixes L :: circomlib
  assumes num2bits_bits: "0 \<le> r \<Longrightarrow> b \<in> set (num2bits L r) \<Longrightarrow> b = 0 \<or> b = 1"
    and escalar_fix_mul: "escalar_fix L bs = bjj_scalar_mul (bits_val bs) bjj_G"
    and escalar_any_mul: "escalar_any L p bs = bjj_scalar_mul (bits_val bs) p"
    and baby_add_add: "baby_add L p q = bjj_add p q"
    and mux1_select: "mux1 L a b 0 = a" "mux1 L a b 1 = b"
begin

lemma bits_val_nonneg: "\<forall>b \<in> set bs. b = 0 \<or> b = 1 \<Longrightarrow> 0 \<le> bits_val bs"
  by (induction bs) (auto simp: bits_val_def)

end

definition field_prime :: "int \<Rightarrow> bool" where
  "field_prime p \<longleftrightarrow> 1 < p \<and> (\<forall>a b. p dvd a * b \<longrightarrow> p dvd a \<or> p dvd b)"

definition is_signal :: "int \<Rightarrow> int \<Rightarrow> bool" where
  "is_signal p x \<longleftrightarrow> 0 \<le> x \<and> x < p"

lemma boolean_signal:
  assumes "field_prime p" "is_signal p v" "(v * (1 - v)) mod p = 0"
  shows "v = 0 \<or> v = 1"
proof -
  have "p dvd v \<or> p dvd 1 - v" using assms(1,3) by (auto simp: field_prime_def)
  then show ?thesis
  proof
    assume "p dvd v"
    then show ?thesis using assms(2) zdvd_imp_le [of p v] by (cases "v = 0") (auto simp: is_signal_def)
  next
    assume d: "p dvd 1 - v"
    then have "p dvd v - 1" using dvd_minus_iff [of p "v - 1"] by simp
    then show ?thesis using assms(1,2) zdvd_imp_le [of p "v - 1"] zdvd_imp_le [of p 1] d
      by (cases "v = 0"; cases "v = 1") (auto simp: is_signal_def field_prime_def)
  qed
qed

section \<open>The encrypted vote\<close>

text \<open>\<open>BabyPbkBits(n)\<close> and the template \<open>HomomorphicVote\<close>; the square of \<open>pollId\<close> is unconstrained.\<close>

definition baby_pbk_bits :: "circomlib \<Rightarrow> int list \<Rightarrow> point" where
  "baby_pbk_bits L bits = escalar_fix L bits"

definition homomorphic_vote :: "int \<Rightarrow> circomlib \<Rightarrow> point \<Rightarrow> point \<Rightarrow> point \<Rightarrow> int \<Rightarrow> int \<times> int \<Rightarrow> bool" where
  "homomorphic_vote p L pk c1 c2 pollId priv =
     (case priv of (v, r) \<Rightarrow>
        let bits = take 253 (num2bits L r);
            sel = (mux1 L 0 5299619240641551281634865583518297030282874472190772894086521144482721001553 v,
                   mux1 L 1 16950150798460657717958625567821834550301663161624707787222815936182638968203 v)
        in is_signal p v \<and> is_signal p r \<and> (v * (1 - v)) mod p = 0 \<and>
           c1 = baby_pbk_bits L bits \<and> c2 = baby_add L sel (escalar_any L pk bits))"

section \<open>Eligibility\<close>

text \<open>One level of the path: the multiplexer puts the node on the side the index says.\<close>

fun path_root :: "circomlib \<Rightarrow> int \<Rightarrow> (int \<times> int) list \<Rightarrow> int" where
  "path_root L node [] = node"
| "path_root L node ((sib, idx) # ps) =
     path_root L (poseidon L (mux1 L node sib idx) (mux1 L sib node idx)) ps"

record eligibility_signals =
  merkleRoot :: int
  el_nullifier :: int
  el_pollId :: int
  el_country :: int

record eligibility_private =
  voterSecret :: int
  el_path :: "(int \<times> int) list"

definition commitment :: "circomlib \<Rightarrow> int \<Rightarrow> int \<Rightarrow> int" where
  "commitment L secret cc = poseidon L secret cc"

definition eligibility_plonk :: "int \<Rightarrow> circomlib \<Rightarrow> nat \<Rightarrow> eligibility_signals \<Rightarrow> eligibility_private \<Rightarrow> bool" where
  "eligibility_plonk p L levels pub priv \<longleftrightarrow>
     length (el_path priv) = levels \<and>
     poseidon L (voterSecret priv) (el_pollId pub) = el_nullifier pub \<and>
     list_all (\<lambda>(sib, idx). is_signal p idx \<and> (idx * (idx - 1)) mod p = 0) (el_path priv) \<and>
     path_root L (commitment L (voterSecret priv) (el_country pub)) (el_path priv) = merkleRoot pub"

text \<open>The tree the registry's commitments would form.\<close>

datatype tree = Leaf int | Node tree tree

fun tree_hash :: "circomlib \<Rightarrow> tree \<Rightarrow> int" where
  "tree_hash L (Leaf c) = c"
| "tree_hash L (Node l r) = poseidon L (tree_hash L l) (tree_hash L r)"

fun perfect :: "nat \<Rightarrow> tree \<Rightarrow> bool" where
  "perfect 0 t = (case t of Leaf c \<Rightarrow> True | Node l r \<Rightarrow> False)"
| "perfect (Suc n) t = (case t of Leaf c \<Rightarrow> False | Node l r \<Rightarrow> perfect n l \<and> perfect n r)"

fun leaves :: "tree \<Rightarrow> int list" where
  "leaves (Leaf c) = [c]"
| "leaves (Node l r) = leaves l @ leaves r"

text \<open>The pairs hashed on a path and in a tree; a pair of the one and a different pair of the other with the same hash
  break the hash.\<close>

fun path_pairs :: "circomlib \<Rightarrow> int \<Rightarrow> (int \<times> int) list \<Rightarrow> (int \<times> int) list" where
  "path_pairs L node [] = []"
| "path_pairs L node ((sib, idx) # ps) =
     (mux1 L node sib idx, mux1 L sib node idx) #
     path_pairs L (poseidon L (mux1 L node sib idx) (mux1 L sib node idx)) ps"

fun tree_pairs :: "circomlib \<Rightarrow> tree \<Rightarrow> (int \<times> int) list" where
  "tree_pairs L (Leaf c) = []"
| "tree_pairs L (Node l r) = (tree_hash L l, tree_hash L r) # tree_pairs L l @ tree_pairs L r"

definition collides :: "circomlib \<Rightarrow> (int \<times> int) list \<Rightarrow> (int \<times> int) list \<Rightarrow> bool" where
  "collides L xs ys \<longleftrightarrow> (\<exists>x \<in> set xs. \<exists>y \<in> set ys. x \<noteq> y \<and> poseidon L (fst x) (snd x) = poseidon L (fst y) (snd y))"

lemma path_pairs_snoc:
  "path_pairs L node (ps @ [(sib, idx)]) =
     path_pairs L node ps @ [(mux1 L (path_root L node ps) sib idx, mux1 L sib (path_root L node ps) idx)]"
  by (induction L node ps rule: path_root.induct) simp_all

definition bit_index :: "int \<times> int \<Rightarrow> bool" where
  "bit_index si \<longleftrightarrow> snd si = 0 \<or> snd si = 1"

lemma path_root_snoc:
  "path_root L node (ps @ [(sib, idx)]) =
     poseidon L (mux1 L (path_root L node ps) sib idx) (mux1 L sib (path_root L node ps) idx)"
  by (induction L node ps rule: path_root.induct) simp_all

context circomlib_laws
begin

text \<open>A path of binary indices to the root of a tree starts at one of its leaves.\<close>

lemma path_from_leaf:
  assumes "path_root L node ps = tree_hash L t" "perfect (length ps) t" "list_all bit_index ps"
    and "\<not> collides L (path_pairs L node ps) (tree_pairs L t)"
  shows "node \<in> set (leaves t)"
  using assms
proof (induction ps arbitrary: t rule: rev_induct)
  case Nil
  then show ?case by (cases t) auto
next
  case (snoc si ps)
  obtain sib idx where si: "si = (sib, idx)" by fastforce
  obtain l r where t: "t = Node l r" "perfect (length ps) l" "perfect (length ps) r"
    using snoc.prems(2) by (cases t) auto
  let ?h = "path_root L node ps"
  have eq: "poseidon L (mux1 L ?h sib idx) (mux1 L sib ?h idx) = poseidon L (tree_hash L l) (tree_hash L r)"
    using snoc.prems(1) by (simp add: path_root_snoc si t)
  then have top: "mux1 L ?h sib idx = tree_hash L l \<and> mux1 L sib ?h idx = tree_hash L r"
    using snoc.prems(4) by (auto simp: collides_def path_pairs_snoc si t)
  have sub: "\<not> collides L (path_pairs L node ps) (tree_pairs L l)" "\<not> collides L (path_pairs L node ps) (tree_pairs L r)"
    using snoc.prems(4) by (auto simp: collides_def path_pairs_snoc si t)
  have ps: "list_all bit_index ps" and "idx = 0 \<or> idx = 1" using snoc.prems(3) by (auto simp: si list_all_iff bit_index_def)
  from this(2) show ?case
  proof
    assume "idx = 0"
    with top snoc.IH [OF _ t(2) ps sub(1)] show ?thesis by (simp add: t mux1_select)
  next
    assume "idx = 1"
    with top snoc.IH [OF _ t(3) ps sub(2)] show ?thesis by (simp add: t mux1_select)
  qed
qed

text \<open>Every leaf has one.\<close>

lemma path_to_root:
  assumes "perfect n t" "c \<in> set (leaves t)"
  shows "\<exists>ps. length ps = n \<and> list_all bit_index ps \<and> path_root L c ps = tree_hash L t"
  using assms
proof (induction n arbitrary: t)
  case 0
  then show ?case by (cases t) auto
next
  case (Suc n)
  obtain l r where t: "t = Node l r" "perfect n l" "perfect n r" using Suc.prems(1) by (cases t) auto
  then consider "c \<in> set (leaves l)" | "c \<in> set (leaves r)" using Suc.prems(2) by auto
  then show ?case
  proof cases
    case 1
    then obtain ps where "length ps = n" "list_all bit_index ps" "path_root L c ps = tree_hash L l" using Suc.IH [OF t(2)] by blast
    then show ?thesis
      by (intro exI [of _ "ps @ [(tree_hash L r, 0)]"]) (simp add: path_root_snoc mux1_select t list_all_iff bit_index_def)
  next
    case 2
    then obtain ps where "length ps = n" "list_all bit_index ps" "path_root L c ps = tree_hash L r" using Suc.IH [OF t(3)] by blast
    then show ?thesis
      by (intro exI [of _ "ps @ [(tree_hash L l, 1)]"]) (simp add: path_root_snoc mux1_select t list_all_iff bit_index_def)
  qed
qed

lemma encrypts:
  assumes "field_prime p" "homomorphic_vote p L pk c1 c2 q priv"
  shows "\<exists>v r. v \<le> 1 \<and> (c1, c2) = encrypt_vote pk (v, r)"
proof -
  obtain v r where priv: "priv = (v, r)" by fastforce
  let ?bits = "take 253 (num2bits L r)"
  have ok: "is_signal p v" "is_signal p r" "(v * (1 - v)) mod p = 0" "c1 = escalar_fix L ?bits"
    "c2 = baby_add L (mux1 L 0 BJJ_GX v, mux1 L 1 BJJ_GY v) (escalar_any L pk ?bits)"
    using assms(2) by (simp_all add: homomorphic_vote_def priv Let_def baby_pbk_bits_def BJJ_GX_def BJJ_GY_def)
  have v: "v = 0 \<or> v = 1" by (rule boolean_signal [OF assms(1) ok(1,3)])
  have "0 \<le> bits_val ?bits"
    using num2bits_bits ok(2) by (intro bits_val_nonneg) (auto simp: is_signal_def dest: in_set_takeD)
  then obtain k where k: "bits_val ?bits = int k" using nonneg_int_cases by blast
  have "(c1, c2) = encrypt_vote pk (nat v, k)"
    using v by (auto simp: ok(4,5) k encrypt_vote_def escalar_fix_mul escalar_any_mul baby_add_add mux1_select BJJ_NEUTRAL_def)
  with v show ?thesis by (intro exI [of _ "nat v"] exI [of _ k]) auto
qed

end

text \<open>The library instantiated by the curve's own functions; \<open>h\<close> stands for the hash.\<close>

definition curve_circomlib :: "(int \<Rightarrow> int \<Rightarrow> int) \<Rightarrow> circomlib" where
  "curve_circomlib h =
     \<lparr>num2bits = (\<lambda>r. map (\<lambda>i. r div 2 ^ i mod 2) [0..<254]), escalar_fix = (\<lambda>bs. bjj_scalar_mul (bits_val bs) bjj_G),
      escalar_any = (\<lambda>p bs. bjj_scalar_mul (bits_val bs) p), baby_add = bjj_add, mux1 = (\<lambda>a b s. (b - a) * s + a), poseidon = h\<rparr>"

interpretation curve: circomlib_laws "curve_circomlib h" for h
  by unfold_locales (auto simp: curve_circomlib_def)

section \<open>Properties\<close>

text \<open>
  C6: An accepted eligibility proof comes from a registered voter: if the public root is that of a tree of commitments, the
  commitment of the secret and the country is one of its leaves, and the nullifier is the hash of the secret and the poll, so that
  two proofs of one secret in one poll have the same nullifier. The alternative is an explicit collision of the hash.
\<close>

theorem eligibility_sound:
  assumes "circomlib_laws L" "field_prime p" "eligibility_plonk p L n pub priv"
    and "tree_hash L t = merkleRoot pub" "perfect n t"
  shows "el_nullifier pub = poseidon L (voterSecret priv) (el_pollId pub) \<and>
    (commitment L (voterSecret priv) (el_country pub) \<in> set (leaves t) \<or>
     collides L (path_pairs L (commitment L (voterSecret priv) (el_country pub)) (el_path priv)) (tree_pairs L t))"
proof -
  have ok: "length (el_path priv) = n" "poseidon L (voterSecret priv) (el_pollId pub) = el_nullifier pub"
    "list_all (\<lambda>(sib, idx). is_signal p idx \<and> (idx * (idx - 1)) mod p = 0) (el_path priv)"
    "path_root L (commitment L (voterSecret priv) (el_country pub)) (el_path priv) = tree_hash L t"
    using assms(3,4) by (simp_all add: eligibility_plonk_def)
  have "idx = 0 \<or> idx = 1" if "is_signal p idx" "(idx * (idx - 1)) mod p = 0" for idx
  proof -
    have "(idx * (1 - idx)) mod p = 0"
      using that(2) dvd_minus_iff [of p "idx * (idx - 1)"] by (simp add: mod_eq_0_iff_dvd algebra_simps)
    then show ?thesis by (rule boolean_signal [OF assms(2) that(1)])
  qed
  then have "list_all bit_index (el_path priv)"
    using ok(3) by (fastforce simp: list_all_iff bit_index_def)
  then show ?thesis
    using circomlib_laws.path_from_leaf [OF assms(1) ok(4)] ok(1,2) assms(5) by auto
qed

text \<open>Every registered voter has a proof: whoever knows the secret of a leaf can satisfy the circuit for the root and any poll.\<close>

theorem eligibility_complete:
  assumes "circomlib_laws L" "1 < p" "perfect n t" "commitment L secret cc \<in> set (leaves t)"
  shows "\<exists>ps. eligibility_plonk p L n
    \<lparr>merkleRoot = tree_hash L t, el_nullifier = poseidon L secret poll, el_pollId = poll, el_country = cc\<rparr>
    \<lparr>voterSecret = secret, el_path = ps\<rparr>"
proof -
  obtain ps where ps: "length ps = n" "list_all bit_index ps" "path_root L (commitment L secret cc) ps = tree_hash L t"
    using circomlib_laws.path_to_root [OF assms(1,3,4)] by blast
  have "list_all (\<lambda>(sib, idx). is_signal p idx \<and> (idx * (idx - 1)) mod p = 0) ps"
    using ps(2) assms(2) by (auto simp: list_all_iff bit_index_def is_signal_def)
  with ps show ?thesis by (intro exI [of _ ps]) (simp add: eligibility_plonk_def)
qed

text \<open>The verifier of the circuit: it accepts the public signals, in the order the circuit declares, that some private ones satisfy.\<close>

definition perfect_verifier :: "int \<Rightarrow> circomlib \<Rightarrow> nat \<Rightarrow> proof_data \<Rightarrow> bool" where
  "perfect_verifier p L n pf \<longleftrightarrow>
     (case publicSignals pf of
        [root, nul, poll, cc] \<Rightarrow>
          (\<exists>priv. eligibility_plonk p L n
             \<lparr>merkleRoot = int root, el_nullifier = int nul, el_pollId = int poll, el_country = int cc\<rparr> priv)
      | _ \<Rightarrow> False)"

text \<open>
  C7: Even with a perfect verifier of the circuit the ledger takes votes of everyone: it never compares the proof's root with a
  register of voters. Whoever makes up a secret, and the root of a path of their own, casts any number of votes.
\<close>

theorem self_made_electorate:
  assumes "1 < p" "\<And>a b. 0 \<le> poseidon L a b"
    and "\<not> paused st" "deadline (polls st i) \<noteq> 0" "now en \<le> deadline (polls st i)" "\<not> finalised (polls st i)" "\<not> nullifiers st nul"
    and "optionTally (polls st i) opt \<noteq> uint256_max" "totalVotes (polls st i) \<noteq> uint256_max"
  shows "\<exists>pf st'. cast_vote (perfect_verifier p L n) en i opt nul pf st = Inr st' \<and>
    get_tally_of st' i opt = get_tally_of st i opt + 1"
proof -
  let ?ps = "replicate n (0, 0) :: (int \<times> int) list"
  let ?root = "path_root L (commitment L secret 0) ?ps"
  have nonneg: "0 \<le> path_root L x ps" if "0 \<le> x" for x ps
    using that
  proof (induction ps arbitrary: x)
    case (Cons si ps)
    then show ?case by (cases si) (simp only: path_root.simps assms(2))
  qed simp
  let ?pf = "\<lparr>piA = [], piB = [], piC = [], publicSignals = [nat ?root, nat (poseidon L secret 0), 0, 0]\<rparr>"
  have "eligibility_plonk p L n
      \<lparr>merkleRoot = ?root, el_nullifier = poseidon L secret 0, el_pollId = 0, el_country = 0\<rparr> \<lparr>voterSecret = secret, el_path = ?ps\<rparr>"
    using assms(1) by (simp add: eligibility_plonk_def is_signal_def list_all_iff)
  moreover have "0 \<le> ?root" by (rule nonneg) (simp add: commitment_def assms(2))
  ultimately have "perfect_verifier p L n ?pf" using assms(2) [of secret 0] by (auto simp: perfect_verifier_def)
  then obtain st' where "cast_vote (perfect_verifier p L n) en i opt nul ?pf st = Inr st'"
    using assms(3-) by (auto simp: cast_vote_Inr)
  then show ?thesis by (intro exI [of _ ?pf] exI [of _ st']) (auto simp: cast_vote_Inr get_tally_of_def)
qed


section \<open>Instances\<close>

lemma field_prime_2: "field_prime 2"
  by (simp add: field_prime_def)

definition sum_hash :: "int \<Rightarrow> int \<Rightarrow> int" where "sum_hash a b = 3 * \<bar>a\<bar> + \<bar>b\<bar>"

definition demo_tree :: tree where "demo_tree = Node (Leaf 5) (Leaf 4)"

theorem eligibility_sound_witness:
  "commitment (curve_circomlib sum_hash) 1 2 \<in> set (leaves demo_tree)"
proof -
  let ?L = "curve_circomlib sum_hash"
  let ?pub = "\<lparr>merkleRoot = 19, el_nullifier = 12, el_pollId = 9, el_country = 2\<rparr>"
  let ?priv = "\<lparr>voterSecret = 1, el_path = [(4, 0)]\<rparr>"
  have "eligibility_plonk 2 ?L 1 ?pub ?priv"
    by (simp add: eligibility_plonk_def curve_circomlib_def commitment_def sum_hash_def is_signal_def)
  from eligibility_sound [OF curve.circomlib_laws_axioms field_prime_2 this, of demo_tree]
  show ?thesis by (simp add: demo_tree_def curve_circomlib_def sum_hash_def collides_def commitment_def)
qed

theorem eligibility_complete_witness:
  "\<exists>ps. eligibility_plonk 2 (curve_circomlib sum_hash) 1
    \<lparr>merkleRoot = tree_hash (curve_circomlib sum_hash) demo_tree, el_nullifier = poseidon (curve_circomlib sum_hash) 1 9, el_pollId = 9,
     el_country = 2\<rparr> \<lparr>voterSecret = 1, el_path = ps\<rparr>"
  by (rule eligibility_complete [OF curve.circomlib_laws_axioms])
    (simp_all add: demo_tree_def commitment_def curve_circomlib_def sum_hash_def)

theorem self_made_electorate_witness:
  "\<exists>pf st'. cast_vote (perfect_verifier 2 (curve_circomlib sum_hash) 20) \<lparr>sender = ''v'', now = 2\<rparr> ''i'' ''y'' ''n'' pf
      ((ledger_init ''o'')\<lparr>polls := (\<lambda>_. no_poll\<lparr>deadline := 9\<rparr>)\<rparr>) = Inr st' \<and> get_tally_of st' ''i'' ''y'' = 1"
proof -
  let ?st = "(ledger_init ''o'')\<lparr>polls := (\<lambda>_. no_poll\<lparr>deadline := 9\<rparr>)\<rparr>"
  have "\<exists>pf st'. cast_vote (perfect_verifier 2 (curve_circomlib sum_hash) 20) \<lparr>sender = ''v'', now = 2\<rparr> ''i'' ''y'' ''n'' pf ?st = Inr st' \<and>
      get_tally_of st' ''i'' ''y'' = get_tally_of ?st ''i'' ''y'' + 1"
    by (rule self_made_electorate)
      (simp_all add: curve_circomlib_def sum_hash_def ledger_init_def no_poll_def uint256_max_def)
  then show ?thesis by (simp add: get_tally_of_def no_poll_def)
qed

definition demo_verifier :: "int list \<Rightarrow> string \<Rightarrow> bool" where
  "demo_verifier signals pf \<longleftrightarrow> signals = [0, 1, 0, 1, 0, 1, 7]"

definition demo_box :: ht_chain where
  "demo_box = ht_init\<lparr>ht_polls := [''P'' \<mapsto> \<lparr>tallyPublicKey = (0, 1), optionCount = 2, closeTime = 100\<rparr>],
     ht_cts := (\<lambda>_ _. neutral_ct), ht_verifier := Some demo_verifier\<rparr>"

definition demo_submission :: "ballot list" where
  "demo_submission = [\<lparr>bl_cipher = ((0, 1), (0, 1)), bl_nullifier = ''n'', bl_proof = []\<rparr>]"

lemma demo_verifier_sound:
  assumes "demo_verifier [fst pk, snd pk, fst c1, snd c1, fst c2, snd c2, q] pf"
  shows "\<exists>priv. homomorphic_vote 2 (curve_circomlib sum_hash) pk c1 c2 q priv"
proof -
  have eq: "pk = (0, 1)" "c1 = (0, 1)" "c2 = (0, 1)" using assms by (simp_all add: demo_verifier_def prod_eq_iff)
  have zero: "bits_val (map (\<lambda>i. 0) xs) = 0" for xs :: "nat list" by (induction xs) (simp_all add: bits_val_def)
  have bits: "bits_val (take 253 (map (\<lambda>i. (0 :: int) div 2 ^ i mod 2) [0..<254])) = 0" by (simp only: div_0 mod_0 take_map zero)
  have "homomorphic_vote 2 (curve_circomlib sum_hash) pk c1 c2 q (0, 0)"
    using bits by (simp add: homomorphic_vote_def Let_def curve_circomlib_def baby_pbk_bits_def is_signal_def eq bjj_scalar_mul_def
        BJJ_NEUTRAL_def scalar_loop.simps [of 0] del: take_map upt_conv_Cons_Cons)
  then show ?thesis ..
qed


end
