(* ===== verification/Api_Docs.thy ===== *)
theory Api_Docs
  imports App
begin

text \<open>
  The description of the API that the server publishes under \<open>/docs\<close> (\<open>src/backend/openapi.yaml\<close>) against the routes it has: which
  documented operations are served, and which routes the description leaves out.
\<close>

definition OPENAPI :: "(http_method \<times> seg list) list" where
  "OPENAPI =
     [(HTTP_GET, lits [''health'']), (HTTP_GET, api ''health'' @ [Lit ''deep'']),
      (HTTP_POST, api ''vote'' @ [Param]), (HTTP_GET, api ''policy'' @ [Param, Lit ''results'']),
      (HTTP_GET, api ''identity'' @ [Lit ''adapters'']), (HTTP_POST, api ''identity'' @ [Lit ''verify'']),
      (HTTP_POST, api ''identity'' @ [Lit ''register'']),
      (HTTP_GET, api ''governance'' @ [Lit ''proposals'']), (HTTP_POST, api ''governance'' @ [Lit ''proposals'']),
      (HTTP_GET, api ''governance'' @ [Lit ''proposals'', Param]),
      (HTTP_POST, api ''governance'' @ [Lit ''proposals'', Param, Lit ''vote'']),
      (HTTP_GET, api ''audit''), (HTTP_GET, api ''audit'' @ [Param, Lit ''verify'']),
      (HTTP_POST, api ''notifications'' @ [Lit ''register'']), (HTTP_DELETE, api ''notifications'' @ [Lit ''register'', Param]),
      (HTTP_POST, api ''certification'' @ [Param]), (HTTP_GET, api ''certification'' @ [Param, Lit ''verify'']),
      (HTTP_POST, api ''fido2'' @ lits [''register'', ''options'']), (HTTP_POST, api ''fido2'' @ lits [''register'', ''verify'']),
      (HTTP_POST, api ''fido2'' @ lits [''authenticate'', ''options'']),
      (HTTP_POST, api ''fido2'' @ lits [''authenticate'', ''verify'']),
      (HTTP_POST, api ''ipfs'' @ [Lit ''pin'']), (HTTP_GET, api ''ipfs'' @ [Param])]"

definition served :: "http_method \<times> seg list \<Rightarrow> bool" where
  "served op \<longleftrightarrow> op \<in> set (map (\<lambda>(m, ps, h). (m, ps)) ROUTES)"

definition documented :: "route \<Rightarrow> bool" where
  "documented r \<longleftrightarrow> (fst r, fst (snd r)) \<in> set OPENAPI"

text \<open>A route is found for every address of a served operation.\<close>

fun fill :: "seg list \<Rightarrow> string list \<Rightarrow> string list" where
  "fill [] ws = []"
| "fill (Lit l # ps) ws = l # fill ps ws"
| "fill (Param # ps) ws = hd ws # fill ps (tl ws)"

definition params_in :: "seg list \<Rightarrow> nat" where
  "params_in ps = length (filter (\<lambda>p. p = Param) ps)"

definition lits_lower :: "seg list \<Rightarrow> bool" where
  "lits_lower ps = list_all (\<lambda>p. case p of Lit l \<Rightarrow> to_lower l = l | Param \<Rightarrow> True) ps"

lemma seg_match_fill:
  "lits_lower ps \<Longrightarrow> length ws = params_in ps \<Longrightarrow> list_all (\<lambda>w. w \<noteq> []) ws \<Longrightarrow> seg_match ps (fill ps ws)"
  by (induction ps ws rule: fill.induct) (auto simp: params_in_def lits_lower_def length_Suc_conv)

lemma served_found:
  assumes "served (m, ps)" "lits_lower ps" "length ws = params_in ps" "list_all (\<lambda>w. w \<noteq> []) ws" "segments url = fill ps ws"
  shows "find_route m url \<noteq> None"
proof -
  obtain h where h: "(m, ps, h) \<in> set ROUTES" using assms(1) by (auto simp: served_def)
  moreover have "seg_match ps (segments url)" using seg_match_fill [OF assms(2-4)] assms(5) by simp
  ultimately show ?thesis by (auto simp: find_route_def find_None_iff)
qed

lemma OPENAPI_lower: "list_all (\<lambda>op. lits_lower (snd op)) OPENAPI"
  by code_simp

text \<open>
  The published description promises three operations the server does not have: to cast a vote by
  \<open>POST /api/v1/vote/{policyId}\<close>, which no policy's identifier reaches, and the two on certificates. The other twenty are
  served at every address of their form; twenty-one routes, the one that votes among them, are not described.
\<close>

theorem docs_and_routes:
  "filter (\<lambda>op. \<not> served op) OPENAPI =
     [(HTTP_POST, api ''vote'' @ [Param]), (HTTP_POST, api ''certification'' @ [Param]),
      (HTTP_GET, api ''certification'' @ [Param, Lit ''verify''])] \<and>
   map (\<lambda>(m, ps, h). h) (filter (\<lambda>r. \<not> documented r) ROUTES) =
     [''metrics'', ''docs'', ''openapi'', ''countries'', ''country'', ''policies'', ''policy'', ''qr vote'', ''vote'', ''vote'', ''vote verify'',
      ''vote results'', ''vote receipt'', ''security.txt'', ''did resolve'', ''did commitment'', ''sms'', ''ussd'',
      ''ipfs verify'', ''htally ciphertexts'', ''htally results'']"
  by code_simp

theorem documented_operations_found:
  assumes "(m, ps) \<in> set OPENAPI" "served (m, ps)" "length ws = params_in ps" "list_all (\<lambda>w. w \<noteq> []) ws" "segments url = fill ps ws"
  shows "find_route m url \<noteq> None"
proof -
  have "lits_lower ps" using OPENAPI_lower assms(1) by (auto simp: list_all_iff)
  then show ?thesis using served_found [OF assms(2)] assms(3-) by blast
qed

text \<open>No policy can be voted on at the documented address.\<close>

theorem documented_vote_dead:
  assumes "plain_segment pid" "to_lower pid \<noteq> ''submit''" "to_lower pid \<noteq> ''qr''"
  shows "find_route HTTP_POST (''/api/v1/vote/'' @ pid) = None"
proof -
  have "plain_segment ''vote''" by (simp add: plain_segment_def)
  then have "segments (''/api/v1/vote/'' @ pid) = [''api'', ''v1'', ''vote'', pid]"
    using segments_under(1) [OF assms(1), of "''/api/v1/vote/''" "''vote''"] by simp
  then show ?thesis using assms(2,3) by (simp add: find_route_def ROUTES_def lits_def)
qed

theorem documented_vote_dead_witness: "find_route HTTP_POST ''/api/v1/vote/gb-nhs-reform-2026'' = None"
proof -
  have "to_lower ''gb-nhs-reform-2026'' \<noteq> ''submit''" "to_lower ''gb-nhs-reform-2026'' \<noteq> ''qr''" by code_simp+
  then show ?thesis using documented_vote_dead [of "''gb-nhs-reform-2026''"] by (simp add: plain_segment_def)
qed

end
