(* ===== verification/Threats.thy ===== *)
theory Threats
  imports Ballot_Box App
begin

text \<open>
  What the threat model (\<open>docs/THREAT_MODEL.md\<close>), the architecture (\<open>docs/architecture.md\<close>) and the runbook
  (\<open>docs/DISASTER_RECOVERY.md\<close>) promise of the ledger and the server, on the models of the code: a pending vote can be
  overtaken by another choice under its own nullifier, a poll that has closed can be opened again, the option's hash is the option to
  everyone, and the runbook's health check asks for an address without a route.
\<close>

section \<open>A vote in flight\<close>

lemma cast_spent:
  "cast_vote v en i opt n pf st = Inr st' \<Longrightarrow> now en' = now en \<Longrightarrow> cast_vote v en' i opt' n pf' st' = Inl ''NullifierSpent''"
  by (auto simp: cast_vote_Inr) (simp add: cast_vote_def Let_def throw_def)

text \<open>
  C14: A vote can be taken from its voter while it is on its way: whoever sees the transaction can send its nullifier and its proof
  first with another option; that vote is counted instead, and the voter's own transaction is refused as a second vote.
\<close>

theorem front_running:
  assumes "cast_vote v en i opt n pf st = Inr st1" "now en' = now en" "opt' \<noteq> opt" "optionTally (polls st i) opt' \<noteq> uint256_max"
  shows "\<exists>st2. cast_vote v en' i opt' n pf st = Inr st2 \<and> cast_vote v en i opt n pf st2 = Inl ''NullifierSpent'' \<and>
    get_tally_of st2 i opt' = get_tally_of st i opt' + 1 \<and> get_tally_of st2 i opt = get_tally_of st i opt"
proof -
  obtain st2 where st2: "cast_vote v en' i opt' n pf st = Inr st2"
    using assms(1,2,4) by (auto simp: cast_vote_Inr)
  moreover have "cast_vote v en i opt n pf st2 = Inl ''NullifierSpent''"
    by (rule cast_spent [OF st2]) (simp add: assms(2))
  moreover have "get_tally_of st2 i opt' = get_tally_of st i opt' + 1" "get_tally_of st2 i opt = get_tally_of st i opt"
    using st2 assms(3) by (auto simp: cast_vote_Inr get_tally_of_def)
  ultimately show ?thesis by blast
qed

theorem front_running_witness:
  "\<exists>st2. cast_vote (\<lambda>_. True) \<lparr>sender = ''m'', now = 2\<rparr> ''i'' ''n'' ''nul'' any_proof
      ((ledger_init ''o'')\<lparr>polls := (\<lambda>_. no_poll\<lparr>deadline := 9\<rparr>)\<rparr>) = Inr st2 \<and> get_tally_of st2 ''i'' ''n'' = 1"
proof -
  let ?st = "(ledger_init ''o'')\<lparr>polls := (\<lambda>_. no_poll\<lparr>deadline := 9\<rparr>)\<rparr>"
  obtain st1 where st1: "cast_vote (\<lambda>_. True) \<lparr>sender = ''v'', now = 2\<rparr> ''i'' ''y'' ''nul'' any_proof ?st = Inr st1"
    by (simp add: cast_vote_Inr ledger_init_def no_poll_def uint256_max_def)
  from front_running [OF st1, of "\<lparr>sender = ''m'', now = 2\<rparr>" "''n''"] show ?thesis
    by (auto simp: get_tally_of_def no_poll_def uint256_max_def)
qed

section \<open>A poll that closed\<close>

text \<open>
  The owner can open a poll again after it closed: creating it once more only replaces the deadline, the votes stay, and a vote that
  was too late is counted. Only finalising a poll closes it for good.
\<close>

theorem poll_reopened:
  assumes "cast_vote v en i opt n pf st = Inl ''PollClosed''" "i = packed_poll_id keccak p cc"
    and "sender ow = owner st" "now ow < dl" "now en \<le> dl"
    and "\<not> finalised (polls st i)" "\<not> nullifiers st n" "v pf" "optionTally (polls st i) opt \<noteq> uint256_max" "totalVotes (polls st i) \<noteq> uint256_max"
  shows "\<exists>st1 st2. create_poll keccak ow p cc dl st = Inr st1 \<and> totalVotes (polls st1 i) = totalVotes (polls st i) \<and>
    cast_vote v en i opt n pf st1 = Inr st2 \<and> totalVotes (polls st2 i) = totalVotes (polls st i) + 1"
proof -
  have "\<not> paused st" using assms(1) by (auto simp: cast_vote_def Let_def throw_def split: if_splits)
  moreover obtain st1 where st1: "create_poll keccak ow p cc dl st = Inr st1"
    "st1 = st\<lparr>polls := (polls st)(i := (polls st i)\<lparr>countryCode := cc, policyHash := keccak p, deadline := dl\<rparr>)\<rparr>"
    using assms(2-4) by (simp add: create_poll_def only_owner_def Let_def)
  ultimately obtain st2 where "cast_vote v en i opt n pf st1 = Inr st2" "totalVotes (polls st2 i) = totalVotes (polls st i) + 1"
    using assms(4-) by (auto simp: cast_vote_Inr)
  with st1 show ?thesis by auto
qed

section \<open>The option's hash\<close>

definition read_option :: "(string \<Rightarrow> string) \<Rightarrow> string list \<Rightarrow> vote_cast \<Rightarrow> string option" where
  "read_option keccak options e = find (\<lambda>o'. keccak o' = vc_option e) options"

text \<open>Whoever knows the options of a policy reads every vote, with its nullifier, from the log.\<close>

theorem options_readable:
  assumes "inj_on keccak (set options)" "opt \<in> set options" "cast_vote v en i (keccak opt) n pf st = Inr st'"
  shows "read_option keccak options (last (casts st')) = Some opt \<and> vc_nullifier (last (casts st')) = n"
proof -
  have "vc_option (last (casts st')) = keccak opt" "vc_nullifier (last (casts st')) = n"
    using assms(3) by (auto simp: cast_vote_Inr)
  moreover have "find (\<lambda>o'. keccak o' = keccak opt) options = Some opt"
    using assms(1,2) by (induction options) (auto simp: inj_on_def)
  ultimately show ?thesis by (simp add: read_option_def)
qed

section \<open>The runbook\<close>

theorem runbook_health:
  "find_route HTTP_GET ''/api/v1/health'' = None \<and> find_route HTTP_GET ''/api/v1/health/deep'' \<noteq> None \<and>
   find_route HTTP_GET ''/health'' \<noteq> None"
  by code_simp

end
