(* ===== verification/Spec2Isabelle.thy ===== *)
theory Spec2Isabelle
  imports Sms Live_Tally Vote Rate_Limit Registration Curve_Points Homomorphic_Tally Fido2 Did Multi_Pin Audit_Log Receipt
    Country Notification App Web_Client Governance Certification Auditor_Cli Chain_Events Health
    Pause_Guardian Policy_Registry Voter_Registry Contract_Calls Cross_Chain Deployment Abi Tally_Lifecycle Vote_Reads Backup
    Web_Pages Redis_Client Server Channels Live_Lifecycle
    Ballot_Box Config Curve_Multiples Circuits Api_Docs Threats
begin

text \<open>
  A verification development for TheVoteApp: the backend (\<open>src/backend/src\<close>), the web client (\<open>src/web/app\<close>), the
  auditor's command line (\<open>src/cli/src\<close>), the contracts they talk to (\<open>src/blockchain/contracts\<close>), the circuits whose
  proofs these check (\<open>src/blockchain/circuits\<close>) and the scripts that
  deploy and back them up (\<open>src/blockchain/scripts\<close>, \<open>src/backend/scripts\<close>).
\<close>

section \<open>The program\<close>

text \<open>
  Votes enter through five channels: HTTP (\<open>routes/vote.ts\<close>), paper ballots (\<open>routes/qr.ts\<close>), USSD, SMS and, encrypted,
  the homomorphic accumulator. The HTTP channel checks signature, proof and age of a vote and relays it to \<open>VoteLedger\<close>,
  the contract that records it; USSD and SMS keep their nullifiers in Redis. Voters are identified by four adapters, register
  a commitment, and log in with passkeys. The tally service, the live tally with its WebSocket feed and the auditor's tool
  read the ledger's log. Around this core stand the country configuration, push notifications, governance, documents on
  IPFS with the audit log, the gateway manifest, receipts and certificates on top of it, and the web pages that call
  the routes. On the chain, votes can also be cast on a second layer and relayed (\<open>L2VoteCaster.sol\<close>,
  \<open>CrossChainVoteRelay.sol\<close>), a quorum of guardians can pause the ledger (\<open>PauseGuardian.sol\<close>), policies and voters have
  registries of their own, and a token carries the votes of governance; five scripts deploy and migrate all this.
\<close>

section \<open>How the code is modelled\<close>

text \<open>
  \<^item> An \<open>async\<close> function is a function on the state it uses that returns its result and the new state; where several
    requests interleave at their \<open>await\<close>s (registration of voters, the confirmation of a USSD vote, the registration of a
    device token) the steps between two awaits are the steps of a relation.
  \<^item> An exception is \<open>Inl\<close> of its message in \<open>'a result\<close> (theory \<open>Prelude\<close>); \<open>throw\<close> and \<open>bind_result\<close> are the code's
    \<open>throw\<close> and its sequencing. A route ends in the error handler of theory \<open>Http\<close>.
  \<^item> Strings are lists of characters, one per byte. A JavaScript number that the code uses as an integer is \<open>int\<close>; where
    it exceeds \<open>max_safe\<close> (2^53 - 1) JSON does not carry it. \<open>bigint\<close> is \<open>int\<close>, the \<open>uint256\<close> arithmetic
    of the contract's curve is \<open>int\<close> with the remainders written out, and Solidity's checked arithmetic has its overflow checks.
  \<^item> JSON is the datatype of theory \<open>Json\<close> with a printer and a parser; the parser has fuel, the length of the text
    plus one, which \<open>json_roundtrip\<close> shows to be enough for whatever the printer wrote. The discrete logarithm of
    \<open>Homomorphic_Tally\<close> counts to the code's own bound, the inverse of \<open>Baby_Jubjub\<close> follows the code's loop, whose
    termination is proved.
  \<^item> A schema of zod is a predicate or a parser on the typed body; its messages are a parameter.
  \<^item> What is not under \<open>src/\<close> is an argument: hash functions, signatures, AES, snarkjs, the provider of a blockchain, Redis,
    Helia, Firebase, WebAuthn, \<open>fetch\<close>, pdfkit, the clock and random numbers. Where the code relies on a law of it the law is
    an assumption of a locale, and the locale is interpreted on an implementation in memory:
    \<open>redis_store\<close> (\<open>redis_mem\<close>, the stub of the repository's own tests), \<open>helia_store\<close> (\<open>helia_mem\<close>),
    \<open>governor_contract\<close> (\<open>mem_governor\<close>). LayerZero's endpoint is a record of what it charges and accepts; which message it
    delivers when, and what others send through it, are steps of a relation. The addresses at which a chain creates
    contracts are an injective function of their number; the code of an upgrade is an argument. The templates of circomlib
    are a record whose documented laws are the locale \<open>circomlib_laws\<close>, interpreted on the curve of \<open>Baby_Jubjub\<close>.
  \<^item> Interfaces between the components are locales too, interpreted on the model of the code: \<open>vote_channel\<close> (a
    handler that records each nullifier once: USSD, SMS, the ledger, the backend, governance and the second layer are instances,
    and the properties ``one vote per nullifier'' are facts of the interpretations), \<open>document_store\<close> (both IPFS services),
    \<open>pausable_target\<close> (what the guardian contract calls on its target; the ledger is the instance), \<open>implements\<close> (a machine
    that takes the same commands as its specification; the ledger over the abstract ballot box is the instance).
  \<^item> That the homomorphic tally decrypts what was encrypted needs that the multiples of the generator in play are added with
    invertible denominators and differ (\<open>tame\<close>, injectivity up to the number of votes). Both hold of the curve up to the order of
    its generator; the model has them as hypotheses, and \<open>Curve_Multiples\<close> computes them where the theorem is applied.
  \<^item> A client of a contract reads what the wire carries. Where the interface a client declares is not the contract's,
    its theory models the reads as declared, and \<open>Abi\<close> shows what is then read: the audit log and the polls of the
    homomorphic tally (\<open>Audit_Log\<close>, \<open>Homomorphic_Tally\<close>) cannot be read, the votes of the ledger are not found
    (\<open>Chain_Events\<close>), and the theorems of those theories about reads hold of the interface as declared.
\<close>

section \<open>The theories\<close>

text \<open>
  \<^item> \<open>Prelude\<close>: results, the locale \<open>vote_channel\<close>, strings, numbers, lists. \<open>Json\<close>: JSON and JavaScript's truthiness. \<open>Http\<close>:
    responses, \<open>middleware/validateRequest.ts\<close>, \<open>middleware/errorHandler.ts\<close>. \<open>Redis_Store\<close>: Redis and
    its laws; \<open>Redis_Client\<close>: \<open>redis/RedisClient.ts\<close>.
    \<open>Bytes\<close>: hexadecimal and other encodings of bytes.
  \<^item> \<open>Ledger\<close>: \<open>VoteLedger.sol\<close> and \<open>VoterRegistry.sol\<close>; storage as records, calls as functions that revert with an error.
    What the log determines, that it only grows, and when a call succeeds. \<open>Voter_Registry\<close>: the rest of \<open>VoterRegistry.sol\<close> and its
    agreement with its log. \<open>Policy_Registry\<close>: \<open>PolicyRegistry.sol\<close>; a publication is final.
    \<open>Ballot_Box\<close>: the ledger and the roll of voters without counters, lists and logs, and that the contracts implement them.
  \<^item> \<open>Contract_Calls\<close>: the ledger's calls by signature and arguments, as a message to its address reaches it.
    \<open>Pause_Guardian\<close>: \<open>PauseGuardian.sol\<close> over any pausable target; quorums, and what approvals of proposals that do not exist do.
    \<open>Cross_Chain\<close>: both LayerZero contracts with the messages in flight; conservation of votes, and where they end.
    \<open>Deployment\<close>: \<open>VoteToken.sol\<close> and the scripts on a map from addresses to contracts; what each leaves behind.
  \<^item> \<open>Abi\<close>: the declared interfaces of all clients against the contracts (signatures as ethers computes them), and the encoding
    of the two answers whose types differ.
  \<^item> \<open>Vote\<close>: \<open>routes/vote.ts\<close>, \<open>routes/qr.ts\<close>, \<open>services/VoteService.ts\<close>, \<open>ZKProver.ts\<close>, \<open>BlockchainService.ts\<close>. What reaches the
    chain and what each rejected request is answered. \<open>Vote_Reads\<close>: the two routes that read a nullifier and the results.
  \<^item> \<open>Ussd\<close>, \<open>Sms\<close>: \<open>ussd/USSDVoteService.ts\<close>, \<open>sms/SMSVoteService.ts\<close> and their routes. The dialogue as a state machine over the
    stored session. \<open>Channels\<close>: both on one store, and what their log lines tell.
  \<^item> \<open>Tally\<close>: \<open>services/TallyService.ts\<close>, \<open>AnonymityService.ts\<close>, the results route. Counting, its independence of order and
    repetition, the cache as a refinement of the uncached tally.
  \<^item> \<open>Live_Tally\<close>: \<open>services/LiveTallyService.ts\<close>, \<open>WSBroadcaster.ts\<close>. The incremental tally refines the tally; delivery.
    \<open>Live_Lifecycle\<close>: its listeners over starts and stops, restarts, and the feed as \<open>index.ts\<close> starts it.
  \<^item> \<open>Auditor_Cli\<close>: \<open>src/cli/src/index.ts\<close>; its counters equal the tally's. \<open>Chain_Events\<close>: the ledger's log against
    the event signatures its readers query.
  \<^item> \<open>Baby_Jubjub\<close>, \<open>Curve_Points\<close>, \<open>Homomorphic_Tally\<close>: \<open>services/HomomorphicTallyService.ts\<close>, \<open>HomomorphicTally.sol\<close> and the
    route. The curve, the accumulator, the finaliser. \<open>Tally_Lifecycle\<close>: the service's listeners and timers from start to stop.
    \<open>Curve_Group\<close>: the addition is associative, so double-and-add and the search for the logarithm are right.
    \<open>Encrypted_Tally\<close>: from the encrypted ballots to the count, over both programs; \<open>Curve_Multiples\<close>: the numbers of an example.
  \<^item> \<open>Circuits\<close>: \<open>circuits/eligibility_plonk.circom\<close> and \<open>circuits/homomorphic_vote.circom\<close> as relations of their signals; what an
    accepted proof says, what it leaves open, and what that means for the ledger and the accumulator.
  \<^item> \<open>Config\<close>: the constructors and instances of all services as functions of the environment, and what the documented one gives.
    \<open>Api_Docs\<close>: \<open>openapi.yaml\<close> against the routes. \<open>Threats\<close>: the threat model and the runbook against the ledger and the server.
  \<^item> \<open>Identity\<close>, \<open>Registration\<close>: \<open>identity/*.ts\<close>, \<open>repositories/UsedIdentifierStore.ts\<close>, \<open>routes/identity.ts\<close>,
    \<open>routes/identityRegister.ts\<close>. \<open>Fido2\<close>: \<open>auth/FIDO2Service.ts\<close>. \<open>Did\<close>: \<open>did/DIDService.ts\<close>. \<open>Rate_Limit\<close>: the limiters.
  \<^item> \<open>Country\<close>: \<open>countries/*.ts\<close>, \<open>routes/country.ts\<close>, \<open>routes/policy.ts\<close>. \<open>Notification\<close>: \<open>services/NotificationService.ts\<close>,
    \<open>routes/notifications.ts\<close>, \<open>middleware/privacy.ts\<close>. \<open>Governance\<close>: \<open>routes/governance.ts\<close>.
  \<^item> \<open>Documents\<close>, \<open>Multi_Pin\<close>, \<open>Audit_Log\<close>, \<open>Receipt\<close>, \<open>Certification\<close>, \<open>Health\<close>: \<open>ipfs/*.ts\<close>, \<open>services/AuditLogService.ts\<close> with
    \<open>AuditLog.sol\<close>, \<open>gateway/GatewayManifest.ts\<close>, \<open>services/ReceiptEncryptionService.ts\<close> with the command line's \<open>decrypt-receipt\<close>,
    \<open>services/CertificationService.ts\<close>, \<open>routes/healthDeep.ts\<close>. \<open>Backup\<close>: \<open>src/backend/scripts/backup.ts\<close>.
  \<^item> \<open>Server\<close>: the middlewares of \<open>app.ts\<close> in front of the routes (\<open>middleware/requestLogger.ts\<close>, \<open>metricsMiddleware.ts\<close>,
    \<open>metrics/MetricsService.ts\<close>), and the vote route behind its limiter; log and metric agree, votes are bounded per client.
  \<^item> \<open>App\<close>, \<open>Web_Client\<close>: \<open>app.ts\<close> as a routing table, and the pages of \<open>src/web/app\<close> on top of it. The voting page is a state
    (its React state), what it renders, and a step relation for the clicks on what is rendered. \<open>Web_Pages\<close>: what the receipt,
    audit and admin pages render from the server's answers, and their links.
\<close>

section \<open>Not modelled\<close>

text \<open>
  \<^item> The text of logs and metrics and the pages of the API documentation: output only. Of the startup in \<open>index.ts\<close> the
    model has that it initialises no IPFS node (theory \<open>Health\<close>), starts the tally services and tracks no policy.
  \<^item> Styling and fixed texts of the web pages, and with them the privacy page; the Android and iOS clients (Kotlin and Swift), the
    containers and the workflows. Of \<open>openapi.yaml\<close> and \<open>.env.example\<close> the operations and the variables, not their schemas and values.
  \<^item> The compilation of the circuits and the proof system: a proof is what its verifier accepts.
  \<^item> \<open>VoteGovernor.sol\<close>, which only combines modules of OpenZeppelin, the generated \<open>PlonkVerifier.sol\<close>, the proxies'
    upgrade mechanism, and tests. Of OpenZeppelin's roles, ownership, pausing, token and timelock the model has what the
    contracts and scripts use.
  \<^item> Real time: timers appear only where the code's behaviour depends on their bounds, and a request that never ends is
    outside the model.
\<close>

end
